(* ===== verification/Prelude.thy ===== *)
theory Prelude
  imports Complex_Main "HOL-Library.State_Monad" "HOL-Library.Sublist" "HOL-Library.Char_ord"
    "HOL-Library.List_Lexorder" "HOL-Library.Multiset"
begin

text \<open>
  Shared material of the development: the collections that carry the component proofs, the
  vocabulary for stateful code (a state monad with \<open>gets\<close>, \<open>modify\<close> and loops over
  lists), the weakest-precondition and frame rules for it, and generic list lemmas.

  A Go function with effects is a value of type \<open>('s, 'a) state\<close>. \<open>wp m Q s\<close> says that
  running \<open>m\<close> from \<open>s\<close> gives a result and a state that satisfy \<open>Q\<close>; programs are total, so
  this is total correctness. \<open>keeps f m\<close> says that \<open>m\<close> never changes the part \<open>f\<close> of the
  state; its rules follow the syntax, so a frame property of a long function is one
  \<open>intro\<close> over the collection \<open>frame\<close>.
\<close>

named_theorems frame \<open>rules and facts of the form keeps f m\<close>
named_theorems wp_simps \<open>equations that evaluate wp over the syntax\<close>
named_theorems go_simps \<open>defining equations of the Go string functions\<close>

type_synonym error = string

text \<open>A Go result with an error: \<open>Inl\<close> is the error, \<open>Inr\<close> the value.\<close>

type_synonym 'a result = "error + 'a"

section \<open>Stateful programs\<close>

abbreviation ret :: "'a \<Rightarrow> ('s, 'a) state" where
  "ret \<equiv> State_Monad.return"

definition gets :: "('s \<Rightarrow> 'a) \<Rightarrow> ('s, 'a) state" where
  "gets f = State (\<lambda>s. (f s, s))"

definition modify :: "('s \<Rightarrow> 's) \<Rightarrow> ('s, unit) state" where
  "modify f = State (\<lambda>s. ((), f s))"

text \<open>\<open>for _, x := range xs\<close> without and with a variable carried along.\<close>

fun forM :: "'a list \<Rightarrow> ('a \<Rightarrow> ('s, unit) state) \<Rightarrow> ('s, unit) state" where
  "forM [] f = ret ()"
| "forM (x # xs) f = do { f x; forM xs f }"

fun foldM :: "('b \<Rightarrow> 'a \<Rightarrow> ('s, 'b) state) \<Rightarrow> 'b \<Rightarrow> 'a list \<Rightarrow> ('s, 'b) state" where
  "foldM f b [] = ret b"
| "foldM f b (x # xs) = do { b' \<leftarrow> f b x; foldM f b' xs }"

lemma run_gets [simp]: "run_state (gets f) s = (f s, s)"
  by (simp add: gets_def)

lemma run_modify [simp]: "run_state (modify f) s = ((), f s)"
  by (simp add: modify_def)

definition exec :: "('s, 'a) state \<Rightarrow> 's \<Rightarrow> 's" where
  "exec m s = snd (run_state m s)"

definition result :: "('s, 'a) state \<Rightarrow> 's \<Rightarrow> 'a" where
  "result m s = fst (run_state m s)"

lemma run_state_exec_result: "run_state m s = (result m s, exec m s)"
  by (simp add: exec_def result_def)

section \<open>Weakest preconditions\<close>

definition wp :: "('s, 'a) state \<Rightarrow> ('a \<Rightarrow> 's \<Rightarrow> bool) \<Rightarrow> 's \<Rightarrow> bool" where
  "wp m Q s = (case run_state m s of (r, s') \<Rightarrow> Q r s')"

lemma wp_ret [wp_simps]: "wp (ret x) Q s = Q x s"
  by (simp add: wp_def)

lemma wp_bind [wp_simps]: "wp (State_Monad.bind m f) Q s = wp m (\<lambda>r. wp (f r) Q) s"
  by (simp add: wp_def split: prod.splits)

lemma wp_gets [wp_simps]: "wp (gets f) Q s = Q (f s) s"
  by (simp add: wp_def)

lemma wp_modify [wp_simps]: "wp (modify f) Q s = Q () (f s)"
  by (simp add: wp_def)

lemma wp_if [wp_simps]: "wp (if c then a else b) Q s = (if c then wp a Q s else wp b Q s)"
  by simp

lemma wp_case_option [wp_simps]:
  "wp (case x of None \<Rightarrow> a | Some y \<Rightarrow> b y) Q s
     = (case x of None \<Rightarrow> wp a Q s | Some y \<Rightarrow> wp (b y) Q s)"
  by (cases x) simp_all

lemma wp_case_sum [wp_simps]:
  "wp (case x of Inl y \<Rightarrow> a y | Inr z \<Rightarrow> b z) Q s
     = (case x of Inl y \<Rightarrow> wp (a y) Q s | Inr z \<Rightarrow> wp (b z) Q s)"
  by (cases x) simp_all

lemma wp_case_prod [wp_simps]:
  "wp (case p of (a, b) \<Rightarrow> g a b) Q s = (case p of (a, b) \<Rightarrow> wp (g a b) Q s)"
  by (cases p) simp

lemma wp_let [wp_simps]: "wp (let x = v in g x) Q s = (let x = v in wp (g x) Q s)"
  by simp

lemma wp_mono: "wp m P s \<Longrightarrow> (\<And>r s'. P r s' \<Longrightarrow> Q r s') \<Longrightarrow> wp m Q s"
  by (auto simp: wp_def split: prod.splits)

lemma wp_conj: "wp m P s \<Longrightarrow> wp m Q s \<Longrightarrow> wp m (\<lambda>r s'. P r s' \<and> Q r s') s"
  by (auto simp: wp_def split: prod.splits)

lemma wp_triv: "(\<And>r s'. Q r s') \<Longrightarrow> wp m Q s"
  by (auto simp: wp_def split: prod.splits)

lemma wp_exec: "wp m (\<lambda>_. Q) s = Q (exec m s)"
  by (simp add: wp_def exec_def split: prod.splits)

lemma wp_exec_result: "wp m Q s = Q (result m s) (exec m s)"
  by (simp add: wp_def run_state_exec_result)

text \<open>Loops: a relation between start and current state that every round keeps.\<close>

lemma wp_forM:
  assumes "I s" and "\<And>x s. x \<in> set xs \<Longrightarrow> I s \<Longrightarrow> wp (f x) (\<lambda>_. I) s"
  shows "wp (forM xs f) (\<lambda>_. I) s"
  using assms
proof (induction xs arbitrary: s)
  case Nil
  then show ?case by (simp add: wp_simps)
next
  case (Cons x xs)
  have "wp (f x) (\<lambda>_. I) s" using Cons.prems by simp
  then show ?case
    unfolding forM.simps wp_bind
    by (rule wp_mono) (rule Cons.IH, auto intro: Cons.prems(2))
qed

lemma wp_foldM:
  assumes "I b s" and "\<And>b x s. x \<in> set xs \<Longrightarrow> I b s \<Longrightarrow> wp (f b x) I s"
  shows "wp (foldM f b xs) I s"
  using assms
proof (induction xs arbitrary: b s)
  case Nil
  then show ?case by (simp add: wp_simps)
next
  case (Cons x xs)
  have "wp (f b x) I s" using Cons.prems by simp
  then show ?case
    unfolding foldM.simps wp_bind
    by (rule wp_mono) (rule Cons.IH, auto intro: Cons.prems(2))
qed

text \<open>A loop that collects in its variable whether some round went wrong.\<close>

lemma wp_foldM_all:
  assumes "\<And>b x w. wp (f b x) (\<lambda>b' _. (bad b \<longrightarrow> bad b') \<and> (\<not> bad b' \<longrightarrow> G x)) w"
  shows "wp (foldM f b xs) (\<lambda>b' _. (bad b \<longrightarrow> bad b') \<and> (\<not> bad b' \<longrightarrow> (\<forall>y \<in> set xs. G y))) w"
proof (induction xs arbitrary: b w)
  case Nil
  show ?case by (simp add: wp_simps)
next
  case (Cons y ys)
  show ?case unfolding foldM.simps wp_bind
  proof (rule wp_mono [OF assms])
    fix b1 w1
    assume b1: "(bad b \<longrightarrow> bad b1) \<and> (\<not> bad b1 \<longrightarrow> G y)"
    show "wp (foldM f b1 ys) (\<lambda>b' _. (bad b \<longrightarrow> bad b') \<and> (\<not> bad b' \<longrightarrow> (\<forall>z \<in> set (y # ys). G z))) w1"
      by (rule wp_mono [OF Cons.IH]) (use b1 in auto)
  qed
qed

section \<open>Frames\<close>

definition keeps :: "('s \<Rightarrow> 'b) \<Rightarrow> ('s, 'a) state \<Rightarrow> bool" where
  "keeps f m \<longleftrightarrow> (\<forall>s. f (exec m s) = f s)"

lemma keepsD: "keeps f m \<Longrightarrow> f (exec m s) = f s"
  by (simp add: keeps_def)

lemma keepsI: "(\<And>s. f (exec m s) = f s) \<Longrightarrow> keeps f m"
  by (simp add: keeps_def)

lemma keeps_ret [frame]: "keeps f (ret x)"
  by (simp add: keeps_def exec_def)

lemma keeps_gets [frame]: "keeps f (gets g)"
  by (simp add: keeps_def exec_def)

lemma keeps_bind [frame]: "keeps f m \<Longrightarrow> (\<And>x. keeps f (g x)) \<Longrightarrow> keeps f (State_Monad.bind m g)"
  by (auto simp: keeps_def exec_def split: prod.splits) (metis snd_conv)

lemma keeps_if [frame]: "keeps f a \<Longrightarrow> keeps f b \<Longrightarrow> keeps f (if c then a else b)"
  by simp

lemma keeps_case_option [frame]:
  "keeps f a \<Longrightarrow> (\<And>y. keeps f (b y)) \<Longrightarrow> keeps f (case x of None \<Rightarrow> a | Some y \<Rightarrow> b y)"
  by (cases x) simp_all

lemma keeps_case_sum [frame]:
  "(\<And>y. keeps f (a y)) \<Longrightarrow> (\<And>z. keeps f (b z)) \<Longrightarrow> keeps f (case x of Inl y \<Rightarrow> a y | Inr z \<Rightarrow> b z)"
  by (cases x) simp_all

lemma keeps_case_prod [frame]:
  "(\<And>a b. keeps f (g a b)) \<Longrightarrow> keeps f (case p of (a, b) \<Rightarrow> g a b)"
  by (cases p) simp

lemma keeps_let [frame]: "(\<And>x. keeps f (g x)) \<Longrightarrow> keeps f (let x = v in g x)"
  by simp

lemma keeps_forM [frame]: "(\<And>x. keeps f (g x)) \<Longrightarrow> keeps f (forM xs g)"
  by (induction xs) (auto intro: frame)

lemma keeps_foldM [frame]: "(\<And>b x. keeps f (g b x)) \<Longrightarrow> keeps f (foldM g b xs)"
  by (induction xs arbitrary: b) (auto intro: frame)

text \<open>A frame fact used inside a weakest precondition.\<close>

lemma wp_keeps: "keeps f m \<Longrightarrow> (\<And>r s'. f s' = f s \<Longrightarrow> Q r s') \<Longrightarrow> wp m Q s"
  by (simp add: wp_exec_result keepsD)

text \<open>
  \<open>ensures I P m\<close>: from every state with \<open>I\<close>, \<open>m\<close> ends in a state with \<open>P\<close>. \<open>stable I m\<close>: \<open>m\<close> does not
  invalidate \<open>I\<close>. The rules walk over a program that keeps \<open>I\<close> up to its last steps, on every
  branch. \<open>ends f v\<close> is the case where \<open>I\<close> fixes the part \<open>f\<close> of the state.
\<close>

named_theorems ends_rules \<open>rules of the form ensures I P m and stable I m\<close>

definition ensures :: "('s \<Rightarrow> bool) \<Rightarrow> ('s \<Rightarrow> bool) \<Rightarrow> ('s, 'a) state \<Rightarrow> bool" where
  "ensures I P m \<longleftrightarrow> (\<forall>s. I s \<longrightarrow> P (exec m s))"

definition stable :: "('s \<Rightarrow> bool) \<Rightarrow> ('s, 'a) state \<Rightarrow> bool" where
  "stable I m \<longleftrightarrow> (\<forall>s. I s \<longrightarrow> I (exec m s))"

abbreviation ends :: "('s \<Rightarrow> 'b) \<Rightarrow> 'b \<Rightarrow> ('s \<Rightarrow> bool) \<Rightarrow> ('s, 'a) state \<Rightarrow> bool" where
  "ends f v \<equiv> ensures (\<lambda>s. f s = v)"

lemmas ends_def = ensures_def

lemma ensuresD: "ensures I P m \<Longrightarrow> I s \<Longrightarrow> P (exec m s)"
  by (simp add: ensures_def)

lemma endsD: "ends f v P m \<Longrightarrow> f s = v \<Longrightarrow> P (exec m s)"
  by (simp add: ensures_def)

lemma exec_bind: "exec (State_Monad.bind m g) s = exec (g (result m s)) (exec m s)"
  by (simp add: exec_def result_def split: prod.splits)

lemma result_bind: "result (State_Monad.bind m g) s = result (g (result m s)) (exec m s)"
  by (simp add: exec_def result_def split: prod.splits)

lemma result_ret [simp]: "result (ret x) s = x"
  by (simp add: result_def)

lemma exec_ret [simp]: "exec (ret x) s = s"
  by (simp add: exec_def)

lemma stable_keeps [ends_rules]: "keeps f m \<Longrightarrow> stable (\<lambda>s. f s = v) m"
  by (simp add: stable_def keepsD)

lemma stable_conj [ends_rules]: "stable I m \<Longrightarrow> stable J m \<Longrightarrow> stable (\<lambda>s. I s \<and> J s) m"
  by (simp add: stable_def)

lemma ensures_bind [ends_rules]:
  "stable I m \<Longrightarrow> (\<And>x. ensures I P (g x)) \<Longrightarrow> ensures I P (State_Monad.bind m g)"
  by (simp add: ensures_def stable_def exec_bind)

lemma ends_bind: "keeps f m \<Longrightarrow> (\<And>x. ends f v P (g x)) \<Longrightarrow> ends f v P (State_Monad.bind m g)"
  by (intro ends_rules)

lemma ensures_bind_wp:
  assumes "stable I m" and "\<And>s. I s \<Longrightarrow> wp m (\<lambda>x _. F x) s" and "\<And>x. F x \<Longrightarrow> ensures I P (g x)"
  shows "ensures I P (State_Monad.bind m g)"
  using assms by (simp add: ensures_def stable_def exec_bind wp_exec_result)

text \<open>The general form: what the first part leaves behind is what the second starts from.\<close>

lemma ensures_seq:
  assumes "\<And>s. I s \<Longrightarrow> wp m J s" and "\<And>x. ensures (J x) P (g x)"
  shows "ensures I P (State_Monad.bind m g)"
  using assms by (simp add: ensures_def exec_bind wp_exec_result)

lemma ends_if [ends_rules]: "ensures I P a \<Longrightarrow> ensures I P b \<Longrightarrow> ensures I P (if c then a else b)"
  by simp

lemma ends_case_option [ends_rules]:
  "ensures I P a \<Longrightarrow> (\<And>y. ensures I P (b y)) \<Longrightarrow> ensures I P (case x of None \<Rightarrow> a | Some y \<Rightarrow> b y)"
  by (cases x) simp_all

lemma ends_case_sum [ends_rules]:
  "(\<And>y. ensures I P (a y)) \<Longrightarrow> (\<And>z. ensures I P (b z)) \<Longrightarrow> ensures I P (case x of Inl y \<Rightarrow> a y | Inr z \<Rightarrow> b z)"
  by (cases x) simp_all

lemma ends_case_prod [ends_rules]:
  "(\<And>a b. ensures I P (g a b)) \<Longrightarrow> ensures I P (case p of (a, b) \<Rightarrow> g a b)"
  by (cases p) simp

lemma ends_then:
  "ensures I P m \<Longrightarrow> (\<And>x s. P s \<Longrightarrow> P (exec (g x) s)) \<Longrightarrow> ensures I P (State_Monad.bind m g)"
  by (simp add: ensures_def exec_bind)

section \<open>Lists\<close>

text \<open>
  A list in an order that is not specified (rows of a query, keys of a map): \<open>plan\<close> chooses, and
  a choice that is no permutation counts as none.
\<close>

definition reorder :: "('a list \<Rightarrow> 'a list) \<Rightarrow> 'a list \<Rightarrow> 'a list" where
  "reorder plan xs = (if mset (plan xs) = mset xs then plan xs else xs)"

lemma mset_reorder [simp]: "mset (reorder plan xs) = mset xs"
  by (simp add: reorder_def)

lemma set_reorder [simp]: "set (reorder plan xs) = set xs"
  using mset_eq_setD [OF mset_reorder] .

lemma length_reorder [simp]: "length (reorder plan xs) = length xs"
  by (metis mset_reorder size_mset)

lemma reorder_Nil [simp]: "reorder plan xs = [] \<longleftrightarrow> xs = []"
  by (metis length_0_conv length_reorder)

lemma filter_eq_singletonD: "filter P xs = [x] \<Longrightarrow> x \<in> set xs \<and> P x"
proof -
  assume "filter P xs = [x]"
  then have "x \<in> set (filter P xs)" by simp
  then show ?thesis by simp
qed

lemma find_SomeD: "find P xs = Some x \<Longrightarrow> x \<in> set xs \<and> P x"
  by (auto simp: find_Some_iff)

lemma find_mapI: "(\<And>x. x \<in> set xs \<Longrightarrow> P (g x) = P x) \<Longrightarrow> find P (map g xs) = map_option g (find P xs)"
  by (induction xs) auto

lemma distinct_map_filterI: "distinct (map f xs) \<Longrightarrow> distinct (map f (filter P xs))"
  by (rule distinct_map_filter)

lemma find_distinct:
  assumes "distinct (map f xs)" and "x \<in> set xs"
  shows "find (\<lambda>y. f y = f x) xs = Some x"
  using assms by (induction xs) (auto simp: image_iff)

lemma find_append: "find P (xs @ ys) = (case find P xs of None \<Rightarrow> find P ys | Some x \<Rightarrow> Some x)"
  by (induction xs) auto

lemma find_filter: "find P (filter Q xs) = find (\<lambda>x. Q x \<and> P x) xs"
  by (induction xs) auto

lemma find_cong: "(\<And>x. x \<in> set xs \<Longrightarrow> P x = Q x) \<Longrightarrow> find P xs = find Q xs"
  by (induction xs) auto

lemma find_eq_None: "find P xs = None \<longleftrightarrow> (\<forall>x \<in> set xs. \<not> P x)"
  by (auto simp: find_None_iff)

end
