(* ===== verification/GoStrings.thy ===== *)
theory GoStrings
  imports Prelude
begin

text \<open>
  The part of Go's standard library the sources use on strings: packages \<open>strings\<close>,
  \<open>strconv\<close> and the decimal verbs of \<open>fmt\<close>. A Go string is a sequence of bytes, here a
  \<open>char list\<close>. White space is Unicode white space in UTF-8, as \<open>strings.TrimSpace\<close> and
  \<open>unicode.IsSpace\<close> define it.
\<close>

section \<open>Definitions\<close>

definition HasPrefix :: "string \<Rightarrow> string \<Rightarrow> bool" where
  "HasPrefix s p \<longleftrightarrow> take (length p) s = p"

definition HasSuffix :: "string \<Rightarrow> string \<Rightarrow> bool" where
  "HasSuffix s p \<longleftrightarrow> HasPrefix (rev s) (rev p)"

definition TrimPrefix :: "string \<Rightarrow> string \<Rightarrow> string" where
  "TrimPrefix s p = (if HasPrefix s p then drop (length p) s else s)"

definition TrimSuffix :: "string \<Rightarrow> string \<Rightarrow> string" where
  "TrimSuffix s p = (if HasSuffix s p then take (length s - length p) s else s)"

definition CutPrefix :: "string \<Rightarrow> string \<Rightarrow> string option" where
  "CutPrefix s p = (if HasPrefix s p then Some (drop (length p) s) else None)"

text \<open>The UTF-8 encodings of the runes with the property White Space.\<close>

definition space_runes :: "string list" where
  "space_runes =
     [[CHR 0x09], [CHR 0x0A], [CHR 0x0B], [CHR 0x0C], [CHR 0x0D], [CHR 0x20],
      [CHR 0xC2, CHR 0x85], [CHR 0xC2, CHR 0xA0], [CHR 0xE1, CHR 0x9A, CHR 0x80],
      [CHR 0xE2, CHR 0x80, CHR 0x80], [CHR 0xE2, CHR 0x80, CHR 0x81],
      [CHR 0xE2, CHR 0x80, CHR 0x82], [CHR 0xE2, CHR 0x80, CHR 0x83],
      [CHR 0xE2, CHR 0x80, CHR 0x84], [CHR 0xE2, CHR 0x80, CHR 0x85],
      [CHR 0xE2, CHR 0x80, CHR 0x86], [CHR 0xE2, CHR 0x80, CHR 0x87],
      [CHR 0xE2, CHR 0x80, CHR 0x88], [CHR 0xE2, CHR 0x80, CHR 0x89],
      [CHR 0xE2, CHR 0x80, CHR 0x8A], [CHR 0xE2, CHR 0x80, CHR 0xA8],
      [CHR 0xE2, CHR 0x80, CHR 0xA9], [CHR 0xE2, CHR 0x80, CHR 0xAF],
      [CHR 0xE2, CHR 0x81, CHR 0x9F], [CHR 0xE3, CHR 0x80, CHR 0x80]]"

text \<open>Drop leading members of \<open>rs\<close> as long as there is one.\<close>

function trim_with :: "string list \<Rightarrow> string \<Rightarrow> string" where
  "trim_with rs s = (case find (\<lambda>r. r \<noteq> [] \<and> HasPrefix s r) rs of
       None \<Rightarrow> s | Some r \<Rightarrow> trim_with rs (drop (length r) s))"
  by pat_completeness auto
termination
proof (relation "measure (length \<circ> snd)", goal_cases)
  case 1
  show ?case by simp
next
  case (2 rs s r)
  then have "r \<noteq> []" "take (length r) s = r"
    by (auto dest!: find_SomeD simp: HasPrefix_def)
  then have "s \<noteq> []" by auto
  with \<open>r \<noteq> []\<close> show ?case by (simp add: diff_less)
qed

declare trim_with.simps [simp del]

definition TrimSpace :: "string \<Rightarrow> string" where
  "TrimSpace s = rev (trim_with (map rev space_runes) (rev (trim_with space_runes s)))"

definition lower_byte :: "char \<Rightarrow> char" where
  "lower_byte c = (if CHR 0x41 \<le> c \<and> c \<le> CHR 0x5A then char_of (of_char c + 32 :: nat) else c)"

text \<open>
  \<open>strings.ToLower\<close> on ASCII; U+212A and U+0130 are the two other runes whose lower case is
  ASCII. The lower case of any other rune is not ASCII again; such bytes are kept as they are.
\<close>

function ToLower :: "string \<Rightarrow> string" where
  "ToLower s = (if s = [] then []
     else if HasPrefix s [CHR 0xE2, CHR 0x84, CHR 0xAA] then CHR ''k'' # ToLower (drop 3 s)
     else if HasPrefix s [CHR 0xC4, CHR 0xB0] then CHR ''i'' # ToLower (drop 2 s)
     else lower_byte (hd s) # ToLower (tl s))"
  by pat_completeness auto
termination
  by (relation "measure length") auto

declare ToLower.simps [simp del]

fun Split1 :: "char \<Rightarrow> string \<Rightarrow> string list" where
  "Split1 c [] = [[]]"
| "Split1 c (x # xs) = (if x = c then [] # Split1 c xs
     else (case Split1 c xs of [] \<Rightarrow> [[x]] | y # ys \<Rightarrow> (x # y) # ys))"

fun Join :: "string list \<Rightarrow> string \<Rightarrow> string" where
  "Join [] sep = []"
| "Join [x] sep = x"
| "Join (x # y # xs) sep = x @ sep @ Join (y # xs) sep"

text \<open>\<open>strings.Cut\<close> and \<open>SplitN (s, c, 2)\<close> at the first occurrence of a byte.\<close>

definition Cut1 :: "char \<Rightarrow> string \<Rightarrow> string \<times> string \<times> bool" where
  "Cut1 c s = (if c \<in> set s then (takeWhile (\<lambda>x. x \<noteq> c) s, tl (dropWhile (\<lambda>x. x \<noteq> c) s), True)
     else (s, [], False))"

definition SplitN2 :: "char \<Rightarrow> string \<Rightarrow> string list" where
  "SplitN2 c s = (case Cut1 c s of (a, b, found) \<Rightarrow> if found then [a, b] else [a])"

fun Index :: "string \<Rightarrow> string \<Rightarrow> nat option" where
  "Index [] sub = (if sub = [] then Some 0 else None)"
| "Index (x # xs) sub = (if HasPrefix (x # xs) sub then Some 0 else map_option Suc (Index xs sub))"

definition Contains :: "string \<Rightarrow> string \<Rightarrow> bool" where
  "Contains s sub \<longleftrightarrow> Index s sub \<noteq> None"

text \<open>\<open>strings.ReplaceAll\<close> with a non-empty old string: leftmost, without overlaps.\<close>

function ReplaceAll :: "string \<Rightarrow> string \<Rightarrow> string \<Rightarrow> string" where
  "ReplaceAll s old new = (if s = [] \<or> old = [] then s
     else if HasPrefix s old then new @ ReplaceAll (drop (length old) s) old new
     else hd s # ReplaceAll (tl s) old new)"
  by pat_completeness auto
termination
  by (relation "measure (\<lambda>(s, old, new). length s)") auto

declare ReplaceAll.simps [simp del]

text \<open>A \<open>strings.Replacer\<close> whose old strings are single bytes replaces byte by byte.\<close>

definition ByteReplace :: "(char \<Rightarrow> string) \<Rightarrow> string \<Rightarrow> string" where
  "ByteReplace f s = concat (map f s)"

fun TrimByteLeft :: "char \<Rightarrow> string \<Rightarrow> string" where
  "TrimByteLeft c s = dropWhile (\<lambda>x. x = c) s"

definition TrimByte :: "char \<Rightarrow> string \<Rightarrow> string" where
  "TrimByte c s = rev (TrimByteLeft c (rev (TrimByteLeft c s)))"

section \<open>Decimal numbers\<close>

definition digit_char :: "nat \<Rightarrow> char" where
  "digit_char n = char_of (48 + n)"

definition is_digit :: "char \<Rightarrow> bool" where
  "is_digit c \<longleftrightarrow> CHR ''0'' \<le> c \<and> c \<le> CHR ''9''"

definition digit_val :: "char \<Rightarrow> nat" where
  "digit_val c = of_char c - 48"

fun nat_str :: "nat \<Rightarrow> string" where
  "nat_str n = (if n < 10 then [digit_char n] else nat_str (n div 10) @ [digit_char (n mod 10)])"

declare nat_str.simps [simp del]

definition Itoa :: "int \<Rightarrow> string" where
  "Itoa i = (if i < 0 then CHR ''-'' # nat_str (nat (- i)) else nat_str (nat i))"

definition digits_val :: "string \<Rightarrow> nat" where
  "digits_val s = foldl (\<lambda>n c. 10 * n + digit_val c) 0 s"

text \<open>
  \<open>strconv.ParseInt (s, 10, 64)\<close>: the value and whether there was an error. The value is 0 on
  a syntax error and the nearest bound when out of range, which callers that drop the error use.
\<close>

definition ParseInt :: "string \<Rightarrow> int \<times> bool" where
  "ParseInt s =
     (let neg = HasPrefix s ''-'';
          ds = (if neg \<or> HasPrefix s ''+'' then tl s else s)
      in if ds = [] \<or> \<not> list_all is_digit ds then (0, True)
         else let n = int (digits_val ds)
              in if neg then (if n \<le> 2 ^ 63 then (- n, False) else (- (2 ^ 63), True))
                 else (if n < 2 ^ 63 then (n, False) else (2 ^ 63 - 1, True)))"

text \<open>
  The verb \<open>%q\<close> on ASCII text; bytes beyond ASCII are taken to be printable runes, which it
  leaves as they are.
\<close>

definition quote_byte :: "char \<Rightarrow> string" where
  "quote_byte c =
     (if c = CHR 0x22 then [CHR 0x5C, CHR 0x22]
      else if c = CHR 0x5C then [CHR 0x5C, CHR 0x5C]
      else if c = CHR 0x07 then [CHR 0x5C, CHR ''a'']
      else if c = CHR 0x08 then [CHR 0x5C, CHR ''b'']
      else if c = CHR 0x0C then [CHR 0x5C, CHR ''f'']
      else if c = CHR 0x0A then [CHR 0x5C, CHR ''n'']
      else if c = CHR 0x0D then [CHR 0x5C, CHR ''r'']
      else if c = CHR 0x09 then [CHR 0x5C, CHR ''t'']
      else if c = CHR 0x0B then [CHR 0x5C, CHR ''v'']
      else if c < CHR 0x20 \<or> c = CHR 0x7F then
        (let n = of_char c :: nat;
             hex = (\<lambda>d. if d < 10 then digit_char d else char_of (87 + d))
         in [CHR 0x5C, CHR ''x'', hex (n div 16), hex (n mod 16)])
      else [c])"

definition Quote :: "string \<Rightarrow> string" where
  "Quote s = [CHR 0x22] @ ByteReplace quote_byte s @ [CHR 0x22]"

text \<open>\<open>strings.Fields\<close>: the words between runs of white space; the first argument counts bytes still to skip.\<close>

fun fields_from :: "nat \<Rightarrow> string \<Rightarrow> string \<Rightarrow> string list" where
  "fields_from k cur [] = (if cur = [] then [] else [cur])"
| "fields_from (Suc k) cur (c # s) = fields_from k cur s"
| "fields_from 0 cur (c # s) =
     (case find (\<lambda>r. HasPrefix (c # s) r) space_runes of
        Some r \<Rightarrow> (if cur = [] then [] else [cur]) @ fields_from (length r - 1) [] s
      | None \<Rightarrow> fields_from 0 (cur @ [c]) s)"

definition Fields :: "string \<Rightarrow> string list" where
  "Fields s = fields_from 0 [] s"

text \<open>
  A UTC time given in seconds since 1970: year, month and day of the proleptic Gregorian
  calendar, and the layout \<open>200601021504\<close> of \<open>time.Format\<close>.
\<close>

definition civil :: "int \<Rightarrow> int \<times> int \<times> int" where
  "civil days =
     (let z = days + 719468;
          doe = z mod 146097;
          yoe = (doe - doe div 1460 + doe div 36524 - doe div 146096) div 365;
          doy = doe - (365 * yoe + yoe div 4 - yoe div 100);
          mp = (5 * doy + 2) div 153;
          m = (if mp < 10 then mp + 3 else mp - 9)
      in (yoe + z div 146097 * 400 + (if m \<le> 2 then 1 else 0), m, doy - (153 * mp + 2) div 5 + 1))"

definition zero_pad :: "nat \<Rightarrow> string \<Rightarrow> string" where
  "zero_pad n s = replicate (n - length s) (CHR ''0'') @ s"

definition format_minutes :: "int \<Rightarrow> string" where
  "format_minutes t = (case civil (t div 86400) of (y, m, d) \<Rightarrow>
     zero_pad 4 (Itoa y) @ zero_pad 2 (Itoa m) @ zero_pad 2 (Itoa d) @ zero_pad 2 (Itoa (t mod 86400 div 3600))
       @ zero_pad 2 (Itoa (t mod 3600 div 60)))"

lemmas go_str_defs [go_simps] = HasPrefix_def HasSuffix_def TrimPrefix_def TrimSuffix_def
  CutPrefix_def Contains_def SplitN2_def Cut1_def ByteReplace_def

section \<open>Trimming\<close>

lemma HasPrefix_iff: "HasPrefix s p \<longleftrightarrow> (\<exists>t. s = p @ t)"
  by (auto simp: HasPrefix_def) (metis append_take_drop_id)

lemma HasPrefix_append [simp]: "HasPrefix (p @ t) p"
  by (simp add: HasPrefix_def)

lemma HasSuffix_iff: "HasSuffix s p \<longleftrightarrow> (\<exists>t. s = t @ p)"
  by (auto simp: HasSuffix_def HasPrefix_iff) (metis rev_append rev_rev_ident)+

lemma trim_with_suffix: "\<exists>t. s = t @ trim_with rs s"
proof (induction rs s rule: trim_with.induct)
  case (1 rs s)
  show ?case
  proof (cases "find (\<lambda>r. r \<noteq> [] \<and> HasPrefix s r) rs")
    case None
    then show ?thesis by (simp add: trim_with.simps [of rs s])
  next
    case (Some r)
    from 1 [OF Some] obtain t where "drop (length r) s = t @ trim_with rs (drop (length r) s)"
      by blast
    then have "s = (take (length r) s @ t) @ trim_with rs (drop (length r) s)"
      by (metis append.assoc append_take_drop_id)
    moreover have "trim_with rs s = trim_with rs (drop (length r) s)"
      using Some by (simp add: trim_with.simps [of rs s])
    ultimately show ?thesis by metis
  qed
qed

lemma trim_with_none: "r \<in> set rs \<Longrightarrow> r \<noteq> [] \<Longrightarrow> \<not> HasPrefix (trim_with rs s) r"
proof (induction rs s rule: trim_with.induct)
  case (1 rs s)
  show ?case
  proof (cases "find (\<lambda>r. r \<noteq> [] \<and> HasPrefix s r) rs")
    case None
    with "1.prems" have "\<not> HasPrefix s r" by (auto simp: find_None_iff)
    with None show ?thesis by (simp add: trim_with.simps [of rs s])
  next
    case (Some q)
    with "1.IH" [OF Some "1.prems"] show ?thesis by (simp add: trim_with.simps [of rs s])
  qed
qed

lemma trim_with_id:
  assumes "\<And>r. r \<in> set rs \<Longrightarrow> r \<noteq> [] \<Longrightarrow> \<not> HasPrefix s r"
  shows "trim_with rs s = s"
proof -
  have "find (\<lambda>r. r \<noteq> [] \<and> HasPrefix s r) rs = None"
    using assms by (auto simp: find_None_iff)
  then show ?thesis by (simp add: trim_with.simps [of rs s])
qed

lemma TrimSpace_infix: "\<exists>a b. s = a @ TrimSpace s @ b"
proof -
  obtain a where a: "s = a @ trim_with space_runes s" using trim_with_suffix by blast
  obtain b where "rev (trim_with space_runes s)
      = b @ trim_with (map rev space_runes) (rev (trim_with space_runes s))"
    using trim_with_suffix by blast
  then have "trim_with space_runes s = TrimSpace s @ rev b"
    by (metis TrimSpace_def rev_append rev_rev_ident)
  with a show ?thesis by metis
qed

lemma set_TrimSpace: "set (TrimSpace s) \<subseteq> set s"
  using TrimSpace_infix [of s] by (metis Un_upper1 Un_upper2 set_append subset_trans)

lemma TrimSpace_idem [simp]: "TrimSpace (TrimSpace s) = TrimSpace s"
proof -
  let ?l = "trim_with space_runes s"
  let ?t = "TrimSpace s"
  obtain b where b: "?l = ?t @ b"
    using trim_with_suffix [of "rev ?l" "map rev space_runes"]
    by (metis TrimSpace_def rev_append rev_rev_ident)
  have "trim_with space_runes ?t = ?t"
  proof (rule trim_with_id)
    fix r assume "r \<in> set space_runes" "r \<noteq> []"
    then have "\<not> HasPrefix ?l r" by (rule trim_with_none)
    then show "\<not> HasPrefix ?t r" by (subst (asm) b) (auto simp: HasPrefix_iff)
  qed
  moreover have "trim_with (map rev space_runes) (rev ?t) = rev ?t"
  proof (rule trim_with_id)
    fix r assume "r \<in> set (map rev space_runes)" "r \<noteq> []"
    then show "\<not> HasPrefix (rev ?t) r"
      unfolding TrimSpace_def by (simp only: rev_rev_ident) (rule trim_with_none)
  qed
  ultimately show ?thesis by (simp add: TrimSpace_def [of ?t])
qed

text \<open>Visible ASCII: neither white space nor part of a longer rune.\<close>

definition graphic :: "char \<Rightarrow> bool" where
  "graphic c \<longleftrightarrow> CHR 0x21 \<le> c \<and> c \<le> CHR 0x7E"

lemma space_runes_ends:
  "r \<in> set space_runes \<Longrightarrow> r \<noteq> [] \<and> \<not> graphic (hd r) \<and> \<not> graphic (last r)"
  by (auto simp: space_runes_def graphic_def less_eq_char_def)

lemma TrimSpace_id:
  assumes "s = [] \<or> graphic (hd s) \<and> graphic (last s)"
  shows "TrimSpace s = s"
proof -
  have l: "trim_with space_runes s = s"
  proof (rule trim_with_id)
    fix r assume "r \<in> set space_runes" "r \<noteq> []"
    with assms space_runes_ends show "\<not> HasPrefix s r"
      by (auto simp: HasPrefix_iff)
  qed
  moreover have "trim_with (map rev space_runes) (rev s) = rev s"
  proof (rule trim_with_id)
    fix r assume "r \<in> set (map rev space_runes)" "r \<noteq> []"
    then obtain q where q: "q \<in> set space_runes" "r = rev q" by auto
    show "\<not> HasPrefix (rev s) r"
    proof
      assume "HasPrefix (rev s) r"
      then obtain t where "s = t @ q"
        unfolding HasPrefix_iff q by (metis rev_append rev_rev_ident)
      with q space_runes_ends [of q] assms show False by auto
    qed
  qed
  ultimately show ?thesis by (simp add: TrimSpace_def)
qed

lemma TrimSpace_graphic: "list_all graphic s \<Longrightarrow> TrimSpace s = s"
  by (rule TrimSpace_id) (cases s; auto simp: list_all_iff)

lemma TrimSpace_Nil [simp]: "TrimSpace [] = []"
  by (rule TrimSpace_id) simp

section \<open>Splitting, joining, replacing\<close>

lemma Split1_nonempty [simp]: "Split1 c s \<noteq> []"
  by (induction s) (auto split: list.splits)

lemma Split1_free: "x \<in> set (Split1 c s) \<Longrightarrow> c \<notin> set x"
  by (induction s arbitrary: x) (fastforce split: list.splits if_splits)+

lemma set_Split1: "x \<in> set (Split1 c s) \<Longrightarrow> set x \<subseteq> set s"
  by (induction s arbitrary: x) (fastforce split: list.splits if_splits)+

lemma Join_Cons: "ys \<noteq> [] \<Longrightarrow> Join (x # ys) sep = x @ sep @ Join ys sep"
  by (cases ys) auto

lemma Join_Split1 [simp]: "Join (Split1 c s) [c] = s"
proof (induction s)
  case Nil
  then show ?case by simp
next
  case (Cons x s)
  then show ?case
  proof (cases "x = c")
    case True
    with Cons show ?thesis by (simp add: Join_Cons)
  next
    case False
    obtain y ys where "Split1 c s = y # ys" using Split1_nonempty by (metis list.exhaust)
    with Cons False show ?thesis by (cases ys) (auto simp: Join_Cons)
  qed
qed

lemma Split1_append_sep: "c \<notin> set x \<Longrightarrow> Split1 c (x @ c # s) = x # Split1 c s"
  by (induction x) auto

lemma Split1_no_sep: "c \<notin> set x \<Longrightarrow> Split1 c x = [x]"
  by (induction x) auto

lemma Split1_Join:
  "xs \<noteq> [] \<Longrightarrow> (\<And>x. x \<in> set xs \<Longrightarrow> c \<notin> set x) \<Longrightarrow> Split1 c (Join xs [c]) = xs"
proof (induction xs)
  case Nil
  then show ?case by simp
next
  case (Cons x xs)
  then show ?case
    by (cases xs) (auto simp: Split1_no_sep Split1_append_sep Join_Cons)
qed

lemma set_Join: "set (Join xs sep) \<subseteq> (\<Union>x\<in>set xs. set x) \<union> set sep"
  by (induction xs sep rule: Join.induct) auto

lemma ReplaceAll_byte:
  "ReplaceAll s [c] new = ByteReplace (\<lambda>x. if x = c then new else [x]) s"
proof (induction s)
  case Nil
  then show ?case by (simp add: ReplaceAll.simps ByteReplace_def)
next
  case (Cons x s)
  then show ?case
    by (subst ReplaceAll.simps) (simp add: HasPrefix_def ByteReplace_def)
qed

lemma ByteReplace_simps [simp]:
  "ByteReplace f [] = []"
  "ByteReplace f (c # s) = f c @ ByteReplace f s"
  "ByteReplace f (s @ t) = ByteReplace f s @ ByteReplace f t"
  by (simp_all add: ByteReplace_def)

lemma set_ByteReplace: "set (ByteReplace f s) = (\<Union>c\<in>set s. set (f c))"
  by (simp add: ByteReplace_def)

section \<open>Lower case\<close>

definition lower_ascii :: "char \<Rightarrow> bool" where
  "lower_ascii c \<longleftrightarrow> c \<le> CHR 0x7F \<and> \<not> (CHR 0x41 \<le> c \<and> c \<le> CHR 0x5A)"

lemma ToLower_id: "list_all lower_ascii s \<Longrightarrow> ToLower s = s"
proof (induction s)
  case Nil
  then show ?case by (simp add: ToLower.simps)
next
  case (Cons c s)
  then have "c \<noteq> CHR 0xE2" "c \<noteq> CHR 0xC4" "lower_byte c = c"
    by (auto simp: lower_ascii_def less_eq_char_def lower_byte_def)
  with Cons show ?case by (subst ToLower.simps) (simp add: HasPrefix_def)
qed

section \<open>Numbers\<close>

lemma of_char_digit: "n < 10 \<Longrightarrow> of_char (digit_char n) = 48 + n"
  by (simp add: digit_char_def of_char_of)

lemma digit_char_props [simp]:
  "n < 10 \<Longrightarrow> is_digit (digit_char n)"
  "n < 10 \<Longrightarrow> digit_val (digit_char n) = n"
  by (simp_all add: is_digit_def digit_val_def less_eq_char_def of_char_digit)

lemma nat_str_digits: "list_all is_digit (nat_str n)"
proof (induction n rule: nat_str.induct)
  case (1 n)
  then show ?case by (subst nat_str.simps) simp
qed

lemma nat_str_nonempty [simp]: "nat_str n \<noteq> []"
  by (subst nat_str.simps) simp

lemma digits_val_append: "digits_val (s @ [c]) = 10 * digits_val s + digit_val c"
  by (simp add: digits_val_def)

lemma digits_val_nat_str [simp]: "digits_val (nat_str n) = n"
proof (induction n rule: nat_str.induct)
  case (1 n)
  show ?case
  proof (cases "n < 10")
    case True
    then show ?thesis by (subst nat_str.simps) (simp add: digits_val_def)
  next
    case False
    with 1 have "digits_val (nat_str (n div 10)) = n div 10" by simp
    with False show ?thesis by (subst nat_str.simps) (simp add: digits_val_append)
  qed
qed

lemma nat_str_inj: "nat_str m = nat_str n \<Longrightarrow> m = n"
  by (metis digits_val_nat_str)

lemma nat_str_no_sign: "\<not> HasPrefix (nat_str n) ''-''" "\<not> HasPrefix (nat_str n) ''+''"
  using nat_str_digits [of n]
  by (auto simp: HasPrefix_iff is_digit_def less_eq_char_def)

text \<open>Printing and parsing a 64-bit integer is the identity.\<close>

lemma ParseInt_Itoa:
  assumes "- (2 ^ 63) \<le> i" and "i < 2 ^ 63"
  shows "ParseInt (Itoa i) = (i, False)"
proof (cases "i < 0")
  case True
  then have "Itoa i = CHR ''-'' # nat_str (nat (- i))" by (simp add: Itoa_def)
  with True assms nat_str_digits [of "nat (- i)"] show ?thesis
    by (simp add: ParseInt_def HasPrefix_def)
next
  case False
  then have "Itoa i = nat_str (nat i)" by (simp add: Itoa_def)
  with False assms nat_str_digits [of "nat i"] nat_str_no_sign [of "nat i"] show ?thesis
    by (simp add: ParseInt_def)
qed

lemma is_digit_graphic: "is_digit c \<Longrightarrow> graphic c"
  by (auto simp: is_digit_def graphic_def less_eq_char_def)

lemma Itoa_graphic: "list_all graphic (Itoa i)"
  using nat_str_digits
  by (auto simp: Itoa_def list_all_iff is_digit_graphic) (simp add: graphic_def less_eq_char_def)

lemma Itoa_inj: "Itoa i = Itoa j \<Longrightarrow> i = j"
proof -
  assume eq: "Itoa i = Itoa j"
  have "i < 0 \<longleftrightarrow> HasPrefix (Itoa i) ''-''" for i
    using nat_str_no_sign by (auto simp: Itoa_def HasPrefix_def)
  then have "i < 0 \<longleftrightarrow> j < 0" using eq by metis
  with eq show ?thesis by (auto simp: Itoa_def dest!: nat_str_inj split: if_splits)
qed

end
