(* ===== verification/AppModel.thy ===== *)
theory AppModel
  imports GoStrings
begin

text \<open>
  The Go structs of \<open>internal/app/model.go\<close>, \<open>internal/app/repository.go\<close> and
  \<open>internal/server/model.go\<close> as records. Identifiers, times (seconds) and counters are
  \<open>int\<close>; 0 in a reference column stands for SQL NULL, which is how the scan functions read it.
  Measured percentages (\<open>float64\<close>) are \<open>rat\<close>.
\<close>

record App =
  app_ID :: int
  app_Name :: string
  app_ServerID :: int
  app_Domain :: string
  app_Port :: int
  app_Compose :: string
  app_GitRepo :: string
  app_GitBranch :: string
  app_AuthUser :: string
  app_AuthPass :: string
  app_Status :: string
  app_ComposeMode :: string
  app_MemoryLimit :: string
  app_CPULimit :: string
  app_LogMaxSize :: string
  app_LogMaxFile :: string
  app_Command :: string
  app_Ports :: string
  app_UlimitsNofile :: string
  app_CreatedAt :: int
  app_UpdatedAt :: int

record Deployment =
  dep_ID :: int
  dep_AppID :: int
  dep_ServerID :: int
  dep_Status :: string
  dep_Log :: string
  dep_CommitSHA :: string
  dep_ComposeSnapshot :: string
  dep_CreatedAt :: int

record Route =
  rt_ID :: int
  rt_AppID :: int
  rt_ServerID :: int
  rt_Domain :: string
  rt_Target :: string
  rt_Status :: string
  rt_CreatedAt :: int

record DNSRecordInfo =
  dns_ID :: int
  dns_AppID :: int
  dns_ServerID :: int
  dns_ZoneID :: string
  dns_RecordID :: string
  dns_Name :: string
  dns_Type :: string
  dns_Content :: string
  dns_Proxied :: int
  dns_CreatedAt :: int

record AppSecret =
  sec_ID :: int
  sec_AppID :: int
  sec_Key :: string
  sec_Value :: string
  sec_IsSecret :: bool

record AppFile =
  file_ID :: int
  file_AppID :: int
  file_Path :: string
  file_Content :: string

record Server =
  srv_ID :: int
  srv_Name :: string
  srv_Host :: string
  srv_Port :: int
  srv_User :: string
  srv_SSHKey :: string
  srv_Status :: string
  srv_CPUCores :: int
  srv_RAMMB :: int
  srv_DiskGB :: int
  srv_CPUUsage :: rat
  srv_RAMUsage :: rat
  srv_DiskUsage :: rat
  srv_ResourcesUpdatedAt :: int
  srv_RegistryHost :: string
  srv_RegistryUser :: string
  srv_RegistryToken :: string
  srv_HostKey :: string
  srv_CreatedAt :: int
  srv_UpdatedAt :: int

text \<open>The status values of an app and of a server.\<close>

abbreviation StatusCreated :: string where "StatusCreated \<equiv> ''created''"
abbreviation StatusDeploying :: string where "StatusDeploying \<equiv> ''deploying''"
abbreviation StatusRunning :: string where "StatusRunning \<equiv> ''running''"
abbreviation StatusStopped :: string where "StatusStopped \<equiv> ''stopped''"
abbreviation StatusFailed :: string where "StatusFailed \<equiv> ''failed''"
abbreviation StatusDraft :: string where "StatusDraft \<equiv> ''draft''"

abbreviation StatusPending :: string where "StatusPending \<equiv> ''pending''"
abbreviation StatusOnline :: string where "StatusOnline \<equiv> ''online''"
abbreviation StatusOffline :: string where "StatusOffline \<equiv> ''offline''"
abbreviation StatusError :: string where "StatusError \<equiv> ''error''"

end
