(* ===== verification/Store.thy ===== *)
theory Store
  imports AppModel
begin

text \<open>
  The database and the repositories on it: \<open>internal/db/schema.sql\<close> as \<open>internal/db/db.go\<close>
  leaves it after the last migration, \<open>internal/app/repository.go\<close> and
  \<open>internal/server/repository.go\<close>. A table is the list of its rows in rowid order, a statement
  a function from the database to its result and the database after it. Constraint failures
  (FOREIGN KEY, UNIQUE) are errors that leave the database as it was; failures of the disk
  are not modelled. \<open>now\<close> is CURRENT_TIMESTAMP. A query without ORDER BY, and ties of one with
  it, come in the order the database chooses: the parameter \<open>plan\<close>.
\<close>

section \<open>Tables\<close>

record ContainerStats =
  cs_ID :: int
  cs_AppID :: int
  cs_ServerID :: int
  cs_ContainerName :: string
  cs_CPUPercent :: rat
  cs_MemUsageBytes :: int
  cs_MemLimitBytes :: int
  cs_MemPercent :: rat
  cs_NetIORxBytes :: int
  cs_NetIOTxBytes :: int
  cs_BlockIORead :: int
  cs_BlockIOWrite :: int
  cs_CreatedAt :: int

record AppDiskStats =
  ds_ID :: int
  ds_AppID :: int
  ds_ServerID :: int
  ds_Bytes :: int
  ds_CreatedAt :: int

record RouteStats =
  rs_ID :: int
  rs_AppID :: int
  rs_Domain :: string
  rs_TotalRequests :: int
  rs_RequestsRPS :: rat
  rs_Status2xx :: int
  rs_Status3xx :: int
  rs_Status4xx :: int
  rs_Status5xx :: int
  rs_CreatedAt :: int

record ServerStats =
  vs_ID :: int
  vs_ServerID :: int
  vs_CPUPercent :: rat
  vs_RAMPercent :: rat
  vs_DiskPercent :: rat
  vs_CPUCores :: int
  vs_RAMMB :: int
  vs_DiskGB :: int
  vs_CreatedAt :: int

datatype table = TServers | TApps | TDeployments | TRoutes | TDnsRecords | TAppSecrets | TAppFiles
  | TContainerStats | TAppDiskStats | TRouteStats | TServerStats

record db =
  servers :: "Server list"
  apps :: "App list"
  deployments :: "Deployment list"
  routes :: "Route list"
  dns_records :: "DNSRecordInfo list"
  app_secrets :: "AppSecret list"
  app_files :: "AppFile list"
  settings :: "(string \<times> string) list"
  container_stats :: "ContainerStats list"
  app_disk_stats :: "AppDiskStats list"
  route_stats :: "RouteStats list"
  server_stats :: "ServerStats list"
  sqlite_sequence :: "table \<Rightarrow> int"
  idx_apps_name :: bool
  idx_servers_name :: bool

text \<open>AUTOINCREMENT: the next rowid of a table, never one handed out before.\<close>

definition next_id :: "table \<Rightarrow> db \<Rightarrow> int" where
  "next_id t d = sqlite_sequence d t + 1"

definition bump :: "table \<Rightarrow> db \<Rightarrow> db" where
  "bump t d = d\<lparr>sqlite_sequence := (sqlite_sequence d)(t := sqlite_sequence d t + 1)\<rparr>"

definition app_ids :: "db \<Rightarrow> int set" where
  "app_ids d = set (map app_ID (apps d))"

definition server_ids :: "db \<Rightarrow> int set" where
  "server_ids d = set (map srv_ID (servers d))"

text \<open>A reference that may be NULL.\<close>

definition server_ref :: "db \<Rightarrow> int \<Rightarrow> bool" where
  "server_ref d i \<longleftrightarrow> i = 0 \<or> i \<in> server_ids d"

abbreviation fk_error :: error where
  "fk_error \<equiv> ''constraint failed: FOREIGN KEY constraint failed (787)''"

definition unique_error :: "string \<Rightarrow> error" where
  "unique_error col = ''constraint failed: UNIQUE constraint failed: '' @ col @ '' (2067)''"

definition empty_db :: "bool \<Rightarrow> bool \<Rightarrow> db" where
  "empty_db ia isv = \<lparr> servers = [], apps = [], deployments = [], routes = [], dns_records = [], app_secrets = [],
     app_files = [], settings = [], container_stats = [], app_disk_stats = [], route_stats = [], server_stats = [],
     sqlite_sequence = (\<lambda>_. 0), idx_apps_name = ia, idx_servers_name = isv \<rparr>"

section \<open>The repository of apps\<close>

definition defaultStatus :: "string \<Rightarrow> string" where
  "defaultStatus s = (if s = [] then ''created'' else s)"

definition Repo_List :: "db \<Rightarrow> App list" where
  "Repo_List d = sort_key app_Name (apps d)"

definition Repo_Get :: "int \<Rightarrow> db \<Rightarrow> App option" where
  "Repo_Get i d = find (\<lambda>a. app_ID a = i) (apps d)"

text \<open>NULL is never equal to the argument, so an app without repository or branch is not found.\<close>

definition Repo_FindAllByGitRepo :: "string \<Rightarrow> string \<Rightarrow> db \<Rightarrow> App list" where
  "Repo_FindAllByGitRepo repo branch d = sort_key app_ID (filter (\<lambda>a. app_GitRepo a \<noteq> [] \<and> app_GitRepo a = repo
     \<and> app_GitBranch a \<noteq> [] \<and> app_GitBranch a = branch \<and> app_Status a \<noteq> ''draft'') (apps d))"

definition Repo_ListByServer :: "(App list \<Rightarrow> App list) \<Rightarrow> int \<Rightarrow> db \<Rightarrow> App list" where
  "Repo_ListByServer plan s d =
     sort_key (\<lambda>a. - app_CreatedAt a) (reorder plan (filter (\<lambda>a. s \<noteq> 0 \<and> app_ServerID a = s) (apps d)))"

definition Repo_Create :: "int \<Rightarrow> App \<Rightarrow> db \<Rightarrow> int result \<times> db" where
  "Repo_Create now a d =
     (if idx_apps_name d \<and> app_Name a \<in> set (map app_Name (apps d))
      then (Inl (''insert app: '' @ unique_error ''apps.name''), d)
      else if \<not> server_ref d (app_ServerID a) then (Inl (''insert app: '' @ fk_error), d)
      else let i = next_id TApps d
           in (Inr i, bump TApps (d\<lparr>apps := apps d @ [a\<lparr>app_ID := i, app_Status := defaultStatus (app_Status a),
                app_CreatedAt := now, app_UpdatedAt := now\<rparr>]\<rparr>)))"

definition map_app :: "int \<Rightarrow> (App \<Rightarrow> App) \<Rightarrow> db \<Rightarrow> db" where
  "map_app i f d = d\<lparr>apps := map (\<lambda>a. if app_ID a = i then f a else a) (apps d)\<rparr>"

definition Repo_Update :: "int \<Rightarrow> App \<Rightarrow> db \<Rightarrow> unit result \<times> db" where
  "Repo_Update now a d =
     (if app_ID a \<notin> app_ids d then (Inr (), d)
      else if idx_apps_name d \<and> (\<exists>b \<in> set (apps d). app_ID b \<noteq> app_ID a \<and> app_Name b = app_Name a)
      then (Inl (unique_error ''apps.name''), d)
      else if \<not> server_ref d (app_ServerID a) then (Inl fk_error, d)
      else (Inr (), map_app (app_ID a) (\<lambda>old. a\<lparr>app_CreatedAt := app_CreatedAt old, app_UpdatedAt := now\<rparr>) d))"

definition Repo_UpdateStatus :: "int \<Rightarrow> int \<Rightarrow> string \<Rightarrow> db \<Rightarrow> db" where
  "Repo_UpdateStatus now i status d = map_app i (\<lambda>a. a\<lparr>app_Status := status, app_UpdatedAt := now\<rparr>) d"

definition new_deployment :: "db \<Rightarrow> int \<Rightarrow> Deployment \<Rightarrow> db" where
  "new_deployment d now p = bump TDeployments (d\<lparr>deployments := deployments d
     @ [p\<lparr>dep_ID := next_id TDeployments d, dep_CreatedAt := now\<rparr>]\<rparr>)"

definition interrupted :: "App \<Rightarrow> Deployment" where
  "interrupted a = \<lparr> dep_ID = 0, dep_AppID = app_ID a, dep_ServerID = app_ServerID a, dep_Status = ''failed'',
     dep_Log = ''interrupted by Dockify restart'', dep_CommitSHA = [], dep_ComposeSnapshot = [], dep_CreatedAt = 0 \<rparr>"

definition Repo_FailInterrupted :: "int \<Rightarrow> db \<Rightarrow> int \<times> db" where
  "Repo_FailInterrupted now d =
     (let hit = filter (\<lambda>a. app_Status a = ''deploying'') (apps d);
          d1 = fold (\<lambda>a d. new_deployment d now (interrupted a)) hit d
      in (int (length hit), d1\<lparr>apps := map (\<lambda>a. if app_Status a = ''deploying''
            then a\<lparr>app_Status := ''failed'', app_UpdatedAt := now\<rparr> else a) (apps d1)\<rparr>))"

text \<open>DELETE with the cascades the schema declares.\<close>

definition Repo_Delete :: "int \<Rightarrow> db \<Rightarrow> db" where
  "Repo_Delete i d = d\<lparr>
     apps := filter (\<lambda>a. app_ID a \<noteq> i) (apps d),
     deployments := filter (\<lambda>x. dep_AppID x \<noteq> i) (deployments d),
     routes := filter (\<lambda>x. rt_AppID x \<noteq> i) (routes d),
     dns_records := filter (\<lambda>x. dns_AppID x \<noteq> i) (dns_records d),
     app_secrets := filter (\<lambda>x. sec_AppID x \<noteq> i) (app_secrets d),
     app_files := filter (\<lambda>x. file_AppID x \<noteq> i) (app_files d),
     container_stats := filter (\<lambda>x. cs_AppID x \<noteq> i) (container_stats d),
     app_disk_stats := filter (\<lambda>x. ds_AppID x \<noteq> i) (app_disk_stats d),
     route_stats := filter (\<lambda>x. rs_AppID x \<noteq> i) (route_stats d)\<rparr>"

definition Repo_AddDeployment :: "int \<Rightarrow> Deployment \<Rightarrow> db \<Rightarrow> int result \<times> db" where
  "Repo_AddDeployment now p d =
     (if dep_AppID p \<notin> app_ids d \<or> \<not> server_ref d (dep_ServerID p)
      then (Inl (''insert deployment: '' @ fk_error), d)
      else (Inr (next_id TDeployments d), new_deployment d now p))"

definition Repo_ListDeployments :: "(Deployment list \<Rightarrow> Deployment list) \<Rightarrow> int \<Rightarrow> db \<Rightarrow> Deployment list" where
  "Repo_ListDeployments plan i d =
     take 20 (sort_key (\<lambda>x. - dep_CreatedAt x) (reorder plan (filter (\<lambda>x. dep_AppID x = i) (deployments d))))"

definition Repo_GetDeployment :: "int \<Rightarrow> db \<Rightarrow> Deployment option" where
  "Repo_GetDeployment i d = find (\<lambda>x. dep_ID x = i) (deployments d)"

definition Repo_GetLastSuccessfulDeployment :: "(Deployment list \<Rightarrow> Deployment list) \<Rightarrow> int \<Rightarrow> db \<Rightarrow> Deployment option" where
  "Repo_GetLastSuccessfulDeployment plan i d =
     (case sort_key (\<lambda>x. - dep_CreatedAt x)
        (reorder plan (filter (\<lambda>x. dep_AppID x = i \<and> dep_Status x = ''success'') (deployments d))) of
        [] \<Rightarrow> None | x # _ \<Rightarrow> Some x)"

definition Repo_DeleteDeployments :: "int \<Rightarrow> db \<Rightarrow> db" where
  "Repo_DeleteDeployments i d = d\<lparr>deployments := filter (\<lambda>x. dep_AppID x \<noteq> i) (deployments d)\<rparr>"

definition Repo_SaveRoute :: "int \<Rightarrow> Route \<Rightarrow> db \<Rightarrow> int result \<times> db" where
  "Repo_SaveRoute now r d =
     (if rt_AppID r \<notin> app_ids d \<or> rt_ServerID r \<notin> server_ids d then (Inl (''save route: '' @ fk_error), d)
      else case find (\<lambda>x. rt_AppID x = rt_AppID r \<and> rt_Domain x = rt_Domain r) (routes d) of
             Some x \<Rightarrow> (Inr (rt_ID x), d\<lparr>routes := map (\<lambda>y. if rt_AppID y = rt_AppID r \<and> rt_Domain y = rt_Domain r
                 then y\<lparr>rt_ServerID := rt_ServerID r, rt_Status := ''active''\<rparr> else y) (routes d)\<rparr>)
           | None \<Rightarrow> (let i = next_id TRoutes d
               in (Inr i, bump TRoutes (d\<lparr>routes := routes d @ [r\<lparr>rt_ID := i, rt_Status := ''active'',
                    rt_CreatedAt := now\<rparr>]\<rparr>))))"

definition Repo_UpdateRouteTarget :: "int \<Rightarrow> string \<Rightarrow> db \<Rightarrow> db" where
  "Repo_UpdateRouteTarget i target d =
     d\<lparr>routes := map (\<lambda>y. if rt_ID y = i then y\<lparr>rt_Target := target\<rparr> else y) (routes d)\<rparr>"

definition Repo_DeleteRouteByDomain :: "int \<Rightarrow> string \<Rightarrow> db \<Rightarrow> db" where
  "Repo_DeleteRouteByDomain i domain d = d\<lparr>routes := filter (\<lambda>y. \<not> (rt_AppID y = i \<and> rt_Domain y = domain)) (routes d)\<rparr>"

definition Repo_GetRoutes :: "(Route list \<Rightarrow> Route list) \<Rightarrow> int \<Rightarrow> db \<Rightarrow> Route list" where
  "Repo_GetRoutes plan i d = reorder plan (filter (\<lambda>y. rt_AppID y = i \<and> rt_Status y = ''active'') (routes d))"

definition Repo_SaveDNSRecord :: "int \<Rightarrow> int \<Rightarrow> int \<Rightarrow> string \<Rightarrow> string \<Rightarrow> string \<Rightarrow> string \<Rightarrow> string \<Rightarrow> bool
    \<Rightarrow> db \<Rightarrow> unit result \<times> db" where
  "Repo_SaveDNSRecord now appID serverID zoneID recordID name recordType content proxied d =
     (if appID \<notin> app_ids d \<or> serverID \<notin> server_ids d then (Inl fk_error, d)
      else (Inr (), bump TDnsRecords (d\<lparr>dns_records := dns_records d @ [\<lparr> dns_ID = next_id TDnsRecords d,
          dns_AppID = appID, dns_ServerID = serverID, dns_ZoneID = zoneID, dns_RecordID = recordID, dns_Name = name,
          dns_Type = recordType, dns_Content = content, dns_Proxied = (if proxied then 1 else 0),
          dns_CreatedAt = now \<rparr>]\<rparr>)))"

definition Repo_UpdateDNSRecordProxied :: "string \<Rightarrow> bool \<Rightarrow> db \<Rightarrow> db" where
  "Repo_UpdateDNSRecordProxied recordID proxied d =
     d\<lparr>dns_records := map (\<lambda>r. if dns_RecordID r = recordID then r\<lparr>dns_Proxied := if proxied then 1 else 0\<rparr> else r)
       (dns_records d)\<rparr>"

definition Repo_GetDNSRecords :: "(DNSRecordInfo list \<Rightarrow> DNSRecordInfo list) \<Rightarrow> int \<Rightarrow> db \<Rightarrow> DNSRecordInfo list" where
  "Repo_GetDNSRecords plan i d = reorder plan (filter (\<lambda>r. dns_AppID r = i) (dns_records d))"

definition Repo_ListSecrets :: "int \<Rightarrow> db \<Rightarrow> AppSecret list" where
  "Repo_ListSecrets i d = sort_key sec_Key (filter (\<lambda>s. sec_AppID s = i) (app_secrets d))"

definition Repo_ListAllSecrets :: "db \<Rightarrow> AppSecret list" where
  "Repo_ListAllSecrets d = sort_key sec_AppID (sort_key sec_Key (app_secrets d))"

definition upsert_secret :: "int \<Rightarrow> string \<Rightarrow> string \<Rightarrow> (AppSecret \<Rightarrow> AppSecret) \<Rightarrow> bool \<Rightarrow> db \<Rightarrow> unit result \<times> db" where
  "upsert_secret i key val upd isSecret d =
     (if i \<notin> app_ids d then (Inl fk_error, d)
      else if \<exists>s \<in> set (app_secrets d). sec_AppID s = i \<and> sec_Key s = key
      then (Inr (), d\<lparr>app_secrets := map (\<lambda>s. if sec_AppID s = i \<and> sec_Key s = key then upd s else s) (app_secrets d)\<rparr>)
      else (Inr (), bump TAppSecrets (d\<lparr>app_secrets := app_secrets d @ [\<lparr> sec_ID = next_id TAppSecrets d,
          sec_AppID = i, sec_Key = key, sec_Value = val, sec_IsSecret = isSecret \<rparr>]\<rparr>)))"

definition Repo_SetSecret :: "int \<Rightarrow> string \<Rightarrow> string \<Rightarrow> db \<Rightarrow> unit result \<times> db" where
  "Repo_SetSecret i key val = upsert_secret i key val (\<lambda>s. s\<lparr>sec_Value := val\<rparr>) False"

definition Repo_SetSecretWithType :: "int \<Rightarrow> string \<Rightarrow> string \<Rightarrow> bool \<Rightarrow> db \<Rightarrow> unit result \<times> db" where
  "Repo_SetSecretWithType i key val isSecret =
     upsert_secret i key val (\<lambda>s. s\<lparr>sec_Value := val, sec_IsSecret := isSecret\<rparr>) isSecret"

definition Repo_DeleteSecret :: "int \<Rightarrow> string \<Rightarrow> db \<Rightarrow> db" where
  "Repo_DeleteSecret i key d = d\<lparr>app_secrets := filter (\<lambda>s. \<not> (sec_AppID s = i \<and> sec_Key s = key)) (app_secrets d)\<rparr>"

definition Repo_DeleteSecrets :: "int \<Rightarrow> db \<Rightarrow> db" where
  "Repo_DeleteSecrets i d = d\<lparr>app_secrets := filter (\<lambda>s. sec_AppID s \<noteq> i) (app_secrets d)\<rparr>"

definition Repo_ListFiles :: "int \<Rightarrow> db \<Rightarrow> AppFile list" where
  "Repo_ListFiles i d = sort_key file_Path (filter (\<lambda>f. file_AppID f = i) (app_files d))"

definition Repo_ListAllFiles :: "db \<Rightarrow> AppFile list" where
  "Repo_ListAllFiles d = sort_key file_AppID (sort_key file_Path (app_files d))"

definition Repo_SetFile :: "int \<Rightarrow> string \<Rightarrow> string \<Rightarrow> db \<Rightarrow> unit result \<times> db" where
  "Repo_SetFile i path content d =
     (if i \<notin> app_ids d then (Inl fk_error, d)
      else if \<exists>f \<in> set (app_files d). file_AppID f = i \<and> file_Path f = path
      then (Inr (), d\<lparr>app_files := map (\<lambda>f. if file_AppID f = i \<and> file_Path f = path then f\<lparr>file_Content := content\<rparr>
          else f) (app_files d)\<rparr>)
      else (Inr (), bump TAppFiles (d\<lparr>app_files := app_files d @ [\<lparr> file_ID = next_id TAppFiles d, file_AppID = i,
          file_Path = path, file_Content = content \<rparr>]\<rparr>)))"

definition Repo_DeleteFile :: "int \<Rightarrow> string \<Rightarrow> db \<Rightarrow> db" where
  "Repo_DeleteFile i path d = d\<lparr>app_files := filter (\<lambda>f. \<not> (file_AppID f = i \<and> file_Path f = path)) (app_files d)\<rparr>"

section \<open>Measurements of apps\<close>

definition Repo_InsertContainerStats :: "int \<Rightarrow> ContainerStats \<Rightarrow> db \<Rightarrow> unit result \<times> db" where
  "Repo_InsertContainerStats now s d =
     (if cs_AppID s \<notin> app_ids d \<or> cs_ServerID s \<notin> server_ids d then (Inl fk_error, d)
      else (Inr (), bump TContainerStats (d\<lparr>container_stats := container_stats d
          @ [s\<lparr>cs_ID := next_id TContainerStats d, cs_CreatedAt := now\<rparr>]\<rparr>)))"

text \<open>The sums of one tick; the other fields are those of an empty struct.\<close>

definition sum_tick :: "int \<Rightarrow> ContainerStats list \<Rightarrow> ContainerStats" where
  "sum_tick i rows = \<lparr> cs_ID = 0, cs_AppID = i, cs_ServerID = 0, cs_ContainerName = [],
     cs_CPUPercent = sum_list (map cs_CPUPercent rows), cs_MemUsageBytes = sum_list (map cs_MemUsageBytes rows),
     cs_MemLimitBytes = sum_list (map cs_MemLimitBytes rows), cs_MemPercent = sum_list (map cs_MemPercent rows),
     cs_NetIORxBytes = sum_list (map cs_NetIORxBytes rows), cs_NetIOTxBytes = sum_list (map cs_NetIOTxBytes rows),
     cs_BlockIORead = sum_list (map cs_BlockIORead rows), cs_BlockIOWrite = sum_list (map cs_BlockIOWrite rows),
     cs_CreatedAt = 0 \<rparr>"

definition latest_tick :: "ContainerStats list \<Rightarrow> ContainerStats list" where
  "latest_tick rows = filter (\<lambda>s. \<forall>t \<in> set rows. cs_CreatedAt t \<le> cs_CreatedAt s) rows"

text \<open>
  Without a row the sums are NULL, which \<open>Scan\<close> cannot store: an error, not the empty result
  the code provides for.
\<close>

definition Repo_LatestAggregatedStats :: "int \<Rightarrow> db \<Rightarrow> ContainerStats result" where
  "Repo_LatestAggregatedStats i d =
     (let rows = filter (\<lambda>s. cs_AppID s = i) (container_stats d)
      in if rows = [] then Inl (''sql: Scan error on column index 0, name '' @ Quote ''SUM(cpu_percent)''
           @ '': converting NULL to float64 is unsupported'')
         else Inr (sum_tick i (latest_tick rows)))"

definition Repo_LatestStatsByApp :: "int \<Rightarrow> db \<Rightarrow> int \<Rightarrow> ContainerStats option" where
  "Repo_LatestStatsByApp now d i =
     (let rows = filter (\<lambda>s. cs_AppID s = i \<and> cs_CreatedAt s \<ge> now - 86400) (container_stats d)
      in if rows = [] then None else Some (sum_tick i (latest_tick rows)))"

definition Repo_PruneContainerStats :: "int \<Rightarrow> db \<Rightarrow> db" where
  "Repo_PruneContainerStats before d = d\<lparr>container_stats := filter (\<lambda>s. \<not> cs_CreatedAt s < before) (container_stats d)\<rparr>"

definition Repo_InsertAppDiskUsage :: "int \<Rightarrow> int \<Rightarrow> int \<Rightarrow> int \<Rightarrow> db \<Rightarrow> unit result \<times> db" where
  "Repo_InsertAppDiskUsage now appID serverID bytes d =
     (if appID \<notin> app_ids d \<or> serverID \<notin> server_ids d then (Inl fk_error, d)
      else (Inr (), bump TAppDiskStats (d\<lparr>app_disk_stats := app_disk_stats d @ [\<lparr> ds_ID = next_id TAppDiskStats d,
          ds_AppID = appID, ds_ServerID = serverID, ds_Bytes = bytes, ds_CreatedAt = now \<rparr>]\<rparr>)))"

definition Repo_LatestAppDiskUsage :: "(AppDiskStats list \<Rightarrow> AppDiskStats list) \<Rightarrow> int \<Rightarrow> db \<Rightarrow> int" where
  "Repo_LatestAppDiskUsage plan i d =
     (case sort_key (\<lambda>s. - ds_CreatedAt s) (reorder plan (filter (\<lambda>s. ds_AppID s = i) (app_disk_stats d))) of
        [] \<Rightarrow> 0 | s # _ \<Rightarrow> ds_Bytes s)"

definition Repo_PruneAppDiskStats :: "int \<Rightarrow> db \<Rightarrow> db" where
  "Repo_PruneAppDiskStats before d = d\<lparr>app_disk_stats := filter (\<lambda>s. \<not> ds_CreatedAt s < before) (app_disk_stats d)\<rparr>"

definition Repo_InsertRouteStats :: "int \<Rightarrow> RouteStats \<Rightarrow> db \<Rightarrow> unit result \<times> db" where
  "Repo_InsertRouteStats now s d =
     (if rs_AppID s \<notin> app_ids d then (Inl fk_error, d)
      else (Inr (), bump TRouteStats (d\<lparr>route_stats := route_stats d
          @ [s\<lparr>rs_ID := next_id TRouteStats d, rs_CreatedAt := now\<rparr>]\<rparr>)))"

definition Repo_LatestRouteStats :: "(RouteStats list \<Rightarrow> RouteStats list) \<Rightarrow> int \<Rightarrow> db \<Rightarrow> RouteStats option" where
  "Repo_LatestRouteStats plan i d =
     (case sort_key (\<lambda>s. - rs_CreatedAt s) (reorder plan (filter (\<lambda>s. rs_AppID s = i) (route_stats d))) of
        [] \<Rightarrow> None | s # _ \<Rightarrow> Some s)"

definition Repo_PruneRouteStats :: "int \<Rightarrow> db \<Rightarrow> db" where
  "Repo_PruneRouteStats before d = d\<lparr>route_stats := filter (\<lambda>s. \<not> rs_CreatedAt s < before) (route_stats d)\<rparr>"

section \<open>The repository of servers\<close>

definition Srv_List :: "db \<Rightarrow> Server list" where
  "Srv_List d = sort_key srv_Name (servers d)"

definition Srv_ListOnline :: "(Server list \<Rightarrow> Server list) \<Rightarrow> db \<Rightarrow> Server list" where
  "Srv_ListOnline plan d = sort_key (\<lambda>s. - srv_CreatedAt s) (reorder plan (filter (\<lambda>s. srv_Status s = ''online'') (servers d)))"

definition Srv_Get :: "int \<Rightarrow> db \<Rightarrow> Server option" where
  "Srv_Get i d = find (\<lambda>s. srv_ID s = i) (servers d)"

text \<open>The columns the INSERT does not name are NULL or have their default.\<close>

definition Srv_Create :: "int \<Rightarrow> Server \<Rightarrow> db \<Rightarrow> int result \<times> db" where
  "Srv_Create now s d =
     (if idx_servers_name d \<and> srv_Name s \<in> set (map srv_Name (servers d))
      then (Inl (''insert server: '' @ unique_error ''servers.name''), d)
      else let i = next_id TServers d
           in (Inr i, bump TServers (d\<lparr>servers := servers d @ [s\<lparr>srv_ID := i, srv_CPUCores := 0, srv_RAMMB := 0,
                srv_DiskGB := 0, srv_CPUUsage := 0, srv_RAMUsage := 0, srv_DiskUsage := 0,
                srv_ResourcesUpdatedAt := 0, srv_HostKey := [], srv_CreatedAt := now, srv_UpdatedAt := now\<rparr>]\<rparr>)))"

definition map_server :: "(Server \<Rightarrow> bool) \<Rightarrow> (Server \<Rightarrow> Server) \<Rightarrow> db \<Rightarrow> db" where
  "map_server p f d = d\<lparr>servers := map (\<lambda>s. if p s then f s else s) (servers d)\<rparr>"

definition Srv_Update :: "int \<Rightarrow> Server \<Rightarrow> db \<Rightarrow> unit result \<times> db" where
  "Srv_Update now s d =
     (if srv_ID s \<notin> server_ids d then (Inr (), d)
      else if idx_servers_name d \<and> (\<exists>t \<in> set (servers d). srv_ID t \<noteq> srv_ID s \<and> srv_Name t = srv_Name s)
      then (Inl (unique_error ''servers.name''), d)
      else (Inr (), map_server (\<lambda>t. srv_ID t = srv_ID s) (\<lambda>old. s\<lparr>srv_CreatedAt := srv_CreatedAt old,
          srv_ResourcesUpdatedAt := srv_ResourcesUpdatedAt old, srv_UpdatedAt := now\<rparr>) d))"

definition Srv_HostKey :: "(Server list \<Rightarrow> Server list) \<Rightarrow> string \<Rightarrow> int \<Rightarrow> db \<Rightarrow> string" where
  "Srv_HostKey plan host port d =
     (case reorder plan (filter (\<lambda>s. srv_Host s = host \<and> srv_Port s = port) (servers d)) of
        [] \<Rightarrow> [] | s # _ \<Rightarrow> srv_HostKey s)"

definition Srv_SaveHostKey :: "string \<Rightarrow> int \<Rightarrow> string \<Rightarrow> db \<Rightarrow> db" where
  "Srv_SaveHostKey host port key = map_server (\<lambda>s. srv_Host s = host \<and> srv_Port s = port) (\<lambda>s. s\<lparr>srv_HostKey := key\<rparr>)"

definition Srv_CountApps :: "int \<Rightarrow> db \<Rightarrow> int" where
  "Srv_CountApps i d = int (length (filter (\<lambda>a. i \<noteq> 0 \<and> app_ServerID a = i) (apps d)))"

text \<open>
  DELETE: refused while an app names the server; the history keeps its rows with NULL in the
  server column, the measurements of the server go.
\<close>

definition Srv_Delete :: "int \<Rightarrow> db \<Rightarrow> unit result \<times> db" where
  "Srv_Delete i d =
     (if i \<in> server_ids d \<and> (\<exists>a \<in> set (apps d). app_ServerID a = i) then (Inl fk_error, d)
      else if i \<notin> server_ids d then (Inr (), d)
      else (Inr (), d\<lparr>
         servers := filter (\<lambda>s. srv_ID s \<noteq> i) (servers d),
         deployments := map (\<lambda>x. if dep_ServerID x = i then x\<lparr>dep_ServerID := 0\<rparr> else x) (deployments d),
         routes := map (\<lambda>x. if rt_ServerID x = i then x\<lparr>rt_ServerID := 0\<rparr> else x) (routes d),
         dns_records := map (\<lambda>x. if dns_ServerID x = i then x\<lparr>dns_ServerID := 0\<rparr> else x) (dns_records d),
         container_stats := map (\<lambda>x. if cs_ServerID x = i then x\<lparr>cs_ServerID := 0\<rparr> else x) (container_stats d),
         app_disk_stats := map (\<lambda>x. if ds_ServerID x = i then x\<lparr>ds_ServerID := 0\<rparr> else x) (app_disk_stats d),
         server_stats := filter (\<lambda>x. vs_ServerID x \<noteq> i) (server_stats d)\<rparr>))"

definition Srv_UpdateStatus :: "int \<Rightarrow> int \<Rightarrow> string \<Rightarrow> db \<Rightarrow> db" where
  "Srv_UpdateStatus now i status = map_server (\<lambda>s. srv_ID s = i) (\<lambda>s. s\<lparr>srv_Status := status, srv_UpdatedAt := now\<rparr>)"

definition Srv_UpdateResources :: "int \<Rightarrow> int \<Rightarrow> int \<Rightarrow> int \<Rightarrow> int \<Rightarrow> rat \<Rightarrow> rat \<Rightarrow> rat \<Rightarrow> db \<Rightarrow> db" where
  "Srv_UpdateResources now i cpuCores ramMB diskGB cpuUsage ramUsage diskUsage =
     map_server (\<lambda>s. srv_ID s = i) (\<lambda>s. s\<lparr>srv_CPUCores := cpuCores, srv_RAMMB := ramMB, srv_DiskGB := diskGB,
       srv_CPUUsage := cpuUsage, srv_RAMUsage := ramUsage, srv_DiskUsage := diskUsage,
       srv_ResourcesUpdatedAt := now, srv_UpdatedAt := now\<rparr>)"

definition Srv_InsertStats :: "int \<Rightarrow> ServerStats \<Rightarrow> db \<Rightarrow> unit result \<times> db" where
  "Srv_InsertStats now s d =
     (if vs_ServerID s \<notin> server_ids d then (Inl fk_error, d)
      else (Inr (), bump TServerStats (d\<lparr>server_stats := server_stats d
          @ [s\<lparr>vs_ID := next_id TServerStats d, vs_CreatedAt := now\<rparr>]\<rparr>)))"

definition Srv_PruneStats :: "int \<Rightarrow> db \<Rightarrow> db" where
  "Srv_PruneStats before d = d\<lparr>server_stats := filter (\<lambda>s. \<not> vs_CreatedAt s < before) (server_stats d)\<rparr>"

section \<open>Consistency\<close>

text \<open>Row identifiers are different, positive and handed out by the counter of the table.\<close>

definition ids_ok :: "('r \<Rightarrow> int) \<Rightarrow> int \<Rightarrow> 'r list \<Rightarrow> bool" where
  "ids_ok rid n rows \<longleftrightarrow> distinct (map rid rows) \<and> (\<forall>r \<in> set rows. 1 \<le> rid r \<and> rid r \<le> n) \<and> 0 \<le> n"

text \<open>Rows name an app there is, and a server there is or none.\<close>

definition refs_ok :: "int set \<Rightarrow> int set \<Rightarrow> ('r \<Rightarrow> int) \<Rightarrow> ('r \<Rightarrow> int) \<Rightarrow> 'r list \<Rightarrow> bool" where
  "refs_ok A S aref sref rows \<longleftrightarrow> (\<forall>r \<in> set rows. aref r \<in> A \<and> (sref r = 0 \<or> sref r \<in> S))"

definition ids_inv :: "db \<Rightarrow> bool" where
  "ids_inv d \<longleftrightarrow>
     ids_ok srv_ID (sqlite_sequence d TServers) (servers d) \<and> ids_ok app_ID (sqlite_sequence d TApps) (apps d)
     \<and> ids_ok dep_ID (sqlite_sequence d TDeployments) (deployments d)
     \<and> ids_ok rt_ID (sqlite_sequence d TRoutes) (routes d)
     \<and> ids_ok dns_ID (sqlite_sequence d TDnsRecords) (dns_records d)
     \<and> ids_ok sec_ID (sqlite_sequence d TAppSecrets) (app_secrets d)
     \<and> ids_ok file_ID (sqlite_sequence d TAppFiles) (app_files d)
     \<and> ids_ok cs_ID (sqlite_sequence d TContainerStats) (container_stats d)
     \<and> ids_ok ds_ID (sqlite_sequence d TAppDiskStats) (app_disk_stats d)
     \<and> ids_ok rs_ID (sqlite_sequence d TRouteStats) (route_stats d)
     \<and> ids_ok vs_ID (sqlite_sequence d TServerStats) (server_stats d)"

definition refs_inv :: "db \<Rightarrow> bool" where
  "refs_inv d \<longleftrightarrow>
     refs_ok UNIV (server_ids d) app_ID app_ServerID (apps d)
     \<and> refs_ok (app_ids d) (server_ids d) dep_AppID dep_ServerID (deployments d)
     \<and> refs_ok (app_ids d) (server_ids d) rt_AppID rt_ServerID (routes d)
     \<and> refs_ok (app_ids d) (server_ids d) dns_AppID dns_ServerID (dns_records d)
     \<and> refs_ok (app_ids d) {} sec_AppID (\<lambda>_. 0) (app_secrets d)
     \<and> refs_ok (app_ids d) {} file_AppID (\<lambda>_. 0) (app_files d)
     \<and> refs_ok (app_ids d) (server_ids d) cs_AppID cs_ServerID (container_stats d)
     \<and> refs_ok (app_ids d) (server_ids d) ds_AppID ds_ServerID (app_disk_stats d)
     \<and> refs_ok (app_ids d) {} rs_AppID (\<lambda>_. 0) (route_stats d)
     \<and> refs_ok (server_ids d) {} vs_ServerID (\<lambda>_. 0) (server_stats d)"

definition keys_inv :: "db \<Rightarrow> bool" where
  "keys_inv d \<longleftrightarrow>
     distinct (map (\<lambda>r. (rt_AppID r, rt_Domain r)) (routes d))
     \<and> distinct (map (\<lambda>s. (sec_AppID s, sec_Key s)) (app_secrets d))
     \<and> distinct (map (\<lambda>f. (file_AppID f, file_Path f)) (app_files d))
     \<and> (idx_apps_name d \<longrightarrow> distinct (map app_Name (apps d)))
     \<and> (idx_servers_name d \<longrightarrow> distinct (map srv_Name (servers d)))"

definition db_ok :: "db \<Rightarrow> bool" where
  "db_ok d \<longleftrightarrow> ids_inv d \<and> refs_inv d \<and> keys_inv d"

text \<open>Every statement of the two repositories that writes.\<close>

inductive db_step :: "db \<Rightarrow> db \<Rightarrow> bool" where
  app_create: "db_step d (snd (Repo_Create now a d))"
| app_update: "db_step d (snd (Repo_Update now a d))"
| app_status: "db_step d (Repo_UpdateStatus now i status d)"
| app_interrupted: "db_step d (snd (Repo_FailInterrupted now d))"
| app_delete: "db_step d (Repo_Delete i d)"
| dep_add: "db_step d (snd (Repo_AddDeployment now p d))"
| dep_delete: "db_step d (Repo_DeleteDeployments i d)"
| route_save: "db_step d (snd (Repo_SaveRoute now r d))"
| route_target: "db_step d (Repo_UpdateRouteTarget i target d)"
| route_delete: "db_step d (Repo_DeleteRouteByDomain i domain d)"
| dns_save: "db_step d (snd (Repo_SaveDNSRecord now i sid zone rid name ty content proxied d))"
| dns_proxied: "db_step d (Repo_UpdateDNSRecordProxied rid proxied d)"
| secret_set: "db_step d (snd (Repo_SetSecret i key val d))"
| secret_typed: "db_step d (snd (Repo_SetSecretWithType i key val isSecret d))"
| secret_delete: "db_step d (Repo_DeleteSecret i key d)"
| secrets_delete: "db_step d (Repo_DeleteSecrets i d)"
| file_set: "db_step d (snd (Repo_SetFile i path content d))"
| file_delete: "db_step d (Repo_DeleteFile i path d)"
| stats_insert: "db_step d (snd (Repo_InsertContainerStats now cs d))"
| stats_prune: "db_step d (Repo_PruneContainerStats before d)"
| disk_insert: "db_step d (snd (Repo_InsertAppDiskUsage now i sid bytes d))"
| disk_prune: "db_step d (Repo_PruneAppDiskStats before d)"
| rstats_insert: "db_step d (snd (Repo_InsertRouteStats now rs d))"
| rstats_prune: "db_step d (Repo_PruneRouteStats before d)"
| srv_create: "db_step d (snd (Srv_Create now s d))"
| srv_update: "db_step d (snd (Srv_Update now s d))"
| srv_hostkey: "db_step d (Srv_SaveHostKey host port key d)"
| srv_delete: "db_step d (snd (Srv_Delete i d))"
| srv_status: "db_step d (Srv_UpdateStatus now i status d)"
| srv_resources: "db_step d (Srv_UpdateResources now i cores ram disk cpu ramu disku d)"
| vstats_insert: "db_step d (snd (Srv_InsertStats now vs d))"
| vstats_prune: "db_step d (Srv_PruneStats before d)"

section \<open>Rows\<close>

lemma ids_ok_insert: "ids_ok rid n rows \<Longrightarrow> rid r = n + 1 \<Longrightarrow> ids_ok rid (n + 1) (rows @ [r])"
  by (fastforce simp: ids_ok_def)

lemma ids_ok_filter: "ids_ok rid n rows \<Longrightarrow> ids_ok rid n (filter p rows)"
  by (simp add: ids_ok_def distinct_map_filter)

lemma ids_ok_map:
  assumes "ids_ok rid n rows" and "\<And>r. rid (f r) = rid r"
  shows "ids_ok rid n (map f rows)"
proof -
  have "map rid (map f rows) = map rid rows" using assms(2) by simp
  with assms show ?thesis unfolding ids_ok_def by (auto simp del: map_map)
qed

lemma ids_ok_cong:
  assumes "map rid xs = map rid ys"
  shows "ids_ok rid n xs = ids_ok rid n ys"
proof -
  have "ids_ok rid n zs \<longleftrightarrow> distinct (map rid zs) \<and> (\<forall>i \<in> set (map rid zs). 1 \<le> i \<and> i \<le> n) \<and> 0 \<le> n" for zs
    by (simp add: ids_ok_def)
  then show ?thesis by (simp only: assms)
qed

lemma refs_ok_insert: "refs_ok A S f g rows \<Longrightarrow> f r \<in> A \<Longrightarrow> g r = 0 \<or> g r \<in> S \<Longrightarrow> refs_ok A S f g (rows @ [r])"
  by (auto simp: refs_ok_def)

lemma refs_ok_filter: "refs_ok A S f g rows \<Longrightarrow> refs_ok A S f g (filter p rows)"
  by (auto simp: refs_ok_def)

lemma refs_ok_map:
  "refs_ok A S f g rows \<Longrightarrow> (\<And>r. r \<in> set rows \<Longrightarrow> f (h r) = f r) \<Longrightarrow> (\<And>r. r \<in> set rows \<Longrightarrow> g (h r) = 0 \<or> g (h r) = g r \<or> g (h r) \<in> S)
     \<Longrightarrow> refs_ok A S f g (map h rows)"
  by (fastforce simp: refs_ok_def)

lemma refs_ok_mono: "refs_ok A S f g rows \<Longrightarrow> A \<subseteq> A' \<Longrightarrow> S \<subseteq> S' \<Longrightarrow> refs_ok A' S' f g rows"
  by (auto simp: refs_ok_def)

lemma refs_ok_delete:
  "refs_ok A S f g rows \<Longrightarrow> refs_ok (A - {i}) S f g (filter (\<lambda>r. f r \<noteq> i) rows)"
  by (auto simp: refs_ok_def)

lemma refs_ok_set_null:
  "refs_ok A S f g rows \<Longrightarrow> (\<And>r. f (h r) = f r) \<Longrightarrow> (\<And>r. g (h r) = 0)
     \<Longrightarrow> refs_ok A (S - {i}) f g (map (\<lambda>r. if g r = i then h r else r) rows)"
  by (auto simp: refs_ok_def)

lemma distinct_map_same: "distinct (map f rows) \<Longrightarrow> (\<And>r. f (h r) = f r) \<Longrightarrow> distinct (map f (map h rows))"
  by (simp add: comp_def)

lemma bump_simps [simp]:
  "servers (bump t d) = servers d" "apps (bump t d) = apps d" "deployments (bump t d) = deployments d"
  "routes (bump t d) = routes d" "dns_records (bump t d) = dns_records d" "app_secrets (bump t d) = app_secrets d"
  "app_files (bump t d) = app_files d" "settings (bump t d) = settings d"
  "container_stats (bump t d) = container_stats d" "app_disk_stats (bump t d) = app_disk_stats d"
  "route_stats (bump t d) = route_stats d" "server_stats (bump t d) = server_stats d"
  "idx_apps_name (bump t d) = idx_apps_name d" "idx_servers_name (bump t d) = idx_servers_name d"
  "sqlite_sequence (bump t d) u = (if u = t then sqlite_sequence d t + 1 else sqlite_sequence d u)"
  "app_ids (bump t d) = app_ids d" "server_ids (bump t d) = server_ids d"
  by (simp_all add: bump_def app_ids_def server_ids_def)

lemma ids_of_tables:
  "app_ids (d\<lparr>apps := xs\<rparr>) = set (map app_ID xs)" "server_ids (d\<lparr>apps := xs\<rparr>) = server_ids d"
  "server_ids (d\<lparr>servers := ys\<rparr>) = set (map srv_ID ys)" "app_ids (d\<lparr>servers := ys\<rparr>) = app_ids d"
  by (simp_all add: app_ids_def server_ids_def)

section \<open>Every statement keeps the database consistent\<close>

lemmas inv_defs = db_ok_def ids_inv_def refs_inv_def keys_inv_def app_ids_def server_ids_def

lemma db_ok_filters:
  assumes "db_ok d"
  shows "db_ok (Repo_DeleteDeployments i d)" "db_ok (Repo_DeleteRouteByDomain i domain d)" "db_ok (Repo_DeleteSecret i k d)"
    "db_ok (Repo_DeleteSecrets i d)" "db_ok (Repo_DeleteFile i k d)" "db_ok (Repo_PruneContainerStats t d)"
    "db_ok (Repo_PruneAppDiskStats t d)" "db_ok (Repo_PruneRouteStats t d)" "db_ok (Srv_PruneStats t d)"
  using assms
  by (simp_all add: inv_defs ids_ok_filter refs_ok_filter distinct_map_filter Repo_DeleteDeployments_def
      Repo_DeleteRouteByDomain_def Repo_DeleteSecret_def Repo_DeleteSecrets_def Repo_DeleteFile_def
      Repo_PruneContainerStats_def Repo_PruneAppDiskStats_def Repo_PruneRouteStats_def Srv_PruneStats_def)

lemma db_ok_route_target: "db_ok d \<Longrightarrow> db_ok (Repo_UpdateRouteTarget i t d)"
  by (simp add: inv_defs Repo_UpdateRouteTarget_def ids_ok_map refs_ok_map comp_def if_distrib cong: if_cong)

lemma db_ok_dns_proxied: "db_ok d \<Longrightarrow> db_ok (Repo_UpdateDNSRecordProxied r p d)"
  by (simp add: inv_defs Repo_UpdateDNSRecordProxied_def ids_ok_map refs_ok_map)

lemma map_app_ids:
  "(\<And>a. app_ID (f a) = app_ID a) \<Longrightarrow> map app_ID (map (\<lambda>a. if app_ID a = i then f a else a) xs) = map app_ID xs"
  by (simp add: comp_def if_distrib cong: if_cong)

lemma db_ok_apps:
  assumes "db_ok d" and "map app_ID xs = map app_ID (apps d)"
    and "\<And>a. a \<in> set xs \<Longrightarrow> server_ref d (app_ServerID a)" and "idx_apps_name d \<longrightarrow> distinct (map app_Name xs)"
  shows "db_ok (d\<lparr>apps := xs\<rparr>)"
proof -
  have "set (map app_ID xs) = set (map app_ID (apps d))" using assms(2) by simp
  moreover have "ids_ok app_ID n xs = ids_ok app_ID n (apps d)" for n
    by (rule ids_ok_cong [OF assms(2)])
  moreover have "refs_ok UNIV (server_ids d) app_ID app_ServerID xs"
    using assms(3) by (simp add: refs_ok_def server_ref_def)
  ultimately show ?thesis
    using assms(1,4) by (simp add: db_ok_def ids_inv_def refs_inv_def keys_inv_def app_ids_def server_ids_def)
qed

lemma db_ok_server_ref: "db_ok d \<Longrightarrow> a \<in> set (apps d) \<Longrightarrow> server_ref d (app_ServerID a)"
  by (auto simp: db_ok_def refs_inv_def refs_ok_def server_ref_def)

lemma db_ok_app_ids_distinct: "db_ok d \<Longrightarrow> distinct (map app_ID (apps d))"
  by (simp add: db_ok_def ids_inv_def ids_ok_def)

lemma db_ok_app_status: "db_ok d \<Longrightarrow> db_ok (Repo_UpdateStatus now i st d)"
  unfolding Repo_UpdateStatus_def map_app_def
  by (rule db_ok_apps)
    (auto simp: db_ok_server_ref comp_def if_distrib db_ok_def keys_inv_def cong: if_cong)

lemma distinct_map_replace:
  assumes "distinct (map f xs)" and "distinct (map g xs)" and "\<And>x. x \<in> set xs \<Longrightarrow> g x \<noteq> i \<Longrightarrow> f x \<noteq> f y"
  shows "distinct (map (\<lambda>x. if g x = i then f y else f x) xs)"
  using assms
proof (induction xs)
  case (Cons x xs)
  then have IH: "distinct (map (\<lambda>x. if g x = i then f y else f x) xs)" by auto
  show ?case
  proof (cases "g x = i")
    case True
    with Cons.prems have "\<forall>z \<in> set xs. g z \<noteq> i" by (auto simp: image_iff)
    moreover from this Cons.prems(3) have "\<forall>z \<in> set xs. f z \<noteq> f y" by simp
    ultimately show ?thesis using True IH by (auto simp: image_iff)
  next
    case False
    with IH Cons.prems show ?thesis by (auto simp: image_iff split: if_splits)
  qed
qed simp

lemma db_ok_app_update: "db_ok d \<Longrightarrow> db_ok (snd (Repo_Update now a d))"
proof -
  assume ok: "db_ok d"
  let ?xs = "map (\<lambda>b. if app_ID b = app_ID a then a\<lparr>app_CreatedAt := app_CreatedAt b, app_UpdatedAt := now\<rparr> else b) (apps d)"
  have "db_ok (d\<lparr>apps := ?xs\<rparr>)"
    if ref: "server_ref d (app_ServerID a)"
      and nm: "\<not> (idx_apps_name d \<and> (\<exists>b \<in> set (apps d). app_ID b \<noteq> app_ID a \<and> app_Name b = app_Name a))"
  proof (rule db_ok_apps [OF ok])
    show "map app_ID ?xs = map app_ID (apps d)" by auto
    show "server_ref d (app_ServerID b)" if "b \<in> set ?xs" for b
      using that ref db_ok_server_ref [OF ok] by (auto split: if_splits)
    show "idx_apps_name d \<longrightarrow> distinct (map app_Name ?xs)"
    proof
      assume "idx_apps_name d"
      with nm ok have "distinct (map app_Name (apps d))"
        and "\<And>b. b \<in> set (apps d) \<Longrightarrow> app_ID b \<noteq> app_ID a \<Longrightarrow> app_Name b \<noteq> app_Name a"
        by (auto simp: db_ok_def keys_inv_def)
      from distinct_map_replace [OF this(1) db_ok_app_ids_distinct [OF ok] this(2)]
      show "distinct (map app_Name ?xs)" by (simp add: comp_def if_distrib cong: if_cong)
    qed
  qed
  with ok show ?thesis by (auto simp: Repo_Update_def map_app_def)
qed

lemma db_ok_app_create: "db_ok d \<Longrightarrow> db_ok (snd (Repo_Create now a d))"
  unfolding Repo_Create_def Let_def
  by (auto simp: inv_defs next_id_def server_ref_def ids_ok_insert
      intro!: refs_ok_insert elim!: refs_ok_mono)

lemma db_ok_app_delete: "db_ok d \<Longrightarrow> db_ok (Repo_Delete i d)"
proof -
  assume ok: "db_ok d"
  have "set (map app_ID (filter (\<lambda>a. app_ID a \<noteq> i) (apps d))) = set (map app_ID (apps d)) - {i}" by auto
  with ok show ?thesis
    by (simp add: inv_defs Repo_Delete_def ids_ok_filter refs_ok_delete refs_ok_filter distinct_map_filter)
qed

lemma db_ok_new_deployment:
  "db_ok d \<Longrightarrow> dep_AppID p \<in> app_ids d \<Longrightarrow> server_ref d (dep_ServerID p) \<Longrightarrow> db_ok (new_deployment d now p)"
  by (auto simp: inv_defs new_deployment_def next_id_def server_ref_def ids_ok_insert refs_ok_insert)

lemma new_deployment_simps [simp]:
  "apps (new_deployment d now p) = apps d" "app_ids (new_deployment d now p) = app_ids d"
  "server_ref (new_deployment d now p) = server_ref d" "servers (new_deployment d now p) = servers d"
  "routes (new_deployment d now p) = routes d" "dns_records (new_deployment d now p) = dns_records d"
  by (auto simp: new_deployment_def app_ids_def server_ref_def server_ids_def)

lemma db_ok_dep_add: "db_ok d \<Longrightarrow> db_ok (snd (Repo_AddDeployment now p d))"
  by (simp add: Repo_AddDeployment_def db_ok_new_deployment)

lemma interrupted_fold:
  assumes "db_ok d" and "set hit \<subseteq> set (apps d)"
  shows "db_ok (fold (\<lambda>a d. new_deployment d now (interrupted a)) hit d)
    \<and> apps (fold (\<lambda>a d. new_deployment d now (interrupted a)) hit d) = apps d"
  using assms
proof (induction hit arbitrary: d)
  case (Cons a hit)
  have "db_ok (new_deployment d now (interrupted a))"
    using Cons.prems db_ok_server_ref
    by (intro db_ok_new_deployment) (auto simp: interrupted_def app_ids_def)
  then show ?case using Cons.IH [of "new_deployment d now (interrupted a)"] Cons.prems by simp
qed simp

lemma db_ok_interrupted: "db_ok d \<Longrightarrow> db_ok (snd (Repo_FailInterrupted now d))"
proof -
  assume ok: "db_ok d"
  let ?d = "fold (\<lambda>a d. new_deployment d now (interrupted a)) (filter (\<lambda>a. app_Status a = ''deploying'') (apps d)) d"
  have d: "db_ok ?d" "apps ?d = apps d" using interrupted_fold [OF ok] by auto
  then show ?thesis
    unfolding Repo_FailInterrupted_def Let_def snd_conv
    by (intro db_ok_apps)
      (auto simp: db_ok_server_ref comp_def if_distrib db_ok_def keys_inv_def cong: if_cong)
qed


lemma find_key_None:
  "find (\<lambda>x. f x = a \<and> g x = b) xs = None \<Longrightarrow> (a, b) \<notin> set (map (\<lambda>x. (f x, g x)) xs)"
  by (auto simp: find_None_iff)

lemma db_ok_route_save: "db_ok d \<Longrightarrow> db_ok (snd (Repo_SaveRoute now r d))"
proof -
  assume ok: "db_ok d"
  show ?thesis
  proof (cases "rt_AppID r \<notin> app_ids d \<or> rt_ServerID r \<notin> server_ids d")
    case False
    let ?key = "\<lambda>x. rt_AppID x = rt_AppID r \<and> rt_Domain x = rt_Domain r"
    show ?thesis
    proof (cases "find ?key (routes d)")
      case None
      with ok False find_key_None [OF None] show ?thesis
        by (auto simp: Repo_SaveRoute_def inv_defs next_id_def Let_def ids_ok_insert refs_ok_insert)
    next
      case (Some x)
      let ?f = "\<lambda>y. if ?key y then y\<lparr>rt_ServerID := rt_ServerID r, rt_Status := ''active''\<rparr> else y"
      have "ids_ok rt_ID n (map ?f (routes d))" if "ids_ok rt_ID n (routes d)" for n
        using that by (rule ids_ok_map) simp
      moreover have "refs_ok A (server_ids d) rt_AppID rt_ServerID (map ?f (routes d))"
        if "refs_ok A (server_ids d) rt_AppID rt_ServerID (routes d)" for A
        using that False by (intro refs_ok_map) auto
      moreover have "map (\<lambda>y. (rt_AppID y, rt_Domain y)) (map ?f (routes d)) = map (\<lambda>y. (rt_AppID y, rt_Domain y)) (routes d)"
        by simp
      ultimately have "db_ok (d\<lparr>routes := map ?f (routes d)\<rparr>)"
        using ok by (simp add: inv_defs del: map_map)
      with Some False show ?thesis by (simp add: Repo_SaveRoute_def)
    qed
  qed (use ok in \<open>simp add: Repo_SaveRoute_def\<close>)
qed

lemma db_ok_dns_save: "db_ok d \<Longrightarrow> db_ok (snd (Repo_SaveDNSRecord now i sid z r n ty c p d))"
  by (auto simp: Repo_SaveDNSRecord_def inv_defs next_id_def ids_ok_insert refs_ok_insert)

lemma db_ok_upsert_secret:
  assumes "db_ok d" and "\<And>s. sec_ID (upd s) = sec_ID s \<and> sec_AppID (upd s) = sec_AppID s \<and> sec_Key (upd s) = sec_Key s"
  shows "db_ok (snd (upsert_secret i key v upd b d))"
proof -
  let ?f = "\<lambda>s. if sec_AppID s = i \<and> sec_Key s = key then upd s else s"
  have "ids_ok sec_ID n (map ?f (app_secrets d))" if "ids_ok sec_ID n (app_secrets d)" for n
    using that by (rule ids_ok_map) (simp add: assms(2))
  moreover have "refs_ok A {} sec_AppID (\<lambda>_. 0) (map ?f (app_secrets d))"
    if "refs_ok A {} sec_AppID (\<lambda>_. 0) (app_secrets d)" for A
    using that by (intro refs_ok_map) (auto simp: assms(2))
  moreover have "map (\<lambda>s. (sec_AppID s, sec_Key s)) (map ?f (app_secrets d)) = map (\<lambda>s. (sec_AppID s, sec_Key s)) (app_secrets d)"
    by (simp add: assms(2))
  ultimately have "db_ok (d\<lparr>app_secrets := map ?f (app_secrets d)\<rparr>)"
    using assms(1) by (simp add: inv_defs del: map_map)
  moreover have "db_ok (snd (Inr (), bump TAppSecrets (d\<lparr>app_secrets := app_secrets d @ [\<lparr> sec_ID = next_id TAppSecrets d,
      sec_AppID = i, sec_Key = key, sec_Value = v, sec_IsSecret = b \<rparr>]\<rparr>)))"
    if "i \<in> app_ids d" "\<not> (\<exists>s \<in> set (app_secrets d). sec_AppID s = i \<and> sec_Key s = key)"
    using that assms(1) by (auto simp: inv_defs next_id_def ids_ok_insert refs_ok_insert)
  ultimately show ?thesis using assms(1) by (auto simp: upsert_secret_def)
qed

lemma db_ok_secrets:
  "db_ok d \<Longrightarrow> db_ok (snd (Repo_SetSecret i k v d))" "db_ok d \<Longrightarrow> db_ok (snd (Repo_SetSecretWithType i k v b d))"
  by (simp_all add: Repo_SetSecret_def Repo_SetSecretWithType_def db_ok_upsert_secret)

lemma db_ok_file_set: "db_ok d \<Longrightarrow> db_ok (snd (Repo_SetFile i path content d))"
proof -
  assume ok: "db_ok d"
  let ?f = "\<lambda>f. if file_AppID f = i \<and> file_Path f = path then f\<lparr>file_Content := content\<rparr> else f"
  have "ids_ok file_ID n (map ?f (app_files d))" if "ids_ok file_ID n (app_files d)" for n
    using that by (rule ids_ok_map) simp
  moreover have "refs_ok A {} file_AppID (\<lambda>_. 0) (map ?f (app_files d))"
    if "refs_ok A {} file_AppID (\<lambda>_. 0) (app_files d)" for A
    using that by (intro refs_ok_map) auto
  moreover have "map (\<lambda>s. (file_AppID s, file_Path s)) (map ?f (app_files d)) = map (\<lambda>s. (file_AppID s, file_Path s)) (app_files d)"
    by simp
  ultimately have "db_ok (d\<lparr>app_files := map ?f (app_files d)\<rparr>)"
    using ok by (simp add: inv_defs del: map_map)
  moreover have "db_ok (snd (Inr (), bump TAppFiles (d\<lparr>app_files := app_files d @ [\<lparr> file_ID = next_id TAppFiles d,
      file_AppID = i, file_Path = path, file_Content = content \<rparr>]\<rparr>)))"
    if "i \<in> app_ids d" "\<not> (\<exists>s \<in> set (app_files d). file_AppID s = i \<and> file_Path s = path)"
    using that ok by (auto simp: inv_defs next_id_def ids_ok_insert refs_ok_insert)
  ultimately show ?thesis using ok by (auto simp: Repo_SetFile_def)
qed

lemma db_ok_stats:
  assumes "db_ok d"
  shows "db_ok (snd (Repo_InsertContainerStats now cs d))" "db_ok (snd (Repo_InsertAppDiskUsage now i sid bytes d))"
    "db_ok (snd (Repo_InsertRouteStats now rs d))" "db_ok (snd (Srv_InsertStats now vs d))"
  using assms
  by (simp_all add: Repo_InsertContainerStats_def Repo_InsertAppDiskUsage_def Repo_InsertRouteStats_def Srv_InsertStats_def
      inv_defs next_id_def ids_ok_insert refs_ok_insert)

lemma db_ok_srv_create: "db_ok d \<Longrightarrow> db_ok (snd (Srv_Create now s d))"
  unfolding Srv_Create_def Let_def
  by (auto simp: inv_defs next_id_def ids_ok_insert elim!: refs_ok_mono)

lemma db_ok_servers:
  assumes "db_ok d" and "map srv_ID xs = map srv_ID (servers d)" and "idx_servers_name d \<longrightarrow> distinct (map srv_Name xs)"
  shows "db_ok (d\<lparr>servers := xs\<rparr>)"
proof -
  have "ids_ok srv_ID n xs = ids_ok srv_ID n (servers d)" for n
    by (rule ids_ok_cong [OF assms(2)])
  moreover have "set (map srv_ID xs) = set (map srv_ID (servers d))" using assms(2) by simp
  ultimately show ?thesis
    using assms(1,3) by (simp add: db_ok_def ids_inv_def refs_inv_def keys_inv_def app_ids_def server_ids_def)
qed

lemma db_ok_map_server:
  assumes "db_ok d" and "\<And>s. srv_ID (f s) = srv_ID s \<and> srv_Name (f s) = srv_Name s"
  shows "db_ok (map_server p f d)"
  unfolding map_server_def using assms
  by (intro db_ok_servers) (auto simp: comp_def if_distrib db_ok_def keys_inv_def cong: if_cong)

lemma db_ok_srv_update: "db_ok d \<Longrightarrow> db_ok (snd (Srv_Update now s d))"
proof -
  assume ok: "db_ok d"
  let ?xs = "map (\<lambda>t. if srv_ID t = srv_ID s then s\<lparr>srv_CreatedAt := srv_CreatedAt t,
      srv_ResourcesUpdatedAt := srv_ResourcesUpdatedAt t, srv_UpdatedAt := now\<rparr> else t) (servers d)"
  have "db_ok (d\<lparr>servers := ?xs\<rparr>)"
    if nm: "\<not> (idx_servers_name d \<and> (\<exists>t \<in> set (servers d). srv_ID t \<noteq> srv_ID s \<and> srv_Name t = srv_Name s))"
  proof (rule db_ok_servers [OF ok])
    show "map srv_ID ?xs = map srv_ID (servers d)" by auto
    show "idx_servers_name d \<longrightarrow> distinct (map srv_Name ?xs)"
    proof
      assume "idx_servers_name d"
      with nm ok have "distinct (map srv_Name (servers d))" "distinct (map srv_ID (servers d))"
        and "\<And>t. t \<in> set (servers d) \<Longrightarrow> srv_ID t \<noteq> srv_ID s \<Longrightarrow> srv_Name t \<noteq> srv_Name s"
        by (auto simp: db_ok_def keys_inv_def ids_inv_def ids_ok_def)
      from distinct_map_replace [OF this]
      show "distinct (map srv_Name ?xs)" by (simp add: comp_def if_distrib cong: if_cong)
    qed
  qed
  with ok show ?thesis by (auto simp: Srv_Update_def map_server_def)
qed

lemma db_ok_srv_delete: "db_ok d \<Longrightarrow> db_ok (snd (Srv_Delete i d))"
proof (cases "i \<in> server_ids d \<and> \<not> (\<exists>a \<in> set (apps d). app_ServerID a = i)")
  case True
  assume ok: "db_ok d"
  have S: "set (map srv_ID (filter (\<lambda>s. srv_ID s \<noteq> i) (servers d))) = server_ids d - {i}"
    by (auto simp: server_ids_def)
  have "refs_ok UNIV (server_ids d - {i}) app_ID app_ServerID (apps d)"
    using ok True by (auto simp: db_ok_def refs_inv_def refs_ok_def)
  with ok True S show ?thesis
    by (simp add: Srv_Delete_def db_ok_def ids_inv_def refs_inv_def keys_inv_def app_ids_def server_ids_def ids_ok_filter
        ids_ok_map refs_ok_set_null refs_ok_delete distinct_map_filter comp_def if_distrib cong: if_cong)
qed (auto simp: Srv_Delete_def)

section \<open>The tables with a key per app\<close>

text \<open>
  The contract of the tables that hold one row per app and key: an upsert, a delete and the
  lookup they decide. The clients save and restore such rows in loops.
\<close>

locale keyed_store =
  fixes lookup :: "'d \<Rightarrow> int \<Rightarrow> string \<Rightarrow> 'v option"
    and put :: "int \<Rightarrow> string \<Rightarrow> 'v \<Rightarrow> 'd \<Rightarrow> 'e result \<times> 'd"
    and del :: "int \<Rightarrow> string \<Rightarrow> 'd \<Rightarrow> 'd"
    and allowed :: "'d \<Rightarrow> int \<Rightarrow> 'v \<Rightarrow> bool"
  assumes put_refused: "\<not> allowed d i v \<Longrightarrow> \<exists>e. put i k v d = (Inl e, d)"
    and put_accepted: "allowed d i v \<Longrightarrow> \<exists>r. fst (put i k v d) = Inr r"
    and lookup_put: "allowed d i v \<Longrightarrow>
      lookup (snd (put i k v d)) j l = (if j = i \<and> l = k then Some v else lookup d j l)"
    and lookup_del: "lookup (del i k d) j l = (if j = i \<and> l = k then None else lookup d j l)"
    and allowed_put: "allowed (snd (put i k v d)) j w = allowed d j w"
begin

lemma last_write_wins:
  assumes "allowed d i v" and "allowed d i w"
  shows "lookup (snd (put i k w (snd (put i k v d)))) j l = lookup (snd (put i k w d)) j l"
  using assms by (simp add: lookup_put allowed_put)

lemma put_del: "allowed d i v \<Longrightarrow> lookup (del i k (snd (put i k v d))) j l = lookup (del i k d) j l"
  by (simp add: lookup_del lookup_put)

lemma lookup_fold:
  assumes "\<And>k v. (k, v) \<in> set kvs \<Longrightarrow> allowed d i v"
  shows "lookup (fold (\<lambda>(k, v) d. snd (put i k v d)) kvs d) j l
    = (if j = i then (case map_of (rev kvs) l of Some v \<Rightarrow> Some v | None \<Rightarrow> lookup d j l) else lookup d j l)"
  using assms
proof (induction kvs arbitrary: d)
  case (Cons kv kvs)
  obtain k v where kv: "kv = (k, v)" by force
  have ok: "allowed d i v" by (rule Cons.prems [of k v]) (simp add: kv)
  have "\<And>k' v'. (k', v') \<in> set kvs \<Longrightarrow> allowed (snd (put i k v d)) i v'"
    unfolding allowed_put using Cons.prems by (meson list.set_intros(2))
  from Cons.IH [OF this] show ?case
    using ok by (auto simp: kv lookup_put map_add_def split: option.splits)
qed simp

lemma lookup_fold_del:
  "lookup (fold (\<lambda>k d. del i k d) ks d) j l = (if j = i \<and> l \<in> set ks then None else lookup d j l)"
  by (induction ks arbitrary: d) (auto simp: lookup_del)

end

definition secret_of :: "db \<Rightarrow> int \<Rightarrow> string \<Rightarrow> (string \<times> bool) option" where
  "secret_of d i k = map_option (\<lambda>s. (sec_Value s, sec_IsSecret s))
     (find (\<lambda>s. sec_AppID s = i \<and> sec_Key s = k) (app_secrets d))"

definition file_of :: "db \<Rightarrow> int \<Rightarrow> string \<Rightarrow> string option" where
  "file_of d i p = map_option file_Content (find (\<lambda>f. file_AppID f = i \<and> file_Path f = p) (app_files d))"

definition route_server_of :: "db \<Rightarrow> int \<Rightarrow> string \<Rightarrow> int option" where
  "route_server_of d i dm = map_option rt_ServerID (find (\<lambda>r. rt_AppID r = i \<and> rt_Domain r = dm) (routes d))"

definition new_route :: "int \<Rightarrow> int \<Rightarrow> string \<Rightarrow> string \<Rightarrow> Route" where
  "new_route appID serverID domain target = \<lparr> rt_ID = 0, rt_AppID = appID, rt_ServerID = serverID, rt_Domain = domain,
     rt_Target = target, rt_Status = [], rt_CreatedAt = 0 \<rparr>"

text \<open>Finding a row after an update, an insert or a delete by key.\<close>

lemma find_upsert:
  assumes "\<And>x. f (h x) = f x \<and> g (h x) = g x"
  shows "find (\<lambda>x. f x = j \<and> g x = l) (map (\<lambda>x. if f x = i \<and> g x = k then h x else x) xs)
    = (if j = i \<and> l = k then map_option h (find (\<lambda>x. f x = j \<and> g x = l) xs) else find (\<lambda>x. f x = j \<and> g x = l) xs)"
  using assms by (induction xs) auto

lemma find_insert:
  assumes "\<not> (\<exists>x \<in> set xs. f x = f r \<and> g x = g r)"
  shows "find (\<lambda>x. f x = j \<and> g x = l) (xs @ [r])
    = (if j = f r \<and> l = g r then Some r else find (\<lambda>x. f x = j \<and> g x = l) xs)"
  using assms by (induction xs) auto

lemma find_delete:
  "find (\<lambda>x. f x = j \<and> g x = l) (filter (\<lambda>x. f x = i \<longrightarrow> g x \<noteq> k) xs)
    = (if j = i \<and> l = k then None else find (\<lambda>x. f x = j \<and> g x = l) xs)"
  by (induction xs) auto

lemma find_key_exists: "(\<exists>x \<in> set xs. f x = i \<and> g x = k) \<longleftrightarrow> find (\<lambda>x. f x = i \<and> g x = k) xs \<noteq> None"
  by (auto simp: find_None_iff)

interpretation secret_store: keyed_store secret_of "\<lambda>i k (v, b). Repo_SetSecretWithType i k v b" Repo_DeleteSecret
  "\<lambda>d i _. i \<in> app_ids d"
proof
  fix d i v k j l w
  show "i \<notin> app_ids d \<Longrightarrow> \<exists>e. (case v of (v, b) \<Rightarrow> Repo_SetSecretWithType i k v b) d = (Inl e, d)"
    by (simp add: Repo_SetSecretWithType_def upsert_secret_def case_prod_beta)
  show "i \<in> app_ids d \<Longrightarrow> \<exists>r. fst ((case v of (v, b) \<Rightarrow> Repo_SetSecretWithType i k v b) d) = Inr r"
    by (simp add: Repo_SetSecretWithType_def upsert_secret_def case_prod_beta)
  show "i \<in> app_ids d \<Longrightarrow> secret_of (snd ((case v of (v, b) \<Rightarrow> Repo_SetSecretWithType i k v b) d)) j l
      = (if j = i \<and> l = k then Some v else secret_of d j l)"
    by (cases v) (auto simp: Repo_SetSecretWithType_def upsert_secret_def secret_of_def find_upsert find_insert find_key_exists)
  show "secret_of (Repo_DeleteSecret i k d) j l = (if j = i \<and> l = k then None else secret_of d j l)"
    by (simp add: Repo_DeleteSecret_def secret_of_def find_delete)
  show "(j \<in> app_ids (snd ((case v of (v, b) \<Rightarrow> Repo_SetSecretWithType i k v b) d))) = (j \<in> app_ids d)"
    by (simp add: Repo_SetSecretWithType_def upsert_secret_def case_prod_beta app_ids_def)
qed

interpretation file_store: keyed_store file_of Repo_SetFile Repo_DeleteFile "\<lambda>d i _. i \<in> app_ids d"
proof
  fix d i v k j l
  show "i \<notin> app_ids d \<Longrightarrow> \<exists>e. Repo_SetFile i k v d = (Inl e, d)"
    by (simp add: Repo_SetFile_def)
  show "i \<in> app_ids d \<Longrightarrow> \<exists>r. fst (Repo_SetFile i k v d) = Inr r"
    by (simp add: Repo_SetFile_def)
  show "i \<in> app_ids d \<Longrightarrow> file_of (snd (Repo_SetFile i k v d)) j l = (if j = i \<and> l = k then Some v else file_of d j l)"
    by (auto simp: Repo_SetFile_def file_of_def find_upsert find_insert find_key_exists)
  show "file_of (Repo_DeleteFile i k d) j l = (if j = i \<and> l = k then None else file_of d j l)"
    by (simp add: Repo_DeleteFile_def file_of_def find_delete)
  show "(j \<in> app_ids (snd (Repo_SetFile i k v d))) = (j \<in> app_ids d)"
    by (simp add: Repo_SetFile_def app_ids_def)
qed

interpretation route_store: keyed_store route_server_of "\<lambda>i k sid. Repo_SaveRoute now (new_route i sid k target)"
  Repo_DeleteRouteByDomain "\<lambda>d i sid. i \<in> app_ids d \<and> sid \<in> server_ids d" for now target
proof
  fix d i v k j l w
  let ?r = "new_route i v k target"
  show "\<not> (i \<in> app_ids d \<and> v \<in> server_ids d) \<Longrightarrow> \<exists>e. Repo_SaveRoute now ?r d = (Inl e, d)"
    by (auto simp: Repo_SaveRoute_def new_route_def)
  show "i \<in> app_ids d \<and> v \<in> server_ids d \<Longrightarrow> \<exists>r. fst (Repo_SaveRoute now ?r d) = Inr r"
    by (auto simp: Repo_SaveRoute_def new_route_def Let_def split: option.splits)
  show "i \<in> app_ids d \<and> v \<in> server_ids d \<Longrightarrow> route_server_of (snd (Repo_SaveRoute now ?r d)) j l
      = (if j = i \<and> l = k then Some v else route_server_of d j l)"
    by (auto simp: Repo_SaveRoute_def new_route_def route_server_of_def find_upsert find_insert find_key_exists Let_def
        split: option.splits)
  show "route_server_of (Repo_DeleteRouteByDomain i k d) j l = (if j = i \<and> l = k then None else route_server_of d j l)"
    by (simp add: Repo_DeleteRouteByDomain_def route_server_of_def find_delete)
  show "(j \<in> app_ids (snd (Repo_SaveRoute now ?r d)) \<and> w \<in> server_ids (snd (Repo_SaveRoute now ?r d)))
      = (j \<in> app_ids d \<and> w \<in> server_ids d)"
    by (simp add: Repo_SaveRoute_def app_ids_def server_ids_def Let_def split: option.splits)
qed

section \<open>Properties\<close>

lemma db_step_ok: "db_step d d' \<Longrightarrow> db_ok d \<Longrightarrow> db_ok d'"
  by (erule db_step.cases)
    (simp_all add: db_ok_app_create db_ok_app_update db_ok_app_status db_ok_interrupted db_ok_app_delete
      db_ok_dep_add db_ok_filters db_ok_route_save db_ok_route_target db_ok_dns_save db_ok_dns_proxied db_ok_secrets
      db_ok_file_set db_ok_stats db_ok_srv_create db_ok_srv_update Srv_SaveHostKey_def Srv_UpdateStatus_def
      Srv_UpdateResources_def db_ok_map_server db_ok_srv_delete)

lemma db_steps_ok: "db_step\<^sup>*\<^sup>* d d' \<Longrightarrow> db_ok d \<Longrightarrow> db_ok d'"
  by (induction rule: rtranclp_induct) (auto intro: db_step_ok)

text \<open>
  C13. Every database the repositories can reach from a consistent one is consistent: row
  identifiers are never reused, every reference names a row there is (deleting an app takes
  its rows along, deleting a server clears the references to it), an app has at most one
  route per domain, one variable per name and one file per path, and names are unique where
  the index exists.
\<close>

theorem db_reachable_ok:
  assumes "db_step\<^sup>*\<^sup>* d0 d" and "db_ok d0"
  shows "db_ok d"
  using assms by (rule db_steps_ok)

theorem db_reachable_ok_witness:
  "db_ok (Repo_UpdateStatus 7 1 ''running'' (empty_db True True))"
proof (rule db_reachable_ok)
  show "db_step\<^sup>*\<^sup>* (empty_db True True) (Repo_UpdateStatus 7 1 ''running'' (empty_db True True))"
    by (rule r_into_rtranclp) (rule app_status)
  show "db_ok (empty_db True True)"
    by (simp add: db_ok_def ids_inv_def refs_inv_def keys_inv_def empty_db_def ids_ok_def refs_ok_def)
qed

text \<open>
  Deleting an app removes the app and every row that belongs to it, and nothing else: rows
  of other apps, servers and settings stay.
\<close>

theorem Repo_Delete_exact:
  "i \<notin> app_ids (Repo_Delete i d)
   \<and> (\<forall>j. j \<noteq> i \<longrightarrow> Repo_Get j (Repo_Delete i d) = Repo_Get j d
        \<and> Repo_ListSecrets j (Repo_Delete i d) = Repo_ListSecrets j d
        \<and> Repo_ListFiles j (Repo_Delete i d) = Repo_ListFiles j d
        \<and> Repo_GetRoutes plan j (Repo_Delete i d) = Repo_GetRoutes plan j d
        \<and> Repo_ListDeployments plan' j (Repo_Delete i d) = Repo_ListDeployments plan' j d)
   \<and> Repo_ListSecrets i (Repo_Delete i d) = [] \<and> Repo_ListFiles i (Repo_Delete i d) = []
   \<and> filter (\<lambda>r. rt_AppID r = i) (routes (Repo_Delete i d)) = []
   \<and> filter (\<lambda>p. dep_AppID p = i) (deployments (Repo_Delete i d)) = []
   \<and> servers (Repo_Delete i d) = servers d \<and> settings (Repo_Delete i d) = settings d"
proof -
  have other: "(x \<noteq> i \<and> x = j) = (x = j)" "(x \<noteq> i \<and> x = j \<and> q) = (x = j \<and> q)" if "j \<noteq> i" for x j q
    using that by auto
  have "find (\<lambda>a. app_ID a = j) (filter (\<lambda>a. app_ID a \<noteq> i) (apps d)) = find (\<lambda>a. app_ID a = j) (apps d)"
    if "j \<noteq> i" for j
    using that by (simp add: find_filter) (rule find_cong, auto)
  then show ?thesis
    unfolding Repo_ListSecrets_def Repo_ListFiles_def Repo_GetRoutes_def Repo_ListDeployments_def
    by (auto simp: Repo_Delete_def Repo_Get_def app_ids_def other)
qed

theorem Repo_Delete_exact_witness:
  "Repo_Get 2 (Repo_Delete 1 (empty_db True True)) = Repo_Get 2 (empty_db True True)"
proof -
  have "(2 :: int) \<noteq> 1" by simp
  then show ?thesis using Repo_Delete_exact [of 1 "empty_db True True" id id] by blast
qed

text \<open>
  At startup no app is left in \<open>deploying\<close>: exactly the apps that were are marked failed, each
  gets one more deployment that says so, and every other app and deployment stays.
\<close>

theorem FailInterrupted_correct:
  "apps (snd (Repo_FailInterrupted now d)) = map (\<lambda>a. if app_Status a = ''deploying''
       then a\<lparr>app_Status := ''failed'', app_UpdatedAt := now\<rparr> else a) (apps d)
   \<and> (\<exists>new. deployments (snd (Repo_FailInterrupted now d)) = deployments d @ new
        \<and> map dep_AppID new = map app_ID (filter (\<lambda>a. app_Status a = ''deploying'') (apps d))
        \<and> list_all (\<lambda>p. dep_Status p = ''failed'' \<and> dep_Log p = ''interrupted by Dockify restart'') new)
   \<and> fst (Repo_FailInterrupted now d) = int (length (filter (\<lambda>a. app_Status a = ''deploying'') (apps d)))"
proof -
  have "apps (fold (\<lambda>a d. new_deployment d now (interrupted a)) hit d) = apps d
     \<and> (\<exists>new. deployments (fold (\<lambda>a d. new_deployment d now (interrupted a)) hit d) = deployments d @ new
        \<and> map dep_AppID new = map app_ID hit
        \<and> list_all (\<lambda>p. dep_Status p = ''failed'' \<and> dep_Log p = ''interrupted by Dockify restart'') new)" for hit
  proof (induction hit arbitrary: d)
    case (Cons a hit)
    let ?n = "interrupted a\<lparr>dep_ID := next_id TDeployments d, dep_CreatedAt := now\<rparr>"
    from Cons.IH [of "new_deployment d now (interrupted a)"] obtain new where
      "deployments (fold (\<lambda>a d. new_deployment d now (interrupted a)) (a # hit) d) = deployments d @ ?n # new"
      "map dep_AppID new = map app_ID hit"
      "list_all (\<lambda>p. dep_Status p = ''failed'' \<and> dep_Log p = ''interrupted by Dockify restart'') new"
      by (auto simp: new_deployment_def)
    with Cons.IH [of "new_deployment d now (interrupted a)"] show ?case
      by (intro conjI exI [of _ "?n # new"]) (simp_all add: interrupted_def)
  qed simp
  then show ?thesis by (simp add: Repo_FailInterrupted_def Let_def)
qed

text \<open>
  Asking for the latest measurement of an app that has none is an error: the sums over no
  rows are NULL, so the branch for an empty result is never taken.
\<close>

theorem LatestAggregatedStats_empty:
  assumes "\<forall>s \<in> set (container_stats d). cs_AppID s \<noteq> i"
  shows "\<exists>e. Repo_LatestAggregatedStats i d = Inl e"
proof -
  have "filter (\<lambda>s. cs_AppID s = i) (container_stats d) = []" using assms by (simp add: filter_empty_conv)
  then show ?thesis by (simp add: Repo_LatestAggregatedStats_def)
qed

theorem LatestAggregatedStats_empty_witness:
  "\<exists>e. Repo_LatestAggregatedStats 1 (empty_db True True) = Inl e"
  by (rule LatestAggregatedStats_empty) (simp add: empty_db_def)

end
