(* ===== verification/Regex.thy ===== *)
theory Regex
  imports GoStrings
begin

text \<open>
  The regular expressions of package \<open>regexp\<close> that the sources use: character classes,
  concatenation, alternatives, repetition and counted repetition, matched against a whole
  string (every pattern is anchored by \<open>^\<close> and \<open>$\<close>, and without the flag \<open>m\<close> the
  latter is the end of the text). The matcher works by derivatives; \<open>rx_match_lang\<close>
  relates it to the language of the expression, which the component lemmas use.
\<close>

section \<open>Expressions and matcher\<close>

datatype rx = RNone | REps | RCls "char \<Rightarrow> bool" | RSeq rx rx | RAlt rx rx | RStar rx

definition ROpt :: "rx \<Rightarrow> rx" where
  "ROpt r = RAlt REps r"

definition RPlus :: "rx \<Rightarrow> rx" where
  "RPlus r = RSeq r (RStar r)"

definition RChr :: "char \<Rightarrow> rx" where
  "RChr c = RCls (\<lambda>x. x = c)"

text \<open>\<open>r{0,n}\<close>\<close>

fun RUpTo :: "nat \<Rightarrow> rx \<Rightarrow> rx" where
  "RUpTo 0 r = REps"
| "RUpTo (Suc n) r = ROpt (RSeq r (RUpTo n r))"

fun rx_null :: "rx \<Rightarrow> bool" where
  "rx_null RNone = False"
| "rx_null REps = True"
| "rx_null (RCls P) = False"
| "rx_null (RSeq a b) = (rx_null a \<and> rx_null b)"
| "rx_null (RAlt a b) = (rx_null a \<or> rx_null b)"
| "rx_null (RStar a) = True"

fun rx_deriv :: "char \<Rightarrow> rx \<Rightarrow> rx" where
  "rx_deriv c RNone = RNone"
| "rx_deriv c REps = RNone"
| "rx_deriv c (RCls P) = (if P c then REps else RNone)"
| "rx_deriv c (RSeq a b) =
     (if rx_null a then RAlt (RSeq (rx_deriv c a) b) (rx_deriv c b) else RSeq (rx_deriv c a) b)"
| "rx_deriv c (RAlt a b) = RAlt (rx_deriv c a) (rx_deriv c b)"
| "rx_deriv c (RStar a) = RSeq (rx_deriv c a) (RStar a)"

definition rx_match :: "rx \<Rightarrow> string \<Rightarrow> bool" where
  "rx_match r s = rx_null (foldl (\<lambda>q c. rx_deriv c q) r s)"

section \<open>Languages\<close>

inductive_set star_of :: "string set \<Rightarrow> string set" for A where
  star_Nil [intro, simp]: "[] \<in> star_of A"
| star_app [intro]: "u \<in> A \<Longrightarrow> v \<in> star_of A \<Longrightarrow> u @ v \<in> star_of A"

fun rx_lang :: "rx \<Rightarrow> string set" where
  "rx_lang RNone = {}"
| "rx_lang REps = {[]}"
| "rx_lang (RCls P) = {[c] |c. P c}"
| "rx_lang (RSeq a b) = {u @ v |u v. u \<in> rx_lang a \<and> v \<in> rx_lang b}"
| "rx_lang (RAlt a b) = rx_lang a \<union> rx_lang b"
| "rx_lang (RStar a) = star_of (rx_lang a)"

lemma rx_null_lang: "rx_null r \<longleftrightarrow> [] \<in> rx_lang r"
  by (induction r) auto

lemma star_of_ConsD:
  assumes "w \<in> star_of A" and "w = c # s"
  shows "\<exists>u v. s = u @ v \<and> c # u \<in> A \<and> v \<in> star_of A"
  using assms
proof (induction arbitrary: s rule: star_of.induct)
  case star_Nil
  then show ?case by simp
next
  case (star_app u v)
  then show ?case by (cases u) auto
qed

lemma rx_deriv_lang: "s \<in> rx_lang (rx_deriv c r) \<longleftrightarrow> c # s \<in> rx_lang r"
proof (induction r arbitrary: s)
  case (RSeq a b)
  have "c # s \<in> rx_lang (RSeq a b) \<longleftrightarrow>
      (\<exists>u v. s = u @ v \<and> c # u \<in> rx_lang a \<and> v \<in> rx_lang b) \<or>
      ([] \<in> rx_lang a \<and> c # s \<in> rx_lang b)"
    by (auto simp: Cons_eq_append_conv)
  with RSeq show ?case by (auto simp: rx_null_lang)
next
  case (RStar a)
  have "c # s \<in> star_of (rx_lang a) \<longleftrightarrow>
      (\<exists>u v. s = u @ v \<and> c # u \<in> rx_lang a \<and> v \<in> star_of (rx_lang a))"
    by (auto dest: star_of_ConsD) (metis append_Cons star_app)
  with RStar show ?case by auto
qed auto

lemma rx_match_lang: "rx_match r s \<longleftrightarrow> s \<in> rx_lang r"
  unfolding rx_match_def
  by (induction s arbitrary: r) (simp_all add: rx_null_lang rx_deriv_lang)

section \<open>The languages of the derived forms\<close>

lemma lang_ROpt: "rx_lang (ROpt r) = insert [] (rx_lang r)"
  by (simp add: ROpt_def)

lemma lang_RChr: "rx_lang (RChr c) = {[c]}"
  by (auto simp: RChr_def)

lemma lang_RPlus: "rx_lang (RPlus r) = {u @ v |u v. u \<in> rx_lang r \<and> v \<in> star_of (rx_lang r)}"
  by (simp add: RPlus_def)

lemma star_of_cls: "star_of {[c] |c. P c} = {s. list_all P s}"
proof (intro equalityI subsetI)
  fix s assume "s \<in> star_of {[c] |c. P c}"
  then show "s \<in> {s. list_all P s}" by induction auto
next
  fix s assume "s \<in> {s. list_all P s}"
  then show "s \<in> star_of {[c] |c. P c}"
  proof (induction s)
    case (Cons c s)
    then have "[c] @ s \<in> star_of {[c] |c. P c}" by (intro star_app) auto
    then show ?case by simp
  qed simp
qed

lemma lang_RStar_cls: "rx_lang (RStar (RCls P)) = {s. list_all P s}"
  by (simp add: star_of_cls)

lemma lang_RSeq_cls: "rx_lang (RSeq (RCls P) r) = {c # v |c v. P c \<and> v \<in> rx_lang r}"
  by auto (metis append_Cons append_Nil)

lemma lang_RPlus_cls: "rx_lang (RPlus (RCls P)) = {s. s \<noteq> [] \<and> list_all P s}"
proof -
  have "s \<noteq> [] \<and> list_all P s \<longleftrightarrow> (\<exists>c t. s = c # t \<and> P c \<and> list_all P t)" for s
    by (cases s) auto
  then show ?thesis unfolding RPlus_def lang_RSeq_cls lang_RStar_cls by auto
qed

lemma lang_RUpTo_cls: "rx_lang (RUpTo n (RCls P)) = {s. length s \<le> n \<and> list_all P s}"
proof (induction n)
  case (Suc n)
  have "length s \<le> Suc n \<and> list_all P s \<longleftrightarrow>
      s = [] \<or> (\<exists>c t. s = c # t \<and> P c \<and> length t \<le> n \<and> list_all P t)" for s
    by (cases s) auto
  then show ?case unfolding RUpTo.simps lang_ROpt lang_RSeq_cls Suc by auto
qed auto

end
