(* ===== verification/Validate.thy ===== *)
theory Validate
  imports Regex AppModel
begin

text \<open>
  \<open>internal/app/validate.go\<close>: the checks at the trust boundary for strings that end up in
  worker shell commands, file paths or the \<open>.env\<close> file, and the rendering of that file.
  The regular expressions are written out as in the source; \<open>path.Clean\<close> (package \<open>path\<close>)
  is modelled on the list of path elements.
\<close>

section \<open>Definitions\<close>

definition is_lower_alnum :: "char \<Rightarrow> bool" where
  "is_lower_alnum c \<longleftrightarrow> CHR ''a'' \<le> c \<and> c \<le> CHR ''z'' \<or> is_digit c"

definition is_alpha :: "char \<Rightarrow> bool" where
  "is_alpha c \<longleftrightarrow> (CHR ''A'' \<le> c \<and> c \<le> CHR ''Z'') \<or> (CHR ''a'' \<le> c \<and> c \<le> CHR ''z'')"

text \<open>\<open>[a-z0-9]([a-z0-9-]{0,61}[a-z0-9])?\<close>\<close>

definition labelRe :: rx where
  "labelRe = RSeq (RCls is_lower_alnum)
     (ROpt (RSeq (RUpTo 61 (RCls (\<lambda>c. is_lower_alnum c \<or> c = CHR ''-''))) (RCls is_lower_alnum)))"

definition domainRe :: rx where
  "domainRe = RSeq labelRe (RPlus (RSeq (RChr CHR ''.'') labelRe))"

definition envKeyRe :: rx where
  "envKeyRe = RSeq (RCls (\<lambda>c. is_alpha c \<or> c = CHR ''_''))
     (RStar (RCls (\<lambda>c. is_alpha c \<or> is_digit c \<or> c = CHR ''_'')))"

definition path_char :: "char \<Rightarrow> bool" where
  "path_char c \<longleftrightarrow> is_alpha c \<or> is_digit c \<or> c = CHR ''.'' \<or> c = CHR ''_'' \<or> c = CHR ''/'' \<or> c = CHR ''-''"

definition filePathRe :: rx where
  "filePathRe = RPlus (RCls path_char)"

text \<open>\<open>path.Clean\<close>: the elements kept so far, the last one first.\<close>

definition clean_step :: "bool \<Rightarrow> string list \<Rightarrow> string \<Rightarrow> string list" where
  "clean_step rooted out e =
     (if e = [] \<or> e = ''.'' then out
      else if e = ''..'' then
        (case out of [] \<Rightarrow> (if rooted then [] else [''..''])
         | x # xs \<Rightarrow> if x = ''..'' then ''..'' # out else xs)
      else e # out)"

definition Clean :: "string \<Rightarrow> string" where
  "Clean p =
     (if p = [] then ''.''
      else let rooted = (hd p = CHR ''/'');
               out = rev (foldl (clean_step rooted) [] (Split1 CHR ''/'' p))
           in if rooted then CHR ''/'' # Join out ''/''
              else if out = [] then ''.'' else Join out ''/'')"

definition ValidDomain :: "string \<Rightarrow> string result" where
  "ValidDomain d =
     (let n = ToLower (TrimSpace d)
      in if \<not> rx_match domainRe n then Inl (''invalid domain '' @ Quote d) else Inr n)"

definition ValidFilePath :: "string \<Rightarrow> string result" where
  "ValidFilePath p =
     (let c = Clean (TrimSpace p)
      in if c = ''.'' \<or> HasPrefix c ''/'' \<or> c = ''..'' \<or> HasPrefix c ''../'' \<or> \<not> rx_match filePathRe c
         then Inl (''invalid file path '' @ Quote p) else Inr c)"

definition ValidEnvKey :: "string \<Rightarrow> unit result" where
  "ValidEnvKey k = (if \<not> rx_match envKeyRe k then Inl (''invalid env key '' @ Quote k) else Inr ())"

fun validateDomains :: "string list \<Rightarrow> unit result" where
  "validateDomains [] = Inr ()"
| "validateDomains (d # ds) =
     (if d = [] then validateDomains ds
      else case ValidDomain d of Inl e \<Rightarrow> Inl e | Inr _ \<Rightarrow> validateDomains ds)"

fun validateEnvKeys :: "string list \<Rightarrow> string list \<Rightarrow> unit result" where
  "validateEnvKeys seen [] = Inr ()"
| "validateEnvKeys seen (k0 # ks) =
     (let k = TrimSpace k0
      in if k = [] then validateEnvKeys seen ks
         else case ValidEnvKey k of Inl e \<Rightarrow> Inl e
         | Inr _ \<Rightarrow> if k \<in> set seen then Inl (''environment variable '' @ k @ '' is listed twice'')
                   else validateEnvKeys (k # seen) ks)"

fun validateFilePaths :: "string list \<Rightarrow> unit result" where
  "validateFilePaths [] = Inr ()"
| "validateFilePaths (p # ps) =
     (if TrimSpace p \<noteq> [] then (case ValidFilePath p of Inl e \<Rightarrow> Inl e | Inr _ \<Rightarrow> validateFilePaths ps)
      else validateFilePaths ps)"

text \<open>The three loops of \<open>validateForm\<close>; the form is given by its fields \<open>env_key\<close> and \<open>file_path\<close>.\<close>

definition validateForm :: "string list \<Rightarrow> string list \<Rightarrow> string list \<Rightarrow> unit result" where
  "validateForm env_key file_path domains =
     (case validateDomains domains of Inl e \<Rightarrow> Inl e
      | Inr _ \<Rightarrow> (case validateEnvKeys [] env_key of Inl e \<Rightarrow> Inl e
      | Inr _ \<Rightarrow> validateFilePaths file_path))"

definition envEscaper :: "char \<Rightarrow> string" where
  "envEscaper c =
     (if c = CHR 0x5C then [CHR 0x5C, CHR 0x5C]
      else if c = CHR 0x22 then [CHR 0x5C, CHR 0x22]
      else if c = CHR 0x0A then [CHR 0x5C, CHR ''n'']
      else if c = CHR 0x0D then [CHR 0x5C, CHR ''r'']
      else if c = CHR ''$'' then ''$$''
      else [c])"

definition envFile :: "AppSecret list \<Rightarrow> string" where
  "envFile secrets = concat (map (\<lambda>s.
     sec_Key s @ [CHR ''='', CHR 0x22] @ ByteReplace envEscaper (TrimSpace (sec_Value s))
       @ [CHR 0x22, CHR 0x0A]) secrets)"

section \<open>Reference definitions\<close>

text \<open>A host name label, and a host name as at least two labels.\<close>

definition valid_label :: "string \<Rightarrow> bool" where
  "valid_label l \<longleftrightarrow> l \<noteq> [] \<and> length l \<le> 63 \<and> list_all (\<lambda>c. is_lower_alnum c \<or> c = CHR ''-'') l
     \<and> is_lower_alnum (hd l) \<and> is_lower_alnum (last l)"

definition valid_hostname :: "string \<Rightarrow> bool" where
  "valid_hostname d \<longleftrightarrow> (\<exists>ls. 2 \<le> length ls \<and> list_all valid_label ls \<and> d = Join ls ''.'')"

text \<open>A path below the app folder: every element is a proper name.\<close>

definition path_inside :: "string \<Rightarrow> bool" where
  "path_inside p \<longleftrightarrow> (\<forall>e \<in> set (Split1 CHR ''/'' p). e \<noteq> [] \<and> e \<noteq> ''.'' \<and> e \<noteq> ''..'')"

text \<open>
  A reader for lines \<open>KEY="value"\<close> with the escapes of double-quoted values: the value and
  the rest of the text after the closing quote.
\<close>

fun env_value :: "string \<Rightarrow> (string \<times> string) option" where
  "env_value [] = None"
| "env_value [c] = (if c = CHR 0x22 then Some ([], []) else None)"
| "env_value (c # d # s) =
     (if c = CHR 0x22 then Some ([], d # s)
      else if c = CHR 0x5C then
        map_option (\<lambda>(v, rest). ((if d = CHR ''n'' then CHR 0x0A else if d = CHR ''r'' then CHR 0x0D else d) # v, rest))
          (env_value s)
      else if c = CHR ''$'' \<and> d = CHR ''$'' then map_option (\<lambda>(v, rest). (CHR ''$'' # v, rest)) (env_value s)
      else if c = CHR 0x0A then None
      else map_option (\<lambda>(v, rest). (c # v, rest)) (env_value (d # s)))"

fun env_lines :: "nat \<Rightarrow> string \<Rightarrow> (string \<times> string) list option" where
  "env_lines 0 s = (if s = [] then Some [] else None)"
| "env_lines (Suc n) s =
     (case Cut1 CHR ''='' s of (k, rest, found) \<Rightarrow>
        if \<not> found \<or> \<not> HasPrefix rest [CHR 0x22] then None
        else (case env_value (tl rest) of None \<Rightarrow> None
          | Some (v, rest') \<Rightarrow>
              if HasPrefix rest' [CHR 0x0A] then map_option (\<lambda>kvs. (k, v) # kvs) (env_lines n (tl rest'))
              else None))"

section \<open>Domains\<close>

lemma lower_alnum_graphic: "is_lower_alnum c \<or> c = CHR ''-'' \<or> c = CHR ''.'' \<Longrightarrow> graphic c \<and> lower_ascii c"
  by (auto simp: is_lower_alnum_def is_digit_def graphic_def lower_ascii_def less_eq_char_def)

lemma label_lang: "rx_lang labelRe = {l. valid_label l}"
proof (intro equalityI subsetI)
  fix l assume "l \<in> rx_lang labelRe"
  then show "l \<in> {l. valid_label l}"
    by (auto simp: labelRe_def lang_ROpt lang_RUpTo_cls valid_label_def)
next
  fix l assume "l \<in> {l. valid_label l}"
  then obtain c t where l: "l = c # t" and t: "valid_label (c # t)"
    by (cases l) (auto simp: valid_label_def)
  show "l \<in> rx_lang labelRe"
  proof (cases "t = []")
    case True
    with t l show ?thesis
      unfolding labelRe_def lang_RSeq_cls lang_ROpt by (simp add: valid_label_def)
  next
    case False
    then obtain u x where "t = u @ [x]" by (metis rev_exhaust)
    moreover from this t have "u @ [x] \<in> rx_lang
        (RSeq (RUpTo 61 (RCls (\<lambda>c. is_lower_alnum c \<or> c = CHR ''-''))) (RCls is_lower_alnum))"
      by (auto simp: valid_label_def lang_RUpTo_cls simp del: RUpTo.simps)
    ultimately show ?thesis using t l
      unfolding labelRe_def lang_RSeq_cls lang_ROpt by (simp add: valid_label_def)
  qed
qed

lemma star_labels:
  "star_of {CHR ''.'' # l |l. valid_label l} = {concat (map (\<lambda>l. CHR ''.'' # l) ls) |ls. list_all valid_label ls}"
proof (intro equalityI subsetI)
  fix s assume "s \<in> star_of {CHR ''.'' # l |l. valid_label l}"
  then show "s \<in> {concat (map (\<lambda>l. CHR ''.'' # l) ls) |ls. list_all valid_label ls}"
  proof induction
    case star_Nil
    then show ?case by (auto intro: exI [where x = "[]"])
  next
    case (star_app u v)
    then obtain l ls where "u = CHR ''.'' # l" "valid_label l"
      "v = concat (map (\<lambda>l. CHR ''.'' # l) ls)" "list_all valid_label ls" by auto
    then show ?case by (auto intro!: exI [where x = "l # ls"])
  qed
next
  fix s assume "s \<in> {concat (map (\<lambda>l. CHR ''.'' # l) ls) |ls. list_all valid_label ls}"
  then obtain ls where "s = concat (map (\<lambda>l. CHR ''.'' # l) ls)" "list_all valid_label ls" by auto
  then show "s \<in> star_of {CHR ''.'' # l |l. valid_label l}"
  proof (induction ls arbitrary: s)
    case (Cons l ls)
    then have "(CHR ''.'' # l) @ concat (map (\<lambda>l. CHR ''.'' # l) ls) \<in> star_of {CHR ''.'' # l |l. valid_label l}"
      by (intro star_app) auto
    with Cons.prems show ?case by simp
  qed simp
qed

lemma Join_dots: "Join (l # ls) ''.'' = l @ concat (map (\<lambda>l. CHR ''.'' # l) ls)"
  by (induction ls arbitrary: l) (auto simp: Join_Cons)

lemma domain_lang: "rx_lang domainRe = {d. valid_hostname d}"
proof -
  have dot: "rx_lang (RSeq (RChr CHR ''.'') labelRe) = {CHR ''.'' # l |l. valid_label l}"
    by (auto simp: lang_RChr label_lang)
  have "d \<in> rx_lang domainRe \<longleftrightarrow> (\<exists>l m ls. d = l @ (CHR ''.'' # m) @ concat (map (\<lambda>l. CHR ''.'' # l) ls)
      \<and> valid_label l \<and> valid_label m \<and> list_all valid_label ls)" for d
    unfolding domainRe_def rx_lang.simps(4) [of labelRe] lang_RPlus dot star_labels label_lang
    by blast
  moreover have "valid_hostname d \<longleftrightarrow> (\<exists>l m ls. d = Join (l # m # ls) ''.''
      \<and> valid_label l \<and> valid_label m \<and> list_all valid_label ls)" for d
  proof
    assume "valid_hostname d"
    then obtain ls where ls: "2 \<le> length ls" "list_all valid_label ls" "d = Join ls ''.''"
      by (auto simp: valid_hostname_def)
    then obtain l m ms where "ls = l # m # ms" by (cases ls; cases "tl ls") auto
    with ls show "\<exists>l m ls. d = Join (l # m # ls) ''.'' \<and> valid_label l \<and> valid_label m \<and> list_all valid_label ls"
      by auto
  next
    assume "\<exists>l m ls. d = Join (l # m # ls) ''.'' \<and> valid_label l \<and> valid_label m \<and> list_all valid_label ls"
    then obtain l m ls where "d = Join (l # m # ls) ''.''" "list_all valid_label (l # m # ls)" by auto
    then show "valid_hostname d" unfolding valid_hostname_def
      by (intro exI [where x = "l # m # ls"]) auto
  qed
  ultimately show ?thesis by (auto simp: Join_dots)
qed

lemma valid_hostname_chars:
  assumes "valid_hostname d"
  shows "list_all (\<lambda>c. is_lower_alnum c \<or> c = CHR ''-'' \<or> c = CHR ''.'') d"
proof -
  from assms obtain ls where "list_all valid_label ls" "d = Join ls ''.''"
    by (auto simp: valid_hostname_def)
  then show ?thesis using set_Join [of ls "''.''"]
    by (fastforce simp: list_all_iff valid_label_def)
qed

lemma ValidDomain_normal: "valid_hostname d \<Longrightarrow> ToLower (TrimSpace d) = d"
proof -
  assume "valid_hostname d"
  then have "list_all (\<lambda>c. graphic c \<and> lower_ascii c) d"
    using valid_hostname_chars lower_alnum_graphic by (auto simp: list_all_iff)
  then show ?thesis by (simp add: TrimSpace_graphic ToLower_id list_all_iff)
qed

lemma ValidDomain_Inr_iff: "ValidDomain d = Inr n \<longleftrightarrow> n = ToLower (TrimSpace d) \<and> valid_hostname n"
  by (auto simp: ValidDomain_def Let_def rx_match_lang domain_lang)

section \<open>File paths\<close>

definition name_elem :: "string \<Rightarrow> bool" where
  "name_elem e \<longleftrightarrow> e \<noteq> [] \<and> e \<noteq> ''.'' \<and> e \<noteq> ''..'' \<and> CHR ''/'' \<notin> set e"

text \<open>Without a root the kept elements are names on top of a block of \<open>..\<close>.\<close>

lemma clean_step_shape:
  assumes "list_all name_elem ns" and "CHR ''/'' \<notin> set e"
  shows "\<exists>ns' k'. clean_step False (ns @ replicate k ''..'') e = ns' @ replicate k' ''..'' \<and> list_all name_elem ns'"
proof -
  consider "e = [] \<or> e = ''.''" | "e = ''..''" "ns = []" | n nt where "e = ''..''" "ns = n # nt"
    | "e \<noteq> []" "e \<noteq> ''.''" "e \<noteq> ''..''" by (cases ns) auto
  then show ?thesis
  proof cases
    case 1
    with assms show ?thesis by (auto simp: clean_step_def)
  next
    case 2
    then have "clean_step False (ns @ replicate k ''..'') e = replicate (Suc k) ''..''"
      by (cases k) (auto simp: clean_step_def)
    then show ?thesis by (intro exI [where x = "[]"] exI [where x = "Suc k"]) simp
  next
    case 3
    with assms show ?thesis
      by (intro exI [where x = nt] exI [where x = k]) (auto simp: clean_step_def name_elem_def)
  next
    case 4
    with assms show ?thesis
      by (intro exI [where x = "e # ns"] exI [where x = k]) (auto simp: clean_step_def name_elem_def)
  qed
qed

lemma clean_fold_shape:
  assumes "list_all name_elem ns" and "\<And>e. e \<in> set es \<Longrightarrow> CHR ''/'' \<notin> set e"
  shows "\<exists>ns' k'. foldl (clean_step False) (ns @ replicate k ''..'') es = ns' @ replicate k' ''..''
    \<and> list_all name_elem ns'"
  using assms
proof (induction es arbitrary: ns k)
  case (Cons e es)
  then show ?case using clean_step_shape [of ns e k] by fastforce
qed auto

lemma clean_fold_names:
  "list_all name_elem es \<Longrightarrow> foldl (clean_step r) out es = rev es @ out"
  by (induction es arbitrary: out) (auto simp: clean_step_def name_elem_def)

lemma path_inside_names: "path_inside p \<longleftrightarrow> list_all name_elem (Split1 CHR ''/'' p)"
  using Split1_free [of _ "CHR ''/''" p]
  by (auto simp: path_inside_def name_elem_def list_all_iff)

lemma path_inside_start: "path_inside p \<Longrightarrow> p \<noteq> [] \<and> hd p \<noteq> CHR ''/''"
  by (cases p) (simp_all add: path_inside_def split: if_splits)

lemma Clean_inside: "path_inside p \<Longrightarrow> Clean p = p"
proof -
  assume p: "path_inside p"
  then have "p \<noteq> []" "hd p \<noteq> CHR ''/''" by (auto dest: path_inside_start)
  moreover have "foldl (clean_step r) [] (Split1 CHR ''/'' p) = rev (Split1 CHR ''/'' p)" for r
    using p by (simp add: path_inside_names clean_fold_names)
  ultimately show ?thesis by (simp add: Clean_def)
qed

lemma Clean_accepted_inside:
  assumes "Clean p \<noteq> ''.''" "\<not> HasPrefix (Clean p) ''/''" "Clean p \<noteq> ''..''" "\<not> HasPrefix (Clean p) ''../''"
  shows "path_inside (Clean p)"
proof -
  from assms have p: "p \<noteq> []" "hd p \<noteq> CHR ''/''"
    by (auto simp: Clean_def Let_def HasPrefix_def split: if_splits)
  obtain ns k where ns: "foldl (clean_step False) [] (Split1 CHR ''/'' p) = ns @ replicate k ''..''"
      "list_all name_elem ns"
    using clean_fold_shape [of "[]" "Split1 CHR ''/'' p" 0] Split1_free by auto
  have c: "Clean p = (if ns = [] \<and> k = 0 then ''.'' else Join (replicate k ''..'' @ rev ns) ''/'')"
    using p ns by (simp add: Clean_def)
  have "k = 0"
  proof (rule ccontr)
    assume "k \<noteq> 0"
    then obtain m where "k = Suc m" by (cases k) auto
    then have "Clean p = Join (''..'' # replicate m ''..'' @ rev ns) ''/''" using c by simp
    with assms(3,4) show False
      by (cases "replicate m ''..'' @ rev ns = []") (simp_all add: Join_Cons HasPrefix_def)
  qed
  with c assms(1) have "ns \<noteq> []" by (cases "ns = []") simp_all
  with c \<open>k = 0\<close> have "Clean p = Join (rev ns) ''/''" by simp
  then have "Split1 CHR ''/'' (Clean p) = rev ns"
    using ns(2) \<open>ns \<noteq> []\<close> Split1_Join [of "rev ns" "CHR ''/''"]
    by (simp add: list_all_iff name_elem_def)
  with ns(2) show ?thesis by (simp add: path_inside_names list_all_iff)
qed

lemma filePath_match: "rx_match filePathRe c \<longleftrightarrow> c \<noteq> [] \<and> list_all path_char c"
  by (simp add: rx_match_lang filePathRe_def lang_RPlus_cls)

lemma path_char_graphic: "path_char c \<Longrightarrow> graphic c"
  by (auto simp: path_char_def is_alpha_def is_digit_def graphic_def less_eq_char_def)

lemma path_inside_rejects:
  assumes "path_inside c"
  shows "c \<noteq> ''.''" "c \<noteq> ''..''" "\<not> HasPrefix c ''/''" "\<not> HasPrefix c ''../''"
proof -
  show "c \<noteq> ''.''"
  proof
    assume "c = ''.''"
    with assms show False by (simp add: path_inside_def)
  qed
  show "c \<noteq> ''..''"
  proof
    assume "c = ''..''"
    with assms show False by (simp add: path_inside_def)
  qed
  show "\<not> HasPrefix c ''/''"
    using path_inside_start [OF assms] by (cases c) (simp_all add: HasPrefix_def)
  show "\<not> HasPrefix c ''../''"
  proof
    assume "HasPrefix c ''../''"
    then obtain t where "c = ''..'' @ CHR ''/'' # t" unfolding HasPrefix_iff by auto
    then have "Split1 CHR ''/'' c = ''..'' # Split1 CHR ''/'' t"
      by (simp only: Split1_append_sep) simp
    with assms show False unfolding path_inside_def by simp
  qed
qed

lemma ValidFilePath_Inr_iff:
  "ValidFilePath p = Inr c \<longleftrightarrow> c = Clean (TrimSpace p) \<and> path_inside c \<and> list_all path_char c"
proof
  assume "ValidFilePath p = Inr c"
  then have c: "c = Clean (TrimSpace p)" "c \<noteq> ''.''" "\<not> HasPrefix c ''/''" "c \<noteq> ''..''"
      "\<not> HasPrefix c ''../''" "rx_match filePathRe c"
    by (auto simp: ValidFilePath_def Let_def split: if_splits)
  then show "c = Clean (TrimSpace p) \<and> path_inside c \<and> list_all path_char c"
    using Clean_accepted_inside by (simp add: filePath_match)
next
  assume "c = Clean (TrimSpace p) \<and> path_inside c \<and> list_all path_char c"
  then have c: "Clean (TrimSpace p) = c" and i: "path_inside c" and l: "list_all path_char c"
    by blast+
  from l path_inside_rejects [OF i] path_inside_start [OF i] show "ValidFilePath p = Inr c"
    by (simp add: ValidFilePath_def Let_def filePath_match c)
qed

lemma ValidFilePath_normal: "path_inside c \<Longrightarrow> list_all path_char c \<Longrightarrow> ValidFilePath c = Inr c"
proof -
  assume c: "path_inside c" "list_all path_char c"
  then have "TrimSpace c = c"
    by (auto intro!: TrimSpace_graphic simp: list_all_iff path_char_graphic)
  with c show ?thesis by (simp add: ValidFilePath_Inr_iff Clean_inside)
qed

lemmas path_char_eval = path_char_def is_alpha_def is_digit_def less_eq_char_def

section \<open>Environment keys and the .env file\<close>

lemma envKey_match:
  "rx_match envKeyRe k \<longleftrightarrow> k \<noteq> [] \<and> (is_alpha (hd k) \<or> hd k = CHR ''_'')
     \<and> list_all (\<lambda>c. is_alpha c \<or> is_digit c \<or> c = CHR ''_'') (tl k)"
  unfolding rx_match_lang envKeyRe_def lang_RSeq_cls lang_RStar_cls by (cases k) auto

lemma ValidEnvKey_chars:
  "ValidEnvKey k = Inr () \<Longrightarrow> k \<noteq> [] \<and> list_all (\<lambda>c. is_alpha c \<or> is_digit c \<or> c = CHR ''_'') k"
  by (cases k) (auto simp: ValidEnvKey_def envKey_match split: if_splits)

lemma ValidEnvKey_no_eq: "ValidEnvKey k = Inr () \<Longrightarrow> CHR ''='' \<notin> set k"
  by (fastforce dest!: ValidEnvKey_chars
      simp: list_all_iff is_alpha_def is_digit_def less_eq_char_def)

lemma env_value_escaped:
  "env_value (ByteReplace envEscaper v @ CHR 0x22 # rest) = Some (v, rest)"
proof (induction v)
  case Nil
  then show ?case by (cases rest) auto
next
  case (Cons c v)
  obtain d s where "ByteReplace envEscaper v @ CHR 0x22 # rest = d # s"
    by (cases "ByteReplace envEscaper v") auto
  then have "c \<notin> {CHR 0x5C, CHR 0x22, CHR 0x0A, CHR ''$''} \<Longrightarrow>
      env_value (c # ByteReplace envEscaper v @ CHR 0x22 # rest) = Some (c # v, rest)"
    using Cons by simp
  moreover have "env_value (CHR 0x5C # x # ByteReplace envEscaper v @ CHR 0x22 # rest)
      = Some ((if x = CHR ''n'' then CHR 0x0A else if x = CHR ''r'' then CHR 0x0D else x) # v, rest)" for x
    using Cons by simp
  moreover have "env_value (CHR ''$'' # CHR ''$'' # ByteReplace envEscaper v @ CHR 0x22 # rest)
      = Some (CHR ''$'' # v, rest)"
    using Cons by simp
  ultimately show ?case by (simp add: envEscaper_def [of c])
qed

lemma Cut1_append: "c \<notin> set k \<Longrightarrow> Cut1 c (k @ c # s) = (k, s, True)"
  by (induction k) (auto simp: Cut1_def)

lemma env_lines_envFile:
  "\<forall>s\<in>set secrets. CHR ''='' \<notin> set (sec_Key s) \<Longrightarrow>
   env_lines (length secrets) (envFile secrets)
     = Some (map (\<lambda>s. (sec_Key s, TrimSpace (sec_Value s))) secrets)"
proof (induction secrets)
  case Nil
  then show ?case by (simp add: envFile_def)
next
  case (Cons s secrets)
  have "envFile (s # secrets) = sec_Key s @ CHR ''='' # (CHR 0x22 #
      (ByteReplace envEscaper (TrimSpace (sec_Value s)) @ CHR 0x22 # (CHR 0x0A # envFile secrets)))"
    by (simp add: envFile_def)
  with Cons show ?case by (simp add: Cut1_append env_value_escaped HasPrefix_def)
qed

section \<open>The form\<close>

lemma validateDomains_ok: "validateDomains ds = Inr () \<longleftrightarrow> (\<forall>d\<in>set ds. d \<noteq> [] \<longrightarrow> (\<exists>n. ValidDomain d = Inr n))"
  by (induction ds) (auto split: sum.splits)

lemma validateEnvKeys_ok:
  "validateEnvKeys seen ks = Inr () \<longleftrightarrow>
     (let ts = filter (\<lambda>k. k \<noteq> []) (map TrimSpace ks)
      in distinct ts \<and> set ts \<inter> set seen = {} \<and> (\<forall>k\<in>set ts. ValidEnvKey k = Inr ()))"
  by (induction seen ks rule: validateEnvKeys.induct) (auto simp: Let_def split: sum.splits)

lemma validateFilePaths_ok:
  "validateFilePaths ps = Inr () \<longleftrightarrow> (\<forall>p\<in>set ps. TrimSpace p \<noteq> [] \<longrightarrow> (\<exists>c. ValidFilePath p = Inr c))"
  by (induction ps) (auto split: sum.splits)

section \<open>Properties\<close>

text \<open>
  C40. \<open>ValidDomain\<close> accepts exactly the strings that are a host name after trimming and
  lower-casing (at least two labels of 1 to 63 characters from a-z, 0-9 and inner hyphens,
  joined by dots), and returns that host name; the pattern \<open>domainRe\<close> is this reference
  definition. A returned name is a fixed point.
\<close>

theorem ValidDomain_correct:
  "(case ValidDomain d of Inr n \<Rightarrow> n = ToLower (TrimSpace d) \<and> valid_hostname n \<and> ValidDomain n = Inr n
    | Inl _ \<Rightarrow> \<not> valid_hostname (ToLower (TrimSpace d)))"
proof (cases "valid_hostname (ToLower (TrimSpace d))")
  case True
  then have "ValidDomain d = Inr (ToLower (TrimSpace d))" by (simp add: ValidDomain_Inr_iff)
  moreover have "ValidDomain (ToLower (TrimSpace d)) = Inr (ToLower (TrimSpace d))"
    using True ValidDomain_normal [OF True] by (simp add: ValidDomain_Inr_iff)
  ultimately show ?thesis using True by simp
next
  case False
  then show ?thesis
    by (cases "ValidDomain d") (auto simp: ValidDomain_Inr_iff)
qed

text \<open>
  A path returned by \<open>ValidFilePath\<close> lies inside the app folder: no element is empty,
  \<open>.\<close> or \<open>..\<close>, every character is in \<open>[A-Za-z0-9._/-]\<close>, and checking it again returns it
  unchanged. Conversely every such path is accepted as it is.
\<close>

theorem ValidFilePath_inside:
  "(\<forall>p c. ValidFilePath p = Inr c \<longrightarrow> path_inside c \<and> list_all path_char c \<and> ValidFilePath c = Inr c)
   \<and> (\<forall>c. path_inside c \<and> list_all path_char c \<longrightarrow> ValidFilePath c = Inr c)"
  using ValidFilePath_normal unfolding ValidFilePath_Inr_iff by blast

theorem ValidFilePath_inside_witness:
  "ValidFilePath ''./conf//a/../nginx.conf'' = Inr ''conf/nginx.conf''
    \<and> ValidFilePath ''conf/nginx.conf'' = Inr ''conf/nginx.conf''"
proof -
  have "TrimSpace ''./conf//a/../nginx.conf'' = ''./conf//a/../nginx.conf''"
    by (rule TrimSpace_id) (simp add: graphic_def less_eq_char_def)
  moreover have "Clean ''./conf//a/../nginx.conf'' = ''conf/nginx.conf''"
    by (simp add: Clean_def clean_step_def)
  moreover have "path_inside ''conf/nginx.conf''" by (simp add: path_inside_def)
  moreover have "list_all path_char ''conf/nginx.conf''" by (simp add: path_char_eval)
  ultimately have *: "ValidFilePath ''./conf//a/../nginx.conf'' = Inr ''conf/nginx.conf''"
    by (simp add: ValidFilePath_Inr_iff)
  with ValidFilePath_inside show ?thesis by blast
qed

text \<open>
  Reading the \<open>.env\<close> file back with the escape rules of double-quoted values returns
  every key with its trimmed value, in order: no value can end its line early, add a line or
  change another variable, whatever bytes it holds.
\<close>

theorem envFile_roundtrip:
  assumes "\<forall>s\<in>set secrets. ValidEnvKey (sec_Key s) = Inr ()"
  shows "env_lines (length secrets) (envFile secrets)
    = Some (map (\<lambda>s. (sec_Key s, TrimSpace (sec_Value s))) secrets)"
  using assms by (intro env_lines_envFile) (auto dest: ValidEnvKey_no_eq)

theorem envFile_roundtrip_witness:
  "env_lines 1 (envFile [\<lparr>sec_ID = 1, sec_AppID = 1, sec_Key = ''PASS'',
      sec_Value = [CHR ''a'', CHR 0x22, CHR 0x0A, CHR ''$'', CHR ''b''], sec_IsSecret = True\<rparr>])
    = Some [(''PASS'', [CHR ''a'', CHR 0x22, CHR 0x0A, CHR ''$'', CHR ''b''])]"
proof -
  let ?s = "\<lparr>sec_ID = 1, sec_AppID = 1, sec_Key = ''PASS'',
      sec_Value = [CHR ''a'', CHR 0x22, CHR 0x0A, CHR ''$'', CHR ''b''], sec_IsSecret = True\<rparr>"
  have "ValidEnvKey ''PASS'' = Inr ()"
    by (simp add: ValidEnvKey_def envKey_match path_char_eval)
  then have "env_lines (length [?s]) (envFile [?s])
      = Some (map (\<lambda>s. (sec_Key s, TrimSpace (sec_Value s))) [?s])"
    by (intro envFile_roundtrip) simp
  moreover have "TrimSpace [CHR ''a'', CHR 0x22, CHR 0x0A, CHR ''$'', CHR ''b'']
      = [CHR ''a'', CHR 0x22, CHR 0x0A, CHR ''$'', CHR ''b'']"
    by (rule TrimSpace_id) (simp add: graphic_def less_eq_char_def)
  ultimately show ?thesis by simp
qed

text \<open>
  \<open>validateForm\<close> accepts a form exactly when every domain given is a host name, the
  trimmed non-empty variable names are valid and pairwise different, and every non-blank file
  path is valid.
\<close>

theorem validateForm_accepts:
  "validateForm env_key file_path domains = Inr () \<longleftrightarrow>
     (\<forall>d\<in>set domains. d \<noteq> [] \<longrightarrow> valid_hostname (ToLower (TrimSpace d))) \<and>
     (let ks = filter (\<lambda>k. k \<noteq> []) (map TrimSpace env_key)
      in distinct ks \<and> (\<forall>k\<in>set ks. ValidEnvKey k = Inr ())) \<and>
     (\<forall>p\<in>set file_path. TrimSpace p \<noteq> [] \<longrightarrow> (\<exists>c. ValidFilePath p = Inr c))"
  using validateDomains_ok [of domains] validateEnvKeys_ok [of "[]" env_key] validateFilePaths_ok [of file_path]
  by (auto simp: validateForm_def ValidDomain_Inr_iff Let_def split: sum.splits)

theorem validateForm_accepts_witness:
  "validateForm [''A_1'', [], ''B''] [''x/y.conf'', []] [''example.com'', []] = Inr ()"
proof -
  have "TrimSpace ''A_1'' = ''A_1''" "TrimSpace ''B'' = ''B''" "TrimSpace ''x/y.conf'' = ''x/y.conf''"
    by (rule TrimSpace_id; simp add: graphic_def less_eq_char_def)+
  moreover have "ValidEnvKey ''A_1'' = Inr ()" "ValidEnvKey ''B'' = Inr ()"
    by (simp_all add: ValidEnvKey_def envKey_match path_char_eval)
  moreover have "ValidFilePath ''x/y.conf'' = Inr ''x/y.conf''"
    using \<open>TrimSpace ''x/y.conf'' = ''x/y.conf''\<close>
    by (simp add: ValidFilePath_Inr_iff path_inside_def path_char_eval Clean_def clean_step_def)
  moreover have host: "valid_hostname ''example.com''"
    unfolding valid_hostname_def
    by (intro exI [where x = "[''example'', ''com'']"])
       (simp add: valid_label_def is_lower_alnum_def less_eq_char_def)
  moreover have "ToLower (TrimSpace ''example.com'') = ''example.com''"
    by (rule ValidDomain_normal [OF host])
  ultimately show ?thesis by (simp add: validateForm_accepts)
qed

end
