(* ===== verification/Shell.thy ===== *)
theory Shell
  imports Validate
begin

text \<open>
  Text that goes into shell commands on a worker: \<open>shellQuote\<close>, \<open>wrapTimeout\<close> and
  \<open>writeFileCmd\<close> of \<open>internal/ssh/client.go\<close>, \<open>redact\<close> of \<open>internal/app/service.go\<close>,
  \<open>escapeShell\<close> and \<open>sanitizeID\<close> of \<open>internal/caddy/client.go\<close>. The reference definition
  is \<open>sh_word\<close>, the quoting rules of the POSIX shell for one word; characters that start an
  expansion outside single quotes are not covered by it and make it fail.
\<close>

section \<open>Definitions\<close>

definition shellQuote :: "string \<Rightarrow> string" where
  "shellQuote s = [CHR 0x27] @ ReplaceAll s [CHR 0x27] [CHR 0x27, CHR 0x5C, CHR 0x27, CHR 0x27] @ [CHR 0x27]"

definition wrapTimeout :: "string \<Rightarrow> int \<Rightarrow> string" where
  "wrapTimeout cmd secs = ''timeout -k 10 '' @ Itoa secs @ '' sh -c '' @ shellQuote cmd"

text \<open>\<open>path.Dir\<close>: everything up to the last slash, cleaned.\<close>

definition Dir :: "string \<Rightarrow> string" where
  "Dir p = Clean (rev (dropWhile (\<lambda>c. c \<noteq> CHR ''/'') (rev p)))"

text \<open>The verb \<open>%o\<close>.\<close>

fun octal :: "nat \<Rightarrow> string" where
  "octal n = (if n < 8 then [digit_char n] else octal (n div 8) @ [digit_char (n mod 8)])"

declare octal.simps [simp del]

definition writeFileCmd :: "string \<Rightarrow> nat \<Rightarrow> string" where
  "writeFileCmd name mode =
     (let q = shellQuote name
      in ''mkdir -p '' @ shellQuote (Dir name) @ '' && (umask 077; cat > '' @ q @ '') && chmod ''
         @ octal mode @ '' '' @ q)"

definition redact :: "string \<Rightarrow> string \<Rightarrow> string" where
  "redact s secret = (if secret = [] then s else ReplaceAll s secret ''[REDACTED]'')"

definition sanitizeID :: "string \<Rightarrow> string" where
  "sanitizeID s = ''dockify-'' @ ByteReplace (\<lambda>c. if c = CHR ''.'' \<or> c = CHR ''*'' then ''-'' else [c]) s"

definition escapeShell :: "string \<Rightarrow> string" where
  "escapeShell s = ByteReplace
     (\<lambda>c. if c = CHR 0x27 then [CHR 0x27, CHR 0x22, CHR 0x27, CHR 0x22, CHR 0x27] else [c]) s"

section \<open>Reference definitions\<close>

datatype sh_mode = ShPlain | ShSingle | ShDouble

definition sh_meta :: "char \<Rightarrow> bool" where
  "sh_meta c \<longleftrightarrow> c \<in> {CHR '' '', CHR 0x09, CHR 0x0A, CHR '';'', CHR ''&'', CHR ''|'', CHR ''('', CHR '')'',
     CHR ''<'', CHR ''>''}"

definition sh_special :: "char \<Rightarrow> bool" where
  "sh_special c \<longleftrightarrow> c \<in> {CHR ''$'', CHR 0x60, CHR ''*'', CHR ''?'', CHR ''['', CHR ''~'', CHR ''#'', CHR ''{'', CHR ''}''}"

text \<open>The word at the front of a command line and what follows it.\<close>

fun sh_word :: "sh_mode \<Rightarrow> string \<Rightarrow> (string \<times> string) option" where
  "sh_word ShPlain [] = Some ([], [])"
| "sh_word ShSingle [] = None"
| "sh_word ShDouble [] = None"
| "sh_word ShSingle (c # s) =
     (if c = CHR 0x27 then sh_word ShPlain s else map_option (\<lambda>(w, r). (c # w, r)) (sh_word ShSingle s))"
| "sh_word ShDouble (c # s) =
     (if c = CHR 0x22 then sh_word ShPlain s
      else if c \<in> {CHR 0x5C, CHR ''$'', CHR 0x60} then None
      else map_option (\<lambda>(w, r). (c # w, r)) (sh_word ShDouble s))"
| "sh_word ShPlain [c] =
     (if c \<in> {CHR 0x27, CHR 0x22, CHR 0x5C} \<or> sh_special c then None
      else if sh_meta c then Some ([], [c]) else Some ([c], []))"
| "sh_word ShPlain (c # d # s) =
     (if c = CHR 0x27 then sh_word ShSingle (d # s)
      else if c = CHR 0x22 then sh_word ShDouble (d # s)
      else if c = CHR 0x5C then map_option (\<lambda>(w, r). (d # w, r)) (sh_word ShPlain s)
      else if sh_special c then None
      else if sh_meta c then Some ([], c # d # s)
      else map_option (\<lambda>(w, r). (c # w, r)) (sh_word ShPlain (d # s)))"

section \<open>Quoting\<close>

lemma sh_word_squote: "sh_word ShPlain (CHR 0x27 # c # s) = sh_word ShSingle (c # s)"
  by simp

lemma map_prepend:
  "map_option (\<lambda>(w, r). (c # w, r)) (map_option (\<lambda>(w, r). (u @ w, r)) x) = map_option (\<lambda>(w, r). ((c # u) @ w, r)) x"
  by (cases x) auto

lemma sh_word_quoted_tail:
  "sh_word ShSingle (ByteReplace (\<lambda>x. if x = CHR 0x27 then [CHR 0x27, CHR 0x5C, CHR 0x27, CHR 0x27] else [x]) s
      @ CHR 0x27 # rest) = map_option (\<lambda>(w, r). (s @ w, r)) (sh_word ShPlain rest)"
proof (induction s)
  case Nil
  then show ?case by (cases "sh_word ShPlain rest") auto
next
  case (Cons c s)
  obtain d t where dt: "ByteReplace (\<lambda>x. if x = CHR 0x27 then [CHR 0x27, CHR 0x5C, CHR 0x27, CHR 0x27] else [x]) s
      @ CHR 0x27 # rest = d # t"
    by (cases "ByteReplace (\<lambda>x. if x = CHR 0x27 then [CHR 0x27, CHR 0x5C, CHR 0x27, CHR 0x27] else [x]) s") auto
  show ?case
  proof (cases "c = CHR 0x27")
    case True
    then have "ByteReplace (\<lambda>x. if x = CHR 0x27 then [CHR 0x27, CHR 0x5C, CHR 0x27, CHR 0x27] else [x]) (c # s) @ CHR 0x27 # rest
        = CHR 0x27 # CHR 0x5C # CHR 0x27 # CHR 0x27 # d # t"
      using dt by simp
    moreover have "sh_word ShSingle (CHR 0x27 # CHR 0x5C # CHR 0x27 # CHR 0x27 # d # t)
        = map_option (\<lambda>(w, r). (CHR 0x27 # w, r)) (sh_word ShSingle (d # t))" by simp
    ultimately show ?thesis using True Cons dt by (simp only: map_prepend)
  next
    case False
    then have "ByteReplace (\<lambda>x. if x = CHR 0x27 then [CHR 0x27, CHR 0x5C, CHR 0x27, CHR 0x27] else [x]) (c # s) @ CHR 0x27 # rest = c # d # t"
      using dt by simp
    moreover have "sh_word ShSingle (c # d # t) = map_option (\<lambda>(w, r). (c # w, r)) (sh_word ShSingle (d # t))"
      using False by simp
    ultimately show ?thesis using Cons dt by (simp only: map_prepend)
  qed
qed

lemma sh_word_shellQuote:
  "sh_word ShPlain (shellQuote s @ rest) = map_option (\<lambda>(w, r). (s @ w, r)) (sh_word ShPlain rest)"
proof -
  obtain d t where "ByteReplace (\<lambda>x. if x = CHR 0x27 then [CHR 0x27, CHR 0x5C, CHR 0x27, CHR 0x27] else [x]) s
      @ CHR 0x27 # rest = d # t"
    by (cases "ByteReplace (\<lambda>x. if x = CHR 0x27 then [CHR 0x27, CHR 0x5C, CHR 0x27, CHR 0x27] else [x]) s") auto
  then show ?thesis using sh_word_quoted_tail [of s rest]
    by (simp add: shellQuote_def ReplaceAll_byte)
qed

lemma sh_word_escaped_tail:
  "sh_word ShSingle (escapeShell s @ CHR 0x27 # rest) = map_option (\<lambda>(w, r). (s @ w, r)) (sh_word ShPlain rest)"
proof (induction s)
  case Nil
  then show ?case by (cases "sh_word ShPlain rest") (auto simp: escapeShell_def)
next
  case (Cons c s)
  obtain d t where dt: "escapeShell s @ CHR 0x27 # rest = d # t"
    by (cases "escapeShell s") auto
  show ?case
  proof (cases "c = CHR 0x27")
    case True
    then have "escapeShell (c # s) @ CHR 0x27 # rest = CHR 0x27 # CHR 0x22 # CHR 0x27 # CHR 0x22 # CHR 0x27 # d # t"
      using dt by (simp add: escapeShell_def)
    moreover have "sh_word ShSingle (CHR 0x27 # CHR 0x22 # CHR 0x27 # CHR 0x22 # CHR 0x27 # d # t)
        = map_option (\<lambda>(w, r). (CHR 0x27 # w, r)) (sh_word ShSingle (d # t))" by simp
    ultimately show ?thesis using True Cons dt by (simp only: map_prepend)
  next
    case False
    then have "escapeShell (c # s) @ CHR 0x27 # rest = c # d # t"
      using dt by (simp add: escapeShell_def)
    moreover have "sh_word ShSingle (c # d # t) = map_option (\<lambda>(w, r). (c # w, r)) (sh_word ShSingle (d # t))"
      using False by simp
    ultimately show ?thesis using Cons dt by (simp only: map_prepend)
  qed
qed

lemma sh_meta_plain:
  assumes "sh_meta c"
  shows "c \<noteq> CHR 0x27" and "c \<noteq> CHR 0x22" and "c \<noteq> CHR 0x5C" and "\<not> sh_special c"
  using assms by (auto simp: sh_meta_def sh_special_def)

lemma sh_word_stop:
  assumes "rest = [] \<or> sh_meta (hd rest)"
  shows "sh_word ShPlain rest = Some ([], rest)"
proof (cases rest)
  case (Cons c t)
  with assms have "sh_meta c" by simp
  with Cons show ?thesis by (cases t) (simp_all add: sh_meta_plain)
qed simp

section \<open>Redaction\<close>

lemma ReplaceAll_prefix:
  assumes "set q \<inter> set new = {}" and "new \<noteq> []" and "HasPrefix (ReplaceAll s old new) q"
  shows "HasPrefix s q"
  using assms
proof (induction s old new arbitrary: q rule: ReplaceAll.induct)
  case (1 s old new)
  show ?case
  proof (cases "s = [] \<or> old = []")
    case True
    then have "ReplaceAll s old new = s" by (subst ReplaceAll.simps) simp
    with "1.prems" show ?thesis by simp
  next
    case False
    show ?thesis
    proof (cases "HasPrefix s old")
      case True
      with False have "ReplaceAll s old new = new @ ReplaceAll (drop (length old) s) old new"
        by (subst ReplaceAll.simps) simp
      with "1.prems" have "q = []"
        by (cases q; cases new) (auto simp: HasPrefix_def)
      then show ?thesis by (simp add: HasPrefix_def)
    next
      case no: False
      with False have eq: "ReplaceAll s old new = hd s # ReplaceAll (tl s) old new"
        by (subst ReplaceAll.simps) simp
      show ?thesis
      proof (cases q)
        case (Cons c q')
        with eq "1.prems" have "c = hd s" "HasPrefix (ReplaceAll (tl s) old new) q'"
          by (auto simp: HasPrefix_def)
        moreover from this "1.IH"(2) [OF False no, of q'] Cons "1.prems" have "HasPrefix (tl s) q'" by simp
        ultimately show ?thesis using False Cons by (cases s) (auto simp: HasPrefix_def)
      qed (simp add: HasPrefix_def)
    qed
  qed
qed

lemma Contains_Cons: "Contains (c # s) q \<longleftrightarrow> HasPrefix (c # s) q \<or> Contains s q"
  by (simp add: Contains_def)

lemma Contains_skip: "q \<noteq> [] \<Longrightarrow> hd q \<notin> set new \<Longrightarrow> Contains (new @ s) q \<longleftrightarrow> Contains s q"
  by (cases q; induction new) (auto simp: Contains_Cons HasPrefix_def)

lemma ReplaceAll_not_Contains:
  assumes "old \<noteq> []" and "set old \<inter> set new = {}" and "new \<noteq> []"
  shows "\<not> Contains (ReplaceAll s old new) old"
  using assms
proof (induction s old new rule: ReplaceAll.induct)
  case (1 s old new)
  show ?case
  proof (cases "s = []")
    case True
    then have "ReplaceAll s old new = []" by (subst ReplaceAll.simps) simp
    with "1.prems" show ?thesis by (cases old) (simp_all add: Contains_def)
  next
    case s: False
    show ?thesis
    proof (cases "HasPrefix s old")
      case True
      with s "1.prems" have "ReplaceAll s old new = new @ ReplaceAll (drop (length old) s) old new"
        by (subst ReplaceAll.simps) simp
      moreover have "hd old \<notin> set new" using "1.prems" by (cases old) auto
      moreover have "\<not> Contains (ReplaceAll (drop (length old) s) old new) old"
        using "1.IH"(1) s True "1.prems" by simp
      ultimately show ?thesis using "1.prems" by (simp add: Contains_skip)
    next
      case False
      with s "1.prems" have eq: "ReplaceAll s old new = hd s # ReplaceAll (tl s) old new"
        by (subst ReplaceAll.simps) simp
      moreover have "\<not> HasPrefix (ReplaceAll s old new) old"
        using ReplaceAll_prefix [of old new s old] False "1.prems" by auto
      moreover have "\<not> Contains (ReplaceAll (tl s) old new) old"
        using "1.IH"(2) s False "1.prems" by simp
      ultimately show ?thesis by (simp add: Contains_Cons)
    qed
  qed
qed

section \<open>Properties\<close>

text \<open>
  Whatever bytes a string holds, the shell reads \<open>shellQuote s\<close> as exactly the one
  word \<open>s\<close> when the end of the line or a separator follows: no user string that is quoted
  this way can end its argument or start another command.
\<close>

theorem shellQuote_word:
  assumes "rest = [] \<or> sh_meta (hd rest)"
  shows "sh_word ShPlain (shellQuote s @ rest) = Some (s, rest)"
  using sh_word_stop [OF assms] by (simp add: sh_word_shellQuote)

theorem shellQuote_word_witness:
  "sh_word ShPlain (shellQuote [CHR ''a'', CHR 0x27, CHR '';'', CHR ''$'', CHR 0x27] @ '' -p'')
     = Some ([CHR ''a'', CHR 0x27, CHR '';'', CHR ''$'', CHR 0x27], '' -p'')"
  by (rule shellQuote_word) (simp add: sh_meta_def)

text \<open>
  The JSON body of a Caddy admin request, escaped by \<open>escapeShell\<close> and put between
  single quotes as \<open>postRoute\<close> does, reaches \<open>curl\<close> byte for byte.
\<close>

theorem escapeShell_word:
  assumes "rest = [] \<or> sh_meta (hd rest)"
  shows "sh_word ShPlain (CHR 0x27 # escapeShell body @ CHR 0x27 # rest) = Some (body, rest)"
proof -
  obtain d t where "escapeShell body @ CHR 0x27 # rest = d # t"
    by (cases "escapeShell body") auto
  then show ?thesis
    using sh_word_escaped_tail [of body rest] sh_word_stop [OF assms] by simp
qed

theorem escapeShell_word_witness:
  "sh_word ShPlain (CHR 0x27 # escapeShell [CHR ''x'', CHR 0x27, CHR ''y''] @ CHR 0x27 # ''; echo'')
     = Some ([CHR ''x'', CHR 0x27, CHR ''y''], ''; echo'')"
  by (rule escapeShell_word) (simp add: sh_meta_def)

text \<open>
  After \<open>redact\<close> a registry token does not occur in the error text any more, provided the
  token shares no character with the placeholder \<open>[REDACTED]\<close> (a replacement could otherwise
  rebuild it together with the text around it).
\<close>

theorem redact_removes:
  assumes "secret \<noteq> []" and "set secret \<inter> set ''[REDACTED]'' = {}"
  shows "\<not> Contains (redact s secret) secret"
  using assms ReplaceAll_not_Contains [of secret "''[REDACTED]''" s] by (simp add: redact_def)

theorem redact_removes_witness:
  "\<not> Contains (redact ''login: ghp_x1 denied'' ''ghp_x1'') ''ghp_x1''"
  by (rule redact_removes) simp_all

text \<open>
  The route identifier is not unique: two different valid domains get the same Caddy
  route id, because dots and hyphens are merged. \<open>postRoute\<close> deletes the route with that id
  first, so deploying an app on one domain removes the route of the other.
\<close>

theorem sanitizeID_collision:
  "\<exists>d1 d2. ValidDomain d1 = Inr d1 \<and> ValidDomain d2 = Inr d2 \<and> d1 \<noteq> d2 \<and> sanitizeID d1 = sanitizeID d2"
proof (intro exI conjI)
  have h1: "valid_hostname ''a-b.com''" unfolding valid_hostname_def
    by (intro exI [where x = "[''a-b'', ''com'']"])
       (simp add: valid_label_def is_lower_alnum_def less_eq_char_def)
  have h2: "valid_hostname ''a.b.com''" unfolding valid_hostname_def
    by (intro exI [where x = "[''a'', ''b'', ''com'']"])
       (simp add: valid_label_def is_lower_alnum_def less_eq_char_def)
  show "ValidDomain ''a-b.com'' = Inr ''a-b.com''"
    using h1 by (simp add: ValidDomain_Inr_iff ValidDomain_normal)
  show "ValidDomain ''a.b.com'' = Inr ''a.b.com''"
    using h2 by (simp add: ValidDomain_Inr_iff ValidDomain_normal)
qed (simp_all add: sanitizeID_def)

end
