(* ===== verification/Compose.thy ===== *)
theory Compose
  imports Shell AppModel
begin

text \<open>
  \<open>internal/app/compose.go\<close>: the compose file of an app. The YAML library is a parameter, the
  record \<open>Yaml\<close> of the calls the code makes; a \<open>yaml.Node\<close> is the datatype \<open>ynode\<close>. The
  in-place edits of the node tree through pointers become functions that return the edited
  tree. Go visits a map in no fixed order: \<open>order\<close> is the order of this one visit.
\<close>

section \<open>YAML trees\<close>

datatype ykind = ZeroNode | DocumentNode | SequenceNode | MappingNode | ScalarNode | AliasNode

text \<open>
  Of the fields of a node the code reads or sets kind, style, tag, value and content;
  \<open>y_Meta\<close> stands for the rest (anchor, comments, position), empty in a new node.
\<close>

datatype ynode = YNode (y_Kind: ykind) (y_Style: string) (y_Tag: string) (y_Meta: string) (y_Value: string)
  (y_Content: "ynode list")

record simpleLogging =
  sl_Driver :: string
  sl_Options :: "(string \<times> string) list"

record simpleService =
  ss_Image :: string
  ss_Restart :: string
  ss_Command :: string
  ss_Ports :: "string list"
  ss_Expose :: "string list"
  ss_Volumes :: "string list"
  ss_Networks :: "string list"
  ss_MemLimit :: "ynode option"
  ss_CPUs :: "ynode option"
  ss_Ulimits :: "(ynode option \<times> ynode option) option"
  ss_Logging :: "simpleLogging option"
  ss_Environment :: "string list"

record simpleCompose =
  sc_Services :: "(string \<times> simpleService) list"
  sc_Networks :: "(string \<times> (string \<times> bool) list) list"

record simpleFields =
  sf_Image :: string
  sf_Port :: int
  sf_EnvKeys :: "string list"
  sf_Volumes :: string
  sf_MemoryLimit :: string
  sf_CPULimit :: string
  sf_LogMaxSize :: string
  sf_LogMaxFile :: string
  sf_Command :: string
  sf_Ports :: string
  sf_UlimitsNofile :: string

record Yaml =
  yaml_Unmarshal :: "string \<Rightarrow> ynode option"
  yaml_Marshal :: "ynode \<Rightarrow> string option"
  yaml_EncodeSimple :: "simpleCompose \<Rightarrow> string option"
  yaml_UnmarshalServices :: "string \<Rightarrow> (string \<times> ynode) list result"
  yaml_UnmarshalVolumes :: "string \<Rightarrow> (string \<times> ynode list) list option"
  yaml_DecodeMount :: "ynode \<Rightarrow> (string \<times> string \<times> string) option"

definition new_node :: "ykind \<Rightarrow> string \<Rightarrow> ynode list \<Rightarrow> ynode" where
  "new_node k v cs = YNode k [] [] [] v cs"

definition set_Content :: "ynode \<Rightarrow> ynode list \<Rightarrow> ynode" where
  "set_Content n cs = YNode (y_Kind n) (y_Style n) (y_Tag n) (y_Meta n) (y_Value n) cs"

definition scalar :: "string \<Rightarrow> ynode" where
  "scalar v = new_node ScalarNode v []"

definition plain :: "string \<Rightarrow> ynode option" where
  "plain s = (if s = [] then None else Some (new_node ScalarNode s []))"

fun lookup_key :: "string \<Rightarrow> ynode list \<Rightarrow> ynode option" where
  "lookup_key key (k # v # rest) = (if y_Value k = key then Some v else lookup_key key rest)"
| "lookup_key key _ = None"

definition mapValue :: "ynode \<Rightarrow> string \<Rightarrow> ynode option" where
  "mapValue m key = lookup_key key (y_Content m)"

text \<open>Writing through the pointer \<open>mapValue\<close> returned.\<close>

fun update_key :: "string \<Rightarrow> (ynode \<Rightarrow> ynode) \<Rightarrow> ynode list \<Rightarrow> ynode list" where
  "update_key key f (k # v # rest) = (if y_Value k = key then k # f v # rest else k # v # update_key key f rest)"
| "update_key key f cs = cs"

definition mapUpdate :: "ynode \<Rightarrow> string \<Rightarrow> (ynode \<Rightarrow> ynode) \<Rightarrow> ynode" where
  "mapUpdate m key f = set_Content m (update_key key f (y_Content m))"

section \<open>Service names\<close>

definition parseServiceNames :: "Yaml \<Rightarrow> (string list \<Rightarrow> string list) \<Rightarrow> string \<Rightarrow> string list result" where
  "parseServiceNames Y order compose =
     (case yaml_UnmarshalServices Y compose of
        Inl err \<Rightarrow> Inl (''parse compose: '' @ err)
      | Inr svcs \<Rightarrow> if svcs = [] then Inl ''compose has no services defined''
          else Inr (reorder order (map fst svcs)))"

definition getServiceName :: "Yaml \<Rightarrow> (string list \<Rightarrow> string list) \<Rightarrow> string \<Rightarrow> string" where
  "getServiceName Y order compose =
     (case parseServiceNames Y order compose of
        Inr (n # _) \<Rightarrow> n
      | _ \<Rightarrow> ''app'')"

definition sanitizeAppName :: "string \<Rightarrow> string" where
  "sanitizeAppName name = ByteReplace (\<lambda>c. if c \<in> {CHR ''.'', CHR ''_'', CHR '' ''} then ''-'' else [c]) name"

definition ContainerServiceName :: "Yaml \<Rightarrow> (string list \<Rightarrow> string list) \<Rightarrow> App \<Rightarrow> string" where
  "ContainerServiceName Y order a =
     (if app_ComposeMode a = ''simple'' then sanitizeAppName (app_Name a)
      else getServiceName Y order (app_Compose a))"

section \<open>The simple form\<close>

definition split_line :: "string \<Rightarrow> string list" where
  "split_line line =
     (let line = TrimSpace line
      in if line = [] then []
         else if Contains line '','' then filter (\<lambda>kv. kv \<noteq> []) (map TrimSpace (Split1 (CHR '','') line))
         else [line])"

definition splitEnvVars :: "string \<Rightarrow> string list" where
  "splitEnvVars envVars = concat (map split_line (Split1 (CHR 0x0A) envVars))"

definition logging_options :: "string \<Rightarrow> string \<Rightarrow> (string \<times> string) list" where
  "logging_options logMaxSize logMaxFile =
     (if logMaxFile \<noteq> [] then [(''max-file'', logMaxFile)] else [])
     @ (if logMaxSize \<noteq> [] then [(''max-size'', logMaxSize)] else [])"

definition env_refs :: "string list \<Rightarrow> string list" where
  "env_refs envKeys = map (\<lambda>k. k @ ''=${'' @ k @ ''}'') (filter (\<lambda>k. k \<noteq> []) (map TrimSpace envKeys))"

definition simple_compose :: "string \<Rightarrow> int \<Rightarrow> string \<Rightarrow> string \<Rightarrow> string \<Rightarrow> string \<Rightarrow> string \<Rightarrow> string
    \<Rightarrow> string list \<Rightarrow> string \<Rightarrow> string \<Rightarrow> string \<Rightarrow> simpleCompose" where
  "simple_compose img port volumes appName memoryLimit cpuLimit logMaxSize logMaxFile envKeys command ports
      ulimitsNofile =
     (let svcName = (if appName \<noteq> [] then sanitizeAppName appName else ''app'');
          svc = \<lparr> ss_Image = img, ss_Restart = ''unless-stopped'', ss_Command = command,
            ss_Ports = splitEnvVars ports,
            ss_Expose = (if port > 0 then [Itoa port] else []),
            ss_Volumes = splitEnvVars volumes,
            ss_Networks = [''dockify''],
            ss_MemLimit = plain memoryLimit,
            ss_CPUs = plain cpuLimit,
            ss_Ulimits = (if ulimitsNofile \<noteq> [] then Some (plain ulimitsNofile, plain ulimitsNofile) else None),
            ss_Logging = (if logMaxSize \<noteq> [] \<or> logMaxFile \<noteq> []
              then Some \<lparr> sl_Driver = ''json-file'', sl_Options = logging_options logMaxSize logMaxFile \<rparr>
              else None),
            ss_Environment = env_refs envKeys \<rparr>
      in \<lparr> sc_Services = [(svcName, svc)], sc_Networks = [(''dockify'', [(''external'', True)])] \<rparr>)"

definition generateCompose :: "Yaml \<Rightarrow> string \<Rightarrow> int \<Rightarrow> string \<Rightarrow> string \<Rightarrow> string \<Rightarrow> string \<Rightarrow> string \<Rightarrow> string
    \<Rightarrow> string list \<Rightarrow> string \<Rightarrow> string \<Rightarrow> string \<Rightarrow> string" where
  "generateCompose Y img port volumes appName memoryLimit cpuLimit logMaxSize logMaxFile envKeys command ports
      ulimitsNofile =
     (case yaml_EncodeSimple Y (simple_compose img port volumes appName memoryLimit cpuLimit logMaxSize logMaxFile
         envKeys command ports ulimitsNofile) of
        None \<Rightarrow> []
      | Some out \<Rightarrow> out)"

definition empty_fields :: simpleFields where
  "empty_fields = \<lparr> sf_Image = [], sf_Port = 0, sf_EnvKeys = [], sf_Volumes = [], sf_MemoryLimit = [],
     sf_CPULimit = [], sf_LogMaxSize = [], sf_LogMaxFile = [], sf_Command = [], sf_Ports = [],
     sf_UlimitsNofile = [] \<rparr>"

definition item_lines :: "ynode \<Rightarrow> string" where
  "item_lines val = Join (filter (\<lambda>v. v \<noteq> []) (map y_Value (y_Content val))) [CHR 0x0A]"

text \<open>The variable named by one entry of \<open>environment\<close>.\<close>

definition env_item :: "string \<Rightarrow> string list" where
  "env_item v =
     (if v = [] then []
      else if HasPrefix v ''${'' \<and> HasSuffix v ''}'' then [TrimSuffix (TrimPrefix v ''${'') ''}'']
      else case Index v ''='' of Some (Suc n) \<Rightarrow> [take (Suc n) v] | _ \<Rightarrow> [])"

fun fold_pairs :: "('b \<Rightarrow> string \<Rightarrow> ynode \<Rightarrow> 'b) \<Rightarrow> 'b \<Rightarrow> ynode list \<Rightarrow> 'b" where
  "fold_pairs f b (k # v # rest) = fold_pairs f (f b (y_Value k) v) rest"
| "fold_pairs f b _ = b"

definition parse_nofile :: "simpleFields \<Rightarrow> string \<Rightarrow> ynode \<Rightarrow> simpleFields" where
  "parse_nofile sf key val =
     (if key = ''nofile'' \<and> y_Kind val = MappingNode
      then fold_pairs (\<lambda>sf k v. if k = ''hard'' then sf\<lparr>sf_UlimitsNofile := y_Value v\<rparr> else sf) sf (y_Content val)
      else sf)"

definition parse_log_option :: "simpleFields \<Rightarrow> string \<Rightarrow> ynode \<Rightarrow> simpleFields" where
  "parse_log_option sf key val =
     (if key = ''max-size'' then sf\<lparr>sf_LogMaxSize := TrimByte (CHR 0x22) (y_Value val)\<rparr>
      else if key = ''max-file'' then sf\<lparr>sf_LogMaxFile := TrimByte (CHR 0x22) (y_Value val)\<rparr>
      else sf)"

definition parse_logging :: "simpleFields \<Rightarrow> string \<Rightarrow> ynode \<Rightarrow> simpleFields" where
  "parse_logging sf key val =
     (if key = ''options'' \<and> y_Kind val = MappingNode then fold_pairs parse_log_option sf (y_Content val) else sf)"

definition parse_field :: "simpleFields \<Rightarrow> string \<Rightarrow> ynode \<Rightarrow> simpleFields" where
  "parse_field sf key val =
     (if key = ''image'' then sf\<lparr>sf_Image := y_Value val\<rparr>
      else if key = ''expose'' then
        (if y_Kind val = SequenceNode \<and> y_Content val \<noteq> []
         then case ParseInt (TrimByte (CHR 0x22) (y_Value (hd (y_Content val)))) of
                (p, err) \<Rightarrow> if err then sf else sf\<lparr>sf_Port := p\<rparr>
         else sf)
      else if key = ''ports'' then
        (if y_Kind val = SequenceNode then sf\<lparr>sf_Ports := item_lines val\<rparr> else sf)
      else if key = ''environment'' then
        (if y_Kind val = SequenceNode
         then sf\<lparr>sf_EnvKeys := concat (map (env_item \<circ> y_Value) (y_Content val))\<rparr> else sf)
      else if key = ''volumes'' then
        (if y_Kind val = SequenceNode then sf\<lparr>sf_Volumes := item_lines val\<rparr> else sf)
      else if key = ''mem_limit'' then sf\<lparr>sf_MemoryLimit := y_Value val\<rparr>
      else if key = ''cpus'' then sf\<lparr>sf_CPULimit := y_Value val\<rparr>
      else if key = ''command'' then sf\<lparr>sf_Command := y_Value val\<rparr>
      else if key = ''ulimits'' then
        (if y_Kind val = MappingNode then fold_pairs parse_nofile sf (y_Content val) else sf)
      else if key = ''logging'' then
        (if y_Kind val = MappingNode then fold_pairs parse_logging sf (y_Content val) else sf)
      else sf)"

definition first_service :: "ynode \<Rightarrow> ynode option" where
  "first_service doc =
     (if y_Kind doc \<noteq> DocumentNode \<or> y_Content doc = [] then None
      else let root = hd (y_Content doc)
           in if y_Kind root \<noteq> MappingNode then None
              else case mapValue root ''services'' of
                     None \<Rightarrow> None
                   | Some services \<Rightarrow>
                       if y_Kind services \<noteq> MappingNode \<or> length (y_Content services) < 2 then None
                       else let svc = y_Content services ! 1
                            in if y_Kind svc \<noteq> MappingNode then None else Some svc)"

definition parse_doc :: "ynode \<Rightarrow> simpleFields" where
  "parse_doc doc =
     (case first_service doc of
        None \<Rightarrow> empty_fields
      | Some svc \<Rightarrow> fold_pairs parse_field empty_fields (y_Content svc))"

definition parseSimpleFields :: "Yaml \<Rightarrow> string \<Rightarrow> simpleFields" where
  "parseSimpleFields Y compose =
     (case yaml_Unmarshal Y compose of None \<Rightarrow> empty_fields | Some doc \<Rightarrow> parse_doc doc)"

section \<open>Editing a compose file\<close>

definition onDockify :: "ynode \<Rightarrow> bool" where
  "onDockify svc =
     (case mapValue svc ''networks'' of
        None \<Rightarrow> False
      | Some nets \<Rightarrow>
          if y_Kind nets = MappingNode then mapValue nets ''dockify'' \<noteq> None
          else list_ex (\<lambda>n. y_Value n = ''dockify'') (y_Content nets))"

fun pair_values :: "ynode list \<Rightarrow> ynode list" where
  "pair_values (k # v # rest) = v # pair_values rest"
| "pair_values _ = []"

fun map_values :: "(ynode \<Rightarrow> ynode) \<Rightarrow> ynode list \<Rightarrow> ynode list" where
  "map_values f (k # v # rest) = k # f v # map_values f rest"
| "map_values f cs = cs"

definition joinable :: "ynode \<Rightarrow> bool" where
  "joinable svc \<longleftrightarrow> y_Kind svc = MappingNode \<and> mapValue svc ''network_mode'' = None"

definition join_service :: "ynode \<Rightarrow> ynode" where
  "join_service svc =
     (case mapValue svc ''networks'' of
        None \<Rightarrow> set_Content svc
          (y_Content svc @ [scalar ''networks'', new_node SequenceNode [] [scalar ''dockify'']])
      | Some _ \<Rightarrow> mapUpdate svc ''networks'' (\<lambda>nets.
          if y_Kind nets = MappingNode
          then set_Content nets (y_Content nets @ [scalar ''dockify'', YNode MappingNode ''flow'' [] [] [] []])
          else set_Content nets (y_Content nets @ [scalar ''dockify''])))"

text \<open>The services that have to join: none as soon as one of them is on the network.\<close>

definition missing :: "ynode \<Rightarrow> ynode list" where
  "missing services =
     (let cand = filter joinable (pair_values (y_Content services))
      in if list_ex onDockify cand then [] else cand)"

definition join_services :: "ynode \<Rightarrow> ynode" where
  "join_services services =
     (if missing services = [] then services
      else set_Content services
        (map_values (\<lambda>svc. if joinable svc then join_service svc else svc) (y_Content services)))"

definition true_node :: ynode where
  "true_node = YNode ScalarNode [] ''!!bool'' [] ''true'' []"

text \<open>\<open>external: true\<close> below the node of the network; the flag says that something changed.\<close>

definition set_external :: "ynode \<Rightarrow> ynode \<times> bool" where
  "set_external dockify =
     (case mapValue dockify ''external'' of
        None \<Rightarrow> (set_Content dockify (y_Content dockify @ [scalar ''external'', true_node]), True)
      | Some ext \<Rightarrow>
          if y_Value ext \<noteq> ''true'' then (mapUpdate dockify ''external'' (\<lambda>_. true_node), True)
          else (dockify, False))"

text \<open>
  The value of \<open>key\<close> edited by \<open>f\<close>: a new mapping when there is none, and one in place of a value
  that is not a mapping.
\<close>

definition edit_mapping :: "ynode \<Rightarrow> string \<Rightarrow> (ynode \<Rightarrow> ynode \<times> bool) \<Rightarrow> ynode \<times> bool" where
  "edit_mapping m key f =
     (case mapValue m key of
        None \<Rightarrow> (case f (new_node MappingNode [] []) of
            (v, changed) \<Rightarrow> (set_Content m (y_Content m @ [scalar key, v]), changed))
      | Some v \<Rightarrow>
          (case f (if y_Kind v = MappingNode then v else new_node MappingNode [] []) of
             (v', changed) \<Rightarrow> (mapUpdate m key (\<lambda>_. v'), changed)))"

definition declare_network :: "ynode \<Rightarrow> ynode \<times> bool" where
  "declare_network rt = edit_mapping rt ''networks'' (\<lambda>nets. edit_mapping nets ''dockify'' set_external)"

text \<open>The edit of the whole document; \<open>None\<close> where the text is returned as it came.\<close>

definition edit_doc :: "ynode \<Rightarrow> ynode option" where
  "edit_doc doc =
     (if y_Content doc = [] \<or> y_Kind (hd (y_Content doc)) \<noteq> MappingNode then None
      else let root = hd (y_Content doc)
           in case mapValue root ''services'' of
                None \<Rightarrow> None
              | Some services \<Rightarrow>
                  if y_Kind services \<noteq> MappingNode then None
                  else case declare_network (mapUpdate root ''services'' join_services) of
                         (root', changed) \<Rightarrow>
                           if missing services \<noteq> [] \<or> changed
                           then Some (set_Content doc (root' # tl (y_Content doc)))
                           else None)"

definition ensureDockifyNetwork :: "Yaml \<Rightarrow> string \<Rightarrow> string" where
  "ensureDockifyNetwork Y compose =
     (case yaml_Unmarshal Y compose of
        None \<Rightarrow> compose
      | Some doc \<Rightarrow>
          (case edit_doc doc of
             None \<Rightarrow> compose
           | Some doc' \<Rightarrow> (case yaml_Marshal Y doc' of None \<Rightarrow> compose | Some out \<Rightarrow> out)))"

definition rename_doc :: "string \<Rightarrow> ynode \<Rightarrow> ynode option" where
  "rename_doc newName doc =
     (if y_Kind doc \<noteq> DocumentNode \<or> y_Content doc = [] then None
      else let root = hd (y_Content doc)
           in if y_Kind root \<noteq> MappingNode then None
              else case mapValue root ''services'' of
                     None \<Rightarrow> None
                   | Some services \<Rightarrow>
                       if y_Kind services \<noteq> MappingNode \<or> length (y_Content services) < 2 then None
                       else if y_Value (hd (y_Content services)) = newName then None
                       else Some (set_Content doc (mapUpdate root ''services'' (\<lambda>services.
                         (case y_Content services of
                            [] \<Rightarrow> services
                          | k # rest \<Rightarrow> set_Content services
                              (YNode (y_Kind k) (y_Style k) (y_Tag k) (y_Meta k) newName (y_Content k) # rest)))
                         # tl (y_Content doc))))"

definition renameFirstService :: "Yaml \<Rightarrow> string \<Rightarrow> string \<Rightarrow> string" where
  "renameFirstService Y compose newName =
     (if \<not> Contains compose ''services:'' then compose
      else case yaml_Unmarshal Y compose of
             None \<Rightarrow> compose
           | Some doc \<Rightarrow>
               (case rename_doc newName doc of
                  None \<Rightarrow> compose
                | Some doc' \<Rightarrow> (case yaml_Marshal Y doc' of None \<Rightarrow> compose | Some out \<Rightarrow> out)))"

definition docker_volume :: "Yaml \<Rightarrow> ynode \<Rightarrow> string list" where
  "docker_volume Y v =
     (case y_Kind v of
        ScalarNode \<Rightarrow>
          (case Cut1 (CHR '':'') (y_Value v) of (src, _, hasTarget) \<Rightarrow>
             if \<not> hasTarget then [y_Value v]
             else if src = [] \<or> hd src \<notin> {CHR ''.'', CHR ''/'', CHR ''~'', CHR ''$''} then [src]
             else [])
      | MappingNode \<Rightarrow>
          (case yaml_DecodeMount Y v of
             None \<Rightarrow> []
           | Some (type, source, target) \<Rightarrow>
               if type = ''volume'' then [if source \<noteq> [] then source else target] else [])
      | _ \<Rightarrow> [])"

definition dockerVolumes :: "Yaml \<Rightarrow> string \<Rightarrow> string list" where
  "dockerVolumes Y compose =
     (case yaml_UnmarshalVolumes Y compose of
        None \<Rightarrow> []
      | Some svcs \<Rightarrow> remdups_adj (sort (concat (map (docker_volume Y) (concat (map snd svcs))))))"

section \<open>Reference definitions\<close>

text \<open>
  What \<open>yaml.Unmarshal\<close> gives: a mapping lists keys and values in turn, and a scalar or an alias
  has no children. \<open>shape\<close> is what a document says: style, tags and comments do not count.
\<close>

fun wf_node :: "ynode \<Rightarrow> bool" where
  "wf_node (YNode k st tg mt v cs) \<longleftrightarrow>
     (k = MappingNode \<longrightarrow> even (length cs)) \<and> (k \<in> {ScalarNode, AliasNode} \<longrightarrow> cs = []) \<and> list_all wf_node cs"

fun shape :: "ynode \<Rightarrow> ynode" where
  "shape (YNode k st tg mt v cs) = YNode k [] [] [] v (map shape cs)"

text \<open>The network \<open>dockify\<close> is declared as external at the top of the file.\<close>

definition network_ready :: "ynode \<Rightarrow> bool" where
  "network_ready rt \<longleftrightarrow>
     (\<exists>nets d e. mapValue rt ''networks'' = Some nets \<and> y_Kind nets = MappingNode
        \<and> mapValue nets ''dockify'' = Some d \<and> y_Kind d = MappingNode
        \<and> mapValue d ''external'' = Some e \<and> y_Value e = ''true'')"

text \<open>Every service that may join lists its networks as a sequence or a mapping.\<close>

definition networks_listed :: "ynode \<Rightarrow> bool" where
  "networks_listed services \<longleftrightarrow>
     list_all (\<lambda>svc. joinable svc \<longrightarrow> (case mapValue svc ''networks'' of
         None \<Rightarrow> True | Some nets \<Rightarrow> y_Kind nets \<in> {MappingNode, SequenceNode}))
       (pair_values (y_Content services))"

text \<open>The tree of a form-made compose file, field by field in the order of the struct.\<close>

definition seq_field :: "string \<Rightarrow> string list \<Rightarrow> ynode list" where
  "seq_field key xs = (if xs = [] then [] else [scalar key, new_node SequenceNode [] (map scalar xs)])"

definition str_field :: "string \<Rightarrow> string \<Rightarrow> ynode list" where
  "str_field key v = (if v = [] then [] else [scalar key, scalar v])"

definition node_field :: "string \<Rightarrow> ynode option \<Rightarrow> ynode list" where
  "node_field key n = (case n of None \<Rightarrow> [] | Some v \<Rightarrow> [scalar key, v])"

definition logging_node :: "simpleLogging \<Rightarrow> ynode" where
  "logging_node l = new_node MappingNode []
     [scalar ''driver'', scalar (sl_Driver l), scalar ''options'',
      new_node MappingNode [] (concat (map (\<lambda>(k, v). [scalar k, scalar v]) (sl_Options l)))]"

definition ulimits_node :: "ynode option \<times> ynode option \<Rightarrow> ynode" where
  "ulimits_node u = new_node MappingNode [] [scalar ''nofile'', new_node MappingNode []
     (node_field ''soft'' (fst u) @ node_field ''hard'' (snd u))]"

definition service_node :: "simpleService \<Rightarrow> ynode" where
  "service_node s = new_node MappingNode []
     (str_field ''image'' (ss_Image s) @ str_field ''restart'' (ss_Restart s) @ str_field ''command'' (ss_Command s)
      @ seq_field ''ports'' (ss_Ports s) @ seq_field ''expose'' (ss_Expose s) @ seq_field ''volumes'' (ss_Volumes s)
      @ seq_field ''networks'' (ss_Networks s) @ node_field ''mem_limit'' (ss_MemLimit s)
      @ node_field ''cpus'' (ss_CPUs s) @ node_field ''ulimits'' (map_option ulimits_node (ss_Ulimits s))
      @ node_field ''logging'' (map_option logging_node (ss_Logging s)) @ seq_field ''environment'' (ss_Environment s))"

definition compose_doc :: "simpleCompose \<Rightarrow> ynode" where
  "compose_doc c = new_node DocumentNode [] [new_node MappingNode []
     [scalar ''services'', new_node MappingNode [] (concat (map (\<lambda>(k, s). [scalar k, service_node s]) (sc_Services c))),
      scalar ''networks'', new_node MappingNode [] (concat (map (\<lambda>(k, o1). [scalar k, new_node MappingNode []
         (concat (map (\<lambda>(p, b). [scalar p, scalar (if b then ''true'' else ''false'')]) o1))]) (sc_Networks c)))]]"

text \<open>A small compose file with one service, and a library that knows it and what it becomes.\<close>

definition sample_service :: ynode where
  "sample_service = new_node MappingNode [] [scalar ''image'', scalar ''nginx'']"

definition sample_services :: ynode where
  "sample_services = new_node MappingNode [] [scalar ''web'', sample_service]"

definition sample_root :: ynode where
  "sample_root = new_node MappingNode [] [scalar ''services'', sample_services]"

definition sample_doc :: ynode where
  "sample_doc = new_node DocumentNode [] [sample_root]"

definition sample_yaml :: Yaml where
  "sample_yaml = \<lparr>
     yaml_Unmarshal = (\<lambda>t. if t = ''a'' then Some sample_doc else if t = ''b'' then edit_doc sample_doc
       else Some (compose_doc (simple_compose ''nginx'' 80 ''./data:/data'' ''web'' [] [] [] [] [''KEY''] [] [] []))),
     yaml_Marshal = (\<lambda>d. Some ''b''),
     yaml_EncodeSimple = (\<lambda>c. Some ''c''),
     yaml_UnmarshalServices = (\<lambda>t. Inr [(''web'', sample_service)]),
     yaml_UnmarshalVolumes = (\<lambda>t. Some [(''web'', [scalar ''data:/data'', scalar ''./conf:/conf''])]),
     yaml_DecodeMount = (\<lambda>n. None) \<rparr>"

section \<open>Trees\<close>

lemma set_Content_simps [simp]:
  "y_Kind (set_Content n cs) = y_Kind n" "y_Value (set_Content n cs) = y_Value n"
  "y_Content (set_Content n cs) = cs"
  by (simp_all add: set_Content_def)

lemma new_node_simps [simp]:
  "y_Kind (new_node k v cs) = k" "y_Value (new_node k v cs) = v" "y_Content (new_node k v cs) = cs"
  "y_Kind (scalar v) = ScalarNode" "y_Value (scalar v) = v" "y_Content (scalar v) = []"
  by (simp_all add: new_node_def scalar_def)

lemma true_node_simps [simp]: "y_Value true_node = ''true''" "wf_node true_node"
  by (simp_all add: true_node_def)

lemma wf_node_iff: "wf_node n \<longleftrightarrow> (y_Kind n = MappingNode \<longrightarrow> even (length (y_Content n)))
    \<and> (y_Kind n \<in> {ScalarNode, AliasNode} \<longrightarrow> y_Content n = []) \<and> list_all wf_node (y_Content n)"
  by (cases n) simp

lemma wf_set_Content: "wf_node (set_Content n cs) \<longleftrightarrow> (y_Kind n = MappingNode \<longrightarrow> even (length cs))
    \<and> (y_Kind n \<in> {ScalarNode, AliasNode} \<longrightarrow> cs = []) \<and> list_all wf_node cs"
  by (subst wf_node_iff) simp

lemma wf_scalar [simp]: "wf_node (scalar v)"
  by (simp add: scalar_def new_node_def)

lemma shape_simps [simp]:
  "y_Kind (shape n) = y_Kind n" "y_Value (shape n) = y_Value n" "y_Content (shape n) = map shape (y_Content n)"
  by (cases n; simp)+

lemma lookup_update [simp]:
  "lookup_key key (update_key key' f cs)
     = (if key = key' then map_option f (lookup_key key cs) else lookup_key key cs)"
  by (induction key' f cs rule: update_key.induct) auto

lemma lookup_append:
  "even (length cs) \<Longrightarrow> lookup_key key (cs @ [k, v])
     = (case lookup_key key cs of None \<Rightarrow> if y_Value k = key then Some v else None | Some x \<Rightarrow> Some x)"
  by (induction key cs rule: lookup_key.induct) auto

lemma length_update [simp]: "length (update_key key f cs) = length cs"
  by (induction key f cs rule: update_key.induct) auto

lemma lookup_in_set: "lookup_key key cs = Some v \<Longrightarrow> v \<in> set cs"
  by (induction key cs rule: lookup_key.induct) (auto split: if_splits)

lemma set_update: "set (update_key key f cs) \<subseteq> set cs \<union> f ` set_option (lookup_key key cs)"
  by (induction key f cs rule: update_key.induct) auto

lemma mapValue_update [simp]:
  "mapValue (mapUpdate m key' f) key = (if key = key' then map_option f (mapValue m key) else mapValue m key)"
  by (simp add: mapValue_def mapUpdate_def)

lemma mapUpdate_simps [simp]:
  "y_Kind (mapUpdate m key f) = y_Kind m" "length (y_Content (mapUpdate m key f)) = length (y_Content m)"
  by (simp_all add: mapUpdate_def)

lemma mapValue_append:
  "even (length (y_Content m)) \<Longrightarrow> mapValue (set_Content m (y_Content m @ [k, v])) key
     = (case mapValue m key of None \<Rightarrow> if y_Value k = key then Some v else None | Some x \<Rightarrow> Some x)"
  by (simp add: mapValue_def lookup_append)

lemma mapValue_new [simp]: "mapValue (new_node k v []) key = None"
  by (simp add: mapValue_def)

lemma wf_mapValue: "wf_node m \<Longrightarrow> mapValue m key = Some v \<Longrightarrow> wf_node v"
  by (auto simp: mapValue_def wf_node_iff [of m] list_all_iff dest: lookup_in_set)

lemma wf_mapUpdate:
  assumes "wf_node m" and "\<And>v. mapValue m key = Some v \<Longrightarrow> wf_node (f v)"
  shows "wf_node (mapUpdate m key f)"
proof -
  have "wf_node n" if "n \<in> set (update_key key f (y_Content m))" for n
    using that set_update [of key f "y_Content m"] assms
    by (auto simp: wf_node_iff [of m] list_all_iff mapValue_def)
  moreover have "y_Content m = [] \<Longrightarrow> update_key key f (y_Content m) = []" by simp
  ultimately show ?thesis
    using assms(1) by (auto simp: wf_node_iff [of m] wf_set_Content mapUpdate_def list_all_iff)
qed

lemma wf_append:
  assumes "wf_node m" and "y_Kind m = MappingNode" and "wf_node v"
  shows "wf_node (set_Content m (y_Content m @ [scalar key, v]))"
  using assms by (auto simp: wf_node_iff [of m] wf_set_Content list_all_iff)

lemma lookup_shape [simp]: "lookup_key key (map shape cs) = map_option shape (lookup_key key cs)"
  by (induction key cs rule: lookup_key.induct) auto

lemma mapValue_shape [simp]: "mapValue (shape m) key = map_option shape (mapValue m key)"
  by (simp add: mapValue_def)

lemma pair_values_shape [simp]: "pair_values (map shape cs) = map shape (pair_values cs)"
  by (induction cs rule: pair_values.induct) auto

lemma pair_values_map [simp]: "pair_values (map_values f cs) = map f (pair_values cs)"
  by (induction f cs rule: map_values.induct) auto

lemma set_pair_values: "set (pair_values cs) \<subseteq> set cs"
  by (induction cs rule: pair_values.induct) auto

section \<open>The network\<close>

lemma onDockify_shape [simp]: "onDockify (shape svc) = onDockify svc"
  by (simp add: onDockify_def list_ex_iff split: option.splits)

lemma joinable_shape [simp]: "joinable (shape svc) = joinable svc"
  by (simp add: joinable_def)

lemma missing_shape [simp]: "missing (shape s) = map shape (missing s)"
  by (auto simp: missing_def Let_def filter_map comp_def list_ex_iff)

lemma network_ready_shape [simp]: "network_ready (shape rt) = network_ready rt"
  by (auto simp: network_ready_def)

lemma onDockify_join:
  assumes "wf_node svc" and "joinable svc"
  shows "onDockify (join_service svc)"
proof -
  have even: "even (length (y_Content svc))" using assms by (simp add: wf_node_iff [of svc] joinable_def)
  show ?thesis
  proof (cases "mapValue svc ''networks''")
    case None
    with even show ?thesis by (simp add: join_service_def onDockify_def mapValue_append)
  next
    case (Some nets)
    with assms have "y_Kind nets = MappingNode \<Longrightarrow> even (length (y_Content nets))"
      using wf_mapValue by (fastforce simp: wf_node_iff [of nets])
    with Some show ?thesis by (simp add: join_service_def onDockify_def mapValue_append split: option.splits)
  qed
qed

lemma join_service_frame:
  assumes "wf_node svc" and "joinable svc" and "key \<noteq> ''networks''"
  shows "mapValue (join_service svc) key = mapValue svc key"
  using assms by (simp add: join_service_def wf_node_iff [of svc] joinable_def mapValue_append split: option.splits)

lemma joinable_join [simp]:
  assumes "wf_node svc" and "joinable svc"
  shows "joinable (join_service svc)"
proof -
  have "y_Kind (join_service svc) = y_Kind svc" by (simp add: join_service_def split: option.splits)
  with assms join_service_frame [OF assms] show ?thesis by (simp add: joinable_def)
qed

lemma set_external_ready:
  assumes "even (length (y_Content d))" and "y_Kind d = MappingNode"
  shows "\<exists>e. mapValue (fst (set_external d)) ''external'' = Some e \<and> y_Value e = ''true''"
    and "y_Kind (fst (set_external d)) = MappingNode"
  using assms by (simp_all add: set_external_def mapValue_append split: option.splits)

lemma edit_mapping_value:
  assumes "even (length (y_Content m))"
  shows "\<exists>v0. y_Kind v0 = MappingNode \<and> (mapValue m key = Some v0 \<or> v0 = new_node MappingNode [] [])
     \<and> mapValue (fst (edit_mapping m key f)) key = Some (fst (f v0)) \<and> snd (edit_mapping m key f) = snd (f v0)"
proof (cases "mapValue m key")
  case None
  with assms show ?thesis
    by (intro exI [of _ "new_node MappingNode [] []"]) (simp add: edit_mapping_def mapValue_append split: prod.splits)
next
  case (Some v)
  then show ?thesis
    by (intro exI [of _ "if y_Kind v = MappingNode then v else new_node MappingNode [] []"])
      (simp add: edit_mapping_def split: prod.splits)
qed

lemma edit_mapping_frame:
  assumes "even (length (y_Content m))" and "key' \<noteq> key"
  shows "mapValue (fst (edit_mapping m key f)) key' = mapValue m key'"
  using assms by (simp add: edit_mapping_def mapValue_append split: option.splits prod.splits)

lemma edit_mapping_kind [simp]: "y_Kind (fst (edit_mapping m key f)) = y_Kind m"
  by (simp add: edit_mapping_def split: option.splits prod.splits)

lemma even_mapping: "wf_node m \<Longrightarrow> y_Kind m = MappingNode \<Longrightarrow> even (length (y_Content m))"
  by (simp add: wf_node_iff [of m])

lemma wf_new [simp]: "wf_node (new_node MappingNode [] [])"
  by (simp add: new_node_def)

lemma wf_edit_mapping:
  assumes "wf_node m" and "y_Kind m = MappingNode"
    and "\<And>v. wf_node v \<Longrightarrow> y_Kind v = MappingNode \<Longrightarrow> wf_node (fst (f v))"
  shows "wf_node (fst (edit_mapping m key f))"
proof (cases "mapValue m key")
  case None
  then show ?thesis using assms
    by (auto simp: edit_mapping_def split: prod.splits) (metis fst_conv new_node_simps(1) wf_append wf_new)
next
  case (Some v)
  with assms have "wf_node (fst (f (if y_Kind v = MappingNode then v else new_node MappingNode [] [])))"
    using wf_mapValue by (metis new_node_simps(1) wf_new)
  with Some assms(1) show ?thesis
    by (auto simp: edit_mapping_def wf_mapUpdate split: prod.splits)
qed

lemma wf_set_external: "wf_node d \<Longrightarrow> y_Kind d = MappingNode \<Longrightarrow> wf_node (fst (set_external d))"
  by (simp add: set_external_def wf_append wf_mapUpdate split: option.splits)

lemma declare_network_wf: "wf_node rt \<Longrightarrow> y_Kind rt = MappingNode \<Longrightarrow> wf_node (fst (declare_network rt))"
  by (simp add: declare_network_def wf_edit_mapping wf_set_external)

lemma declare_network_ready:
  assumes "wf_node rt" and "y_Kind rt = MappingNode"
  shows "network_ready (fst (declare_network rt))"
proof -
  let ?g = "\<lambda>nets. edit_mapping nets ''dockify'' set_external"
  obtain n where n: "y_Kind n = MappingNode" "mapValue rt ''networks'' = Some n \<or> n = new_node MappingNode [] []"
      "mapValue (fst (declare_network rt)) ''networks'' = Some (fst (?g n))"
    using edit_mapping_value [OF even_mapping [OF assms], of "''networks''" ?g]
    unfolding declare_network_def by blast
  then have wn: "wf_node n" using wf_mapValue [OF assms(1)] by auto
  obtain d where d: "y_Kind d = MappingNode" "mapValue n ''dockify'' = Some d \<or> d = new_node MappingNode [] []"
      "mapValue (fst (?g n)) ''dockify'' = Some (fst (set_external d))"
    using edit_mapping_value [OF even_mapping [OF wn n(1)], of "''dockify''" set_external] by blast
  then have "wf_node d" using wf_mapValue [OF wn] by auto
  then obtain e where "mapValue (fst (set_external d)) ''external'' = Some e" "y_Value e = ''true''"
      "y_Kind (fst (set_external d)) = MappingNode"
    using set_external_ready [OF even_mapping d(1)] d(1) by blast
  with n d show ?thesis unfolding network_ready_def by (metis edit_mapping_kind)
qed

lemma declare_network_noop: "network_ready rt \<Longrightarrow> \<not> snd (declare_network rt)"
  by (auto simp: network_ready_def declare_network_def edit_mapping_def set_external_def split: prod.splits)


lemma declare_network_changed:
  assumes "wf_node rt" and "y_Kind rt = MappingNode" and "\<not> snd (declare_network rt)"
  shows "network_ready rt"
proof -
  let ?g = "\<lambda>nets. edit_mapping nets ''dockify'' set_external"
  obtain n where n: "y_Kind n = MappingNode" "mapValue rt ''networks'' = Some n \<or> n = new_node MappingNode [] []"
      "\<not> snd (?g n)"
    using edit_mapping_value [OF even_mapping [OF assms(1,2)], of "''networks''" ?g] assms(3)
    unfolding declare_network_def by auto
  then have wn: "wf_node n" using wf_mapValue [OF assms(1)] by auto
  obtain d where d: "y_Kind d = MappingNode" "mapValue n ''dockify'' = Some d \<or> d = new_node MappingNode [] []"
      "\<not> snd (set_external d)"
    using edit_mapping_value [OF even_mapping [OF wn n(1)], of "''dockify''" set_external] n(3) by auto
  then obtain e where e: "mapValue d ''external'' = Some e" "y_Value e = ''true''"
    by (auto simp: set_external_def split: option.splits if_splits)
  then have "mapValue n ''dockify'' = Some d" using d(2) by auto
  moreover from this have "mapValue rt ''networks'' = Some n" using n(2) by auto
  ultimately show ?thesis using n(1) d(1) e by (auto simp: network_ready_def)
qed

lemma wf_join_service:
  assumes "wf_node svc" and "joinable svc"
    and "\<And>nets. mapValue svc ''networks'' = Some nets \<Longrightarrow> y_Kind nets \<in> {MappingNode, SequenceNode}"
  shows "wf_node (join_service svc)"
proof (cases "mapValue svc ''networks''")
  case None
  have "wf_node (new_node SequenceNode [] [scalar ''dockify''])" by (subst wf_node_iff) simp
  with None assms show ?thesis by (simp add: join_service_def joinable_def wf_append)
next
  case (Some nets)
  with assms have "wf_node nets" "y_Kind nets \<in> {MappingNode, SequenceNode}" using wf_mapValue by blast+
  then show ?thesis
    using Some assms(1) unfolding join_service_def
    by (auto intro!: wf_mapUpdate simp: wf_set_Content wf_node_iff [of nets])
qed

lemma length_map_values [simp]: "length (map_values f cs) = length cs"
  by (induction f cs rule: map_values.induct) auto

lemma set_map_values: "n \<in> set (map_values f cs) \<Longrightarrow> n \<in> set cs \<or> n \<in> f ` set (pair_values cs)"
  by (induction f cs rule: map_values.induct) auto

lemma join_services_kind [simp]: "y_Kind (join_services s) = y_Kind s"
  by (simp add: join_services_def)

lemma wf_join_services:
  assumes "wf_node s" and "networks_listed s"
  shows "wf_node (join_services s)"
proof -
  let ?g = "\<lambda>svc. if joinable svc then join_service svc else svc"
  have each: "wf_node (?g svc)" if "svc \<in> set (pair_values (y_Content s))" for svc
    using that assms set_pair_values [of "y_Content s"] wf_join_service [of svc]
    by (auto simp: wf_node_iff [of s] networks_listed_def list_all_iff split: option.splits)
  have "wf_node n" if "n \<in> set (map_values ?g (y_Content s))" for n
  proof -
    from set_map_values [OF that] have "n \<in> set (y_Content s) \<or> (\<exists>svc \<in> set (pair_values (y_Content s)). n = ?g svc)"
      by blast
    then show ?thesis using each assms(1) unfolding wf_node_iff [of s] list_all_iff by blast
  qed
  then have "list_all wf_node (map_values ?g (y_Content s))" by (simp add: list_all_iff)
  with assms(1) show ?thesis
    by (auto simp: join_services_def wf_set_Content wf_node_iff [of s])
qed

lemma missing_Nil_iff:
  "missing s = [] \<longleftrightarrow> (\<forall>svc \<in> set (pair_values (y_Content s)). joinable svc
     \<longrightarrow> (\<exists>svc' \<in> set (pair_values (y_Content s)). joinable svc' \<and> onDockify svc'))"
  by (auto simp: missing_def Let_def filter_empty_conv list_ex_iff)

lemma missing_join [simp]:
  assumes "wf_node s"
  shows "missing (join_services s) = []"
proof (cases "missing s = []")
  case False
  have "onDockify (join_service svc) \<and> joinable (join_service svc)"
    if "svc \<in> set (pair_values (y_Content s))" "joinable svc" for svc
    using that assms set_pair_values [of "y_Content s"] onDockify_join joinable_join
    by (auto simp: wf_node_iff [of s] list_all_iff)
  with False show ?thesis
    unfolding missing_Nil_iff join_services_def by (fastforce split: if_splits)
qed (simp add: join_services_def)

lemma network_ready_update [simp]:
  "key \<noteq> ''networks'' \<Longrightarrow> network_ready (mapUpdate rt key f) = network_ready rt"
  by (simp add: network_ready_def)

text \<open>A document the edit leaves alone, and a document the edit can work on.\<close>

definition settled :: "ynode \<Rightarrow> bool" where
  "settled doc \<longleftrightarrow> (\<exists>rt s. y_Content doc = [rt] \<and> y_Kind rt = MappingNode \<and> network_ready rt
     \<and> mapValue rt ''services'' = Some s \<and> y_Kind s = MappingNode \<and> missing s = [])"

definition compose_tree :: "ynode \<Rightarrow> ynode \<Rightarrow> ynode \<Rightarrow> bool" where
  "compose_tree doc rt s \<longleftrightarrow> wf_node doc \<and> y_Content doc = [rt] \<and> y_Kind rt = MappingNode
     \<and> mapValue rt ''services'' = Some s \<and> y_Kind s = MappingNode"

lemma settled_shape [simp]: "settled (shape doc) = settled doc"
  by (auto simp: settled_def)

lemma settled_edit: "settled doc \<Longrightarrow> edit_doc doc = None"
proof -
  assume "settled doc"
  then obtain rt s where d: "y_Content doc = [rt]" "y_Kind rt = MappingNode" "network_ready rt"
      "mapValue rt ''services'' = Some s" "y_Kind s = MappingNode" "missing s = []"
    unfolding settled_def by blast
  then have "\<not> snd (declare_network (mapUpdate rt ''services'' join_services))"
    by (intro declare_network_noop) simp
  with d show ?thesis by (simp add: edit_doc_def case_prod_beta)
qed

lemma edit_doc_None:
  assumes "compose_tree doc rt s" and "networks_listed s" and "edit_doc doc = None"
  shows "settled doc"
proof -
  have w: "wf_node rt" "wf_node s"
    using assms(1) wf_mapValue by (auto simp: compose_tree_def wf_node_iff [of doc])
  let ?rt = "mapUpdate rt ''services'' join_services"
  have "wf_node ?rt" using w assms wf_join_services by (auto simp: compose_tree_def intro: wf_mapUpdate)
  moreover have "missing s = [] \<and> \<not> snd (declare_network ?rt)" "y_Kind ?rt = MappingNode"
    using assms by (auto simp: edit_doc_def compose_tree_def split: prod.splits if_splits)
  ultimately show ?thesis
    using assms(1) declare_network_changed [of ?rt] by (auto simp: settled_def compose_tree_def)
qed

lemma edit_doc_Some:
  assumes "compose_tree doc rt s" and "networks_listed s" and "edit_doc doc = Some d"
  obtains rt' where "y_Content d = [rt']" and "settled d" and "wf_node d"
    and "mapValue rt' ''services'' = Some (join_services s)"
    and "\<And>key. key \<noteq> ''services'' \<Longrightarrow> key \<noteq> ''networks'' \<Longrightarrow> mapValue rt' key = mapValue rt key"
proof -
  have w: "wf_node rt" "wf_node s"
    using assms(1) wf_mapValue by (auto simp: compose_tree_def wf_node_iff [of doc])
  let ?rt = "mapUpdate rt ''services'' join_services"
  have wr: "wf_node ?rt" "y_Kind ?rt = MappingNode"
    using w assms wf_join_services by (auto simp: compose_tree_def intro: wf_mapUpdate)
  have d: "d = set_Content doc [fst (declare_network ?rt)]"
    using assms by (auto simp: edit_doc_def compose_tree_def split: prod.splits if_splits)
  have frame: "mapValue (fst (declare_network ?rt)) key = mapValue ?rt key" if "key \<noteq> ''networks''" for key
    using that edit_mapping_frame [OF even_mapping [OF wr]] by (simp add: declare_network_def)
  have sv: "mapValue (fst (declare_network ?rt)) ''services'' = Some (join_services s)"
    using assms(1) frame [of "''services''"] by (simp add: compose_tree_def)
  have kind: "y_Kind (fst (declare_network ?rt)) = MappingNode"
    using wr(2) by (simp add: declare_network_def)
  have "settled d"
    using d sv kind declare_network_ready [OF wr] assms(1) missing_join [OF w(2)]
    by (auto simp: settled_def compose_tree_def)
  moreover have "wf_node d"
    using assms(1) declare_network_wf [OF wr] by (auto simp: d wf_set_Content compose_tree_def wf_node_iff [of doc])
  ultimately show ?thesis using that d sv frame by auto
qed


section \<open>The simple form\<close>

lemma fold_pairs_append: "even (length cs) \<Longrightarrow> fold_pairs f b (cs @ ds) = fold_pairs f (fold_pairs f b cs) ds"
  by (induction f b cs rule: fold_pairs.induct) auto

lemma fold_pairs_shape:
  "(\<And>b k v. f b k (shape v) = f b k v) \<Longrightarrow> fold_pairs f b (map shape cs) = fold_pairs f b cs"
  by (induction f b cs rule: fold_pairs.induct) auto

lemma parse_field_shape [simp]: "parse_field sf key (shape v) = parse_field sf key v"
proof -
  have "parse_nofile b k (shape n) = parse_nofile b k n" for b k n
    by (simp add: parse_nofile_def fold_pairs_shape)
  moreover have "parse_logging b k (shape n) = parse_logging b k n" for b k n
    by (simp add: parse_logging_def fold_pairs_shape parse_log_option_def)
  moreover have "item_lines (shape v) = item_lines v" by (simp add: item_lines_def comp_def)
  ultimately show ?thesis
    by (simp add: parse_field_def fold_pairs_shape hd_map comp_def split: prod.splits)
qed

lemma first_service_shape: "first_service (shape doc) = map_option shape (first_service doc)"
  by (simp add: first_service_def hd_map Let_def nth_map split: option.splits)

lemma parse_doc_shape [simp]: "parse_doc (shape doc) = parse_doc doc"
  by (simp add: parse_doc_def first_service_shape fold_pairs_shape split: option.splits)

lemma even_fields [simp]:
  "even (length (str_field k v))" "even (length (seq_field k xs))" "even (length (node_field k n))"
  by (simp_all add: str_field_def seq_field_def node_field_def split: option.splits)

lemma fold_fields:
  "fold_pairs f b (str_field k v) = (if v = [] then b else f b k (scalar v))"
  "fold_pairs f b (seq_field k xs) = (if xs = [] then b else f b k (new_node SequenceNode [] (map scalar xs)))"
  "fold_pairs f b (node_field k n) = (case n of None \<Rightarrow> b | Some v \<Rightarrow> f b k v)"
  by (simp_all add: str_field_def seq_field_def node_field_def split: option.splits)

lemma splitEnvVars_nonempty: "v \<in> set (splitEnvVars s) \<Longrightarrow> v \<noteq> []"
  by (auto simp: splitEnvVars_def split_line_def Let_def split: if_splits)

lemma item_lines_seq:
  "(\<And>x. x \<in> set xs \<Longrightarrow> x \<noteq> []) \<Longrightarrow> item_lines (new_node SequenceNode [] (map scalar xs)) = Join xs [CHR 0x0A]"
  by (simp add: item_lines_def comp_def)

lemma TrimByte_free: "c \<notin> set s \<Longrightarrow> TrimByte c s = s"
proof -
  assume "c \<notin> set s"
  moreover have "dropWhile (\<lambda>x. x = c) t = t" if "c \<notin> set t" for t
    using that by (cases t) auto
  ultimately show ?thesis by (simp add: TrimByte_def)
qed

lemma Itoa_no_quote: "CHR 0x22 \<notin> set (Itoa i)"
proof -
  have "CHR 0x22 \<notin> set (nat_str n)" for n
    using nat_str_digits [of n] by (auto simp: list_all_iff is_digit_def less_eq_char_def)
  then show ?thesis by (simp add: Itoa_def)
qed

lemma Index_sep: "c \<notin> set k \<Longrightarrow> Index (k @ c # t) [c] = Some (length k)"
  by (induction k) (auto simp: HasPrefix_def)

lemma env_item_ref:
  assumes "ValidEnvKey k = Inr ()"
  shows "env_item (k @ ''=${'' @ k @ ''}'') = [k]"
proof -
  obtain a t where k: "k = a # t" using ValidEnvKey_chars [OF assms] by (cases k) auto
  then have "is_alpha a \<or> is_digit a \<or> a = CHR ''_''" using ValidEnvKey_chars [OF assms] by simp
  then have a: "a \<noteq> CHR ''$''" by (auto simp: is_alpha_def is_digit_def less_eq_char_def)
  with k have "\<not> HasPrefix (k @ ''=${'' @ k @ ''}'') ''${''" by (simp add: HasPrefix_def)
  moreover have "Index (k @ ''=${'' @ k @ ''}'') ''='' = Some (length k)"
    using Index_sep [OF ValidEnvKey_no_eq [OF assms]] by simp
  ultimately show ?thesis using k by (simp add: env_item_def)
qed

lemma env_items_refs:
  assumes "\<And>k. k \<in> set envKeys \<Longrightarrow> TrimSpace k \<noteq> [] \<Longrightarrow> ValidEnvKey (TrimSpace k) = Inr ()"
  shows "concat (map (env_item \<circ> y_Value) (map scalar (env_refs envKeys))) = filter (\<lambda>k. k \<noteq> []) (map TrimSpace envKeys)"
  using assms by (induction envKeys) (simp_all add: env_refs_def env_item_ref [simplified])

lemma logging_options_parse:
  "fold_pairs parse_log_option sf (concat (map (\<lambda>(k, v). [scalar k, scalar v]) (logging_options sz fl)))
     = sf\<lparr> sf_LogMaxSize := if sz = [] then sf_LogMaxSize sf else TrimByte (CHR 0x22) sz,
           sf_LogMaxFile := if fl = [] then sf_LogMaxFile sf else TrimByte (CHR 0x22) fl \<rparr>"
  by (simp add: logging_options_def parse_log_option_def)

definition fields_of :: "string \<Rightarrow> int \<Rightarrow> string \<Rightarrow> string \<Rightarrow> string \<Rightarrow> string \<Rightarrow> string \<Rightarrow> string list
    \<Rightarrow> string \<Rightarrow> string \<Rightarrow> string \<Rightarrow> simpleFields" where
  "fields_of img port volumes memoryLimit cpuLimit logMaxSize logMaxFile envKeys command ports ulimitsNofile =
     \<lparr> sf_Image = img, sf_Port = max 0 port, sf_EnvKeys = filter (\<lambda>k. k \<noteq> []) (map TrimSpace envKeys),
       sf_Volumes = Join (splitEnvVars volumes) [CHR 0x0A], sf_MemoryLimit = memoryLimit, sf_CPULimit = cpuLimit,
       sf_LogMaxSize = TrimByte (CHR 0x22) logMaxSize, sf_LogMaxFile = TrimByte (CHR 0x22) logMaxFile,
       sf_Command = command, sf_Ports = Join (splitEnvVars ports) [CHR 0x0A], sf_UlimitsNofile = ulimitsNofile \<rparr>"

lemma service_fields:
  "fold_pairs f b (y_Content (service_node s)) =
     fold_pairs f (fold_pairs f (fold_pairs f (fold_pairs f (fold_pairs f (fold_pairs f (fold_pairs f
       (fold_pairs f (fold_pairs f (fold_pairs f (fold_pairs f (fold_pairs f b
        (str_field ''image'' (ss_Image s))) (str_field ''restart'' (ss_Restart s))) (str_field ''command'' (ss_Command s)))
        (seq_field ''ports'' (ss_Ports s))) (seq_field ''expose'' (ss_Expose s))) (seq_field ''volumes'' (ss_Volumes s)))
        (seq_field ''networks'' (ss_Networks s))) (node_field ''mem_limit'' (ss_MemLimit s)))
        (node_field ''cpus'' (ss_CPUs s))) (node_field ''ulimits'' (map_option ulimits_node (ss_Ulimits s))))
        (node_field ''logging'' (map_option logging_node (ss_Logging s)))) (seq_field ''environment'' (ss_Environment s))"
  by (simp add: service_node_def fold_pairs_append)

lemma parse_field_seq:
  "fold_pairs parse_field sf (seq_field ''ports'' (splitEnvVars t))
     = sf\<lparr>sf_Ports := if splitEnvVars t = [] then sf_Ports sf else Join (splitEnvVars t) [CHR 0x0A]\<rparr>"
  "fold_pairs parse_field sf (seq_field ''volumes'' (splitEnvVars t))
     = sf\<lparr>sf_Volumes := if splitEnvVars t = [] then sf_Volumes sf else Join (splitEnvVars t) [CHR 0x0A]\<rparr>"
  by (simp_all add: fold_fields parse_field_def item_lines_seq [OF splitEnvVars_nonempty])

lemma parse_field_expose:
  "port < 2 ^ 63 \<Longrightarrow> fold_pairs parse_field sf (seq_field ''expose'' (if port > 0 then [Itoa port] else []))
     = sf\<lparr>sf_Port := if port > 0 then port else sf_Port sf\<rparr>"
  by (simp add: fold_fields parse_field_def TrimByte_free Itoa_no_quote ParseInt_Itoa)

lemma parse_field_scalars:
  "fold_pairs parse_field sf (str_field ''image'' v) = sf\<lparr>sf_Image := if v = [] then sf_Image sf else v\<rparr>"
  "fold_pairs parse_field sf (str_field ''command'' v) = sf\<lparr>sf_Command := if v = [] then sf_Command sf else v\<rparr>"
  "fold_pairs parse_field sf (str_field ''restart'' v) = sf"
  "fold_pairs parse_field sf (seq_field ''networks'' xs) = sf"
  "fold_pairs parse_field sf (node_field ''mem_limit'' (plain v)) = sf\<lparr>sf_MemoryLimit := if v = [] then sf_MemoryLimit sf else v\<rparr>"
  "fold_pairs parse_field sf (node_field ''cpus'' (plain v)) = sf\<lparr>sf_CPULimit := if v = [] then sf_CPULimit sf else v\<rparr>"
  by (simp_all add: fold_fields parse_field_def plain_def)

lemma parse_field_ulimits:
  "fold_pairs parse_field sf (node_field ''ulimits'' (map_option ulimits_node
     (if v \<noteq> [] then Some (plain v, plain v) else None)))
     = sf\<lparr>sf_UlimitsNofile := if v = [] then sf_UlimitsNofile sf else v\<rparr>"
  by (simp add: fold_fields parse_field_def ulimits_node_def parse_nofile_def fold_pairs_append plain_def)

lemma parse_field_logging:
  "fold_pairs parse_field sf (node_field ''logging'' (map_option logging_node
     (if sz \<noteq> [] \<or> fl \<noteq> [] then Some \<lparr> sl_Driver = ''json-file'', sl_Options = logging_options sz fl \<rparr> else None)))
     = sf\<lparr> sf_LogMaxSize := if sz = [] then sf_LogMaxSize sf else TrimByte (CHR 0x22) sz,
           sf_LogMaxFile := if fl = [] then sf_LogMaxFile sf else TrimByte (CHR 0x22) fl \<rparr>"
  by (simp add: fold_fields parse_field_def logging_node_def parse_logging_def logging_options_parse)

lemma parse_field_env:
  assumes "\<And>k. k \<in> set envKeys \<Longrightarrow> TrimSpace k \<noteq> [] \<Longrightarrow> ValidEnvKey (TrimSpace k) = Inr ()"
  shows "fold_pairs parse_field sf (seq_field ''environment'' (env_refs envKeys))
     = sf\<lparr>sf_EnvKeys := if env_refs envKeys = [] then sf_EnvKeys sf else filter (\<lambda>k. k \<noteq> []) (map TrimSpace envKeys)\<rparr>"
  using env_items_refs [OF assms] by (simp add: fold_fields parse_field_def)

lemma default_nil:
  "(if v = [] then [] else v) = v"
  "(if ws = [] then [] else ws) = (ws :: string list)"
  "(if xs = [] then [] else Join xs sep) = Join xs sep"
  "(if v = [] then [] else TrimByte c v) = TrimByte c v"
  "(if 0 < port then port else 0) = max 0 (port :: int)"
  by (auto simp: TrimByte_def)

lemma parse_simple_compose:
  assumes "port < 2 ^ 63"
    and "\<And>k. k \<in> set envKeys \<Longrightarrow> TrimSpace k \<noteq> [] \<Longrightarrow> ValidEnvKey (TrimSpace k) = Inr ()"
  shows "parse_doc (compose_doc (simple_compose img port volumes appName memoryLimit cpuLimit logMaxSize logMaxFile
     envKeys command ports ulimitsNofile))
   = fields_of img port volumes memoryLimit cpuLimit logMaxSize logMaxFile envKeys command ports ulimitsNofile"
proof -
  have env: "fold_pairs parse_field sf (seq_field ''environment'' (env_refs envKeys))
      = sf\<lparr>sf_EnvKeys := if filter (\<lambda>k. k \<noteq> []) (map TrimSpace envKeys) = [] then sf_EnvKeys sf
          else filter (\<lambda>k. k \<noteq> []) (map TrimSpace envKeys)\<rparr>" for sf
    using parse_field_env [OF assms(2), of envKeys sf] by (simp add: env_refs_def)
  have first: "first_service (compose_doc \<lparr> sc_Services = [(n, s)], sc_Networks = ns \<rparr>) = Some (service_node s)" for n s ns
    by (simp add: first_service_def compose_doc_def mapValue_def service_node_def Let_def)
  show ?thesis
    unfolding parse_doc_def simple_compose_def Let_def first option.case service_fields simpleService.simps
    unfolding parse_field_scalars parse_field_expose [OF assms(1)] parse_field_ulimits parse_field_logging
      parse_field_seq env
    by (simp only: fields_of_def empty_fields_def simpleFields.simps default_nil)
qed


section \<open>Volumes\<close>

lemma sorted_remdups_adj_distinct: "sorted xs \<Longrightarrow> distinct (remdups_adj xs)"
  by (induction xs rule: remdups_adj.induct) auto

section \<open>Properties\<close>

lemmas sample_defs = sample_doc_def sample_root_def sample_services_def sample_service_def

lemma sample_tree:
  "compose_tree sample_doc sample_root sample_services" "networks_listed sample_services"
  by (simp_all add: compose_tree_def networks_listed_def joinable_def mapValue_def sample_defs new_node_def [of _ _ "_ # _"])

lemma sample_codec:
  shows "yaml_Unmarshal sample_yaml ''a'' = Some sample_doc"
    and "edit_doc sample_doc = Some d \<Longrightarrow> \<exists>out d'. yaml_Marshal sample_yaml d = Some out
     \<and> yaml_Unmarshal sample_yaml out = Some d' \<and> shape d' = shape d"
  by (simp add: sample_yaml_def) (intro exI [of _ "''b''"] exI [of _ d], simp add: sample_yaml_def)

text \<open>
  After \<open>ensureDockifyNetwork\<close> the compose file declares the external network \<open>dockify\<close>, some
  service is on it whenever one may join (and then every one that may, if none was before),
  and no other top-level entry has changed. The hypothesis on the YAML library is that the
  edited tree is written in a form that reads back as the same tree.
\<close>

theorem ensureDockifyNetwork_attaches:
  assumes "yaml_Unmarshal Y compose = Some doc" and "compose_tree doc rt s" and "networks_listed s"
    and "\<And>d. edit_doc doc = Some d \<Longrightarrow>
      \<exists>out d'. yaml_Marshal Y d = Some out \<and> yaml_Unmarshal Y out = Some d' \<and> shape d' = shape d"
  shows "\<exists>doc' rt' s'. yaml_Unmarshal Y (ensureDockifyNetwork Y compose) = Some doc' \<and> y_Content doc' = [rt']
     \<and> network_ready rt' \<and> mapValue rt' ''services'' = Some s' \<and> shape s' = shape (join_services s)
     \<and> ((\<exists>svc \<in> set (pair_values (y_Content s')). joinable svc)
          \<longrightarrow> (\<exists>svc \<in> set (pair_values (y_Content s')). joinable svc \<and> onDockify svc))
     \<and> (\<forall>key. key \<noteq> ''services'' \<longrightarrow> key \<noteq> ''networks''
          \<longrightarrow> map_option shape (mapValue rt' key) = map_option shape (mapValue rt key))"
proof (cases "edit_doc doc")
  case None
  from edit_doc_None [OF assms(2,3) None] have "network_ready rt" "missing s = []"
    using assms(2) by (auto simp: settled_def compose_tree_def)
  moreover from this have "join_services s = s" by (simp add: join_services_def)
  moreover have "ensureDockifyNetwork Y compose = compose"
    using assms(1) None by (simp add: ensureDockifyNetwork_def)
  ultimately show ?thesis
    using assms(1,2) by (intro exI [of _ doc] exI [of _ rt] exI [of _ s]) (auto simp: missing_Nil_iff compose_tree_def)
next
  case (Some d)
  obtain rt' where rt': "y_Content d = [rt']" "settled d" "mapValue rt' ''services'' = Some (join_services s)"
      "\<And>key. key \<noteq> ''services'' \<Longrightarrow> key \<noteq> ''networks'' \<Longrightarrow> mapValue rt' key = mapValue rt key"
    using edit_doc_Some [OF assms(2,3) Some] by metis
  obtain out d' where d': "yaml_Marshal Y d = Some out" "yaml_Unmarshal Y out = Some d'" "shape d' = shape d"
    using assms(4) [OF Some] by blast
  have out: "ensureDockifyNetwork Y compose = out"
    using assms(1) Some d' by (simp add: ensureDockifyNetwork_def)
  have "settled d'" using rt'(2) d'(3) settled_shape by metis
  then obtain q s' where q: "y_Content d' = [q]" "network_ready q" "mapValue q ''services'' = Some s'" "missing s' = []"
    unfolding settled_def by blast
  have eq: "shape q = shape rt'" using arg_cong [OF d'(3), of y_Content] q(1) rt'(1) by simp
  have keys: "map_option shape (mapValue q key) = map_option shape (mapValue rt' key)" for key
    using arg_cong [OF eq, of "\<lambda>n. mapValue n key"] by simp
  have "shape s' = shape (join_services s)" using keys [of "''services''"] q(3) rt'(3) by simp
  moreover have "map_option shape (mapValue q key) = map_option shape (mapValue rt key)"
    if "key \<noteq> ''services''" "key \<noteq> ''networks''" for key
    using keys [of key] rt'(4) [OF that] by simp
  moreover have "(\<exists>svc \<in> set (pair_values (y_Content s')). joinable svc)
      \<longrightarrow> (\<exists>svc \<in> set (pair_values (y_Content s')). joinable svc \<and> onDockify svc)"
    using q(4) by (simp add: missing_Nil_iff)
  ultimately show ?thesis
    using d'(2) q(1-3) unfolding out by (intro exI [of _ d'] exI [of _ q] exI [of _ s'] conjI allI impI) simp_all
qed

theorem ensureDockifyNetwork_attaches_witness:
  "\<exists>doc' rt' s'. yaml_Unmarshal sample_yaml (ensureDockifyNetwork sample_yaml ''a'') = Some doc' \<and> y_Content doc' = [rt']
     \<and> network_ready rt' \<and> mapValue rt' ''services'' = Some s' \<and> shape s' = shape (join_services sample_services)"
  by (rule ex_forward [OF ensureDockifyNetwork_attaches [OF sample_codec(1) sample_tree sample_codec(2)]])
    (assumption, elim ex_forward conjE, intro conjI)

text \<open>
  \<open>ensureDockifyNetwork\<close> is idempotent: saving and deploying the same app again never
  rewrites its compose file a second time.
\<close>

theorem ensureDockifyNetwork_idem:
  assumes "yaml_Unmarshal Y compose = Some doc" and "compose_tree doc rt s" and "networks_listed s"
    and "\<And>d. edit_doc doc = Some d \<Longrightarrow>
      \<exists>out d'. yaml_Marshal Y d = Some out \<and> yaml_Unmarshal Y out = Some d' \<and> shape d' = shape d"
  shows "ensureDockifyNetwork Y (ensureDockifyNetwork Y compose) = ensureDockifyNetwork Y compose"
proof (cases "edit_doc doc")
  case None
  then show ?thesis using assms(1) by (simp add: ensureDockifyNetwork_def)
next
  case (Some d)
  have "settled d" using edit_doc_Some [OF assms(2,3) Some] by metis
  moreover obtain out d' where d': "yaml_Marshal Y d = Some out" "yaml_Unmarshal Y out = Some d'" "shape d' = shape d"
    using assms(4) [OF Some] by blast
  ultimately have "edit_doc d' = None" using settled_shape settled_edit by metis
  then show ?thesis using assms(1) Some d' by (simp add: ensureDockifyNetwork_def)
qed

theorem ensureDockifyNetwork_idem_witness:
  "ensureDockifyNetwork sample_yaml (ensureDockifyNetwork sample_yaml ''a'') = ensureDockifyNetwork sample_yaml ''a''"
  by (rule ensureDockifyNetwork_idem [OF sample_codec(1) sample_tree sample_codec(2)])

text \<open>
  A service whose \<open>networks:\<close> is left empty, or names an anchor, is not attached: the edit
  puts the entry below a node that stays a scalar (or an alias) with its old value, and such
  a node is written as its value only.
\<close>

theorem join_service_scalar_networks:
  assumes "mapValue svc ''networks'' = Some nets" and "y_Kind nets \<in> {ScalarNode, AliasNode}"
  shows "\<exists>nets'. mapValue (join_service svc) ''networks'' = Some nets' \<and> y_Kind nets' = y_Kind nets
     \<and> y_Value nets' = y_Value nets \<and> \<not> wf_node nets'"
  using assms by (auto simp: join_service_def wf_set_Content)

theorem join_service_scalar_networks_witness:
  "\<exists>nets'. mapValue (join_service (new_node MappingNode [] [scalar ''networks'', scalar []])) ''networks'' = Some nets'
     \<and> y_Kind nets' = ScalarNode \<and> y_Value nets' = [] \<and> \<not> wf_node nets'"
proof -
  have "mapValue (new_node MappingNode [] [scalar ''networks'', scalar []]) ''networks'' = Some (scalar [])"
    by (simp add: mapValue_def)
  from join_service_scalar_networks [OF this] show ?thesis by simp
qed

text \<open>
  C26. The form fields of an app survive the compose file made from them: parsing what
  \<open>generateCompose\<close> wrote gives back the image, port, limits, command and variable names,
  the ports and volumes one per line, and the logging sizes without quotes around them.
\<close>

theorem generateCompose_roundtrip:
  assumes "port < 2 ^ 63"
    and "\<And>k. k \<in> set envKeys \<Longrightarrow> TrimSpace k \<noteq> [] \<Longrightarrow> ValidEnvKey (TrimSpace k) = Inr ()"
    and "\<And>c. c = simple_compose img port volumes appName memoryLimit cpuLimit logMaxSize logMaxFile envKeys command
        ports ulimitsNofile
      \<Longrightarrow> \<exists>out d. yaml_EncodeSimple Y c = Some out \<and> yaml_Unmarshal Y out = Some d \<and> shape d = shape (compose_doc c)"
  shows "parseSimpleFields Y (generateCompose Y img port volumes appName memoryLimit cpuLimit logMaxSize logMaxFile
      envKeys command ports ulimitsNofile)
    = \<lparr> sf_Image = img, sf_Port = max 0 port, sf_EnvKeys = filter (\<lambda>k. k \<noteq> []) (map TrimSpace envKeys),
       sf_Volumes = Join (splitEnvVars volumes) [CHR 0x0A], sf_MemoryLimit = memoryLimit, sf_CPULimit = cpuLimit,
       sf_LogMaxSize = TrimByte (CHR 0x22) logMaxSize, sf_LogMaxFile = TrimByte (CHR 0x22) logMaxFile,
       sf_Command = command, sf_Ports = Join (splitEnvVars ports) [CHR 0x0A], sf_UlimitsNofile = ulimitsNofile \<rparr>"
proof -
  obtain out d where "yaml_EncodeSimple Y (simple_compose img port volumes appName memoryLimit cpuLimit logMaxSize
      logMaxFile envKeys command ports ulimitsNofile) = Some out" "yaml_Unmarshal Y out = Some d"
      "shape d = shape (compose_doc (simple_compose img port volumes appName memoryLimit cpuLimit logMaxSize
      logMaxFile envKeys command ports ulimitsNofile))"
    using assms(3) by blast
  moreover from this(3) have "parse_doc d = fields_of img port volumes memoryLimit cpuLimit logMaxSize logMaxFile
      envKeys command ports ulimitsNofile"
    using parse_simple_compose [OF assms(1,2)] parse_doc_shape by metis
  ultimately show ?thesis by (simp add: generateCompose_def parseSimpleFields_def fields_of_def)
qed

theorem generateCompose_roundtrip_witness:
  "sf_Image (parseSimpleFields sample_yaml
      (generateCompose sample_yaml ''nginx'' 80 ''./data:/data'' ''web'' [] [] [] [] [''KEY''] [] [] [])) = ''nginx''
   \<and> sf_Port (parseSimpleFields sample_yaml
      (generateCompose sample_yaml ''nginx'' 80 ''./data:/data'' ''web'' [] [] [] [] [''KEY''] [] [] [])) = 80"
proof -
  have "TrimSpace ''KEY'' = ''KEY''" by (rule TrimSpace_id) (simp add: graphic_def less_eq_char_def)
  then have "ValidEnvKey (TrimSpace k) = Inr ()" if "k \<in> set [''KEY'']" for k
    using that by (simp add: ValidEnvKey_def envKey_match is_alpha_def less_eq_char_def)
  then have "parseSimpleFields sample_yaml
      (generateCompose sample_yaml ''nginx'' 80 ''./data:/data'' ''web'' [] [] [] [] [''KEY''] [] [] [])
    = \<lparr> sf_Image = ''nginx'', sf_Port = max 0 80, sf_EnvKeys = filter (\<lambda>k. k \<noteq> []) (map TrimSpace [''KEY'']),
       sf_Volumes = Join (splitEnvVars ''./data:/data'') [CHR 0x0A], sf_MemoryLimit = [], sf_CPULimit = [],
       sf_LogMaxSize = TrimByte (CHR 0x22) [], sf_LogMaxFile = TrimByte (CHR 0x22) [],
       sf_Command = [], sf_Ports = Join (splitEnvVars []) [CHR 0x0A], sf_UlimitsNofile = [] \<rparr>"
    by (intro generateCompose_roundtrip) (simp_all add: sample_yaml_def)
  then show ?thesis by simp
qed

text \<open>
  \<open>dockerVolumes\<close> lists, sorted and without repetition, exactly the Docker volumes of the
  services; a bind mount with a short-form source that starts with one of the path characters
  is never one of them.
\<close>

theorem dockerVolumes_correct:
  assumes "yaml_UnmarshalVolumes Y compose = Some svcs"
  shows "sorted (dockerVolumes Y compose) \<and> distinct (dockerVolumes Y compose)
    \<and> (\<forall>vol. vol \<in> set (dockerVolumes Y compose)
         \<longleftrightarrow> (\<exists>name vols v. (name, vols) \<in> set svcs \<and> v \<in> set vols \<and> vol \<in> set (docker_volume Y v)))
    \<and> (\<forall>v src tgt. y_Kind v = ScalarNode \<longrightarrow> y_Value v = src @ '':'' @ tgt \<longrightarrow> CHR '':'' \<notin> set src \<longrightarrow> src \<noteq> []
      \<longrightarrow> docker_volume Y v = (if hd src \<in> set ''./~$'' then [] else [src]))"
proof (intro conjI allI impI)
  show "sorted (dockerVolumes Y compose)" "distinct (dockerVolumes Y compose)"
    using assms by (simp_all add: dockerVolumes_def sorted_remdups_adj sorted_remdups_adj_distinct)
next
  fix vol
  show "vol \<in> set (dockerVolumes Y compose)
      \<longleftrightarrow> (\<exists>name vols v. (name, vols) \<in> set svcs \<and> v \<in> set vols \<and> vol \<in> set (docker_volume Y v))"
    using assms by (force simp: dockerVolumes_def)
next
  fix v src tgt
  assume "y_Kind v = ScalarNode" "y_Value v = src @ '':'' @ tgt" "CHR '':'' \<notin> set src" "src \<noteq> []"
  moreover from this have "takeWhile (\<lambda>x. x \<noteq> CHR '':'') (src @ CHR '':'' # tgt) = src"
    by (simp add: takeWhile_tail takeWhile_append)
  ultimately show "docker_volume Y v = (if hd src \<in> set ''./~$'' then [] else [src])"
    by (simp add: docker_volume_def Cut1_def)
qed

theorem dockerVolumes_correct_witness:
  "sorted (dockerVolumes sample_yaml ''a'') \<and> ''data'' \<in> set (dockerVolumes sample_yaml ''a'')"
proof -
  have "yaml_UnmarshalVolumes sample_yaml ''a'' = Some [(''web'', [scalar ''data:/data'', scalar ''./conf:/conf''])]"
    by (simp add: sample_yaml_def)
  moreover have "''data'' \<in> set (docker_volume sample_yaml (scalar ''data:/data''))"
    by (simp add: docker_volume_def Cut1_def)
  then have "\<exists>name vols v. (name, vols) \<in> set [(''web'', [scalar ''data:/data'', scalar ''./conf:/conf''])]
      \<and> v \<in> set vols \<and> ''data'' \<in> set (docker_volume sample_yaml v)"
    by (intro exI [of _ "''web''"] exI [of _ "[scalar ''data:/data'', scalar ''./conf:/conf'']"]
        exI [of _ "scalar ''data:/data''"]) simp
  ultimately show ?thesis using dockerVolumes_correct by blast
qed

end
