(* ===== verification/Base64.thy ===== *)
theory Base64
  imports GoStrings
begin

text \<open>
  \<open>base64.StdEncoding\<close> of Go's standard library, with which host keys and commands are stored
  and sent, and that decoding undoes encoding.
\<close>

definition b64_char :: "nat \<Rightarrow> char" where
  "b64_char n = (if n < 26 then char_of (65 + n) else if n < 52 then char_of (71 + n)
     else if n < 62 then char_of (n - 4) else if n = 62 then CHR ''+'' else CHR ''/'')"

definition b64_val :: "char \<Rightarrow> nat option" where
  "b64_val c = (let k = of_char c :: nat
     in if 65 \<le> k \<and> k \<le> 90 then Some (k - 65) else if 97 \<le> k \<and> k \<le> 122 then Some (k - 71)
        else if 48 \<le> k \<and> k \<le> 57 then Some (k + 4) else if c = CHR ''+'' then Some 62
        else if c = CHR ''/'' then Some 63 else None)"

fun EncodeToString :: "string \<Rightarrow> string" where
  "EncodeToString [] = []"
| "EncodeToString [a] = (let x = of_char a :: nat
     in [b64_char (x div 4), b64_char (x mod 4 * 16), CHR ''='', CHR ''=''])"
| "EncodeToString [a, b] = (let x = of_char a :: nat; y = of_char b
     in [b64_char (x div 4), b64_char (x mod 4 * 16 + y div 16), b64_char (y mod 16 * 4), CHR ''=''])"
| "EncodeToString (a # b # c # s) = (let x = of_char a :: nat; y = of_char b; z = of_char c
     in b64_char (x div 4) # b64_char (x mod 4 * 16 + y div 16) # b64_char (y mod 16 * 4 + z div 64)
        # b64_char (z mod 64) # EncodeToString s)"

fun decode_groups :: "string \<Rightarrow> string option" where
  "decode_groups [] = Some []"
| "decode_groups (a # b # c # d # s) =
     (case (b64_val a, b64_val b) of
        (Some p, Some q) \<Rightarrow>
          (if d = CHR ''='' then
             (if s \<noteq> [] then None
              else if c = CHR ''='' then Some [char_of (p * 4 + q div 16)]
              else case b64_val c of None \<Rightarrow> None
                | Some r \<Rightarrow> Some [char_of (p * 4 + q div 16), char_of (q mod 16 * 16 + r div 4)])
           else case (b64_val c, b64_val d, decode_groups s) of
                  (Some r, Some t, Some rest) \<Rightarrow> Some (char_of (p * 4 + q div 16) # char_of (q mod 16 * 16 + r div 4)
                     # char_of (r mod 4 * 64 + t) # rest)
                | _ \<Rightarrow> None)
      | _ \<Rightarrow> None)"
| "decode_groups _ = None"

text \<open>The decoder skips line ends wherever they are.\<close>

definition DecodeString :: "string \<Rightarrow> string option" where
  "DecodeString s = decode_groups (filter (\<lambda>c. c \<noteq> CHR 0x0A \<and> c \<noteq> CHR 0x0D) s)"

lemma b64_char_code:
  "n < 64 \<Longrightarrow> of_char (b64_char n) = (if n < 26 then 65 + n else if n < 52 then 71 + n else if n < 62 then n - 4
     else if n = 62 then 43 else 47)"
  by (simp add: b64_char_def)

lemma char_eq_code: "c = d \<longleftrightarrow> (of_char c :: nat) = of_char d"
  by (simp add: of_char_eq_iff)

lemma b64_val_char [simp]: "n < 64 \<Longrightarrow> b64_val (b64_char n) = Some n"
  unfolding b64_val_def Let_def char_eq_code by (simp only: b64_char_code) auto

lemma b64_char_plain [simp]:
  assumes "n < 64"
  shows "b64_char n \<noteq> CHR ''=''" "b64_char n \<noteq> CHR 0x0A" "b64_char n \<noteq> CHR 0x0D"
  using assms unfolding char_eq_code b64_char_code [OF assms] by auto

lemma of_char_bound [simp]: "(of_char (c :: char) :: nat) < 256"
  by simp

lemma sextets_bound:
  "(of_char (a :: char) :: nat) div 4 < 64" "(x :: nat) mod 4 * 16 < 64" "(of_char (b :: char) :: nat) div 16 < 16"
  "(x :: nat) mod 16 * 4 < 64" "(of_char (c :: char) :: nat) div 64 < 4" "(x :: nat) mod 64 < 64"
  using of_char_bound [of a] of_char_bound [of b] of_char_bound [of c] by (auto simp: less_mult_imp_div_less)

lemma sextets_bound2:
  "(x :: nat) mod 4 * 16 + (of_char (b :: char) :: nat) div 16 < 64"
  "(x :: nat) mod 16 * 4 + (of_char (c :: char) :: nat) div 64 < 64"
proof -
  have "x mod 4 \<le> 3" "x mod 16 \<le> 15" by (simp_all add: less_Suc_eq_le [symmetric])
  then show "x mod 4 * 16 + (of_char b :: nat) div 16 < 64" "x mod 16 * 4 + (of_char c :: nat) div 64 < 64"
    using sextets_bound(3) [of b] sextets_bound(5) [of c] by linarith+
qed

lemma bytes_back:
  fixes x y z :: nat
  assumes "y < 256" and "z < 256"
  shows "x div 4 * 4 + (x mod 4 * 16) div 16 = x"
    and "x div 4 * 4 + (x mod 4 * 16 + y div 16) div 16 = x"
    and "(x mod 4 * 16 + y div 16) mod 16 * 16 + (y mod 16 * 4) div 4 = y"
    and "(x mod 4 * 16 + y div 16) mod 16 * 16 + (y mod 16 * 4 + z div 64) div 4 = y"
    and "(y mod 16 * 4 + z div 64) mod 4 * 64 + z mod 64 = z"
proof -
  have "y div 16 < 16" "z div 64 < 4" using assms by (simp_all add: less_mult_imp_div_less)
  moreover have "y div 16 * 16 + y mod 16 = y" "z div 64 * 64 + z mod 64 = z" "x div 4 * 4 + x mod 4 = x" by simp_all
  ultimately show "x div 4 * 4 + (x mod 4 * 16) div 16 = x"
    "x div 4 * 4 + (x mod 4 * 16 + y div 16) div 16 = x"
    "(x mod 4 * 16 + y div 16) mod 16 * 16 + (y mod 16 * 4) div 4 = y"
    "(x mod 4 * 16 + y div 16) mod 16 * 16 + (y mod 16 * 4 + z div 64) div 4 = y"
    "(y mod 16 * 4 + z div 64) mod 4 * 64 + z mod 64 = z" by simp_all
qed

lemma decode_groups_encode: "decode_groups (EncodeToString s) = Some s"
  by (induction s rule: EncodeToString.induct)
    (simp_all add: Let_def sextets_bound sextets_bound2 bytes_back)

lemma encode_no_newline: "list_all (\<lambda>c. c \<noteq> CHR 0x0A \<and> c \<noteq> CHR 0x0D) (EncodeToString s)"
  by (induction s rule: EncodeToString.induct) (simp_all add: Let_def sextets_bound sextets_bound2)

lemma Decode_Encode [simp]: "DecodeString (EncodeToString s) = Some s"
proof -
  have "filter (\<lambda>c. c \<noteq> CHR 0x0A \<and> c \<noteq> CHR 0x0D) (EncodeToString s) = EncodeToString s"
    using encode_no_newline [of s] by (simp add: filter_id_conv list_all_iff)
  then show ?thesis by (simp add: DecodeString_def decode_groups_encode)
qed

lemma EncodeToString_nonempty [simp]: "EncodeToString s = [] \<longleftrightarrow> s = []"
  by (cases s rule: EncodeToString.cases) (simp_all add: Let_def)

lemma EncodeToString_inj: "EncodeToString s = EncodeToString t \<Longrightarrow> s = t"
  by (metis Decode_Encode option.inject)

end
