(* ===== verification/Worker.thy ===== *)
theory Worker
  imports Store Shell Compose Base64
begin

text \<open>
  The outside world of the controller and the SSH client of \<open>internal/ssh/client.go\<close>. A program
  state is the database, the trace of everything done outside so far, the clock (ns), the
  goroutines started so far and the apps whose lock is held. What
  the outside answers is the record \<open>env\<close>: functions of the trace, so a worker may answer the
  same command differently each time. Remote commands, files, Cloudflare requests and key
  files are only reached through it. Durations are natural numbers of ns: the clock never
  goes back. Calls to \<open>log.Printf\<close> have no effect on the model.
\<close>

section \<open>World\<close>

record conn =
  c_Host :: string
  c_Port :: int
  c_User :: string

datatype event =
    EvReadFile string
  | EvDial string
  | EvRun conn string "string option" int
  | EvClose conn
  | EvHttp string string string
  | EvSleep int
  | EvSaveFile string string
  | EvRemoveFile string
  | EvRandom nat

text \<open>How a remote command ends: the stages of \<open>run\<close>. \<open>Exited\<close> has the output, the error and stderr.\<close>

datatype run_outcome =
    NoSession error
  | NoStart error
  | TimedOut string
  | Exited string "error option" string

text \<open>
  A goroutine that has been started: the operation of the app service it runs, under the lock of
  the app, or of the server service.
\<close>

datatype task =
    TaskDeploy int string
  | TaskRedeploy int "string list"
  | TaskUndeploy int
  | TaskMoveApp int int int bool
  | TaskMoveWithoutFiles int int bool "string list"
  | TaskTestConnection int
  | TaskInitWorker int
  | TaskConnectAndInit int
  | TaskRefreshResources int

record world =
  w_db :: db
  w_trace :: "event list"
  w_clock :: int
  w_tasks :: "task list"
  w_locked :: "int set"

record DNSRecord =
  cf_ID :: string
  cf_ZoneID :: string
  cf_Name :: string
  cf_Type :: string
  cf_Content :: string
  cf_Proxied :: bool

record apiResponse =
  ar_Success :: bool
  ar_Errors :: "(int \<times> string) list"
  ar_Result :: string

record cf_client =
  cf_token :: string
  cf_zoneID :: string

record env =
  e_readfile :: "event list \<Rightarrow> string \<Rightarrow> string result"
  e_parsekey :: "string \<Rightarrow> unit result"
  e_parsepub :: "string \<Rightarrow> string result"
  e_dial :: "event list \<Rightarrow> string \<Rightarrow> unit result"
  e_handshake :: "event list \<Rightarrow> string \<Rightarrow> (string \<times> unit result) result"
  e_run :: "event list \<Rightarrow> conn \<Rightarrow> string \<Rightarrow> string option \<Rightarrow> run_outcome"
  e_http :: "event list \<Rightarrow> string \<Rightarrow> string \<Rightarrow> string \<Rightarrow> (int \<times> string) result"
  e_dur :: "event list \<Rightarrow> nat"
  e_yaml :: Yaml
  e_bcrypt :: "event list \<Rightarrow> string \<Rightarrow> string result"
  e_json_strings :: "string \<Rightarrow> string list result"
  e_json_response :: "string \<Rightarrow> apiResponse result"
  e_json_record :: "string \<Rightarrow> DNSRecord result"
  e_json_records :: "string \<Rightarrow> DNSRecord list result"
  e_order :: "event list \<Rightarrow> string list \<Rightarrow> string list"
  e_plan_servers :: "event list \<Rightarrow> Server list \<Rightarrow> Server list"
  e_plan_routes :: "event list \<Rightarrow> Route list \<Rightarrow> Route list"
  e_plan_dns :: "event list \<Rightarrow> DNSRecordInfo list \<Rightarrow> DNSRecordInfo list"
  e_plan_deps :: "event list \<Rightarrow> Deployment list \<Rightarrow> Deployment list"
  e_cf :: "cf_client option"
  e_scheduler :: bool
  e_savefile :: "event list \<Rightarrow> string \<Rightarrow> string \<Rightarrow> error option"
  e_genkey :: "event list \<Rightarrow> string result"
  e_random :: "event list \<Rightarrow> nat \<Rightarrow> string result"
  e_keyDir :: string

type_synonym 'a prog = "(world, 'a) state"

section \<open>Primitives\<close>

definition now_s :: "world \<Rightarrow> int" where
  "now_s w = w_clock w div 1000000000"

definition emit :: "env \<Rightarrow> event \<Rightarrow> unit prog" where
  "emit E ev = modify (\<lambda>w. w\<lparr>w_trace := w_trace w @ [ev],
     w_clock := w_clock w + int (e_dur E (w_trace w @ [ev]))\<rparr>)"

definition trace :: "event list prog" where
  "trace = gets w_trace"

definition db_get :: "(db \<Rightarrow> 'a) \<Rightarrow> 'a prog" where
  "db_get f = gets (\<lambda>w. f (w_db w))"

definition db_do :: "(int \<Rightarrow> db \<Rightarrow> db) \<Rightarrow> unit prog" where
  "db_do f = modify (\<lambda>w. w\<lparr>w_db := f (now_s w) (w_db w)\<rparr>)"

definition db_try :: "(int \<Rightarrow> db \<Rightarrow> 'a \<times> db) \<Rightarrow> 'a prog" where
  "db_try f = State (\<lambda>w. case f (now_s w) (w_db w) of (r, d) \<Rightarrow> (r, w\<lparr>w_db := d\<rparr>))"

definition Sleep :: "env \<Rightarrow> int \<Rightarrow> unit prog" where
  "Sleep E ns = do { emit E (EvSleep ns); modify (\<lambda>w. w\<lparr>w_clock := w_clock w + ns\<rparr>) }"

definition ReadFile :: "env \<Rightarrow> string \<Rightarrow> string result prog" where
  "ReadFile E path = do { h \<leftarrow> trace; emit E (EvReadFile path); ret (e_readfile E h path) }"

text \<open>\<open>os.WriteFile\<close> and \<open>os.Remove\<close> in the folder of the keys; an error of the latter is only logged.\<close>

definition SaveFile :: "env \<Rightarrow> string \<Rightarrow> string \<Rightarrow> error option prog" where
  "SaveFile E path content = do { h \<leftarrow> trace; emit E (EvSaveFile path content); ret (e_savefile E h path content) }"

definition RemoveFile :: "env \<Rightarrow> string \<Rightarrow> unit prog" where
  "RemoveFile E path = emit E (EvRemoveFile path)"

text \<open>\<open>io.ReadFull(rand.Reader, b)\<close> for \<open>n\<close> bytes.\<close>

definition Random :: "env \<Rightarrow> nat \<Rightarrow> string result prog" where
  "Random E n = do { h \<leftarrow> trace; emit E (EvRandom n); ret (e_random E h n) }"

section \<open>The SSH client\<close>

definition JoinHostPort :: "string \<Rightarrow> int \<Rightarrow> string" where
  "JoinHostPort host port =
     (if CHR '':'' \<in> set host then ''['' @ host @ '']:'' @ Itoa port else host @ '':'' @ Itoa port)"

text \<open>The callback over any store of pinned keys. The mismatch message holds a dash (U+2014).\<close>

definition pin_key :: "('d \<Rightarrow> string) \<Rightarrow> (string \<Rightarrow> 'd \<Rightarrow> 'd) \<Rightarrow> (string \<Rightarrow> string result) \<Rightarrow> string \<Rightarrow> string
    \<Rightarrow> 'd \<Rightarrow> unit result \<times> 'd" where
  "pin_key HostKey SaveHostKey ParsePublicKey addr key d =
     (let pinned = HostKey d
      in if pinned = [] then (Inr (), SaveHostKey (EncodeToString key) d)
         else (case DecodeString pinned of
                 None \<Rightarrow> Inl (''decode pinned host key for '' @ addr @ '': illegal base64 data'')
               | Some raw \<Rightarrow>
                   (case ParsePublicKey raw of
                      Inl err \<Rightarrow> Inl (''parse pinned host key for '' @ addr @ '': '' @ err)
                    | Inr want \<Rightarrow>
                        if want \<noteq> key
                        then Inl (''host key mismatch for '' @ addr @ '' '' @ [CHR 0xE2, CHR 0x80, CHR 0x94]
                          @ '' if the server was reinstalled, clear its host key in the server settings'')
                        else Inr ()), d))"

definition pinHostKey :: "env \<Rightarrow> string \<Rightarrow> int \<Rightarrow> string \<Rightarrow> unit result prog" where
  "pinHostKey E host port key = do {
     h \<leftarrow> trace;
     db_try (\<lambda>_. pin_key (Srv_HostKey (e_plan_servers E h) host port) (Srv_SaveHostKey host port) (e_parsepub E)
       (JoinHostPort host port) key)
   }"

definition Connect :: "env \<Rightarrow> string \<Rightarrow> int \<Rightarrow> string \<Rightarrow> string \<Rightarrow> conn result prog" where
  "Connect E host port user keyPath = do {
     keyBytes \<leftarrow> ReadFile E keyPath;
     case keyBytes of
       Inl err \<Rightarrow> ret (Inl (''read SSH key: '' @ err))
     | Inr bytes \<Rightarrow>
         (case e_parsekey E bytes of
            Inl err \<Rightarrow> ret (Inl (''parse SSH key: '' @ err))
          | Inr _ \<Rightarrow> do {
              let addr = JoinHostPort host port;
              h \<leftarrow> trace;
              emit E (EvDial addr);
              case e_dial E h addr of
                Inl err \<Rightarrow> ret (Inl (''connect '' @ addr @ '': '' @ err))
              | Inr _ \<Rightarrow>
                  (case e_handshake E h addr of
                     Inl err \<Rightarrow> ret (Inl (''ssh handshake '' @ addr @ '': '' @ err))
                   | Inr (key, auth) \<Rightarrow> do {
                       pin \<leftarrow> pinHostKey E host port key;
                       ret (case pin of
                              Inl err \<Rightarrow> Inl (''ssh handshake '' @ addr @ '': '' @ err)
                            | Inr _ \<Rightarrow>
                                (case auth of
                                   Inl err \<Rightarrow> Inl (''ssh handshake '' @ addr @ '': '' @ err)
                                 | Inr _ \<Rightarrow> Inr \<lparr> c_Host = host, c_Port = port, c_User = user \<rparr>))
                     })
            })
   }"

abbreviation ExecTimeout :: int where "ExecTimeout \<equiv> 120"
abbreviation ExecLongTimeout :: int where "ExecLongTimeout \<equiv> 3600"
abbreviation ExecPipeTimeout :: int where "ExecPipeTimeout \<equiv> 21600"

text \<open>A \<open>time.Duration\<close> of whole seconds as \<open>%s\<close> prints it.\<close>

definition duration_str :: "int \<Rightarrow> string" where
  "duration_str s =
     (if s < 60 then Itoa s @ ''s''
      else if s < 3600 then Itoa (s div 60) @ ''m'' @ Itoa (s mod 60) @ ''s''
      else Itoa (s div 3600) @ ''h'' @ Itoa (s mod 3600 div 60) @ ''m'' @ Itoa (s mod 60) @ ''s'')"

text \<open>\<open>run\<close>: what the command wrote, and the error if there was one.\<close>

definition run :: "env \<Rightarrow> conn \<Rightarrow> string \<Rightarrow> string option \<Rightarrow> int \<Rightarrow> (string \<times> error option) prog" where
  "run E c cmd stdin secs = do {
     h \<leftarrow> trace;
     emit E (EvRun c (wrapTimeout cmd secs) stdin secs);
     ret (case e_run E h c (wrapTimeout cmd secs) stdin of
            NoSession err \<Rightarrow> ([], Some (''new session: '' @ err))
          | NoStart err \<Rightarrow> ([], Some (''exec '' @ Quote cmd @ '': '' @ err))
          | TimedOut out \<Rightarrow> (out, Some (''exec '' @ Quote cmd @ '': timed out after '' @ duration_str secs))
          | Exited out None _ \<Rightarrow> (out, None)
          | Exited out (Some err) errout \<Rightarrow> (out, Some (''exec '' @ Quote cmd @ '': '' @ err @ '': '' @ errout)))
   }"

definition Exec :: "env \<Rightarrow> conn \<Rightarrow> string \<Rightarrow> (string \<times> error option) prog" where
  "Exec E c cmd = run E c cmd None ExecTimeout"

definition ExecLong :: "env \<Rightarrow> conn \<Rightarrow> string \<Rightarrow> (string \<times> error option) prog" where
  "ExecLong E c cmd = run E c cmd None ExecLongTimeout"

definition ExecPipe :: "env \<Rightarrow> conn \<Rightarrow> string \<Rightarrow> string option \<Rightarrow> (string \<times> error option) prog" where
  "ExecPipe E c cmd stdin = run E c cmd stdin ExecPipeTimeout"

definition WriteFile :: "env \<Rightarrow> conn \<Rightarrow> string \<Rightarrow> string \<Rightarrow> nat \<Rightarrow> error option prog" where
  "WriteFile E c name content mode = do {
     r \<leftarrow> run E c (writeFileCmd name mode) (Some content) ExecTimeout;
     ret (snd r)
   }"

definition Close :: "env \<Rightarrow> conn \<Rightarrow> unit prog" where
  "Close E c = emit E (EvClose c)"

section \<open>Frames and preconditions of the primitives\<close>

lemma exec_db_try: "exec (db_try f) w = w\<lparr>w_db := snd (f (now_s w) (w_db w))\<rparr>"
  by (simp add: exec_def db_try_def split: prod.splits)

lemma keeps_emit [frame]: "keeps w_db (emit E ev)" "keeps w_tasks (emit E ev)"
  by (simp_all add: emit_def keeps_def exec_def)

lemma keeps_trace [frame]: "keeps f trace"
  by (simp add: trace_def frame)

lemma keeps_db_get [frame]: "keeps f (db_get g)"
  by (simp add: db_get_def frame)

lemma keeps_db_do [frame]:
  "keeps w_trace (db_do f)" "keeps w_clock (db_do f)" "keeps w_tasks (db_do f)"
  by (simp_all add: db_do_def keeps_def exec_def)

lemma keeps_db_try [frame]:
  "keeps w_trace (db_try f)" "keeps w_clock (db_try f)" "keeps w_tasks (db_try f)"
  by (simp_all add: keeps_def exec_db_try)

lemma keeps_Sleep [frame]: "keeps w_db (Sleep E ns)" "keeps w_tasks (Sleep E ns)"
  unfolding Sleep_def by (auto intro!: frame simp: keeps_def [of _ "modify _"] exec_def)

lemma keeps_ReadFile [frame]: "keeps w_db (ReadFile E p)" "keeps w_tasks (ReadFile E p)"
  unfolding ReadFile_def by (intro frame)+

lemma keeps_SaveFile [frame]:
  "keeps w_db (SaveFile E p c)" "keeps w_tasks (SaveFile E p c)" "keeps w_db (RemoveFile E p)" "keeps w_tasks (RemoveFile E p)"
  unfolding SaveFile_def RemoveFile_def by (intro frame)+

lemma keeps_Random [frame]: "keeps w_db (Random E n)" "keeps w_tasks (Random E n)"
  unfolding Random_def by (intro frame)+

lemma keeps_run [frame]: "keeps w_db (run E c cmd i s)" "keeps w_tasks (run E c cmd i s)"
  unfolding run_def by (intro frame)+

lemma keeps_Exec [frame]:
  "keeps w_db (Exec E c cmd)" "keeps w_db (ExecLong E c cmd)" "keeps w_db (ExecPipe E c cmd i)"
  "keeps w_db (WriteFile E c n t m)" "keeps w_db (Close E c)"
  "keeps w_tasks (Exec E c cmd)" "keeps w_tasks (ExecLong E c cmd)" "keeps w_tasks (ExecPipe E c cmd i)"
  "keeps w_tasks (WriteFile E c n t m)" "keeps w_tasks (Close E c)"
  unfolding Exec_def ExecLong_def ExecPipe_def WriteFile_def Close_def by (intro frame)+

lemma wp_db_get [wp_simps]: "wp (db_get f) Q w = Q (f (w_db w)) w"
  by (simp add: db_get_def wp_simps)

lemma wp_trace [wp_simps]: "wp trace Q w = Q (w_trace w) w"
  by (simp add: trace_def wp_simps)

lemma wp_db_do [wp_simps]: "wp (db_do f) Q w = Q () (w\<lparr>w_db := f (now_s w) (w_db w)\<rparr>)"
  by (simp add: db_do_def wp_simps)

lemma wp_db_try [wp_simps]:
  "wp (db_try f) Q w = (case f (now_s w) (w_db w) of (r, d) \<Rightarrow> Q r (w\<lparr>w_db := d\<rparr>))"
  by (simp add: db_try_def wp_def split: prod.splits)

section \<open>Events and statements\<close>

text \<open>
  \<open>emits P m\<close>: \<open>m\<close> only extends the trace, by events that satisfy \<open>P\<close>. \<open>steps m\<close>: \<open>m\<close> changes the
  database by statements of the repositories only. Both are closed under the syntax, so a
  fact about a long function is one \<open>intro\<close> over its collection.
\<close>

named_theorems events \<open>rules and facts of the form emits P m\<close>
named_theorems stmts \<open>rules and facts of the form steps m\<close>

definition emits :: "(event \<Rightarrow> bool) \<Rightarrow> 'a prog \<Rightarrow> bool" where
  "emits P m \<longleftrightarrow> (\<forall>w. \<exists>evs. w_trace (exec m w) = w_trace w @ evs \<and> list_all P evs)"

definition steps :: "'a prog \<Rightarrow> bool" where
  "steps m \<longleftrightarrow> (\<forall>w. db_step\<^sup>*\<^sup>* (w_db w) (w_db (exec m w)))"

lemma emits_trace: "keeps w_trace m \<Longrightarrow> emits P m"
  by (simp add: emits_def keeps_def)

lemma steps_db: "keeps w_db m \<Longrightarrow> steps m"
  by (simp add: steps_def keeps_def)

lemma emits_bind [events]:
  assumes "emits P m" and "\<And>x. emits P (g x)"
  shows "emits P (State_Monad.bind m g)"
  unfolding emits_def
proof
  fix w
  obtain evs where "w_trace (exec m w) = w_trace w @ evs" "list_all P evs"
    using assms(1) unfolding emits_def by blast
  moreover obtain evs' where "w_trace (exec (g (result m w)) (exec m w)) = w_trace (exec m w) @ evs'" "list_all P evs'"
    using assms(2) unfolding emits_def by blast
  ultimately show "\<exists>evs. w_trace (exec (State_Monad.bind m g) w) = w_trace w @ evs \<and> list_all P evs"
    by (intro exI [of _ "evs @ evs'"]) (simp add: exec_bind)
qed

lemma steps_bind [stmts]:
  assumes "steps m" and "\<And>x. steps (g x)"
  shows "steps (State_Monad.bind m g)"
  using assms unfolding steps_def exec_bind by (meson rtranclp_trans)

lemma emits_if [events]: "emits P a \<Longrightarrow> emits P b \<Longrightarrow> emits P (if c then a else b)"
  by simp

lemma steps_if [stmts]: "steps a \<Longrightarrow> steps b \<Longrightarrow> steps (if c then a else b)"
  by simp

lemma emits_case_option [events]:
  "emits P a \<Longrightarrow> (\<And>y. emits P (b y)) \<Longrightarrow> emits P (case x of None \<Rightarrow> a | Some y \<Rightarrow> b y)"
  by (cases x) simp_all

lemma steps_case_option [stmts]:
  "steps a \<Longrightarrow> (\<And>y. steps (b y)) \<Longrightarrow> steps (case x of None \<Rightarrow> a | Some y \<Rightarrow> b y)"
  by (cases x) simp_all

lemma emits_case_sum [events]:
  "(\<And>y. emits P (a y)) \<Longrightarrow> (\<And>z. emits P (b z)) \<Longrightarrow> emits P (case x of Inl y \<Rightarrow> a y | Inr z \<Rightarrow> b z)"
  by (cases x) simp_all

lemma steps_case_sum [stmts]:
  "(\<And>y. steps (a y)) \<Longrightarrow> (\<And>z. steps (b z)) \<Longrightarrow> steps (case x of Inl y \<Rightarrow> a y | Inr z \<Rightarrow> b z)"
  by (cases x) simp_all

lemma emits_case_prod [events]: "(\<And>a b. emits P (g a b)) \<Longrightarrow> emits P (case p of (a, b) \<Rightarrow> g a b)"
  by (cases p) simp

lemma steps_case_prod [stmts]: "(\<And>a b. steps (g a b)) \<Longrightarrow> steps (case p of (a, b) \<Rightarrow> g a b)"
  by (cases p) simp

lemma emits_let [events]: "(\<And>x. emits P (g x)) \<Longrightarrow> emits P (let x = v in g x)"
  by simp

lemma steps_let [stmts]: "(\<And>x. steps (g x)) \<Longrightarrow> steps (let x = v in g x)"
  by simp

lemma emits_basic [events]:
  "emits P (ret x)" "emits P (gets f)" "emits P trace" "emits P (db_get q)" "emits P (db_do s)" "emits P (db_try t)"
  by (rule emits_trace, intro frame)+

lemma steps_basic [stmts]: "steps (ret x)" "steps (gets f)" "steps trace" "steps (db_get q)"
  by (rule steps_db, intro frame)+

lemma steps_do [stmts]: "(\<And>now d. db_step d (f now d)) \<Longrightarrow> steps (db_do f)"
  by (auto simp: steps_def db_do_def exec_def)

lemma steps_try [stmts]: "(\<And>now d. db_step d (snd (f now d))) \<Longrightarrow> steps (db_try f)"
  by (auto simp: steps_def exec_db_try)

lemma emits_forM [events]: "(\<And>x. emits P (g x)) \<Longrightarrow> emits P (forM xs g)"
  by (induction xs) (auto intro: events)

lemma steps_forM [stmts]: "(\<And>x. steps (g x)) \<Longrightarrow> steps (forM xs g)"
  by (induction xs) (auto intro: stmts)

lemma emits_foldM [events]: "(\<And>b x. emits P (g b x)) \<Longrightarrow> emits P (foldM g b xs)"
  by (induction xs arbitrary: b) (auto intro: events)

lemma steps_foldM [stmts]: "(\<And>b x. steps (g b x)) \<Longrightarrow> steps (foldM g b xs)"
  by (induction xs arbitrary: b) (auto intro: stmts)

lemma emits_emit: "P ev \<Longrightarrow> emits P (emit E ev)"
  by (simp add: emits_def emit_def exec_def)

lemma emits_mono: "emits P m \<Longrightarrow> (\<And>ev. P ev \<Longrightarrow> Q ev) \<Longrightarrow> emits Q m"
  unfolding emits_def list_all_iff by meson

lemma emits_bind_wp:
  assumes "emits P m" and "\<And>w. wp m (\<lambda>x _. F x) w" and "\<And>x. F x \<Longrightarrow> emits P (g x)"
  shows "emits P (State_Monad.bind m g)"
  unfolding emits_def
proof
  fix w
  obtain evs where "w_trace (exec m w) = w_trace w @ evs" "list_all P evs"
    using assms(1) unfolding emits_def by blast
  moreover have "F (result m w)" using assms(2) [of w] by (simp add: wp_exec_result)
  then obtain evs' where "w_trace (exec (g (result m w)) (exec m w)) = w_trace (exec m w) @ evs'" "list_all P evs'"
    using assms(3) unfolding emits_def by blast
  ultimately show "\<exists>evs. w_trace (exec (State_Monad.bind m g) w) = w_trace w @ evs \<and> list_all P evs"
    by (intro exI [of _ "evs @ evs'"]) (simp add: exec_bind)
qed

lemma emits_run: "P (EvRun c (wrapTimeout cmd secs) i secs) \<Longrightarrow> emits P (run E c cmd i secs)"
  unfolding run_def by (intro events emits_emit)

lemma emits_calls:
  "P (EvRun c (wrapTimeout cmd ExecTimeout) None ExecTimeout) \<Longrightarrow> emits P (Exec E c cmd)"
  "P (EvRun c (wrapTimeout cmd ExecLongTimeout) None ExecLongTimeout) \<Longrightarrow> emits P (ExecLong E c cmd)"
  "P (EvRun c (wrapTimeout cmd ExecPipeTimeout) i ExecPipeTimeout) \<Longrightarrow> emits P (ExecPipe E c cmd i)"
  "P (EvRun c (wrapTimeout (writeFileCmd n mode) ExecTimeout) (Some content) ExecTimeout) \<Longrightarrow> emits P (WriteFile E c n content mode)"
  "P (EvClose c) \<Longrightarrow> emits P (Close E c)"
  "P (EvReadFile p) \<Longrightarrow> emits P (ReadFile E p)"
  "P (EvSleep ns) \<Longrightarrow> emits P (Sleep E ns)"
  unfolding Exec_def ExecLong_def ExecPipe_def WriteFile_def Close_def ReadFile_def Sleep_def
  by (assumption | intro events emits_run emits_emit | rule emits_trace, simp add: keeps_def exec_def)+

lemma steps_calls [stmts]:
  "steps (emit E ev)" "steps (run E c cmd i secs)" "steps (Exec E c cmd)" "steps (ExecLong E c cmd)"
  "steps (ExecPipe E c cmd i)" "steps (WriteFile E c n content mode)" "steps (Close E c)" "steps (ReadFile E p)"
  "steps (Sleep E ns)"
  by (rule steps_db, intro frame)+

lemma steps_pinHostKey [stmts]: "steps (pinHostKey E host port key)"
proof -
  have "db_step\<^sup>*\<^sup>* d (snd (pin_key (Srv_HostKey plan host port) (Srv_SaveHostKey host port) parse addr key d))"
    for plan parse addr d
    by (auto simp: pin_key_def Let_def intro: srv_hostkey)
  then show ?thesis
    unfolding pinHostKey_def by (intro steps_bind steps_basic) (auto simp: steps_def exec_db_try)
qed

lemma steps_Connect [stmts]: "steps (Connect E host port user key)"
  unfolding Connect_def by (intro stmts)

lemma emits_Connect:
  assumes "P (EvReadFile key)" and "P (EvDial (JoinHostPort host port))"
  shows "emits P (Connect E host port user key)"
  unfolding Connect_def pinHostKey_def Let_def using assms by (intro events emits_emit emits_calls)

text \<open>
  Between the traces \<open>tr0\<close> and \<open>tr\<close> a command ended without an error and with the output \<open>out\<close>.
\<close>

definition succeeded :: "env \<Rightarrow> conn \<Rightarrow> string \<Rightarrow> string option \<Rightarrow> int \<Rightarrow> string \<Rightarrow> event list \<Rightarrow> event list \<Rightarrow> bool" where
  "succeeded E c cmd i secs out tr0 tr \<longleftrightarrow> (\<exists>h rest errout.
     tr = tr0 @ h @ EvRun c (wrapTimeout cmd secs) i secs # rest
     \<and> e_run E (tr0 @ h) c (wrapTimeout cmd secs) i = Exited out None errout)"

lemma succeeded_mono:
  assumes "succeeded E c cmd i secs out tr1 tr2" and "prefix tr0 tr1" and "prefix tr2 tr3"
  shows "succeeded E c cmd i secs out tr0 tr3"
proof -
  obtain h rest errout a b where "tr2 = tr1 @ h @ EvRun c (wrapTimeout cmd secs) i secs # rest" "tr1 = tr0 @ a" "tr3 = tr2 @ b"
    "e_run E (tr1 @ h) c (wrapTimeout cmd secs) i = Exited out None errout"
    using assms unfolding succeeded_def prefix_def by blast
  then show ?thesis unfolding succeeded_def by (intro exI [of _ "a @ h"] exI [of _ "rest @ b"] exI [of _ errout]) simp
qed

lemma run_succeeded:
  "wp (run E c cmd i secs) (\<lambda>x w'. snd x = None \<longrightarrow> succeeded E c cmd i secs (fst x) (w_trace w) (w_trace w')) w"
proof -
  have "succeeded E c cmd i secs out (w_trace w) (w_trace w @ [EvRun c (wrapTimeout cmd secs) i secs])"
    if "e_run E (w_trace w) c (wrapTimeout cmd secs) i = Exited out None errout" for out errout
    unfolding succeeded_def using that by (intro exI [of _ "[]"] exI [of _ errout]) simp
  then show ?thesis
    unfolding run_def by (auto simp: wp_simps emit_def split: run_outcome.splits option.splits)
qed

lemma emits_prefix: "emits P m \<Longrightarrow> prefix (w_trace w) (w_trace (exec m w))"
  unfolding emits_def by (metis prefixI)

lemma wp_grow:
  assumes "emits P m" and "\<And>r w'. prefix (w_trace w) (w_trace w') \<Longrightarrow> Q r w'"
  shows "wp m Q w"
  unfolding wp_exec_result by (intro assms(2) emits_prefix [OF assms(1)])

lemma stable_prefix [ends_rules]: "emits (\<lambda>_. True) m \<Longrightarrow> stable (\<lambda>w. prefix tr0 (w_trace w)) m"
  unfolding stable_def using emits_prefix prefix_order.trans by blast

text \<open>Every program extends the trace.\<close>

lemma emits_True [events]:
  "emits (\<lambda>_. True) (emit E ev)" "emits (\<lambda>_. True) (run E c cmd i secs)" "emits (\<lambda>_. True) (Exec E c cmd)"
  "emits (\<lambda>_. True) (ExecLong E c cmd)" "emits (\<lambda>_. True) (ExecPipe E c cmd i)"
  "emits (\<lambda>_. True) (WriteFile E c n content mode)" "emits (\<lambda>_. True) (Close E c)" "emits (\<lambda>_. True) (ReadFile E p)"
  "emits (\<lambda>_. True) (Connect E host port user key)"
  by (intro emits_emit emits_run emits_calls emits_Connect TrueI)+

section \<open>Pinned host keys\<close>

text \<open>
  \<open>ssh.HostKeyStore\<close>: what the client relies on, for the hosts the store knows. The client's
  lemmas show trust on first use.
\<close>

locale host_key_store =
  fixes get :: "string \<Rightarrow> int \<Rightarrow> 'd \<Rightarrow> string"
    and save :: "string \<Rightarrow> int \<Rightarrow> string \<Rightarrow> 'd \<Rightarrow> 'd"
    and known :: "string \<Rightarrow> int \<Rightarrow> 'd \<Rightarrow> bool"
  assumes get_save: "known h p d \<Longrightarrow> get h p (save h p k d) = k"
    and get_save_other: "(h', p') \<noteq> (h, p) \<Longrightarrow> get h' p' (save h p k d) = get h' p' d"
    and known_save: "known h' p' (save h p k d) = known h' p' d"
begin

lemma first_use:
  assumes "get h p d = []"
  shows "pin_key (get h p) (save h p) parse addr key d = (Inr (), save h p (EncodeToString key) d)"
  using assms by (simp add: pin_key_def)

lemma pinned_accepts:
  assumes "get h p d = EncodeToString k" and "k \<noteq> []" and "parse k = Inr k"
  shows "fst (pin_key (get h p) (save h p) parse addr key d) = Inr () \<longleftrightarrow> key = k"
    and "snd (pin_key (get h p) (save h p) parse addr key d) = d"
  using assms by (auto simp: pin_key_def)

lemma trust_on_first_use:
  fixes addr :: string
  assumes "known h p d" and "get h p d = []" and "k \<noteq> []" and "parse k = Inr k"
  defines "d' \<equiv> snd (pin_key (get h p) (save h p) parse addr k d)"
  shows "fst (pin_key (get h p) (save h p) parse addr k d) = Inr ()"
    and "fst (pin_key (get h p) (save h p) parse addr key d') = Inr () \<longleftrightarrow> key = k"
    and "snd (pin_key (get h p) (save h p) parse addr key d') = d'"
    and "(h', p') \<noteq> (h, p) \<Longrightarrow> get h' p' d' = get h' p' d"
proof -
  have d': "d' = save h p (EncodeToString k) d" using assms(2) by (simp add: d'_def first_use)
  then have "get h p d' = EncodeToString k" using assms(1) by (simp add: get_save)
  from pinned_accepts [where parse = parse, OF this assms(3,4)]
  show "fst (pin_key (get h p) (save h p) parse addr key d') = Inr () \<longleftrightarrow> key = k"
    and "snd (pin_key (get h p) (save h p) parse addr key d') = d'" .
  show "fst (pin_key (get h p) (save h p) parse addr k d) = Inr ()" using assms(2) by (simp add: first_use)
  show "(h', p') \<noteq> (h, p) \<Longrightarrow> get h' p' d' = get h' p' d" by (simp add: d' get_save_other)
qed

end

definition has_server :: "string \<Rightarrow> int \<Rightarrow> db \<Rightarrow> bool" where
  "has_server host port d \<longleftrightarrow> (\<exists>s \<in> set (servers d). srv_Host s = host \<and> srv_Port s = port)"

lemma hd_reorder_in: "reorder plan xs = y # ys \<Longrightarrow> y \<in> set xs"
  by (metis list.set_intros(1) set_reorder)

interpretation server_keys: host_key_store "Srv_HostKey plan" Srv_SaveHostKey has_server for plan
proof
  fix h :: string and p :: int and d :: db and k h' p'
  let ?f = "\<lambda>s :: Server. if srv_Host s = h \<and> srv_Port s = p then s\<lparr>srv_HostKey := k\<rparr> else s"
  have same: "filter (\<lambda>s. srv_Host s = h \<and> srv_Port s = p) (map ?f xs)
      = map (\<lambda>s. s\<lparr>srv_HostKey := k\<rparr>) (filter (\<lambda>s. srv_Host s = h \<and> srv_Port s = p) xs)" for xs
    by (induction xs) auto
  show "Srv_HostKey plan h p (Srv_SaveHostKey h p k d) = k" if known: "has_server h p d"
  proof (cases "reorder plan (filter (\<lambda>s. srv_Host s = h \<and> srv_Port s = p) (map ?f (servers d)))")
    case Nil
    then have "filter (\<lambda>s. srv_Host s = h \<and> srv_Port s = p) (servers d) = []" unfolding reorder_Nil same by simp
    with known show ?thesis by (auto simp: filter_empty_conv has_server_def)
  next
    case (Cons s ss)
    from hd_reorder_in [OF this]
    have "s \<in> set (map (\<lambda>s. s\<lparr>srv_HostKey := k\<rparr>) (filter (\<lambda>s. srv_Host s = h \<and> srv_Port s = p) (servers d)))"
      by (simp only: same)
    then have "srv_HostKey s = k" by auto
    with Cons show ?thesis by (simp add: Srv_HostKey_def Srv_SaveHostKey_def map_server_def)
  qed
  show "Srv_HostKey plan h' p' (Srv_SaveHostKey h p k d) = Srv_HostKey plan h' p' d" if "(h', p') \<noteq> (h, p)"
  proof -
    have "filter (\<lambda>s. srv_Host s = h' \<and> srv_Port s = p') (map ?f xs)
        = filter (\<lambda>s. srv_Host s = h' \<and> srv_Port s = p') xs" for xs
    proof -
      have "(\<lambda>s. srv_Host s = h' \<and> srv_Port s = p') \<circ> ?f = (\<lambda>s. srv_Host s = h' \<and> srv_Port s = p')"
        by (rule ext) simp
      moreover have "map ?f (filter (\<lambda>s. srv_Host s = h' \<and> srv_Port s = p') xs)
          = filter (\<lambda>s. srv_Host s = h' \<and> srv_Port s = p') xs"
      proof (rule map_idI)
        fix s
        assume "s \<in> set (filter (\<lambda>s. srv_Host s = h' \<and> srv_Port s = p') xs)"
        then have "(srv_Host s, srv_Port s) = (h', p')" by simp
        then have "\<not> (srv_Host s = h \<and> srv_Port s = p)" using that by blast
        then show "?f s = s" by (rule if_not_P)
      qed
      ultimately show ?thesis by (simp only: filter_map)
    qed
    then show ?thesis by (simp add: Srv_HostKey_def Srv_SaveHostKey_def map_server_def)
  qed
  show "has_server h' p' (Srv_SaveHostKey h p k d) = has_server h' p' d"
    by (simp add: has_server_def Srv_SaveHostKey_def map_server_def del: if_image_distrib)
      (rule bex_cong, auto)
qed

section \<open>Properties\<close>

text \<open>
  C27. Host keys are trusted on first use: the first key a known server presents is accepted and
  stored, from then on exactly that key is accepted, the stored key does not change any more,
  and the keys of other servers are not touched. The hypothesis on the SSH library is that a
  serialised key parses as itself.
\<close>

theorem pinHostKey_tofu:
  assumes "has_server host port (w_db w)" and "Srv_HostKey (e_plan_servers E (w_trace w)) host port (w_db w) = []"
    and "k \<noteq> []" and "e_parsepub E k = Inr k"
  shows "result (pinHostKey E host port k) w = Inr ()
     \<and> (\<forall>w' key. w_db w' = w_db (exec (pinHostKey E host port k) w)
         \<longrightarrow> (result (pinHostKey E host port key) w' = Inr () \<longleftrightarrow> key = k)
           \<and> w_db (exec (pinHostKey E host port key) w') = w_db w')
     \<and> (\<forall>plan h' p'. (h', p') \<noteq> (host, port)
         \<longrightarrow> Srv_HostKey plan h' p' (w_db (exec (pinHostKey E host port k) w)) = Srv_HostKey plan h' p' (w_db w))"
proof -
  have run: "run_state (pinHostKey E host port key) v
      = (let r = pin_key (Srv_HostKey (e_plan_servers E (w_trace v)) host port) (Srv_SaveHostKey host port) (e_parsepub E)
          (JoinHostPort host port) key (w_db v) in (fst r, v\<lparr>w_db := snd r\<rparr>))" for v key
    by (simp add: pinHostKey_def trace_def db_try_def Let_def split: prod.splits)
  have db: "w_db (exec (pinHostKey E host port k) w) = Srv_SaveHostKey host port (EncodeToString k) (w_db w)"
    using assms(2) by (simp add: exec_def run Let_def server_keys.first_use)
  have "Srv_HostKey plan host port (Srv_SaveHostKey host port (EncodeToString k) (w_db w)) = EncodeToString k" for plan
    by (rule server_keys.get_save [OF assms(1)])
  from server_keys.pinned_accepts [where parse = "e_parsepub E", OF this assms(3,4)] show ?thesis
    using assms(2) db
    by (simp add: exec_def result_def run Let_def server_keys.first_use server_keys.get_save_other)
qed

text \<open>A world with one server, and an outside in which every command succeeds without output.\<close>

definition sample_server :: Server where
  "sample_server = \<lparr> srv_ID = 1, srv_Name = ''w'', srv_Host = ''h'', srv_Port = 22, srv_User = ''root'', srv_SSHKey = ''k'',
     srv_Status = ''online'', srv_CPUCores = 0, srv_RAMMB = 0, srv_DiskGB = 0, srv_CPUUsage = 0, srv_RAMUsage = 0,
     srv_DiskUsage = 0, srv_ResourcesUpdatedAt = 0, srv_RegistryHost = [], srv_RegistryUser = [], srv_RegistryToken = [],
     srv_HostKey = [], srv_CreatedAt = 0, srv_UpdatedAt = 0 \<rparr>"

definition sample_app :: App where
  "sample_app = \<lparr> app_ID = 1, app_Name = ''a'', app_ServerID = 1, app_Domain = [], app_Port = 80, app_Compose = ''a'',
     app_GitRepo = [], app_GitBranch = [], app_AuthUser = [], app_AuthPass = [], app_Status = ''running'',
     app_ComposeMode = ''advanced'', app_MemoryLimit = [], app_CPULimit = [], app_LogMaxSize = [], app_LogMaxFile = [],
     app_Command = [], app_Ports = [], app_UlimitsNofile = [], app_CreatedAt = 0, app_UpdatedAt = 0 \<rparr>"

definition sample_db :: db where
  "sample_db = (empty_db True True)\<lparr>servers := [sample_server], apps := [sample_app], sqlite_sequence := (\<lambda>_. 1)\<rparr>"

definition sample_world :: world where
  "sample_world = \<lparr> w_db = sample_db, w_trace = [], w_clock = 0, w_tasks = [], w_locked = {} \<rparr>"

definition sample_env :: env where
  "sample_env = \<lparr> e_readfile = (\<lambda>_ _. Inr ''key''), e_parsekey = (\<lambda>_. Inr ()), e_parsepub = Inr,
     e_dial = (\<lambda>_ _. Inr ()), e_handshake = (\<lambda>_ _. Inr (''hostkey'', Inr ())),
     e_run = (\<lambda>_ _ _ _. Exited [] None []), e_http = (\<lambda>_ _ _ _. Inl ''offline''), e_dur = (\<lambda>_. 0),
     e_yaml = sample_yaml, e_bcrypt = (\<lambda>_ p. Inr p), e_json_strings = (\<lambda>_. Inr []),
     e_json_response = (\<lambda>_. Inl ''x''), e_json_record = (\<lambda>_. Inl ''x''), e_json_records = (\<lambda>_. Inl ''x''),
     e_order = (\<lambda>_ xs. xs), e_plan_servers = (\<lambda>_ xs. xs), e_plan_routes = (\<lambda>_ xs. xs),
     e_plan_dns = (\<lambda>_ xs. xs), e_plan_deps = (\<lambda>_ xs. xs), e_cf = None, e_scheduler = True,
     e_savefile = (\<lambda>_ _ _. None), e_genkey = (\<lambda>_. Inr ''new key''), e_random = (\<lambda>_ n. Inr (replicate n CHR 0x00)), e_keyDir = ''/keys'' \<rparr>"

theorem pinHostKey_tofu_witness:
  "result (pinHostKey sample_env ''h'' 22 ''hostkey'') sample_world = Inr ()"
proof -
  have "has_server ''h'' 22 (w_db sample_world)"
    by (simp add: has_server_def sample_world_def sample_db_def sample_server_def)
  moreover have "Srv_HostKey (e_plan_servers sample_env (w_trace sample_world)) ''h'' 22 (w_db sample_world) = []"
    by (simp add: Srv_HostKey_def sample_world_def sample_db_def sample_server_def sample_env_def reorder_def)
  moreover have "e_parsepub sample_env ''hostkey'' = Inr ''hostkey''" by (simp add: sample_env_def)
  ultimately show ?thesis using pinHostKey_tofu by blast
qed

end
