(* ===== verification/CaddyClient.thy ===== *)
theory CaddyClient
  imports Worker
begin

text \<open>
  \<open>internal/caddy/client.go\<close>: routes in the Caddy server of a worker, through its admin API and
  \<open>docker exec\<close> over SSH. \<open>encoding/json\<close> is modelled for the structs that are sent (ASCII and
  whatever other bytes the strings hold, which it copies); decoding the command line of the
  container is a parameter. The admin API itself answers through \<open>e_run\<close>.
\<close>

section \<open>JSON\<close>

definition hex_digit :: "nat \<Rightarrow> char" where
  "hex_digit d = (if d < 10 then digit_char d else char_of (87 + d))"

definition json_byte :: "char \<Rightarrow> string" where
  "json_byte c =
     (if c = CHR 0x22 \<or> c = CHR 0x5C then [CHR 0x5C, c]
      else if c = CHR 0x08 then [CHR 0x5C, CHR ''b'']
      else if c = CHR 0x0C then [CHR 0x5C, CHR ''f'']
      else if c = CHR 0x0A then [CHR 0x5C, CHR ''n'']
      else if c = CHR 0x0D then [CHR 0x5C, CHR ''r'']
      else if c = CHR 0x09 then [CHR 0x5C, CHR ''t'']
      else if c < CHR 0x20 \<or> c = CHR ''<'' \<or> c = CHR ''>'' \<or> c = CHR ''&'' then
        (let n = of_char c :: nat in [CHR 0x5C, CHR ''u'', CHR ''0'', CHR ''0'', hex_digit (n div 16), hex_digit (n mod 16)])
      else [c])"

definition json_string :: "string \<Rightarrow> string" where
  "json_string s = [CHR 0x22] @ ByteReplace json_byte s @ [CHR 0x22]"

definition json_list :: "string list \<Rightarrow> string" where
  "json_list xs = ''['' @ Join xs '','' @ '']''"

definition json_object :: "(string \<times> string) list \<Rightarrow> string" where
  "json_object fs = ''{'' @ Join (map (\<lambda>(k, v). json_string k @ '':'' @ v) fs) '','' @ ''}''"

section \<open>Routes\<close>

record account =
  ac_Username :: string
  ac_Password :: string

datatype handle =
    ReverseProxy "string list"
  | Authentication "account list"

record caddy_route =
  cr_ID :: string
  cr_Match :: "string list list"
  cr_Handle :: "handle list"

fun json_handle :: "handle \<Rightarrow> string" where
  "json_handle (ReverseProxy ups) = json_object ([(''handler'', json_string ''reverse_proxy'')]
     @ (if ups = [] then [] else [(''upstreams'', json_list (map (\<lambda>u. json_object [(''dial'', json_string u)]) ups))]))"
| "json_handle (Authentication accs) = json_object [(''handler'', json_string ''authentication''),
     (''providers'', json_object [(''http_basic'', json_object [
        (''hash'', json_object [(''algorithm'', json_string ''bcrypt'')]), (''hash_cache'', json_object []),
        (''accounts'', json_list (map (\<lambda>a. json_object [(''username'', json_string (ac_Username a)),
           (''password'', json_string (ac_Password a))]) accs))])])]"

definition json_route :: "caddy_route \<Rightarrow> string" where
  "json_route r = json_object [(''@id'', json_string (cr_ID r)),
     (''match'', json_list (map (\<lambda>hs. json_object [(''host'', json_list (map json_string hs))]) (cr_Match r))),
     (''handle'', json_list (map json_handle (cr_Handle r)))]"

abbreviation routes_url :: string where
  "routes_url \<equiv> ''http://localhost:2019/config/apps/http/servers/srv0/routes''"

definition json_header :: string where
  "json_header = '' -H '' @ [CHR 0x27] @ ''Content-Type: application/json'' @ [CHR 0x27]"

definition http_code :: string where
  "http_code = [CHR 0x27] @ ''%{http_code}'' @ [CHR 0x27]"

definition verify_cmd :: "string \<Rightarrow> string" where
  "verify_cmd i = ''docker exec caddy curl -s -o /dev/null -w '' @ http_code @ '' http://localhost:2019/id/'' @ i"

definition verified :: "string \<times> error option \<Rightarrow> bool" where
  "verified v \<longleftrightarrow> snd v = None \<and> TrimSpace (fst v) = ''200''"

definition post_cmd :: "string \<Rightarrow> string" where
  "post_cmd body = ''docker exec caddy curl -s -w '' @ http_code @ '' -o /tmp/cr.txt -X POST '' @ routes_url @ json_header
     @ '' -d '' @ [CHR 0x27] @ escapeShell body @ [CHR 0x27] @ ''; echo; docker exec caddy cat /tmp/cr.txt 2>/dev/null''"

text \<open>What the answer to the POST means.\<close>

definition post_verdict :: "env \<Rightarrow> conn \<Rightarrow> caddy_route \<Rightarrow> string \<times> error option \<Rightarrow> error option prog" where
  "post_verdict E c route r =
     (case r of
        (out, Some err) \<Rightarrow> do {
          v \<leftarrow> Exec E c (verify_cmd (cr_ID route));
          ret (if verified v then None
               else Some (''caddy add route: '' @ err @ '' (output: '' @ TrimSpace out @ '')''))
        }
      | (out, None) \<Rightarrow> do {
          let ls = SplitN2 (CHR 0x0A) out;
          let code = TrimSpace (hd ls);
          if code \<noteq> ''200'' then
            (if length ls > 1 \<and> TrimSpace (ls ! 1) \<noteq> []
             then ret (Some (''caddy returned HTTP '' @ code @ '' (body: '' @ TrimSpace (ls ! 1) @ '')''))
             else do {
               v \<leftarrow> Exec E c (verify_cmd (cr_ID route));
               ret (if verified v then None else Some (''caddy returned HTTP '' @ code))
             })
          else ret None
        })"

definition postRoute :: "env \<Rightarrow> conn \<Rightarrow> caddy_route \<Rightarrow> error option prog" where
  "postRoute E c route = do {
     Exec E c (''docker exec caddy curl -s -o /dev/null -X DELETE http://localhost:2019/id/'' @ cr_ID route);
     Exec E c (''docker exec caddy curl -s -o /dev/null -X POST '' @ routes_url @ json_header
       @ '' -d '' @ [CHR 0x27] @ ''[]'' @ [CHR 0x27]);
     r \<leftarrow> Exec E c (post_cmd (json_route route));
     post_verdict E c route r
   }"

definition proxy_route :: "string \<Rightarrow> string \<Rightarrow> caddy_route" where
  "proxy_route domain target = \<lparr> cr_ID = sanitizeID domain, cr_Match = [[domain]], cr_Handle = [ReverseProxy [target]] \<rparr>"

definition AddRoute :: "env \<Rightarrow> conn \<Rightarrow> string \<Rightarrow> string \<Rightarrow> error option prog" where
  "AddRoute E c domain target = postRoute E c (proxy_route domain target)"

definition authRoute :: "env \<Rightarrow> event list \<Rightarrow> string \<Rightarrow> string \<Rightarrow> string \<Rightarrow> string \<Rightarrow> caddy_route result" where
  "authRoute E h domain target user pass =
     (case e_bcrypt E h pass of
        Inl err \<Rightarrow> Inl (''bcrypt hash: '' @ err)
      | Inr hash \<Rightarrow> Inr \<lparr> cr_ID = sanitizeID domain, cr_Match = [[domain]],
          cr_Handle = [Authentication [\<lparr> ac_Username = user, ac_Password = hash \<rparr>], ReverseProxy [target]] \<rparr>)"

definition AddRouteWithAuth :: "env \<Rightarrow> conn \<Rightarrow> string \<Rightarrow> string \<Rightarrow> string \<Rightarrow> string \<Rightarrow> error option prog" where
  "AddRouteWithAuth E c domain target user pass = do {
     h \<leftarrow> trace;
     case authRoute E h domain target user pass of
       Inl err \<Rightarrow> ret (Some err)
     | Inr route \<Rightarrow> postRoute E c route
   }"

definition RemoveRoute :: "env \<Rightarrow> conn \<Rightarrow> string \<Rightarrow> error option prog" where
  "RemoveRoute E c domain = do {
     r \<leftarrow> Exec E c (''docker exec caddy curl -s -w '' @ http_code
       @ '' -o /tmp/cr.txt -X DELETE http://localhost:2019/id/'' @ sanitizeID domain
       @ ''; echo; docker exec caddy cat /tmp/cr.txt 2>/dev/null'');
     case r of
       (out, Some err) \<Rightarrow> ret (Some (''caddy remove route: '' @ err @ '' (output: '' @ TrimSpace out @ '')''))
     | (out, None) \<Rightarrow> do {
         let code = TrimSpace (hd (SplitN2 (CHR 0x0A) out));
         ret (if code \<noteq> ''200'' then Some (''caddy returned HTTP '' @ code) else None)
       }
   }"

section \<open>Saving the configuration\<close>

fun config_arg :: "string \<Rightarrow> string list \<Rightarrow> string" where
  "config_arg path (a # b # rest) = config_arg (if a = ''--config'' then b else path) (b # rest)"
| "config_arg path _ = path"

definition configPath :: "env \<Rightarrow> string \<Rightarrow> string result" where
  "configPath E cmdJSON =
     (case e_json_strings E cmdJSON of
        Inl err \<Rightarrow> Inl (''parse caddy command '' @ Quote (TrimSpace cmdJSON) @ '': '' @ err)
      | Inr args \<Rightarrow>
          let path = config_arg ''/etc/caddy/config.json'' args
          in if \<not> HasSuffix path ''.json''
             then Inl (''caddy runs with non-JSON config '' @ path @ '', not overwriting it'') else Inr path)"

definition save_cmd :: "string \<Rightarrow> string" where
  "save_cmd path = ''docker exec caddy sh -c '' @ [CHR 0x27] @ ''[ ! -d '' @ Quote ''$1'' @ '' ] || rmdir '' @ Quote ''$1''
     @ ''; curl -sf http://localhost:2019/config/ -o '' @ Quote ''$1'' @ [CHR 0x27] @ '' sh '' @ [CHR 0x27]
     @ escapeShell path @ [CHR 0x27]"

definition SaveConfig :: "env \<Rightarrow> conn \<Rightarrow> error option prog" where
  "SaveConfig E c = do {
     r \<leftarrow> Exec E c (''docker inspect caddy --format '' @ [CHR 0x27] @ ''{{json .Config.Cmd}}'' @ [CHR 0x27]);
     case r of
       (_, Some err) \<Rightarrow> ret (Some (''caddy save config: '' @ err))
     | (out, None) \<Rightarrow>
         (case configPath E out of
            Inl err \<Rightarrow> ret (Some (''caddy save config: '' @ err))
          | Inr path \<Rightarrow> do {
              s \<leftarrow> Exec E c (save_cmd path);
              ret (case snd s of None \<Rightarrow> None
                   | Some err \<Rightarrow> Some (''caddy save config to '' @ path @ '': '' @ err))
            })
   }"

section \<open>Certificates\<close>

definition CheckCertificate :: "env \<Rightarrow> conn \<Rightarrow> string \<Rightarrow> bool prog" where
  "CheckCertificate E c domain = do {
     r \<leftarrow> Exec E c (''docker exec caddy curl -sI -o /dev/null -w '' @ http_code @ '' --connect-timeout 5 --resolve ''
       @ domain @ '':443:127.0.0.1 https://'' @ domain @ ''/ 2>&1'');
     case r of
       (_, Some _) \<Rightarrow> ret False
     | (out, None) \<Rightarrow> do {
         let code = TrimSpace out;
         if code = [] \<or> code = ''000'' then ret False
         else case ParseInt code of (n, err) \<Rightarrow> ret (\<not> (err \<or> n = 0))
       }
   }"

text \<open>Programs that do not turn the clock back.\<close>

definition advances :: "'a prog \<Rightarrow> bool" where
  "advances m \<longleftrightarrow> (\<forall>w. w_clock w \<le> w_clock (exec m w))"

named_theorems clock \<open>facts of the form advances m\<close>

lemma advances_ret [clock]: "advances (ret x)"
  by (simp add: advances_def exec_def)

lemma advances_gets [clock]: "advances (gets f)"
  by (simp add: advances_def exec_def)

lemma advances_bind [clock]:
  assumes "advances m" and "\<And>x. advances (f x)"
  shows "advances (State_Monad.bind m f)"
proof -
  have "exec (State_Monad.bind m f) w = exec (f (result m w)) (exec m w)" for w
    by (simp add: exec_def result_def split: prod.splits)
  with assms show ?thesis unfolding advances_def by (metis order.trans)
qed

lemma advances_case_option [clock]:
  "advances a \<Longrightarrow> (\<And>y. advances (b y)) \<Longrightarrow> advances (case x of None \<Rightarrow> a | Some y \<Rightarrow> b y)"
  by (cases x) simp_all

lemma advances_case_prod [clock]: "(\<And>a b. advances (g a b)) \<Longrightarrow> advances (case p of (a, b) \<Rightarrow> g a b)"
  by (cases p) simp

lemma advances_if [clock]: "advances a \<Longrightarrow> advances b \<Longrightarrow> advances (if c then a else b)"
  by simp

lemma advances_let [clock]: "(\<And>x. advances (g x)) \<Longrightarrow> advances (let x = v in g x)"
  by simp

lemma advances_emit [clock]: "advances (emit E ev)"
  by (simp add: advances_def emit_def exec_def)

lemma advances_trace [clock]: "advances trace"
  by (simp add: trace_def clock)

lemma advances_Exec [clock]: "advances (Exec E c cmd)"
  unfolding Exec_def run_def by (intro clock)

lemma advances_CheckCertificate [clock]: "advances (CheckCertificate E c domain)"
  unfolding CheckCertificate_def by (intro clock)

lemma Sleep_clock: "w_clock (exec (Sleep E ns) w) = w_clock w + int (e_dur E (w_trace w @ [EvSleep ns])) + ns"
  by (simp add: Sleep_def emit_def exec_def)

text \<open>The loop ends: every round sleeps for two seconds and the deadline is fixed.\<close>

abbreviation second :: int where "second \<equiv> 1000000000"

function wait_loop :: "env \<Rightarrow> conn \<Rightarrow> string \<Rightarrow> int \<Rightarrow> world \<Rightarrow> bool \<times> world" where
  "wait_loop E c domain deadline w =
     (if w_clock w < deadline then
        (case run_state (CheckCertificate E c domain) w of
           (ready, w1) \<Rightarrow>
             if ready then (True, w1) else wait_loop E c domain deadline (exec (Sleep E (2 * second)) w1))
      else (False, w))"
  by pat_completeness auto

termination
proof (relation "measure (\<lambda>(E, c, domain, deadline, w). nat (deadline - w_clock w))", goal_cases)
  case 1
  show ?case by simp
next
  case (2 E c domain deadline w ready w1)
  have "w1 = exec (CheckCertificate E c domain) w" unfolding exec_def by (metis 2(2) snd_conv)
  with advances_CheckCertificate [of E c domain] have "w_clock w \<le> w_clock w1" by (simp add: advances_def)
  with 2 show ?case by (simp add: Sleep_clock)
qed

declare wait_loop.simps [simp del]

definition WaitForCertificate :: "env \<Rightarrow> conn \<Rightarrow> string \<Rightarrow> int \<Rightarrow> bool prog" where
  "WaitForCertificate E c domain timeout = do {
     t \<leftarrow> gets w_clock;
     State (wait_loop E c domain (t + timeout))
   }"

section \<open>Frames\<close>

lemma keeps_postRoute [frame]: "keeps w_db (postRoute E c r)" "keeps w_tasks (postRoute E c r)"
  unfolding postRoute_def post_verdict_def by (intro frame)+

lemma keeps_AddRoute [frame]:
  "keeps w_db (AddRoute E c d t)" "keeps w_tasks (AddRoute E c d t)"
  "keeps w_db (AddRouteWithAuth E c d t u p)" "keeps w_tasks (AddRouteWithAuth E c d t u p)"
  unfolding AddRoute_def AddRouteWithAuth_def by (intro frame)+

lemma keeps_RemoveRoute [frame]: "keeps w_db (RemoveRoute E c d)" "keeps w_tasks (RemoveRoute E c d)"
  unfolding RemoveRoute_def by (intro frame)+

lemma keeps_SaveConfig [frame]: "keeps w_db (SaveConfig E c)" "keeps w_tasks (SaveConfig E c)"
  unfolding SaveConfig_def by (intro frame)+

lemma keeps_CheckCertificate [frame]: "keeps w_db (CheckCertificate E c d)" "keeps w_tasks (CheckCertificate E c d)"
  unfolding CheckCertificate_def by (intro frame)+

lemma wait_loop_keeps:
  assumes "\<And>E ns. keeps f (Sleep E ns)" and "\<And>E c d. keeps f (CheckCertificate E c d)"
  shows "f (snd (wait_loop E c domain deadline w)) = f w"
proof (induction E c domain deadline w rule: wait_loop.induct)
  case (1 E c domain deadline w)
  show ?case
  proof (cases "w_clock w < deadline")
    case True
    obtain ready w1 where r: "run_state (CheckCertificate E c domain) w = (ready, w1)" by force
    then have "f w1 = f w" using keepsD [OF assms(2), of E c domain w] by (simp add: exec_def)
    with r True 1 [OF True r [symmetric]] keepsD [OF assms(1), of E "2 * second" w1] show ?thesis
      by (subst wait_loop.simps) (cases ready, simp_all)
  qed (subst wait_loop.simps, simp)
qed

lemma keeps_WaitForCertificate [frame]:
  "keeps w_db (WaitForCertificate E c d t)" "keeps w_tasks (WaitForCertificate E c d t)"
  using wait_loop_keeps [of w_db, OF keeps_Sleep(1) keeps_CheckCertificate(1)]
    wait_loop_keeps [of w_tasks, OF keeps_Sleep(2) keeps_CheckCertificate(2)]
  by (simp_all add: WaitForCertificate_def keeps_def exec_def)

section \<open>Events\<close>

text \<open>Everything the client does on a worker are short calls of the Caddy container, and waiting.\<close>

definition caddy_event :: "conn \<Rightarrow> event \<Rightarrow> bool" where
  "caddy_event c ev \<longleftrightarrow> (\<exists>cmd. ev = EvRun c (wrapTimeout cmd ExecTimeout) None ExecTimeout
       \<and> (HasPrefix cmd ''docker exec caddy '' \<or> HasPrefix cmd ''docker inspect caddy ''))
     \<or> (\<exists>ns. ev = EvSleep ns)"

lemma caddy_event_run:
  "HasPrefix cmd ''docker exec caddy '' \<or> HasPrefix cmd ''docker inspect caddy ''
    \<Longrightarrow> caddy_event c (EvRun c (wrapTimeout cmd ExecTimeout) None ExecTimeout)"
  by (auto simp: caddy_event_def)

lemma emits_caddy_Exec:
  "HasPrefix cmd ''docker exec caddy '' \<or> HasPrefix cmd ''docker inspect caddy '' \<Longrightarrow> emits (caddy_event c) (Exec E c cmd)"
  by (rule emits_calls(1)) (rule caddy_event_run)

lemma emits_caddy_routes [events]:
  "emits (caddy_event c) (postRoute E c r)" "emits (caddy_event c) (AddRoute E c d t)"
  "emits (caddy_event c) (AddRouteWithAuth E c d t u p)" "emits (caddy_event c) (RemoveRoute E c d)"
proof -
  show post: "emits (caddy_event c) (postRoute E c r)" for r
    unfolding postRoute_def post_verdict_def verify_cmd_def post_cmd_def Let_def
    by (intro events emits_caddy_Exec) (simp_all add: HasPrefix_def)
  show "emits (caddy_event c) (AddRoute E c d t)" "emits (caddy_event c) (AddRouteWithAuth E c d t u p)"
    unfolding AddRoute_def AddRouteWithAuth_def by (intro events post)+
  show "emits (caddy_event c) (RemoveRoute E c d)"
    unfolding RemoveRoute_def Let_def by (intro events emits_caddy_Exec) (simp_all add: HasPrefix_def)
qed

lemma emits_caddy_config [events]:
  "emits (caddy_event c) (SaveConfig E c)" "emits (caddy_event c) (CheckCertificate E c d)"
  unfolding SaveConfig_def save_cmd_def CheckCertificate_def Let_def
  by (intro events emits_caddy_Exec; simp add: HasPrefix_def)+

lemma wait_loop_emits: "\<exists>evs. w_trace (snd (wait_loop E c domain deadline w)) = w_trace w @ evs \<and> list_all (caddy_event c) evs"
proof (induction E c domain deadline w rule: wait_loop.induct)
  case (1 E c domain deadline w)
  show ?case
  proof (cases "w_clock w < deadline")
    case True
    obtain ready w1 where r: "run_state (CheckCertificate E c domain) w = (ready, w1)" by force
    then have "w1 = exec (CheckCertificate E c domain) w" by (simp add: exec_def)
    then obtain evs1 where e1: "w_trace w1 = w_trace w @ evs1" "list_all (caddy_event c) evs1"
      using emits_caddy_config(2) [of c E domain] unfolding emits_def by blast
    show ?thesis
    proof (cases ready)
      case True
      then show ?thesis using e1 r \<open>w_clock w < deadline\<close> by (subst wait_loop.simps) simp
    next
      case False
      obtain evs2 where e2: "w_trace (exec (Sleep E (2 * second)) w1) = w_trace w1 @ evs2" "list_all (caddy_event c) evs2"
        using emits_calls(7) [of "caddy_event c" "2 * second" E] unfolding emits_def caddy_event_def by blast
      from 1 [OF \<open>w_clock w < deadline\<close> r [symmetric]] False
      obtain evs3 where e3: "w_trace (snd (wait_loop E c domain deadline (exec (Sleep E (2 * second)) w1)))
          = w_trace (exec (Sleep E (2 * second)) w1) @ evs3" "list_all (caddy_event c) evs3" by blast
      show ?thesis
        using e1 e2 e3 r False \<open>w_clock w < deadline\<close>
        by (subst wait_loop.simps) (intro exI [of _ "evs1 @ evs2 @ evs3"], simp)
    qed
  qed (subst wait_loop.simps, simp)
qed

lemma emits_WaitForCertificate [events]: "emits (caddy_event c) (WaitForCertificate E c d t)"
  using wait_loop_emits by (simp add: emits_def WaitForCertificate_def exec_def)

lemma emits_True_caddy [events]:
  "emits (\<lambda>_. True) (AddRoute E c d t)" "emits (\<lambda>_. True) (AddRouteWithAuth E c d t u p)"
  "emits (\<lambda>_. True) (RemoveRoute E c d)" "emits (\<lambda>_. True) (SaveConfig E c)"
  "emits (\<lambda>_. True) (WaitForCertificate E c d ns)"
  by (rule emits_mono [OF emits_caddy_routes(2)] emits_mono [OF emits_caddy_routes(3)] emits_mono [OF emits_caddy_routes(4)]
      emits_mono [OF emits_caddy_config(1)] emits_mono [OF emits_WaitForCertificate], rule TrueI)+

lemma steps_caddy [stmts]:
  "steps (AddRoute E c d t)" "steps (AddRouteWithAuth E c d t u p)" "steps (RemoveRoute E c d)" "steps (SaveConfig E c)"
  "steps (WaitForCertificate E c d ns)"
  by (rule steps_db, intro frame)+

section \<open>Answers\<close>

text \<open>Between two traces Caddy confirmed the route: the POST of it or a query for its id was answered with 200.\<close>

definition added :: "env \<Rightarrow> conn \<Rightarrow> caddy_route \<Rightarrow> event list \<Rightarrow> event list \<Rightarrow> bool" where
  "added E c r tr0 tr \<longleftrightarrow>
     (\<exists>out. succeeded E c (post_cmd (json_route r)) None ExecTimeout out tr0 tr
        \<and> TrimSpace (hd (SplitN2 (CHR 0x0A) out)) = ''200'')
     \<or> (\<exists>out. succeeded E c (verify_cmd (cr_ID r)) None ExecTimeout out tr0 tr \<and> TrimSpace out = ''200'')"

lemma added_mono: "added E c r tr1 tr2 \<Longrightarrow> prefix tr0 tr1 \<Longrightarrow> prefix tr2 tr3 \<Longrightarrow> added E c r tr0 tr3"
  unfolding added_def by (meson succeeded_mono)

lemmas Exec_answer = run_succeeded [where i = None and secs = ExecTimeout, folded Exec_def]

lemma Exec_grows: "wp (Exec E c cmd) (\<lambda>x w'. (snd x = None \<longrightarrow> succeeded E c cmd None ExecTimeout (fst x) (w_trace w) (w_trace w'))
   \<and> prefix (w_trace w) (w_trace w')) w"
  by (rule wp_conj [OF Exec_answer wp_grow [OF emits_True(3)]])

lemma verify_sound:
  assumes "prefix tr0 (w_trace w)"
  shows "wp (Exec E c (verify_cmd (cr_ID r))) (\<lambda>v. wp (ret (if verified v then None else Some e))
     (\<lambda>x w'. x = None \<longrightarrow> added E c r tr0 (w_trace w'))) w"
  by (rule wp_mono [OF Exec_answer])
    (use assms in \<open>auto simp: wp_simps verified_def added_def intro: succeeded_mono\<close>)

lemma post_verdict_sound:
  assumes "snd x = None \<longrightarrow> succeeded E c (post_cmd (json_route r)) None ExecTimeout (fst x) tr0 (w_trace w)"
    and "prefix tr0 (w_trace w)"
  shows "wp (post_verdict E c r x) (\<lambda>x w'. x = None \<longrightarrow> added E c r tr0 (w_trace w')) w"
proof (cases x)
  case (Pair out err)
  show ?thesis
  proof (cases err)
    case None
    with assms Pair have "TrimSpace (hd (SplitN2 (CHR 0x0A) out)) = ''200'' \<Longrightarrow> added E c r tr0 (w_trace w)"
      by (auto simp: added_def)
    with Pair None show ?thesis
      unfolding post_verdict_def Let_def
      by (simp only: prod.case option.case wp_if wp_bind verify_sound [OF assms(2)] wp_ret) simp
  next
    case (Some e)
    with Pair show ?thesis
      unfolding post_verdict_def by (simp only: prod.case option.case wp_bind verify_sound [OF assms(2)])
  qed
qed

lemma postRoute_added:
  "wp (postRoute E c r) (\<lambda>x w'. x = None \<longrightarrow> added E c r (w_trace w) (w_trace w')) w"
proof -
  have last: "wp (Exec E c (post_cmd (json_route r))) (\<lambda>x. wp (post_verdict E c r x)
      (\<lambda>x w'. x = None \<longrightarrow> added E c r tr0 (w_trace w'))) v" if "prefix tr0 (w_trace v)" for tr0 v
    using that by (intro wp_mono [OF Exec_grows] post_verdict_sound) (auto intro: succeeded_mono prefix_order.trans)
  show ?thesis
    unfolding postRoute_def wp_bind
    by (rule wp_grow [OF emits_True(3)], rule wp_grow [OF emits_True(3)], rule last) (rule prefix_order.trans)
qed

text \<open>A route for exactly this domain was confirmed.\<close>

definition domain_added :: "env \<Rightarrow> conn \<Rightarrow> string \<Rightarrow> event list \<Rightarrow> event list \<Rightarrow> bool" where
  "domain_added E c domain tr0 tr \<longleftrightarrow> (\<exists>r. added E c r tr0 tr \<and> cr_Match r = [[domain]] \<and> cr_ID r = sanitizeID domain)"

lemma domain_added_mono:
  "domain_added E c dm tr1 tr2 \<Longrightarrow> prefix tr0 tr1 \<Longrightarrow> prefix tr2 tr3 \<Longrightarrow> domain_added E c dm tr0 tr3"
  unfolding domain_added_def by (meson added_mono)

lemma AddRoute_added:
  "wp (AddRoute E c domain t) (\<lambda>x w'. x = None \<longrightarrow> domain_added E c domain (w_trace w) (w_trace w')) w"
  unfolding AddRoute_def by (rule wp_mono [OF postRoute_added]) (auto simp: domain_added_def proxy_route_def)

lemma AddRouteWithAuth_added:
  "wp (AddRouteWithAuth E c domain t u p) (\<lambda>x w'. x = None \<longrightarrow> domain_added E c domain (w_trace w) (w_trace w')) w"
proof -
  have "authRoute E h domain t u p = Inr r \<Longrightarrow> cr_Match r = [[domain]] \<and> cr_ID r = sanitizeID domain" for h r
    by (auto simp: authRoute_def split: sum.splits)
  then show ?thesis
    unfolding AddRouteWithAuth_def
    by (auto simp: wp_simps domain_added_def split: sum.splits intro: wp_mono [OF postRoute_added])
qed

section \<open>Properties\<close>

definition sleeps :: "world \<Rightarrow> int" where
  "sleeps w = int (length (filter (\<lambda>ev. ev = EvSleep (2 * second)) (w_trace w)))"

lemma keeps_sleeps_Exec: "keeps sleeps (CheckCertificate E c d)"
proof -
  have "keeps sleeps (Exec E c cmd)" for cmd
    by (simp add: keeps_def exec_def Exec_def run_def trace_def emit_def sleeps_def)
  then show ?thesis unfolding CheckCertificate_def by (intro frame) auto
qed

lemma Sleep_sleeps: "sleeps (exec (Sleep E (2 * second)) w) = sleeps w + 1"
  by (simp add: Sleep_def emit_def exec_def sleeps_def)

lemma round_bound:
  fixes a b :: int
  assumes "t < dl" and "t + 2 * second \<le> t'" and "b * (2 * second) \<le> (a + 1) * (2 * second) + max 0 (dl - t' + 2 * second - 1)"
  shows "b * (2 * second) \<le> a * (2 * second) + max 0 (dl - t + 2 * second - 1)"
  using assms by (simp add: max_def split: if_splits)

lemma wait_loop_bound:
  "(fst (wait_loop E c domain deadline w) \<or> deadline \<le> w_clock (snd (wait_loop E c domain deadline w)))
   \<and> sleeps (snd (wait_loop E c domain deadline w)) * (2 * second)
       \<le> sleeps w * (2 * second) + max 0 (deadline - w_clock w + 2 * second - 1)"
proof (induction E c domain deadline w rule: wait_loop.induct)
  case (1 E c domain deadline w)
  show ?case
  proof (cases "w_clock w < deadline")
    case True
    obtain ready w1 where r: "run_state (CheckCertificate E c domain) w = (ready, w1)" by force
    then have w1: "w1 = exec (CheckCertificate E c domain) w" by (simp add: exec_def)
    then have s1: "sleeps w1 = sleeps w" using keepsD [OF keeps_sleeps_Exec] by simp
    have c1: "w_clock w \<le> w_clock w1"
      using advances_CheckCertificate [of E c domain] w1 by (simp add: advances_def)
    show ?thesis
    proof (cases ready)
      case ready: True
      then have "wait_loop E c domain deadline w = (True, w1)" using True r by (subst wait_loop.simps) simp
      then show ?thesis using s1 True by simp
    next
      case False
      let ?w2 = "exec (Sleep E (2 * second)) w1"
      have "wait_loop E c domain deadline w = wait_loop E c domain deadline ?w2"
        using True r False by (subst wait_loop.simps) simp
      moreover have "w_clock w + 2 * second \<le> w_clock ?w2" using c1 by (simp add: Sleep_clock)
      moreover have "sleeps ?w2 = sleeps w + 1" using s1 by (simp only: Sleep_sleeps)
      ultimately show ?thesis using 1 [OF True r [symmetric] False] True
          round_bound [of "w_clock w" deadline "w_clock ?w2"] by auto
    qed
  qed (subst (1 2 3) wait_loop.simps, simp)
qed



text \<open>
  A route counts as added only on the word of Caddy: in the course of the call either the
  POST of exactly this route, as JSON, was answered with 200, or a query for the identifier of
  the route was.
\<close>

theorem postRoute_sound:
  assumes "result (postRoute E c r) w = None"
  shows "\<exists>out. (succeeded E c (post_cmd (json_route r)) None ExecTimeout out (w_trace w) (w_trace (exec (postRoute E c r) w))
        \<and> TrimSpace (hd (SplitN2 (CHR 0x0A) out)) = ''200'')
   \<or> (succeeded E c (verify_cmd (cr_ID r)) None ExecTimeout out (w_trace w) (w_trace (exec (postRoute E c r) w))
        \<and> TrimSpace out = ''200'')"
proof -
  have "added E c r (w_trace w) (w_trace (exec (postRoute E c r) w))"
    using postRoute_added [of E c r w] assms by (simp add: wp_exec_result)
  then show ?thesis unfolding added_def by blast
qed

definition answering_env :: env where
  "answering_env = sample_env\<lparr>e_run := (\<lambda>_ _ _ _. Exited ''200'' None [])\<rparr>"

theorem postRoute_sound_witness:
  "let c = \<lparr> c_Host = ''h'', c_Port = 22, c_User = ''root'' \<rparr>; r = proxy_route ''a.b'' ''app:80'';
       tr = w_trace (exec (postRoute answering_env c r) sample_world)
   in \<exists>out. (succeeded answering_env c (post_cmd (json_route r)) None ExecTimeout out (w_trace sample_world) tr
        \<and> TrimSpace (hd (SplitN2 (CHR 0x0A) out)) = ''200'')
     \<or> (succeeded answering_env c (verify_cmd (cr_ID r)) None ExecTimeout out (w_trace sample_world) tr \<and> TrimSpace out = ''200'')"
  unfolding Let_def
proof (rule postRoute_sound)
  have "TrimSpace ''200'' = ''200''" by (rule TrimSpace_id) (simp add: graphic_def less_eq_char_def)
  then show "result (postRoute answering_env \<lparr> c_Host = ''h'', c_Port = 22, c_User = ''root'' \<rparr> (proxy_route ''a.b'' ''app:80''))
      sample_world = None"
    by (simp add: postRoute_def post_verdict_def Exec_def run_def trace_def emit_def result_def answering_env_def
        SplitN2_def Cut1_def)
qed

end
