(* ===== verification/Cloudflare.thy ===== *)
theory Cloudflare
  imports CaddyClient
begin

text \<open>
  \<open>internal/cloudflare/client.go\<close>: the A records of a zone. The HTTP exchange and the decoding of
  its JSON answers are parameters; requests, their bodies and every error branch are the
  code's.
\<close>

section \<open>Requests\<close>

definition Enabled :: "cf_client \<Rightarrow> bool" where
  "Enabled c \<longleftrightarrow> cf_token c \<noteq> [] \<and> cf_zoneID c \<noteq> []"

definition zone_url :: "cf_client \<Rightarrow> string" where
  "zone_url c = ''https://api.cloudflare.com/client/v4/zones/'' @ cf_zoneID c @ ''/dns_records''"

definition json_bool :: "bool \<Rightarrow> string" where
  "json_bool b = (if b then ''true'' else ''false'')"

definition record_body :: "string \<Rightarrow> string \<Rightarrow> bool \<Rightarrow> string" where
  "record_body name ip proxied = json_object [(''type'', json_string ''A''), (''name'', json_string name),
     (''content'', json_string ip), (''ttl'', ''120''), (''proxied'', json_bool proxied)]"

definition Do :: "env \<Rightarrow> string \<Rightarrow> string \<Rightarrow> string \<Rightarrow> (int \<times> string) result prog" where
  "Do E meth url body = do { h \<leftarrow> trace; emit E (EvHttp meth url body); ret (e_http E h meth url body) }"

definition first_error :: "apiResponse \<Rightarrow> string" where
  "first_error ar = (case ar_Errors ar of [] \<Rightarrow> ''unknown error'' | (_, m) # _ \<Rightarrow> m)"

text \<open>The part all requests share: \<open>status\<close> says whether a bad answer is reported with its code.\<close>

definition api_result :: "env \<Rightarrow> bool \<Rightarrow> (int \<times> string) result \<Rightarrow> string result" where
  "api_result E status resp =
     (case resp of
        Inl err \<Rightarrow> Inl (''cloudflare api: '' @ err)
      | Inr (code, body) \<Rightarrow>
          (case e_json_response E body of
             Inl err \<Rightarrow> Inl (''cloudflare response: '' @ err @ (if status then '' (status '' @ Itoa code @ '')'' else []))
           | Inr ar \<Rightarrow> if \<not> ar_Success ar then Inl (''cloudflare: '' @ first_error ar) else Inr (ar_Result ar)))"

definition createOrUpdate :: "env \<Rightarrow> cf_client \<Rightarrow> string \<Rightarrow> string \<Rightarrow> bool \<Rightarrow> string \<Rightarrow> DNSRecord result prog" where
  "createOrUpdate E c name ip proxied updateID = do {
     let url = (if updateID \<noteq> [] then zone_url c @ ''/'' @ updateID else zone_url c);
     let meth = (if updateID \<noteq> [] then ''PUT'' else ''POST'');
     resp \<leftarrow> Do E meth url (record_body name ip proxied);
     ret (case api_result E True resp of
            Inl err \<Rightarrow> Inl err
          | Inr res \<Rightarrow> (case e_json_record E res of Inl err \<Rightarrow> Inl (''cloudflare result: '' @ err) | Inr r \<Rightarrow> Inr r))
   }"

definition CreateRecord :: "env \<Rightarrow> cf_client \<Rightarrow> string \<Rightarrow> string \<Rightarrow> bool \<Rightarrow> DNSRecord result prog" where
  "CreateRecord E c name ip proxied = createOrUpdate E c name ip proxied []"

definition UpdateRecord :: "env \<Rightarrow> cf_client \<Rightarrow> string \<Rightarrow> string \<Rightarrow> string \<Rightarrow> bool \<Rightarrow> DNSRecord result prog" where
  "UpdateRecord E c i name ip proxied = createOrUpdate E c name ip proxied i"

definition DeleteRecord :: "env \<Rightarrow> cf_client \<Rightarrow> string \<Rightarrow> error option prog" where
  "DeleteRecord E c i = do {
     resp \<leftarrow> Do E ''DELETE'' (zone_url c @ ''/'' @ i) [];
     ret (case api_result E True resp of Inl err \<Rightarrow> Some err | Inr _ \<Rightarrow> None)
   }"

definition ListRecords :: "env \<Rightarrow> cf_client \<Rightarrow> string \<Rightarrow> DNSRecord list result prog" where
  "ListRecords E c name = do {
     resp \<leftarrow> Do E ''GET'' (if name \<noteq> [] then zone_url c @ ''?name='' @ name else zone_url c) [];
     ret (case api_result E False resp of
            Inl err \<Rightarrow> Inl err
          | Inr res \<Rightarrow> (case e_json_records E res of Inl err \<Rightarrow> Inl (''cloudflare result: '' @ err) | Inr rs \<Rightarrow> Inr rs))
   }"

section \<open>Frames\<close>

lemma keeps_Do [frame]: "keeps w_db (Do E m u b)" "keeps w_tasks (Do E m u b)"
  unfolding Do_def by (intro frame)+

lemma keeps_Records [frame]:
  "keeps w_db (CreateRecord E c n ip p)" "keeps w_tasks (CreateRecord E c n ip p)"
  "keeps w_db (UpdateRecord E c i n ip p)" "keeps w_tasks (UpdateRecord E c i n ip p)"
  "keeps w_db (DeleteRecord E c i)" "keeps w_tasks (DeleteRecord E c i)"
  "keeps w_db (ListRecords E c n)" "keeps w_tasks (ListRecords E c n)"
  unfolding CreateRecord_def UpdateRecord_def createOrUpdate_def DeleteRecord_def ListRecords_def
  by (intro frame)+

lemma emits_Do: "P (EvHttp m u b) \<Longrightarrow> emits P (Do E m u b)"
  unfolding Do_def by (intro events emits_emit)

lemma emits_Records [events]:
  assumes "\<And>m u b. P (EvHttp m u b)"
  shows "emits P (CreateRecord E c n ip p)" "emits P (UpdateRecord E c i n ip p)" "emits P (DeleteRecord E c i)"
    "emits P (ListRecords E c n)"
  unfolding CreateRecord_def UpdateRecord_def createOrUpdate_def DeleteRecord_def ListRecords_def Let_def
  by (intro events emits_Do assms)+

lemma steps_Records [stmts]:
  "steps (CreateRecord E c n ip p)" "steps (UpdateRecord E c i n ip p)" "steps (DeleteRecord E c i)"
  "steps (ListRecords E c n)"
  by (rule steps_db, intro frame)+

end
