(* ===== verification/Deploy.thy ===== *)
theory Deploy
  imports Cloudflare
begin

text \<open>
  Deploying an app: \<open>deployWithCommit\<close> of \<open>internal/app/service.go\<close> with everything it calls
  (\<open>DockerComposeCmd\<close>, \<open>registryLogin\<close>, \<open>setupRouteAndDNSForDomain\<close>, \<open>recordDeployment\<close>). The log of
  a deployment is passed along and returned; the phases are definitions of their own in the
  order of the code.
\<close>

section \<open>Steps\<close>

definition app_dir :: "int \<Rightarrow> string" where
  "app_dir i = ''/opt/dockify/apps/app-'' @ Itoa i"

definition compose_path :: "int \<Rightarrow> string" where
  "compose_path i = app_dir i @ ''/docker-compose.yml''"

abbreviation nl :: string where "nl \<equiv> [CHR 0x0A]"

definition DockerComposeCmd :: "env \<Rightarrow> conn \<Rightarrow> string prog" where
  "DockerComposeCmd E c = do {
     r \<leftarrow> Exec E c ''docker compose version 2>/dev/null'';
     ret (if snd r = None \<and> TrimSpace (fst r) \<noteq> [] then ''docker compose'' else ''docker-compose'')
   }"

definition registryHost :: "Server \<Rightarrow> string" where
  "registryHost svr = (if srv_RegistryHost svr = [] then ''ghcr.io'' else srv_RegistryHost svr)"

definition registryLogin :: "env \<Rightarrow> conn \<Rightarrow> Server \<Rightarrow> error option prog" where
  "registryLogin E c svr = do {
     raw \<leftarrow> ReadFile E (srv_RegistryToken svr);
     case raw of
       Inl _ \<Rightarrow> ret (Some ''read registry token file'')
     | Inr bytes \<Rightarrow> do {
         let token = TrimSpace bytes;
         r \<leftarrow> ExecPipe E c (''docker login '' @ shellQuote (registryHost svr) @ '' -u ''
           @ shellQuote (srv_RegistryUser svr) @ '' --password-stdin 2>&1'') (Some token);
         ret (case r of (out, Some err) \<Rightarrow> Some (redact (err @ nl @ out) token) | (_, None) \<Rightarrow> None)
       }
   }"

definition recordDeployment :: "int \<Rightarrow> int \<Rightarrow> string \<Rightarrow> string \<Rightarrow> string \<Rightarrow> string \<Rightarrow> unit prog" where
  "recordDeployment appID serverID status logMsg commitSHA composeSnapshot = do {
     db_try (\<lambda>now. Repo_AddDeployment now \<lparr> dep_ID = 0, dep_AppID = appID, dep_ServerID = serverID, dep_Status = status,
       dep_Log = logMsg, dep_CommitSHA = commitSHA, dep_ComposeSnapshot = composeSnapshot, dep_CreatedAt = 0 \<rparr>);
     ret ()
   }"

definition updateStatus :: "int \<Rightarrow> string \<Rightarrow> unit prog" where
  "updateStatus i status = db_do (\<lambda>now. Repo_UpdateStatus now i status)"

definition getRoutes :: "env \<Rightarrow> int \<Rightarrow> Route list prog" where
  "getRoutes E i = do { h \<leftarrow> trace; db_get (Repo_GetRoutes (e_plan_routes E h) i) }"

definition getDNSRecords :: "env \<Rightarrow> int \<Rightarrow> DNSRecordInfo list prog" where
  "getDNSRecords E i = do { h \<leftarrow> trace; db_get (Repo_GetDNSRecords (e_plan_dns E h) i) }"

section \<open>Routes and DNS\<close>

definition bool_str :: "bool \<Rightarrow> string" where
  "bool_str b = (if b then ''true'' else ''false'')"

abbreviation cert_timeout :: int where "cert_timeout \<equiv> 120 * second"

text \<open>The record exists and points elsewhere: move it, unproxied until the certificate is there.\<close>

definition dns_move :: "env \<Rightarrow> cf_client \<Rightarrow> Route \<Rightarrow> App \<Rightarrow> Server \<Rightarrow> conn \<Rightarrow> DNSRecord \<Rightarrow> string list \<Rightarrow> string list prog" where
  "dns_move E cf route app svr c existing logs = do {
     let dm = rt_Domain route;
     let logs = logs @ [''dns/'' @ dm @ '': IP changed (proxied='' @ bool_str (cf_Proxied existing)
       @ ''), disabling proxy for cert validation''];
     saved \<leftarrow> getDNSRecords E (app_ID app);
     (if list_ex (\<lambda>sr. dns_RecordID sr = cf_ID existing) saved then ret ()
      else do {
        db_try (\<lambda>now. Repo_SaveDNSRecord now (app_ID app) (srv_ID svr) (cf_ZoneID existing) (cf_ID existing)
          (cf_Name existing) ''A'' (cf_Content existing) False);
        ret ()
      });
     upd \<leftarrow> UpdateRecord E cf (cf_ID existing) dm (srv_Host svr) False;
     case upd of
       Inl err \<Rightarrow> ret (logs @ [''dns/'' @ dm @ '': update failed: '' @ err])
     | Inr _ \<Rightarrow> do {
         let logs = logs @ [''dns/'' @ dm @ '': IP updated, proxied disabled''];
         ready \<leftarrow> WaitForCertificate E c dm cert_timeout;
         if ready then
           (if cf_Proxied existing then do {
              restored \<leftarrow> UpdateRecord E cf (cf_ID existing) dm (srv_Host svr) True;
              case restored of
                Inl err \<Rightarrow> ret (logs @ [''dns/'' @ dm @ '': re-enable proxy failed: '' @ err])
              | Inr _ \<Rightarrow> do {
                  db_do (\<lambda>_. Repo_UpdateDNSRecordProxied (cf_ID existing) True);
                  ret (logs @ [''dns/'' @ dm @ '': proxy re-enabled (cert ok)''])
                }
            } else ret (logs @ [''dns/'' @ dm @ '': cert ok, proxy stays disabled'']))
         else ret (logs @ [''dns/'' @ dm @ '': cert timeout, proxy disabled''])
       }
   }"

text \<open>No record yet: create one, and switch the proxy on once the certificate is there.\<close>

definition dns_create :: "env \<Rightarrow> cf_client \<Rightarrow> Route \<Rightarrow> App \<Rightarrow> Server \<Rightarrow> conn \<Rightarrow> string list \<Rightarrow> string list prog" where
  "dns_create E cf route app svr c logs = do {
     let dm = rt_Domain route;
     rec \<leftarrow> CreateRecord E cf dm (srv_Host svr) False;
     case rec of
       Inl err \<Rightarrow> ret (logs @ [''dns/'' @ dm @ '': create failed: '' @ err])
     | Inr record \<Rightarrow> do {
         db_try (\<lambda>now. Repo_SaveDNSRecord now (app_ID app) (srv_ID svr) (cf_ZoneID record) (cf_ID record)
           (cf_Name record) ''A'' (cf_Content record) (cf_Proxied record));
         ready \<leftarrow> WaitForCertificate E c dm cert_timeout;
         if ready then do {
           upd \<leftarrow> UpdateRecord E cf (cf_ID record) dm (srv_Host svr) True;
           case upd of
             Inl err \<Rightarrow> ret (logs @ [''dns/'' @ dm @ '': enable proxy failed: '' @ err])
           | Inr _ \<Rightarrow> do {
               db_do (\<lambda>_. Repo_UpdateDNSRecordProxied (cf_ID record) True);
               ret (logs @ [''dns/'' @ dm @ '': proxy enabled (cert ok)''])
             }
         } else ret (logs @ [''dns/'' @ dm @ '': timeout, proxy disabled''])
       }
   }"

definition setup_dns :: "env \<Rightarrow> Route \<Rightarrow> App \<Rightarrow> Server \<Rightarrow> conn \<Rightarrow> string list \<Rightarrow> string list prog" where
  "setup_dns E route app svr c logs =
     (case e_cf E of
        None \<Rightarrow> ret logs
      | Some cf \<Rightarrow>
          if \<not> Enabled cf then ret logs
          else do {
            recs \<leftarrow> ListRecords E cf (rt_Domain route);
            case recs of
              Inl err \<Rightarrow> ret (logs @ [''dns/'' @ rt_Domain route @ '': lookup failed: '' @ err])
            | Inr records \<Rightarrow>
                (case find (\<lambda>r. cf_Name r = rt_Domain route \<and> cf_Type r = ''A'') records of
                   Some existing \<Rightarrow>
                     if cf_Content existing \<noteq> srv_Host svr then dns_move E cf route app svr c existing logs
                     else ret logs
                 | None \<Rightarrow> dns_create E cf route app svr c logs)
          })"

definition setupRouteAndDNSForDomain :: "env \<Rightarrow> Route \<Rightarrow> App \<Rightarrow> Server \<Rightarrow> conn \<Rightarrow> string \<Rightarrow> string list
    \<Rightarrow> (error option \<times> string list) prog" where
  "setupRouteAndDNSForDomain E route app svr c composeContent logs = do {
     h \<leftarrow> trace;
     let target = getServiceName (e_yaml E) (e_order E h) composeContent @ '':'' @ Itoa (app_Port app);
     caddyErr \<leftarrow> (if app_AuthUser app \<noteq> [] \<and> app_AuthPass app \<noteq> []
       then AddRouteWithAuth E c (rt_Domain route) target (app_AuthUser app) (app_AuthPass app)
       else AddRoute E c (rt_Domain route) target);
     case caddyErr of
       Some err \<Rightarrow> ret (Some err, logs @ [''caddy/'' @ rt_Domain route @ '': '' @ err])
     | None \<Rightarrow> do {
         saveErr \<leftarrow> SaveConfig E c;
         let logs = (case saveErr of None \<Rightarrow> logs | Some err \<Rightarrow> logs @ [''caddy/save: '' @ err]);
         db_do (\<lambda>_. Repo_UpdateRouteTarget (rt_ID route) target);
         logs \<leftarrow> setup_dns E route app svr c logs;
         ret (None, logs)
       }
   }"

section \<open>The deployment\<close>

text \<open>\<open>.env\<close> and the config files; failures are warnings. The result is the compose file to write.\<close>

definition write_app_files :: "env \<Rightarrow> conn \<Rightarrow> int \<Rightarrow> App \<Rightarrow> string prog" where
  "write_app_files E c i app = do {
     envVars \<leftarrow> db_get (Repo_ListSecrets i);
     WriteFile E c (app_dir (app_ID app) @ ''/.env'') (envFile envVars) 384;
     files \<leftarrow> db_get (Repo_ListFiles i);
     forM files (\<lambda>f. do {
       WriteFile E c (app_dir (app_ID app) @ ''/'' @ file_Path f) (file_Content f) 420;
       ret ()
     });
     let content = ensureDockifyNetwork (e_yaml E) (app_Compose app);
     ret (if app_ComposeMode app = ''simple''
          then renameFirstService (e_yaml E) content (sanitizeAppName (app_Name app)) else content)
   }"

definition fail_deploy :: "int \<Rightarrow> int \<Rightarrow> App \<Rightarrow> string \<Rightarrow> string \<Rightarrow> unit prog" where
  "fail_deploy i serverID app msg commitSHA = do {
     recordDeployment i serverID ''failed'' msg commitSHA (app_Compose app);
     updateStatus i ''failed''
   }"

text \<open>The log after a login, or the message to fail with.\<close>

definition login_step :: "env \<Rightarrow> conn \<Rightarrow> Server \<Rightarrow> string list result prog" where
  "login_step E c svr =
     (if srv_RegistryUser svr \<noteq> [] \<and> srv_RegistryToken svr \<noteq> [] then do {
        r \<leftarrow> registryLogin E c svr;
        ret (case r of
               Some err \<Rightarrow> Inl (''registry login failed: '' @ err)
             | None \<Rightarrow> Inr [''registry login: '' @ registryHost svr @ '' as '' @ srv_RegistryUser svr])
      } else ret (Inr []))"

definition remove_domain :: "env \<Rightarrow> conn \<Rightarrow> string list \<Rightarrow> string \<Rightarrow> string list prog" where
  "remove_domain E c logs domain = do {
     r \<leftarrow> RemoveRoute E c domain;
     ret (case r of Some err \<Rightarrow> logs @ [''caddy/cleanup:'' @ domain @ '': '' @ err] | None \<Rightarrow> logs)
   }"

definition setup_routes :: "env \<Rightarrow> conn \<Rightarrow> App \<Rightarrow> Server \<Rightarrow> string \<Rightarrow> string list \<Rightarrow> (bool \<times> string list) prog" where
  "setup_routes E c app svr composeContent logs =
     (if app_Domain app \<noteq> [] then do {
        routes \<leftarrow> getRoutes E (app_ID app);
        foldM (\<lambda>st r. do {
          x \<leftarrow> setupRouteAndDNSForDomain E r app svr c composeContent (snd st);
          ret (fst st \<or> fst x \<noteq> None, snd x)
        }) (False, logs) routes
      } else ret (False, logs))"

definition finish_deploy :: "int \<Rightarrow> Server \<Rightarrow> App \<Rightarrow> string \<Rightarrow> bool \<times> string list \<Rightarrow> unit prog" where
  "finish_deploy i svr app commitSHA r = (case r of (routeFailed, logs) \<Rightarrow>
     if routeFailed then do {
       updateStatus i ''failed'';
       recordDeployment i (srv_ID svr) ''failed'' (Join logs nl) commitSHA (app_Compose app)
     } else do {
       updateStatus i ''running'';
       recordDeployment i (srv_ID svr) ''success'' (Join logs nl) commitSHA (app_Compose app)
     })"

definition compose_up :: "env \<Rightarrow> conn \<Rightarrow> string \<Rightarrow> App \<Rightarrow> string list \<Rightarrow> string list result prog" where
  "compose_up E c composeCmd app logs = do {
     p \<leftarrow> ExecLong E c (composeCmd @ '' -f '' @ compose_path (app_ID app) @ '' pull 2>&1'');
     case p of
       (out, Some err) \<Rightarrow> ret (Inl (Join (logs @ [''compose pull failed: '' @ err @ nl @ out]) nl))
     | (_, None) \<Rightarrow> do {
         u \<leftarrow> ExecLong E c (composeCmd @ '' -f '' @ compose_path (app_ID app) @ '' up -d --remove-orphans 2>&1'');
         case u of
           (out, Some err) \<Rightarrow> ret (Inl (Join (logs @ [''compose up: '' @ err, out]) nl))
         | (_, None) \<Rightarrow> ret (Inr logs)
       }
   }"

definition route_phase :: "env \<Rightarrow> int \<Rightarrow> App \<Rightarrow> Server \<Rightarrow> conn \<Rightarrow> string \<Rightarrow> string list \<Rightarrow> string \<Rightarrow> string list
    \<Rightarrow> unit prog" where
  "route_phase E i app svr c commitSHA removedDomains composeContent logs = do {
     ExecLong E c ''docker image prune -f 2>&1'';
     logs \<leftarrow> foldM (remove_domain E c) logs removedDomains;
     r \<leftarrow> setup_routes E c app svr composeContent logs;
     finish_deploy i svr app commitSHA r
   }"

definition up_phase :: "env \<Rightarrow> int \<Rightarrow> App \<Rightarrow> Server \<Rightarrow> conn \<Rightarrow> string \<Rightarrow> string list \<Rightarrow> string \<Rightarrow> string \<Rightarrow> string list
    \<Rightarrow> unit prog" where
  "up_phase E i app svr c commitSHA removedDomains composeCmd composeContent logs = do {
     up \<leftarrow> compose_up E c composeCmd app logs;
     case up of
       Inl msg \<Rightarrow> fail_deploy i (srv_ID svr) app msg commitSHA
     | Inr logs \<Rightarrow> route_phase E i app svr c commitSHA removedDomains composeContent logs
   }"

definition deploy_on :: "env \<Rightarrow> int \<Rightarrow> App \<Rightarrow> Server \<Rightarrow> conn \<Rightarrow> string \<Rightarrow> string list \<Rightarrow> unit prog" where
  "deploy_on E i app svr c commitSHA removedDomains = do {
     composeCmd \<leftarrow> DockerComposeCmd E c;
     composeContent \<leftarrow> write_app_files E c i app;
     ExecLong E c (composeCmd @ '' -f '' @ compose_path (app_ID app) @ '' down 2>&1 || true'');
     wr \<leftarrow> WriteFile E c (compose_path (app_ID app)) composeContent 420;
     case wr of
       Some err \<Rightarrow> fail_deploy i (srv_ID svr) app (''write compose: '' @ err) commitSHA
     | None \<Rightarrow> do {
         Exec E c ''docker network inspect dockify >/dev/null 2>&1 || docker network create dockify'';
         login \<leftarrow> login_step E c svr;
         case login of
           Inl msg \<Rightarrow> fail_deploy i (srv_ID svr) app msg commitSHA
         | Inr logs \<Rightarrow> up_phase E i app svr c commitSHA removedDomains composeCmd composeContent logs
       }
   }"

definition deployWithCommit :: "env \<Rightarrow> int \<Rightarrow> string \<Rightarrow> string list \<Rightarrow> unit prog" where
  "deployWithCommit E i commitSHA removedDomains = do {
     updateStatus i ''deploying'';
     a \<leftarrow> db_get (Repo_Get i);
     case a of
       None \<Rightarrow> recordDeployment i 0 ''failed'' ''app not found'' commitSHA []
     | Some app \<Rightarrow> do {
         s \<leftarrow> db_get (Srv_Get (app_ServerID app));
         case s of
           None \<Rightarrow> fail_deploy i (app_ServerID app) app ''server not found'' commitSHA
         | Some svr \<Rightarrow> do {
             r \<leftarrow> Connect E (srv_Host svr) (srv_Port svr) (srv_User svr) (srv_SSHKey svr);
             case r of
               Inl err \<Rightarrow> fail_deploy i (srv_ID svr) app (''SSH connect: '' @ err) commitSHA
             | Inr c \<Rightarrow> do {
                 deploy_on E i app svr c commitSHA removedDomains;
                 Close E c
               }
           }
       }
   }"

section \<open>What the steps leave alone\<close>

text \<open>The part of the database a deployment touches only at its ends.\<close>

definition core :: "world \<Rightarrow> App list \<times> Deployment list \<times> int set" where
  "core w = (apps (w_db w), deployments (w_db w), server_ids (w_db w))"

lemma keeps_core: "keeps w_db m \<Longrightarrow> keeps core m"
  by (simp add: keeps_def core_def)

lemmas core_frame [frame] = keeps_core [OF keeps_Exec(1)] keeps_core [OF keeps_Exec(2)] keeps_core [OF keeps_Exec(3)]
  keeps_core [OF keeps_Exec(4)] keeps_core [OF keeps_Exec(5)] keeps_core [OF keeps_ReadFile(1)]
  keeps_core [OF keeps_emit(1)] keeps_core [OF keeps_AddRoute(1)] keeps_core [OF keeps_AddRoute(3)]
  keeps_core [OF keeps_RemoveRoute(1)] keeps_core [OF keeps_SaveConfig(1)] keeps_core [OF keeps_WaitForCertificate(1)]
  keeps_core [OF keeps_Records(1)] keeps_core [OF keeps_Records(3)] keeps_core [OF keeps_Records(5)]
  keeps_core [OF keeps_Records(7)]

lemma exec_db_do: "exec (db_do f) w = w\<lparr>w_db := f (now_s w) (w_db w)\<rparr>"
  by (simp add: exec_def db_do_def)

lemma server_ids_map_server: "(\<And>s. srv_ID (f s) = srv_ID s) \<Longrightarrow> server_ids (map_server p f d) = server_ids d"
  unfolding server_ids_def map_server_def by (simp del: if_image_distrib) (force intro!: image_cong)

lemma keeps_core_statements [frame]:
  "keeps core (db_do (\<lambda>_. Repo_UpdateDNSRecordProxied r p))"
  "keeps core (db_do (\<lambda>_. Repo_UpdateRouteTarget k t))"
  "keeps core (db_try (\<lambda>now. Repo_SaveDNSRecord now i sid z r n ty c b))"
  by (simp_all add: keeps_def core_def exec_db_do exec_db_try Repo_UpdateDNSRecordProxied_def
      Repo_UpdateRouteTarget_def Repo_SaveDNSRecord_def server_ids_def)

lemma keeps_core_pin [frame]: "keeps core (pinHostKey E host port key)"
proof -
  have "keeps core (db_try (\<lambda>_. pin_key (Srv_HostKey plan host port) (Srv_SaveHostKey host port) parse addr key))"
    for plan parse addr
    by (simp add: keeps_def core_def exec_db_try pin_key_def Let_def Srv_SaveHostKey_def server_ids_map_server)
      (simp add: map_server_def)
  then show ?thesis unfolding pinHostKey_def by (intro frame) auto
qed

lemma keeps_core_Connect [frame]: "keeps core (Connect E host port user key)"
  unfolding Connect_def by (intro frame)

lemma keeps_core_steps [frame]:
  "keeps core (DockerComposeCmd E c)" "keeps core (registryLogin E c svr)" "keeps core (getRoutes E i)"
  "keeps core (getDNSRecords E i)"
  unfolding DockerComposeCmd_def registryLogin_def getRoutes_def getDNSRecords_def by (intro frame)+

lemma keeps_core_dns [frame]:
  "keeps core (dns_move E cf route app svr c ex logs)" "keeps core (dns_create E cf route app svr c logs)"
  unfolding dns_move_def dns_create_def by (intro frame)+

lemma keeps_core_setup [frame]:
  "keeps core (setup_dns E route app svr c logs)"
  "keeps core (setupRouteAndDNSForDomain E route app svr c content logs)"
  unfolding setupRouteAndDNSForDomain_def setup_dns_def by (intro frame)+

lemma keeps_core_phases [frame]:
  "keeps core (write_app_files E c i app)" "keeps core (login_step E c svr)" "keeps core (remove_domain E c logs d)"
  "keeps core (setup_routes E c app svr content logs)" "keeps core (compose_up E c cmd app logs)"
  unfolding write_app_files_def login_step_def remove_domain_def setup_routes_def compose_up_def by (intro frame)+

section \<open>How a deployment ends\<close>

text \<open>
  The app has a new status, running or failed, and the history one more entry, which says
  the same.
\<close>

definition deployed :: "App list \<Rightarrow> Deployment list \<Rightarrow> int \<Rightarrow> int \<Rightarrow> string \<Rightarrow> string \<Rightarrow> world \<Rightarrow> bool" where
  "deployed A D i sid commit compose w \<longleftrightarrow>
     (\<exists>ok t p. apps (w_db w) = map (\<lambda>a. if app_ID a = i
           then a\<lparr>app_Status := if ok then ''running'' else ''failed'', app_UpdatedAt := t\<rparr> else a) A
        \<and> deployments (w_db w) = D @ [p] \<and> dep_AppID p = i \<and> dep_ServerID p = sid
        \<and> dep_Status p = (if ok then ''success'' else ''failed'') \<and> dep_CommitSHA p = commit
        \<and> dep_ComposeSnapshot p = compose)"

lemma deployed_keeps: "keeps core m \<Longrightarrow> deployed A D i sid commit compose w \<Longrightarrow> deployed A D i sid commit compose (exec m w)"
  unfolding deployed_def using keepsD [of core m w] by (simp add: core_def)

lemma deployedI:
  assumes "apps (w_db w) = map (\<lambda>a. if app_ID a = i then a\<lparr>app_Status := st, app_UpdatedAt := t\<rparr> else a) A"
    and "deployments (w_db w) = D @ [p]" and "dep_AppID p = i" and "dep_ServerID p = sid"
    and "st = (if ok then ''running'' else ''failed'')"
    and "dep_Status p = (if ok then ''success'' else ''failed'')" and "dep_CommitSHA p = commit"
    and "dep_ComposeSnapshot p = compose"
  shows "deployed A D i sid commit compose w"
  using assms unfolding deployed_def by blast

lemma recordDeployment_exec:
  assumes "i \<in> app_ids (w_db w)" and "server_ref (w_db w) sid"
  shows "apps (w_db (exec (recordDeployment i sid st msg commit snap) w)) = apps (w_db w)
    \<and> server_ids (w_db (exec (recordDeployment i sid st msg commit snap) w)) = server_ids (w_db w)
    \<and> (\<exists>p. deployments (w_db (exec (recordDeployment i sid st msg commit snap) w)) = deployments (w_db w) @ [p]
         \<and> dep_AppID p = i \<and> dep_ServerID p = sid \<and> dep_Status p = st \<and> dep_CommitSHA p = commit
         \<and> dep_ComposeSnapshot p = snap \<and> dep_Log p = msg)"
  using assms
  by (simp add: recordDeployment_def exec_bind exec_db_try Repo_AddDeployment_def new_deployment_def server_ids_def)

lemma updateStatus_exec:
  "w_db (exec (updateStatus i st) w) = Repo_UpdateStatus (now_s w) i st (w_db w)"
  by (simp add: updateStatus_def exec_db_do)

lemma UpdateStatus_simps [simp]:
  "apps (Repo_UpdateStatus now i st d)
     = map (\<lambda>a. if app_ID a = i then a\<lparr>app_Status := st, app_UpdatedAt := now\<rparr> else a) (apps d)"
  "deployments (Repo_UpdateStatus now i st d) = deployments d" "servers (Repo_UpdateStatus now i st d) = servers d"
  "server_ids (Repo_UpdateStatus now i st d) = server_ids d" "server_ref (Repo_UpdateStatus now i st d) = server_ref d"
  by (auto simp: Repo_UpdateStatus_def map_app_def server_ids_def server_ref_def)

lemma app_ids_UpdateStatus [simp]: "app_ids (Repo_UpdateStatus now i st d) = app_ids d"
proof -
  have "map app_ID (apps (Repo_UpdateStatus now i st d)) = map app_ID (apps d)" by simp
  then show ?thesis unfolding app_ids_def by (simp only:)
qed

definition core_has :: "int \<Rightarrow> int \<Rightarrow> App list \<times> Deployment list \<times> int set \<Rightarrow> bool" where
  "core_has i sid v \<longleftrightarrow> (case v of (A, D, S) \<Rightarrow> i \<in> set (map app_ID A) \<and> (sid = 0 \<or> sid \<in> S))"

lemma core_has_refs:
  "core_has i sid (A, D, S) \<Longrightarrow> core w = (A, D, S) \<Longrightarrow> i \<in> app_ids (w_db w) \<and> server_ref (w_db w) sid"
  by (auto simp: core_has_def core_def app_ids_def server_ref_def)

lemma ends_fail_deploy [ends_rules]:
  assumes "core_has i sid (A, D, S)"
  shows "ends core (A, D, S) (deployed A D i sid commit (app_Compose app)) (fail_deploy i sid app msg commit)"
  unfolding ends_def
proof (intro allI impI)
  fix w
  assume w: "core w = (A, D, S)"
  let ?w = "exec (recordDeployment i sid ''failed'' msg commit (app_Compose app)) w"
  from core_has_refs [OF assms w] have refs: "i \<in> app_ids (w_db w)" "server_ref (w_db w) sid" by simp_all
  obtain p where p: "apps (w_db ?w) = A" "deployments (w_db ?w) = D @ [p]" "dep_AppID p = i" "dep_ServerID p = sid"
      "dep_Status p = ''failed''" "dep_CommitSHA p = commit" "dep_ComposeSnapshot p = app_Compose app"
    using recordDeployment_exec [OF refs, of "''failed''" msg commit "app_Compose app"] w by (auto simp: core_def)
  show "deployed A D i sid commit (app_Compose app) (exec (fail_deploy i sid app msg commit) w)"
    unfolding fail_deploy_def exec_bind
    by (rule deployedI [where ok = False and t = "now_s ?w" and st = "''failed''" and p = p])
      (simp_all add: updateStatus_exec p)
qed

lemma ends_finish_deploy [ends_rules]:
  assumes "core_has i (srv_ID svr) (A, D, S)"
  shows "ends core (A, D, S) (deployed A D i (srv_ID svr) commit (app_Compose app)) (finish_deploy i svr app commit r)"
  unfolding ends_def
proof (intro allI impI)
  fix w
  assume w: "core w = (A, D, S)"
  obtain failed logs where r: "r = (failed, logs)" by force
  let ?st = "if failed then ''failed'' else ''running''" and ?dst = "if failed then ''failed'' else ''success''"
  have fin: "finish_deploy i svr app commit r
      = do { updateStatus i ?st; recordDeployment i (srv_ID svr) ?dst (Join logs nl) commit (app_Compose app) }"
    by (simp add: finish_deploy_def r)
  let ?w = "exec (updateStatus i ?st) w"
  have "i \<in> app_ids (w_db ?w)" "server_ref (w_db ?w) (srv_ID svr)"
    using core_has_refs [OF assms w] by (simp_all add: updateStatus_exec)
  from recordDeployment_exec [OF this, of ?dst "Join logs nl" commit "app_Compose app"]
  obtain p where p: "deployments (w_db (exec (recordDeployment i (srv_ID svr) ?dst (Join logs nl) commit (app_Compose app)) ?w))
        = deployments (w_db ?w) @ [p]"
      "apps (w_db (exec (recordDeployment i (srv_ID svr) ?dst (Join logs nl) commit (app_Compose app)) ?w)) = apps (w_db ?w)"
      "dep_AppID p = i" "dep_ServerID p = srv_ID svr" "dep_Status p = ?dst" "dep_CommitSHA p = commit"
      "dep_ComposeSnapshot p = app_Compose app" by blast
  have D: "deployments (w_db ?w) = D" "apps (w_db ?w) = map (\<lambda>a. if app_ID a = i
      then a\<lparr>app_Status := ?st, app_UpdatedAt := now_s w\<rparr> else a) A"
    using w by (simp_all add: updateStatus_exec core_def)
  show "deployed A D i (srv_ID svr) commit (app_Compose app) (exec (finish_deploy i svr app commit r) w)"
    unfolding fin exec_bind
    by (rule deployedI [where ok = "\<not> failed" and t = "now_s w" and st = ?st and p = p])
      (simp_all only: p D, simp_all)
qed

lemma ends_deploy_on:
  assumes "core_has i (srv_ID svr) (A, D, S)"
  shows "ends core (A, D, S) (deployed A D i (srv_ID svr) commit (app_Compose app)) (deploy_on E i app svr c commit rem)"
  unfolding deploy_on_def up_phase_def route_phase_def using assms by (intro ends_rules frame)

lemma map_status_twice:
  "map (\<lambda>a. if app_ID a = i then a\<lparr>app_Status := st, app_UpdatedAt := t\<rparr> else a)
     (map (\<lambda>a. if app_ID a = i then a\<lparr>app_Status := st', app_UpdatedAt := t'\<rparr> else a) xs)
   = map (\<lambda>a. if app_ID a = i then a\<lparr>app_Status := st, app_UpdatedAt := t\<rparr> else a) xs"
  by simp

lemma Repo_Get_UpdateStatus:
  "Repo_Get j (Repo_UpdateStatus now i st d)
     = map_option (\<lambda>a. if j = i then a\<lparr>app_Status := st, app_UpdatedAt := now\<rparr> else a) (Repo_Get j d)"
proof -
  have "find (\<lambda>a. app_ID a = j) (map (\<lambda>a. if app_ID a = i then a\<lparr>app_Status := st, app_UpdatedAt := now\<rparr> else a) xs)
      = map_option (\<lambda>a. if j = i then a\<lparr>app_Status := st, app_UpdatedAt := now\<rparr> else a) (find (\<lambda>a. app_ID a = j) xs)" for xs
    by (induction xs) auto
  then show ?thesis by (simp add: Repo_Get_def)
qed

lemma Repo_Get_ids: "Repo_Get i d = Some a \<Longrightarrow> app_ID a = i \<and> i \<in> app_ids d \<and> a \<in> set (apps d)"
  by (auto simp: Repo_Get_def app_ids_def dest!: find_SomeD)

lemma Srv_Get_ids: "Srv_Get i d = Some s \<Longrightarrow> srv_ID s = i \<and> i \<in> server_ids d"
  by (auto simp: Srv_Get_def server_ids_def dest!: find_SomeD)

lemma Srv_Get_None: "Srv_Get i d = None \<Longrightarrow> i \<notin> server_ids d"
  by (auto simp: Srv_Get_def server_ids_def find_eq_None)

lemma exec_get_bind: "exec (State_Monad.bind (db_get f) g) w = exec (g (f (w_db w))) w"
  by (simp add: exec_def db_get_def)

text \<open>What is left of a deployment once the app and its server are found.\<close>

definition deploy_connected :: "env \<Rightarrow> int \<Rightarrow> App \<Rightarrow> Server \<Rightarrow> string \<Rightarrow> string list \<Rightarrow> unit prog" where
  "deploy_connected E i app svr commitSHA removedDomains = do {
     r \<leftarrow> Connect E (srv_Host svr) (srv_Port svr) (srv_User svr) (srv_SSHKey svr);
     case r of
       Inl err \<Rightarrow> fail_deploy i (srv_ID svr) app (''SSH connect: '' @ err) commitSHA
     | Inr c \<Rightarrow> do { deploy_on E i app svr c commitSHA removedDomains; Close E c }
   }"

lemma exec_deploy:
  fixes i :: int and w :: world
  assumes "Repo_Get i (w_db w) = Some app"
  defines "w1 \<equiv> exec (updateStatus i ''deploying'') w"
    and "app1 \<equiv> app\<lparr>app_Status := ''deploying'', app_UpdatedAt := now_s w\<rparr>"
  shows "exec (deployWithCommit E i commit rem) w
    = exec (case Srv_Get (app_ServerID app) (w_db w) of
         None \<Rightarrow> fail_deploy i (app_ServerID app) app1 ''server not found'' commit
       | Some svr \<Rightarrow> deploy_connected E i app1 svr commit rem) w1"
proof -
  have get: "Repo_Get i (w_db w1) = Some app1"
    using assms(1) by (simp add: w1_def app1_def updateStatus_exec Repo_Get_UpdateStatus)
  have srv: "Srv_Get (app_ServerID app) (w_db w1) = Srv_Get (app_ServerID app) (w_db w)"
    by (simp add: w1_def updateStatus_exec Srv_Get_def)
  have sid: "app_ServerID app1 = app_ServerID app" by (simp add: app1_def)
  show ?thesis
    unfolding deployWithCommit_def exec_bind [of "updateStatus _ _"] w1_def [symmetric] exec_get_bind get option.case sid srv
      deploy_connected_def ..
qed

lemma deploy_deployed:
  assumes "db_ok (w_db w)" and "Repo_Get i (w_db w) = Some app"
  shows "deployed (apps (w_db w)) (deployments (w_db w)) i (app_ServerID app) commit (app_Compose app)
    (exec (deployWithCommit E i commit rem) w)"
proof -
  let ?d = "w_db w" and ?w1 = "exec (updateStatus i ''deploying'') w"
  let ?app = "app\<lparr>app_Status := ''deploying'', app_UpdatedAt := now_s w\<rparr>"
  define A where "A = apps (Repo_UpdateStatus (now_s w) i ''deploying'' ?d)"
  have app: "i \<in> app_ids ?d" "server_ref ?d (app_ServerID app)"
    using Repo_Get_ids [OF assms(2)] db_ok_server_ref [OF assms(1)] by auto
  have core1: "core ?w1 = (A, deployments ?d, server_ids ?d)"
    by (simp add: core_def updateStatus_exec A_def)
  have has: "core_has i (app_ServerID app) (A, deployments ?d, server_ids ?d)"
  proof -
    have "set (map app_ID A) = app_ids ?d"
      using app_ids_UpdateStatus [of "now_s w" i "''deploying''" ?d] unfolding A_def app_ids_def .
    with app show ?thesis unfolding core_has_def server_ref_def by (simp only: prod.case)
  qed
  let ?P = "deployed A (deployments ?d) i (app_ServerID app) commit (app_Compose app)"
  have F: "ends core (A, deployments ?d, server_ids ?d) ?P (fail_deploy i (app_ServerID app) ?app msg commit)" for msg
    using ends_fail_deploy [OF has, where app = ?app] by simp
  have on: "ends core (A, deployments ?d, server_ids ?d) ?P (case r of
        Inl err \<Rightarrow> fail_deploy i (srv_ID svr) ?app (''SSH connect: '' @ err) commit
      | Inr c \<Rightarrow> do { deploy_on E i ?app svr c commit rem; Close E c })" if "srv_ID svr = app_ServerID app" for r svr
  proof (cases r)
    case (Inl err)
    then show ?thesis using F that by simp
  next
    case (Inr c)
    have "core_has i (srv_ID svr) (A, deployments ?d, server_ids ?d)" using has that by simp
    from ends_deploy_on [OF this, where app = ?app]
    have "ends core (A, deployments ?d, server_ids ?d) ?P (deploy_on E i ?app svr c commit rem)"
      using that by simp
    then have "ends core (A, deployments ?d, server_ids ?d) ?P (do { deploy_on E i ?app svr c commit rem; Close E c })"
      by (rule ends_then) (rule deployed_keeps [OF core_frame(5)])
    with Inr show ?thesis by simp
  qed
  have "?P (exec (deployWithCommit E i commit rem) w)"
  proof (cases "Srv_Get (app_ServerID app) ?d")
    case None
    show ?thesis unfolding exec_deploy [OF assms(2)] None option.case by (rule endsD [where f = core, OF F core1])
  next
    case (Some svr)
    then have "srv_ID svr = app_ServerID app" using Srv_Get_ids by blast
    then show ?thesis unfolding exec_deploy [OF assms(2)] Some option.case deploy_connected_def
      by (intro endsD [where f = core, OF ends_bind [OF keeps_core_Connect on] core1])
  qed
  then show ?thesis unfolding deployed_def A_def UpdateStatus_simps map_status_twice .
qed

section \<open>Events and statements\<close>

lemma emits_True_steps [events]:
  "emits (\<lambda>_. True) (DockerComposeCmd E c)" "emits (\<lambda>_. True) (registryLogin E c svr)"
  "emits (\<lambda>_. True) (getRoutes E i)" "emits (\<lambda>_. True) (getDNSRecords E i)" "emits (\<lambda>_. True) (updateStatus i st)"
  "emits (\<lambda>_. True) (recordDeployment i sid st msg commit snap)"
  unfolding DockerComposeCmd_def registryLogin_def getRoutes_def getDNSRecords_def updateStatus_def recordDeployment_def Let_def
  by (intro events)+

lemma emits_True_setup [events]:
  "emits (\<lambda>_. True) (setup_dns E route app svr c logs)"
  "emits (\<lambda>_. True) (setupRouteAndDNSForDomain E route app svr c content logs)"
  unfolding setupRouteAndDNSForDomain_def setup_dns_def dns_move_def dns_create_def Let_def by (intro events TrueI)+

lemma emits_True_phases [events]:
  "emits (\<lambda>_. True) (write_app_files E c i app)" "emits (\<lambda>_. True) (login_step E c svr)"
  "emits (\<lambda>_. True) (remove_domain E c logs d)" "emits (\<lambda>_. True) (setup_routes E c app svr content logs)"
  "emits (\<lambda>_. True) (compose_up E c cmd app logs)" "emits (\<lambda>_. True) (fail_deploy i sid app msg commit)"
  "emits (\<lambda>_. True) (finish_deploy i svr app commit r)"
  unfolding write_app_files_def login_step_def remove_domain_def setup_routes_def compose_up_def fail_deploy_def
    finish_deploy_def Let_def
  by (intro events)+

lemma emits_True_deploy [events]:
  "emits (\<lambda>_. True) (deploy_on E i app svr c commit rem)" "emits (\<lambda>_. True) (deployWithCommit E i commit rem)"
  unfolding deployWithCommit_def deploy_on_def up_phase_def route_phase_def by (intro events)+

lemma steps_updateStatus [stmts]: "steps (updateStatus i st)"
  unfolding updateStatus_def by (intro stmts app_status)

lemma steps_recordDeployment [stmts]: "steps (recordDeployment i sid st msg commit snap)"
  unfolding recordDeployment_def by (intro stmts dep_add)

lemma steps_reads [stmts]: "steps (DockerComposeCmd E c)" "steps (getRoutes E i)" "steps (getDNSRecords E i)"
  unfolding DockerComposeCmd_def getRoutes_def getDNSRecords_def by (intro stmts)+

lemma steps_setup [stmts]:
  "steps (setup_dns E route app svr c logs)" "steps (setupRouteAndDNSForDomain E route app svr c content logs)"
  unfolding setupRouteAndDNSForDomain_def setup_dns_def dns_move_def dns_create_def Let_def
  by (intro stmts dns_save dns_proxied route_target)+

lemma steps_deploy [stmts]: "steps (deployWithCommit E i commit rem)"
  unfolding deployWithCommit_def deploy_on_def up_phase_def route_phase_def write_app_files_def login_step_def registryLogin_def
    remove_domain_def setup_routes_def compose_up_def fail_deploy_def finish_deploy_def Let_def
  by (intro stmts)

section \<open>What running means\<close>

definition running :: "int \<Rightarrow> world \<Rightarrow> bool" where
  "running i w \<longleftrightarrow> (\<exists>a. Repo_Get i (w_db w) = Some a \<and> app_Status a = ''running'')"

definition compose_cmds :: "string set" where
  "compose_cmds = {''docker compose'', ''docker-compose''}"

text \<open>Between two traces \<open>compose up\<close> for the app ended without an error.\<close>

definition came_up :: "env \<Rightarrow> conn \<Rightarrow> int \<Rightarrow> event list \<Rightarrow> event list \<Rightarrow> bool" where
  "came_up E c i tr0 tr \<longleftrightarrow> (\<exists>dc \<in> compose_cmds. \<exists>out.
     succeeded E c (dc @ '' -f '' @ compose_path i @ '' up -d --remove-orphans 2>&1'') None ExecLongTimeout out tr0 tr)"

lemma came_up_mono: "came_up E c i tr1 tr2 \<Longrightarrow> prefix tr0 tr1 \<Longrightarrow> prefix tr2 tr3 \<Longrightarrow> came_up E c i tr0 tr3"
  unfolding came_up_def by (meson succeeded_mono)

lemmas ExecLong_answer = run_succeeded [where i = None and secs = ExecLongTimeout, folded ExecLong_def]

lemma DockerComposeCmd_range: "wp (DockerComposeCmd E c) (\<lambda>x _. x \<in> compose_cmds) w"
  unfolding DockerComposeCmd_def wp_bind by (rule wp_triv) (simp add: wp_simps compose_cmds_def)

lemma compose_up_sound:
  assumes "cmd \<in> compose_cmds"
  shows "wp (compose_up E c cmd app logs)
    (\<lambda>x w'. (\<exists>l. x = Inr l) \<longrightarrow> came_up E c (app_ID app) (w_trace w) (w_trace w')) w"
proof -
  let ?Q = "\<lambda>x :: string list result. \<lambda>w'. (\<exists>l. x = Inr l) \<longrightarrow> came_up E c (app_ID app) (w_trace w) (w_trace w')"
  have up: "wp (ExecLong E c (cmd @ '' -f '' @ compose_path (app_ID app) @ '' up -d --remove-orphans 2>&1''))
      (\<lambda>u. wp (case u of (out, Some err) \<Rightarrow> ret (Inl (g out err)) | (_, None) \<Rightarrow> ret (Inr logs)) ?Q) v"
    if "prefix (w_trace w) (w_trace v)" for g v
    by (rule wp_mono [OF ExecLong_answer])
      (use assms that in \<open>auto simp: came_up_def wp_simps split: option.splits intro: succeeded_mono\<close>)
  show ?thesis
    unfolding compose_up_def wp_bind
    by (rule wp_grow [OF emits_True(4)]) (simp only: wp_bind wp_ret up split: prod.split option.split, simp)
qed

lemma setup_route_sound:
  "wp (setupRouteAndDNSForDomain E r app svr c content logs)
     (\<lambda>x w'. fst x = None \<longrightarrow> domain_added E c (rt_Domain r) (w_trace w) (w_trace w')) w"
proof -
  let ?Q = "\<lambda>x :: error option \<times> string list. \<lambda>w'. fst x = None \<longrightarrow> domain_added E c (rt_Domain r) (w_trace w) (w_trace w')"
  have add: "wp (if b then AddRouteWithAuth E c (rt_Domain r) t u p else AddRoute E c (rt_Domain r) t)
      (\<lambda>x w'. x = None \<longrightarrow> domain_added E c (rt_Domain r) (w_trace v) (w_trace w')) v" for b t u p v
    by (simp add: AddRoute_added AddRouteWithAuth_added)
  let ?rest = "\<lambda>target. do {
      saveErr \<leftarrow> SaveConfig E c;
      db_do (\<lambda>_. Repo_UpdateRouteTarget (rt_ID r) target);
      logs \<leftarrow> setup_dns E r app svr c (case saveErr of None \<Rightarrow> logs | Some err \<Rightarrow> logs @ [''caddy/save: '' @ err]);
      ret (None, logs)
    }"
  have rest: "wp (?rest target) ?Q v" if "domain_added E c (rt_Domain r) (w_trace w) (w_trace v)" for target v
    by (rule wp_grow [where P = "\<lambda>_. True"], intro events) (use that in \<open>auto intro: domain_added_mono\<close>)
  show ?thesis
    unfolding setupRouteAndDNSForDomain_def Let_def
    by (simp only: wp_bind [of trace] wp_trace wp_bind [of "if _ then _ else _"], rule wp_mono [OF add])
      (auto simp only: wp_ret rest simp_thms fst_conv option.distinct split: option.split)
qed

lemma setup_routes_sound:
  "wp (setup_routes E c app svr content logs) (\<lambda>x w'. \<not> fst x \<longrightarrow> app_Domain app \<noteq> [] \<longrightarrow>
     (\<forall>r \<in> set (routes (w_db w)). rt_AppID r = app_ID app \<longrightarrow> rt_Status r = ''active''
        \<longrightarrow> domain_added E c (rt_Domain r) (w_trace w) (w_trace w'))) w"
proof (cases "app_Domain app = []")
  case False
  let ?f = "\<lambda>st r. do {
      x \<leftarrow> setupRouteAndDNSForDomain E r app svr c content (snd st);
      ret (fst st \<or> fst x \<noteq> None, snd x)
    }"
  let ?G = "\<lambda>tr x. domain_added E c (rt_Domain x) (w_trace w) tr"
  have loop: "wp (foldM ?f b rs) (\<lambda>b' w'. \<not> fst b' \<longrightarrow> (\<forall>x \<in> seen \<union> set rs. ?G (w_trace w') x)) v"
    if "\<not> fst b \<longrightarrow> (\<forall>x \<in> seen. ?G (w_trace v) x)" "prefix (w_trace w) (w_trace v)" for b rs v and seen :: "Route set"
    using that
  proof (induction rs arbitrary: b v seen)
    case Nil
    then show ?case by (simp add: wp_simps)
  next
    case (Cons y ys)
    have "wp (?f b y) (\<lambda>b' w'. (\<not> fst b' \<longrightarrow> \<not> fst b \<and> domain_added E c (rt_Domain y) (w_trace v) (w_trace w'))
        \<and> prefix (w_trace v) (w_trace w')) v"
      by (rule wp_conj)
        (simp only: wp_bind, rule wp_mono [OF setup_route_sound], simp add: wp_simps,
         rule wp_grow [where P = "\<lambda>_. True"], intro events, assumption)
    then show ?case
      unfolding foldM.simps wp_bind [of "?f b y"]
    proof (rule wp_mono)
      fix b' :: "bool \<times> string list" and v' :: world
      assume step: "(\<not> fst b' \<longrightarrow> \<not> fst b \<and> domain_added E c (rt_Domain y) (w_trace v) (w_trace v')) \<and> prefix (w_trace v) (w_trace v')"
      have "\<not> fst b' \<longrightarrow> (\<forall>x \<in> insert y seen. ?G (w_trace v') x)"
        using step Cons.prems by (auto intro: domain_added_mono)
      moreover have "prefix (w_trace w) (w_trace v')" using step Cons.prems(2) prefix_order.trans by blast
      ultimately show "wp (foldM ?f b' ys) (\<lambda>b' w'. \<not> fst b' \<longrightarrow> (\<forall>x \<in> seen \<union> set (y # ys). ?G (w_trace w') x)) v'"
        using Cons.IH [of b' "insert y seen" v'] by simp
    qed
  qed
  have "\<not> fst (False, logs) \<longrightarrow> (\<forall>x \<in> ({} :: Route set). ?G (w_trace w) x)" by simp
  note loop0 = loop [OF this prefix_order.refl]
  show ?thesis
    using False unfolding setup_routes_def getRoutes_def
    by (simp only: if_True simp_thms wp_bind wp_trace wp_db_get Repo_GetRoutes_def) (rule wp_mono [OF loop0], auto)
qed (simp add: setup_routes_def wp_simps)

lemma not_running_failed: "ensures I (\<lambda>w. \<not> running i w) (fail_deploy i sid app msg commit)"
  unfolding ends_def fail_deploy_def exec_bind running_def updateStatus_exec by (auto simp: Repo_Get_UpdateStatus)

definition reachable_as_running :: "env \<Rightarrow> conn \<Rightarrow> App \<Rightarrow> db \<Rightarrow> event list \<Rightarrow> event list \<Rightarrow> bool" where
  "reachable_as_running E c app d tr0 tr \<longleftrightarrow> came_up E c (app_ID app) tr0 tr
     \<and> (app_Domain app \<noteq> [] \<longrightarrow> (\<forall>r \<in> set (routes d). rt_AppID r = app_ID app \<longrightarrow> rt_Status r = ''active''
          \<longrightarrow> domain_added E c (rt_Domain r) tr0 tr))"

lemma reachable_mono:
  "reachable_as_running E c app d tr1 tr2 \<Longrightarrow> prefix tr0 tr1 \<Longrightarrow> prefix tr2 tr3 \<Longrightarrow> reachable_as_running E c app d tr0 tr3"
  unfolding reachable_as_running_def by (auto intro: came_up_mono domain_added_mono)

lemma ends_weaken: "ensures I P m \<Longrightarrow> (\<And>s. P s \<Longrightarrow> Q s) \<Longrightarrow> ensures I Q m"
  by (simp add: ensures_def)

lemma apps_recordDeployment: "apps (w_db (exec (recordDeployment i sid st msg commit snap) w)) = apps (w_db w)"
  by (simp add: recordDeployment_def exec_bind exec_db_try Repo_AddDeployment_def)

lemma finish_failed: "ensures I (\<lambda>w. \<not> running i w) (finish_deploy i svr app commit (True, logs))"
  unfolding ends_def finish_deploy_def running_def Repo_Get_def
  by (auto simp: exec_bind updateStatus_exec apps_recordDeployment find_mapI dest!: find_SomeD)

lemma keeps_trace_finish: "keeps w_trace (finish_deploy i svr app commit r)" "keeps w_trace (fail_deploy i sid app msg commit)"
  unfolding finish_deploy_def fail_deploy_def updateStatus_def recordDeployment_def by (intro frame)+

lemma keeps_db_phases [frame]:
  "keeps w_db (DockerComposeCmd E c)" "keeps w_db (write_app_files E c i app)" "keeps w_db (login_step E c svr)"
  "keeps w_db (remove_domain E c logs d)" "keeps w_db (compose_up E c cmd app logs)"
  unfolding DockerComposeCmd_def write_app_files_def login_step_def registryLogin_def remove_domain_def compose_up_def
  by (intro frame)+

lemma deploy_on_running:
  "ensures (\<lambda>w. w_db w = d \<and> prefix tr0 (w_trace w)) (\<lambda>w. running i w \<longrightarrow> reachable_as_running E c app d tr0 (w_trace w))
     (deploy_on E i app svr c commit rem)"
proof -
  let ?I = "\<lambda>w :: world. w_db w = d \<and> prefix tr0 (w_trace w)"
  let ?P = "\<lambda>w. running i w \<longrightarrow> reachable_as_running E c app d tr0 (w_trace w)"
  let ?J = "\<lambda>w :: world. w_db w = d \<and> prefix tr0 (w_trace w) \<and> came_up E c (app_ID app) tr0 (w_trace w)"
  have fail: "ensures I ?P (fail_deploy i sid a msg commit)" for sid a msg and I :: "world \<Rightarrow> bool"
    by (rule ends_weaken [OF not_running_failed]) simp
  have up_stable: "stable (\<lambda>w. came_up E c (app_ID app) tr0 (w_trace w)) m" if "emits (\<lambda>_. True) m" for m :: "'x prog"
    unfolding stable_def using came_up_mono emits_prefix [OF that] by blast
  have last: "ensures ?J ?P (do { r \<leftarrow> setup_routes E c app svr content logs; finish_deploy i svr app commit r })"
    for content logs
    unfolding ends_def exec_bind
  proof (intro allI impI)
    fix w
    let ?r = "result (setup_routes E c app svr content logs) w" and ?v = "exec (setup_routes E c app svr content logs) w"
    assume J: "?J w" and run: "running i (exec (finish_deploy i svr app commit ?r) ?v)"
    have "\<not> fst ?r"
      using run ensuresD [OF finish_failed [where I = "\<lambda>_. True"], where s = ?v] by (metis (full_types) prod.collapse)
    moreover have "prefix (w_trace w) (w_trace ?v)" by (rule emits_prefix [OF emits_True_phases(4)])
    ultimately show "reachable_as_running E c app d tr0 (w_trace (exec (finish_deploy i svr app commit ?r) ?v))"
      using setup_routes_sound [of E c app svr content logs w] J
      by (auto simp: wp_exec_result reachable_as_running_def keepsD [OF keeps_trace_finish(1)]
          intro: came_up_mono domain_added_mono)
  qed
  have route: "ensures ?J ?P (route_phase E i app svr c commit rem content logs)" for content logs
    unfolding route_phase_def
    by (rule ensures_bind, intro stable_conj stable_keeps stable_prefix up_stable frame events, rule ensures_bind,
        intro stable_conj stable_keeps stable_prefix up_stable frame events, rule last)
  have up: "ensures ?I ?P (up_phase E i app svr c commit rem cmd content logs)" if "cmd \<in> compose_cmds" for cmd content logs
    unfolding up_phase_def
  proof (rule ensures_seq)
    fix w :: world
    assume "?I w"
    then show "wp (compose_up E c cmd app logs) (\<lambda>x w'. w_db w' = d \<and> prefix tr0 (w_trace w')
        \<and> ((\<exists>l. x = Inr l) \<longrightarrow> came_up E c (app_ID app) tr0 (w_trace w'))) w"
      using compose_up_sound [OF that, of E c app logs w] emits_prefix [OF emits_True_phases(5), of w E c cmd app logs]
        keepsD [OF keeps_db_phases(5), of E c cmd app logs w]
      by (auto simp: wp_exec_result intro: came_up_mono prefix_order.trans)
  next
    fix x :: "string list result"
    show "ensures (\<lambda>w' :: world. w_db w' = d \<and> prefix tr0 (w_trace w') \<and> ((\<exists>l. x = Inr l) \<longrightarrow> came_up E c (app_ID app) tr0 (w_trace w')))
        ?P (case x of Inl msg \<Rightarrow> fail_deploy i (srv_ID svr) app msg commit
          | Inr logs \<Rightarrow> route_phase E i app svr c commit rem content logs)"
      by (cases x) (simp_all add: fail route)
  qed
  show ?thesis
    unfolding deploy_on_def
    by (rule ensures_bind_wp [OF _ DockerComposeCmd_range])
      (intro ends_rules frame events fail up | assumption)+
qed

lemma Connect_conn:
  "wp (Connect E host port user key) (\<lambda>x _. \<forall>c. x = Inr c \<longrightarrow> c = \<lparr> c_Host = host, c_Port = port, c_User = user \<rparr>) w"
  unfolding wp_exec_result
  by (auto simp: Connect_def Let_def result_bind result_ret split: sum.splits prod.splits)

lemma keeps_routes_Connect: "keeps (routes \<circ> w_db) (Connect E host port user key)"
proof -
  have db: "keeps (routes \<circ> w_db) m" if "keeps w_db m" for m :: "'a prog" using that by (simp add: keeps_def)
  have "keeps (routes \<circ> w_db) (pinHostKey E host port k)" for k
    unfolding pinHostKey_def
    by (intro frame) (simp add: keeps_def exec_db_try pin_key_def Let_def Srv_SaveHostKey_def map_server_def)
  then show ?thesis unfolding Connect_def by (intro frame) (auto intro: db frame)
qed

lemma deploy_connected_running:
  assumes "running i (exec (deploy_connected E i app svr commit rem) w)"
  shows "reachable_as_running E \<lparr> c_Host = srv_Host svr, c_Port = srv_Port svr, c_User = srv_User svr \<rparr> app (w_db w)
    (w_trace w) (w_trace (exec (deploy_connected E i app svr commit rem) w))"
proof -
  let ?m = "Connect E (srv_Host svr) (srv_Port svr) (srv_User svr) (srv_SSHKey svr)"
  let ?w = "exec ?m w"
  have "routes (w_db ?w) = routes (w_db w)"
    using keepsD [OF keeps_routes_Connect, of E "srv_Host svr" "srv_Port svr" "srv_User svr" "srv_SSHKey svr" w] by simp
  then have same: "reachable_as_running E c app (w_db ?w) = reachable_as_running E c app (w_db w)" for c
    by (intro ext) (simp add: reachable_as_running_def)
  have pre: "prefix (w_trace w) (w_trace ?w)" by (rule emits_prefix [OF emits_True(9)])
  show ?thesis
  proof (cases "result ?m w")
    case (Inl err)
    then have "\<not> running i (exec (deploy_connected E i app svr commit rem) w)"
      using ensuresD [OF not_running_failed [where I = "\<lambda>_. True"], where s = ?w]
      by (simp add: deploy_connected_def exec_bind)
    with assms show ?thesis by simp
  next
    case (Inr c)
    let ?v = "exec (deploy_on E i app svr c commit rem) ?w"
    from Inr have c: "c = \<lparr> c_Host = srv_Host svr, c_Port = srv_Port svr, c_User = srv_User svr \<rparr>"
      using Connect_conn [of E "srv_Host svr" "srv_Port svr" "srv_User svr" "srv_SSHKey svr" w]
      by (simp add: wp_exec_result)
    have fin: "exec (deploy_connected E i app svr commit rem) w = exec (Close E c) ?v"
      using Inr by (simp add: deploy_connected_def exec_bind)
    have "running i ?v"
      using assms keepsD [OF keeps_Exec(5), of E c ?v] unfolding fin running_def by simp
    then have "reachable_as_running E c app (w_db ?w) (w_trace w) (w_trace ?v)"
      using ensuresD [OF deploy_on_running, where s = ?w] pre by blast
    then show ?thesis
      unfolding fin same c [symmetric] by (rule reachable_mono) (simp_all add: emits_prefix [OF emits_True(7)])
  qed
qed

lemma sample_ok: "db_ok (w_db sample_world)"
  by (simp add: db_ok_def ids_inv_def refs_inv_def keys_inv_def ids_ok_def refs_ok_def sample_world_def sample_db_def
      empty_db_def sample_server_def sample_app_def server_ids_def)

lemma sample_get: "Repo_Get 1 (w_db sample_world) = Some sample_app"
  by (simp add: Repo_Get_def sample_world_def sample_db_def sample_app_def)

section \<open>Properties\<close>

text \<open>
  C1. A deployment always reaches an end the user can see: whatever the worker, Caddy and
  Cloudflare answer, the app is left running or failed (never deploying), no other app and no
  other field of the app changes, and the history gets exactly one new entry, for the right
  server, commit and compose file, that says success if and only if the app is running.
\<close>

theorem deployWithCommit_outcome:
  assumes "db_ok (w_db w)" and "Repo_Get i (w_db w) = Some app"
  shows "let d' = w_db (exec (deployWithCommit E i commit removed) w)
    in \<exists>ok t p. apps d' = map (\<lambda>a. if app_ID a = i
        then a\<lparr>app_Status := if ok then ''running'' else ''failed'', app_UpdatedAt := t\<rparr> else a) (apps (w_db w))
     \<and> deployments d' = deployments (w_db w) @ [p] \<and> dep_AppID p = i \<and> dep_ServerID p = app_ServerID app
     \<and> dep_Status p = (if ok then ''success'' else ''failed'') \<and> dep_CommitSHA p = commit
     \<and> dep_ComposeSnapshot p = app_Compose app"
  using deploy_deployed [OF assms(1,2), of commit E removed] unfolding Let_def deployed_def .

theorem deployWithCommit_outcome_witness:
  "\<exists>p. deployments (w_db (exec (deployWithCommit sample_env 1 ''abc'' []) sample_world)) = [p] \<and> dep_AppID p = 1"
proof -
  have "db_ok (w_db sample_world)" by (rule sample_ok)
  moreover have "Repo_Get 1 (w_db sample_world) = Some sample_app" by (rule sample_get)
  ultimately have "let d' = w_db (exec (deployWithCommit sample_env 1 ''abc'' []) sample_world)
    in \<exists>ok t p. apps d' = map (\<lambda>a. if app_ID a = 1
        then a\<lparr>app_Status := if ok then ''running'' else ''failed'', app_UpdatedAt := t\<rparr> else a) (apps (w_db sample_world))
     \<and> deployments d' = deployments (w_db sample_world) @ [p] \<and> dep_AppID p = 1 \<and> dep_ServerID p = app_ServerID sample_app
     \<and> dep_Status p = (if ok then ''success'' else ''failed'') \<and> dep_CommitSHA p = ''abc''
     \<and> dep_ComposeSnapshot p = app_Compose sample_app" by (rule deployWithCommit_outcome)
  moreover have "deployments (w_db sample_world) = []"
    by (simp add: sample_world_def sample_db_def empty_db_def)
  ultimately show ?thesis unfolding Let_def by (metis append_Nil)
qed


text \<open>A deployment in the world where every command succeeds.\<close>

lemma sample_run: "result (run sample_env c cmd i s) w = ([], None)"
  by (simp add: run_def result_bind sample_env_def)

lemma sample_results:
  "result (WriteFile sample_env c n t m) w = None" "result (DockerComposeCmd sample_env c) w = ''docker-compose''"
  "result (login_step sample_env c sample_server) w = Inr []"
  "result (compose_up sample_env c cmd a logs) w = Inr logs"
  "app_Domain a = [] \<Longrightarrow> result (setup_routes sample_env c a svr content logs) w = (False, logs)"
  by (simp_all add: WriteFile_def DockerComposeCmd_def Exec_def login_step_def compose_up_def ExecLong_def setup_routes_def
      result_bind sample_run sample_server_def)

lemma finish_running:
  assumes "i \<in> set (map app_ID (fst (core w)))"
  shows "running i (exec (finish_deploy i svr a commit (False, logs)) w)"
proof -
  obtain b where "Repo_Get i (w_db w) = Some b"
    using assms by (cases "Repo_Get i (w_db w)") (auto simp: core_def Repo_Get_def find_eq_None)
  then have "Repo_Get i (Repo_UpdateStatus (now_s w) i ''running'' (w_db w)) = Some (b\<lparr>app_Status := ''running'', app_UpdatedAt := now_s w\<rparr>)"
    by (simp add: Repo_Get_UpdateStatus)
  then show ?thesis
    unfolding running_def finish_deploy_def Repo_Get_def [of i "w_db _"]
    by (simp add: exec_bind apps_recordDeployment updateStatus_exec Repo_Get_def)
qed

lemma sample_deploy_on:
  assumes "1 \<in> set (map app_ID (fst (core w)))" and "app_Domain a = []"
  shows "running 1 (exec (deploy_on sample_env 1 a sample_server c commit []) w)"
proof -
  have "core (exec m v) = core v" if "keeps core m" for m :: "'x prog" and v
    using keepsD [OF that] .
  then show ?thesis
    using assms
    by (simp add: deploy_on_def up_phase_def route_phase_def exec_bind result_bind sample_results)
      (rule finish_running, simp add: keepsD [OF core_frame(1)] keepsD [OF core_frame(2)] keepsD [OF core_frame(4)]
        keepsD [OF keeps_core_steps(1)] keepsD [OF keeps_core_phases(1)] keepsD [OF keeps_core_phases(2)]
        keepsD [OF keeps_core_phases(4)] keepsD [OF keeps_core_phases(5)])
qed


end
