(* ===== verification/Lifecycle.thy ===== *)
theory Lifecycle
  imports Deploy
begin

text \<open>
  The rest of the life of an app, from \<open>internal/app/service.go\<close>: rollback, logs, undeploy with
  the clean-up of DNS records, moving an app to another server (copying its folder directly
  between the workers or through the controller), stop and start. A goroutine that is started
  is an entry of \<open>w_tasks\<close>; the per-app lock that serialises the operations is the subject of
  the theory \<open>AppLocks\<close>. Deferred calls run at the end of the function that defers them, last
  one first.
\<close>

section \<open>Deploying and rolling back\<close>

abbreviation dq :: string where "dq \<equiv> [CHR 0x22]"
abbreviation sq :: string where "sq \<equiv> [CHR 0x27]"
abbreviation bsl :: string where "bsl \<equiv> [CHR 0x5C]"

definition go_task :: "task \<Rightarrow> unit prog" where
  "go_task t = modify (\<lambda>w. w\<lparr>w_tasks := w_tasks w @ [t]\<rparr>)"

definition Service_Deploy :: "env \<Rightarrow> int \<Rightarrow> unit prog" where
  "Service_Deploy E i = deployWithCommit E i [] []"

definition DeployByGit :: "string \<Rightarrow> string \<Rightarrow> string \<Rightarrow> unit prog" where
  "DeployByGit repo branch commitSHA = do {
     found \<leftarrow> db_get (Repo_FindAllByGitRepo repo branch);
     forM found (\<lambda>app. if app_Status app \<noteq> ''running'' then ret () else go_task (TaskDeploy (app_ID app) commitSHA))
   }"

definition Rollback :: "env \<Rightarrow> int \<Rightarrow> error option prog" where
  "Rollback E i = do {
     h \<leftarrow> trace;
     l \<leftarrow> db_get (Repo_GetLastSuccessfulDeployment (e_plan_deps E h) i);
     case l of
       None \<Rightarrow> ret (Some ''no successful deployment to rollback to'')
     | Some lst \<Rightarrow> do {
         a \<leftarrow> db_get (Repo_Get i);
         case a of
           None \<Rightarrow> ret (Some ''app not found'')
         | Some app \<Rightarrow>
             if dep_ComposeSnapshot lst = [] then ret (Some ''no compose snapshot available for rollback'')
             else do {
               u \<leftarrow> db_try (\<lambda>now. Repo_Update now (app\<lparr>app_Compose := dep_ComposeSnapshot lst\<rparr>));
               case u of
                 Inl err \<Rightarrow> ret (Some (''update app compose: '' @ err))
               | Inr _ \<Rightarrow> do { go_task (TaskDeploy i []); ret None }
             }
       }
   }"

section \<open>Logs, stop and start\<close>

definition server_conn :: "Server \<Rightarrow> conn" where
  "server_conn svr = \<lparr> c_Host = srv_Host svr, c_Port = srv_Port svr, c_User = srv_User svr \<rparr>"

text \<open>The app, its server and a connection to it; the connection is closed after \<open>body\<close>.\<close>

definition on_server :: "env \<Rightarrow> int \<Rightarrow> (App \<Rightarrow> Server \<Rightarrow> conn \<Rightarrow> 'a result prog) \<Rightarrow> 'a result prog" where
  "on_server E i body = do {
     a \<leftarrow> db_get (Repo_Get i);
     case a of
       None \<Rightarrow> ret (Inl ''app not found'')
     | Some app \<Rightarrow> do {
         s \<leftarrow> db_get (Srv_Get (app_ServerID app));
         case s of
           None \<Rightarrow> ret (Inl ''server not found'')
         | Some svr \<Rightarrow> do {
             r \<leftarrow> Connect E (srv_Host svr) (srv_Port svr) (srv_User svr) (srv_SSHKey svr);
             case r of
               Inl err \<Rightarrow> ret (Inl (''SSH connect: '' @ err))
             | Inr c \<Rightarrow> do { x \<leftarrow> body app svr c; Close E c; ret x }
           }
       }
   }"

definition FetchLogs :: "env \<Rightarrow> int \<Rightarrow> int \<Rightarrow> string result prog" where
  "FetchLogs E i tail = on_server E i (\<lambda>app svr c. do {
     dc \<leftarrow> DockerComposeCmd E c;
     r \<leftarrow> Exec E c (dc @ '' -f '' @ compose_path (app_ID app) @ '' logs --tail='' @ Itoa tail @ '' 2>&1'');
     ret (case r of (out, None) \<Rightarrow> Inr out | (_, Some err) \<Rightarrow> Inl err)
   })"

text \<open>\<open>stop\<close> and \<open>start\<close> share their shape: a compose command and, when it succeeds, a new status.\<close>

definition compose_status :: "env \<Rightarrow> int \<Rightarrow> string \<Rightarrow> string \<Rightarrow> string \<Rightarrow> App \<Rightarrow> Server \<Rightarrow> conn \<Rightarrow> unit result prog" where
  "compose_status E i verb msg status app svr c = do {
     dc \<leftarrow> DockerComposeCmd E c;
     r \<leftarrow> ExecLong E c (dc @ '' -f '' @ compose_path (app_ID app) @ verb);
     case r of
       (out, Some err) \<Rightarrow> ret (Inl (msg @ err @ nl @ out))
     | (_, None) \<Rightarrow> do { updateStatus i status; ret (Inr ()) }
   }"

definition Stop :: "env \<Rightarrow> int \<Rightarrow> unit result prog" where
  "Stop E i = on_server E i (compose_status E i '' stop 2>&1'' ''compose stop: '' ''stopped'')"

definition Start :: "env \<Rightarrow> int \<Rightarrow> unit result prog" where
  "Start E i = on_server E i (compose_status E i '' start 2>&1'' ''compose start: '' ''running'')"

definition Redeploy :: "env \<Rightarrow> int \<Rightarrow> string list \<Rightarrow> unit prog" where
  "Redeploy E i removedDomains = do {
     a \<leftarrow> db_get (Repo_Get i);
     case a of None \<Rightarrow> ret () | Some app \<Rightarrow> deployWithCommit E i [] removedDomains
   }"

section \<open>Undeploy\<close>

definition own_record :: "string list \<Rightarrow> string list \<Rightarrow> DNSRecordInfo \<Rightarrow> bool" where
  "own_record domains hosts rec \<longleftrightarrow> dns_Name rec \<noteq> [] \<and> dns_Name rec \<in> set domains \<and> dns_Content rec \<in> set hosts"

definition deleteDNSRecords :: "env \<Rightarrow> App \<Rightarrow> unit prog" where
  "deleteDNSRecords E app =
     (case e_cf E of
        None \<Rightarrow> ret ()
      | Some cf \<Rightarrow> do {
          records \<leftarrow> getDNSRecords E (app_ID app);
          if records = [] then ret ()
          else do {
            rs \<leftarrow> getRoutes E (app_ID app);
            svrs \<leftarrow> db_get Srv_List;
            foldM (\<lambda>deleted rec.
              if \<not> own_record (app_Domain app # map rt_Domain rs) (map srv_Host svrs) rec \<or> dns_RecordID rec \<in> set deleted
              then ret deleted
              else do { DeleteRecord E cf (dns_RecordID rec); ret (dns_RecordID rec # deleted) }) [] records;
            ret ()
          }
        })"

definition forget :: "env \<Rightarrow> App \<Rightarrow> error option prog" where
  "forget E app = do {
     deleteDNSRecords E app;
     db_do (\<lambda>_. Repo_Delete (app_ID app));
     ret None
   }"

definition remove_routes :: "env \<Rightarrow> conn \<Rightarrow> App \<Rightarrow> unit prog" where
  "remove_routes E c app = do {
     rs \<leftarrow> getRoutes E (app_ID app);
     forM rs (\<lambda>r. do { RemoveRoute E c (rt_Domain r); ret () });
     if rs \<noteq> [] then do { SaveConfig E c; ret () } else ret ()
   }"

definition down_all :: "string \<Rightarrow> int \<Rightarrow> string" where
  "down_all dc i = dc @ '' -f '' @ compose_path i @ '' down --volumes --rmi all 2>&1 || true''"

definition rm_folder :: "int \<Rightarrow> string" where
  "rm_folder i = ''rm -rf '' @ app_dir i"

definition undeploy_on :: "env \<Rightarrow> App \<Rightarrow> conn \<Rightarrow> error option prog" where
  "undeploy_on E app c = do {
     dc \<leftarrow> DockerComposeCmd E c;
     ExecLong E c (down_all dc (app_ID app));
     remove_routes E c app;
     ExecLong E c (rm_folder (app_ID app));
     forget E app
   }"

definition Undeploy :: "env \<Rightarrow> int \<Rightarrow> error option prog" where
  "Undeploy E i = do {
     a \<leftarrow> db_get (Repo_Get i);
     case a of
       None \<Rightarrow> ret (Some ''app not found'')
     | Some app \<Rightarrow>
         if app_Status app = ''draft'' then forget E app
         else do {
           s \<leftarrow> db_get (Srv_Get (app_ServerID app));
           case s of
             None \<Rightarrow> forget E app
           | Some svr \<Rightarrow> do {
               r \<leftarrow> Connect E (srv_Host svr) (srv_Port svr) (srv_User svr) (srv_SSHKey svr);
               case r of
                 Inl _ \<Rightarrow> forget E app
               | Inr c \<Rightarrow> do { x \<leftarrow> undeploy_on E app c; Close E c; ret x }
             }
         }
   }"

section \<open>Frames\<close>

text \<open>Everything the database holds about apps. Connecting to a server may pin its host key, and no more.\<close>

definition rows :: "world \<Rightarrow> App list \<times> Deployment list \<times> Route list \<times> DNSRecordInfo list \<times> AppSecret list \<times> AppFile list" where
  "rows w = (apps (w_db w), deployments (w_db w), routes (w_db w), dns_records (w_db w), app_secrets (w_db w), app_files (w_db w))"

lemma keeps_rows: "keeps w_db m \<Longrightarrow> keeps rows m"
  by (simp add: keeps_def rows_def)

lemmas rows_frame [frame] = keeps_rows [OF keeps_Exec(1)] keeps_rows [OF keeps_Exec(2)] keeps_rows [OF keeps_Exec(3)]
  keeps_rows [OF keeps_Exec(4)] keeps_rows [OF keeps_Exec(5)] keeps_rows [OF keeps_ReadFile(1)]
  keeps_rows [OF keeps_emit(1)] keeps_rows [OF keeps_RemoveRoute(1)] keeps_rows [OF keeps_SaveConfig(1)]
  keeps_rows [OF keeps_Records(5)] keeps_rows [OF keeps_db_phases(1)]

lemma keeps_rows_Connect [frame]: "keeps rows (Connect E host port user key)"
proof -
  have "keeps rows (pinHostKey E host port k)" for k
    unfolding pinHostKey_def
    by (intro frame) (simp add: keeps_def exec_db_try pin_key_def Let_def Srv_SaveHostKey_def map_server_def rows_def)
  then show ?thesis unfolding Connect_def by (intro frame) auto
qed

lemma keeps_tasks_Connect [frame]: "keeps w_tasks (Connect E host port user key)"
  unfolding Connect_def pinHostKey_def by (intro frame)

lemma keeps_reads [frame]: "keeps f (getRoutes E i)" "keeps f (getDNSRecords E i)"
  unfolding getRoutes_def getDNSRecords_def by (intro frame)+

lemma keeps_db_dns [frame]: "keeps w_db (deleteDNSRecords E app)"
  unfolding deleteDNSRecords_def by (intro frame)

lemma keeps_db_remove_routes [frame]: "keeps w_db (remove_routes E c app)"
  unfolding remove_routes_def by (intro frame)

lemmas rows_frame2 [frame] = keeps_rows [OF keeps_db_dns] keeps_rows [OF keeps_db_remove_routes]

lemma steps_go [stmts]: "steps (go_task t)"
  by (simp add: go_task_def steps_def exec_def)

lemma emits_go [events]: "emits P (go_task t)"
  by (simp add: go_task_def emits_def exec_def)

lemma exec_go: "exec (go_task t) w = w\<lparr>w_tasks := w_tasks w @ [t]\<rparr>"
  by (simp add: go_task_def exec_def)

lemma steps_on_server [stmts]: "(\<And>app svr c. steps (body app svr c)) \<Longrightarrow> steps (on_server E i body)"
  unfolding on_server_def by (intro stmts)

lemma steps_dns [stmts]: "steps (deleteDNSRecords E app)" "steps (remove_routes E c app)"
  by (rule steps_db, intro frame)+

lemma steps_lifecycle [stmts]:
  "steps (DeployByGit repo branch sha)" "steps (Rollback E i)" "steps (FetchLogs E i tail)" "steps (Stop E i)"
  "steps (Start E i)" "steps (Redeploy E i removed)" "steps (Undeploy E i)" "steps (Service_Deploy E i)"
  unfolding DeployByGit_def Rollback_def FetchLogs_def Stop_def Start_def compose_status_def Redeploy_def Undeploy_def undeploy_on_def forget_def
    Service_Deploy_def
  by (intro stmts app_update app_delete)+

section \<open>Functional behaviour\<close>

lemma find_hd_sort:
  fixes key :: "'r \<Rightarrow> int"
  assumes "sort_key key xs = x # ys"
  shows "x \<in> set xs" and "\<And>y. y \<in> set xs \<Longrightarrow> key x \<le> key y"
proof -
  have "set (x # ys) = set xs" using assms by (metis set_sort)
  then show "x \<in> set xs" by auto
  have "sorted (map key (x # ys))" using assms by (metis sorted_sort_key)
  then show "key x \<le> key y" if "y \<in> set xs" for y
    using that \<open>set (x # ys) = set xs\<close> by (metis insert_iff list.set(2) list.simps(9) order_refl sorted_simps(2) image_eqI list.set_map)
qed

lemma GetLast_correct:
  assumes "Repo_GetLastSuccessfulDeployment plan i d = Some lst"
  shows "lst \<in> set (deployments d) \<and> dep_AppID lst = i \<and> dep_Status lst = ''success''
    \<and> (\<forall>p \<in> set (deployments d). dep_AppID p = i \<longrightarrow> dep_Status p = ''success'' \<longrightarrow> dep_CreatedAt p \<le> dep_CreatedAt lst)"
proof -
  obtain ys where s: "sort_key (\<lambda>x. - dep_CreatedAt x)
      (reorder plan (filter (\<lambda>x. dep_AppID x = i \<and> dep_Status x = ''success'') (deployments d))) = lst # ys"
    using assms by (auto simp: Repo_GetLastSuccessfulDeployment_def split: list.splits)
  show ?thesis using find_hd_sort [OF s] by auto
qed

lemma Update_ok:
  assumes "db_ok d" and "Repo_Get i d = Some a" and "app_ID b = i" and "app_Name b = app_Name a"
    and "app_ServerID b = app_ServerID a"
  shows "Repo_Update now b d = (Inr (), map_app i (\<lambda>old. b\<lparr>app_CreatedAt := app_CreatedAt old, app_UpdatedAt := now\<rparr>) d)"
proof -
  have a: "a \<in> set (apps d)" "app_ID a = i" "i \<in> app_ids d" using Repo_Get_ids [OF assms(2)] by auto
  have "idx_apps_name d \<longrightarrow> distinct (map app_Name (apps d))" using assms(1) by (simp add: db_ok_def keys_inv_def)
  then have "\<not> (idx_apps_name d \<and> (\<exists>x \<in> set (apps d). app_ID x \<noteq> i \<and> app_Name x = app_Name a))"
    using a by (auto simp: distinct_map dest: inj_onD)
  moreover have "server_ref d (app_ServerID a)" using db_ok_server_ref [OF assms(1) a(1)] .
  ultimately show ?thesis using assms a by (simp add: Repo_Update_def)
qed

lemma Repo_Get_map_app:
  assumes "\<And>a. app_ID a = i \<Longrightarrow> app_ID (f a) = i"
  shows "Repo_Get j (map_app i f d) = map_option (\<lambda>a. if j = i then f a else a) (Repo_Get j d)"
proof -
  have "find (\<lambda>a. app_ID a = j) (map (\<lambda>a. if app_ID a = i then f a else a) xs)
      = map_option (\<lambda>a. if j = i then f a else a) (find (\<lambda>a. app_ID a = j) xs)" for xs
    using assms by (induction xs) auto
  then show ?thesis by (simp add: Repo_Get_def map_app_def)
qed

lemma forM_go_tasks:
  "exec (forM xs (\<lambda>a. if p a then ret () else go_task (g a))) w
     = w\<lparr>w_tasks := w_tasks w @ map g (filter (\<lambda>a. \<not> p a) xs)\<rparr>"
  by (induction xs arbitrary: w) (auto simp: exec_bind exec_go)

text \<open>\<open>on_server\<close>: nothing about apps changes unless the body runs, and it runs on the app's server.\<close>

lemma result_get_bind: "result (State_Monad.bind (db_get f) g) w = result (g (f (w_db w))) w"
  by (simp add: result_def db_get_def)

lemma on_server_cases:
  fixes w :: world and E :: env and svr :: Server and body :: "App \<Rightarrow> Server \<Rightarrow> conn \<Rightarrow> 'a result prog"
  assumes "Repo_Get i (w_db w) = Some app" and "Srv_Get (app_ServerID app) (w_db w) = Some svr"
  defines "b \<equiv> body app svr (server_conn svr)" and "w' \<equiv> exec (on_server E i body) w"
  shows "(\<exists>err. result (on_server E i body) w = Inl err \<and> rows w' = rows w)
    \<or> (\<exists>w1. result (on_server E i body) w = result b w1 \<and> rows w1 = rows w \<and> rows w' = rows (exec b w1)
         \<and> prefix (w_trace w) (w_trace w1) \<and> prefix (w_trace (exec b w1)) (w_trace w'))"
proof -
  let ?m = "Connect E (srv_Host svr) (srv_Port svr) (srv_User svr) (srv_SSHKey svr)"
  let ?w1 = "exec ?m w"
  have w1: "rows ?w1 = rows w" "prefix (w_trace w) (w_trace ?w1)"
    by (rule keepsD [OF keeps_rows_Connect], rule emits_prefix [OF emits_True(9)])
  let ?k = "case result ?m w of
      Inl err \<Rightarrow> ret (Inl (''SSH connect: '' @ err)) | Inr c \<Rightarrow> do { x \<leftarrow> body app svr c; Close E c; ret x }"
  have run: "result (on_server E i body) w = result ?k ?w1" "w' = exec ?k ?w1"
    unfolding w'_def on_server_def result_get_bind exec_get_bind assms(1,2) option.case
      exec_bind [of "Connect _ _ _ _ _"] result_bind [of "Connect _ _ _ _ _"] by (rule refl)+
  show ?thesis
  proof (cases "result ?m w")
    case (Inl err)
    then show ?thesis using run w1 by simp
  next
    case (Inr c)
    then have c: "c = server_conn svr"
      using Connect_conn [of E "srv_Host svr" "srv_Port svr" "srv_User svr" "srv_SSHKey svr" w]
      by (simp add: wp_exec_result server_conn_def)
    have "rows (exec (Close E c) (exec b ?w1)) = rows (exec b ?w1)"
        "prefix (w_trace (exec b ?w1)) (w_trace (exec (Close E c) (exec b ?w1)))"
      by (rule keepsD [OF rows_frame(5)], rule emits_prefix [OF emits_True(7)])
    then show ?thesis using run w1 Inr unfolding c b_def
      by (intro disjI2 exI [of _ ?w1]) (simp add: exec_bind result_bind)
  qed
qed

definition did_compose :: "env \<Rightarrow> conn \<Rightarrow> int \<Rightarrow> string \<Rightarrow> event list \<Rightarrow> event list \<Rightarrow> bool" where
  "did_compose E c i verb tr0 tr \<longleftrightarrow> (\<exists>dc \<in> compose_cmds. \<exists>out.
     succeeded E c (dc @ '' -f '' @ compose_path i @ verb) None ExecLongTimeout out tr0 tr)"

lemma did_compose_mono:
  "did_compose E c i verb tr1 tr2 \<Longrightarrow> prefix tr0 tr1 \<Longrightarrow> prefix tr2 tr3 \<Longrightarrow> did_compose E c i verb tr0 tr3"
  unfolding did_compose_def by (meson succeeded_mono)

lemma compose_status_spec:
  "wp (compose_status E i verb msg status app svr c) (\<lambda>x w'.
     (case x of Inl _ \<Rightarrow> rows w' = rows w
      | Inr _ \<Rightarrow> did_compose E c (app_ID app) verb (w_trace w) (w_trace w')
          \<and> (\<exists>t. apps (w_db w') = map (\<lambda>a. if app_ID a = i then a\<lparr>app_Status := status, app_UpdatedAt := t\<rparr> else a) (apps (w_db w))))) w"
proof -
  let ?Q = "\<lambda>x :: unit result. \<lambda>w'. case x of Inl _ \<Rightarrow> rows w' = rows w
      | Inr _ \<Rightarrow> did_compose E c (app_ID app) verb (w_trace w) (w_trace w')
          \<and> (\<exists>t. apps (w_db w') = map (\<lambda>a. if app_ID a = i then a\<lparr>app_Status := status, app_UpdatedAt := t\<rparr> else a) (apps (w_db w)))"
  have dc: "wp (DockerComposeCmd E c) (\<lambda>x w'. x \<in> compose_cmds \<and> rows w' = rows w \<and> prefix (w_trace w) (w_trace w')) w"
    by (rule wp_conj [OF DockerComposeCmd_range], rule wp_conj, rule wp_keeps [OF rows_frame(11)], assumption,
        rule wp_grow [OF emits_True_steps(1)])
  have ex: "wp (ExecLong E c cmd) (\<lambda>r w'. (snd r = None \<longrightarrow> succeeded E c cmd None ExecLongTimeout (fst r) (w_trace v) (w_trace w'))
      \<and> rows w' = rows v) v" for cmd v
    by (rule wp_conj [OF ExecLong_answer], rule wp_keeps [OF rows_frame(2)])
  have fin: "wp (case r of (out, Some err) \<Rightarrow> ret (Inl (msg @ err @ nl @ out))
        | (_, None) \<Rightarrow> do { updateStatus i status; ret (Inr ()) }) ?Q v"
    if "snd r = None \<longrightarrow> did_compose E c (app_ID app) verb (w_trace w) (w_trace v)" "rows v = rows w" for r :: "string \<times> error option" and v
  proof -
    obtain out err where r: "r = (out, err)" by force
    have "apps (w_db v) = apps (w_db w)" using that(2) by (simp add: rows_def)
    then have "\<exists>t. apps (Repo_UpdateStatus (now_s v) i status (w_db v))
        = map (\<lambda>a. if app_ID a = i then a\<lparr>app_Status := status, app_UpdatedAt := t\<rparr> else a) (apps (w_db w))"
      unfolding UpdateStatus_simps by (intro exI [of _ "now_s v"]) simp
    then show ?thesis
      using that unfolding r by (cases err) (simp_all add: wp_ret wp_bind wp_db_do updateStatus_def)
  qed
  show ?thesis
    unfolding compose_status_def wp_bind
    by (rule wp_mono [OF dc], rule wp_mono [OF ex], rule fin) (auto simp: did_compose_def intro: succeeded_mono)
qed

section \<open>Which DNS records go\<close>

text \<open>The requests of a clean-up: one DELETE per record, of records that may go, none twice.\<close>

definition delete_of :: "cf_client \<Rightarrow> string \<Rightarrow> event" where
  "delete_of cf = (\<lambda>rid. EvHttp ''DELETE'' (zone_url cf @ ''/'' @ rid) [])"

lemma exec_DeleteRecord_trace: "w_trace (exec (DeleteRecord E cf rid) w) = w_trace w @ [delete_of cf rid]"
  by (simp add: DeleteRecord_def Do_def exec_bind emit_def trace_def delete_of_def exec_def)

lemma delete_loop:
  assumes "distinct seen"
  shows "\<exists>ids. w_trace (exec (foldM (\<lambda>deleted rec. if \<not> own rec \<or> dns_RecordID rec \<in> set deleted then ret deleted
        else do { DeleteRecord E cf (dns_RecordID rec); ret (dns_RecordID rec # deleted) }) seen recs) w)
      = w_trace w @ map (delete_of cf) ids
    \<and> distinct ids \<and> set ids = dns_RecordID ` {rec \<in> set recs. own rec} - set seen"
  using assms
proof (induction recs arbitrary: seen w)
  case (Cons rec recs)
  let ?id = "dns_RecordID rec"
  show ?case
  proof (cases "\<not> own rec \<or> ?id \<in> set seen")
    case True
    then have "dns_RecordID ` {r \<in> set (rec # recs). own r} - set seen = dns_RecordID ` {r \<in> set recs. own r} - set seen"
      by auto
    with True Cons.IH [OF Cons.prems, of w] show ?thesis by (simp add: exec_bind)
  next
    case False
    from False Cons.prems have "distinct (?id # seen)" by simp
    from Cons.IH [OF this, of "exec (DeleteRecord E cf ?id) w"] obtain ids where ids:
      "w_trace (exec (foldM (\<lambda>deleted rec. if \<not> own rec \<or> dns_RecordID rec \<in> set deleted then ret deleted
        else do { DeleteRecord E cf (dns_RecordID rec); ret (dns_RecordID rec # deleted) }) (?id # seen) recs)
          (exec (DeleteRecord E cf ?id) w)) = w_trace w @ map (delete_of cf) (?id # ids)"
      "distinct ids" "set ids = dns_RecordID ` {rec \<in> set recs. own rec} - set (?id # seen)"
      by (auto simp: exec_DeleteRecord_trace)
    moreover have "set (?id # ids) = dns_RecordID ` {r \<in> set (rec # recs). own r} - set seen"
      using ids(3) False by auto
    ultimately show ?thesis using False by (intro exI [of _ "?id # ids"]) (simp add: exec_bind result_bind)
  qed
qed simp

lemma deleteDNSRecords_trace:
  fixes E :: env and app :: App and w :: world
  defines "d \<equiv> w_db w"
  defines "own \<equiv> {rec \<in> set (dns_records d). dns_AppID rec = app_ID app \<and> dns_Name rec \<noteq> []
         \<and> (dns_Name rec = app_Domain app
            \<or> dns_Name rec \<in> rt_Domain ` {r \<in> set (routes d). rt_AppID r = app_ID app \<and> rt_Status r = ''active''})
         \<and> dns_Content rec \<in> srv_Host ` set (servers d)}"
  shows "case e_cf E of None \<Rightarrow> w_trace (exec (deleteDNSRecords E app) w) = w_trace w
    | Some cf \<Rightarrow> (\<exists>ids. w_trace (exec (deleteDNSRecords E app) w) = w_trace w @ map (delete_of cf) ids
        \<and> distinct ids \<and> set ids = dns_RecordID ` own)"
proof (cases "e_cf E")
  case None
  then show ?thesis by (simp add: deleteDNSRecords_def)
next
  case (Some cf)
  let ?recs = "Repo_GetDNSRecords (e_plan_dns E (w_trace w)) (app_ID app) d"
  let ?rs = "Repo_GetRoutes (e_plan_routes E (w_trace w)) (app_ID app) d"
  let ?own = "own_record (app_Domain app # map rt_Domain ?rs) (map srv_Host (Srv_List d))"
  have set: "{rec \<in> set ?recs. ?own rec} = own"
    by (auto simp: own_def own_record_def Repo_GetDNSRecords_def Repo_GetRoutes_def Srv_List_def)
  have get: "exec (getDNSRecords E i) w = w" "result (getDNSRecords E i) w = Repo_GetDNSRecords (e_plan_dns E (w_trace w)) i d"
      "exec (getRoutes E i) w = w" "result (getRoutes E i) w = Repo_GetRoutes (e_plan_routes E (w_trace w)) i d" for i
    by (simp_all add: getDNSRecords_def getRoutes_def exec_def result_def trace_def db_get_def d_def)
  show ?thesis
  proof (cases "?recs = []")
    case True
    then have none: "own = {}" using set by auto
    have "exec (deleteDNSRecords E app) w = w"
      using True Some by (simp add: deleteDNSRecords_def exec_bind get)
    then show ?thesis using Some none by (auto intro!: exI [of _ "[]"])
  next
    case False
    have "exec (deleteDNSRecords E app) w = exec (foldM (\<lambda>deleted rec. if \<not> ?own rec \<or> dns_RecordID rec \<in> set deleted
        then ret deleted else do { DeleteRecord E cf (dns_RecordID rec); ret (dns_RecordID rec # deleted) }) [] ?recs) w"
      using False Some
      by (simp add: deleteDNSRecords_def exec_bind [of "getDNSRecords _ _"] exec_bind [of "getRoutes _ _"] get exec_get_bind)
        (simp add: exec_bind d_def)
    with delete_loop [where seen = "[]" and own = ?own and recs = ?recs and E = E and cf = cf and w = w] Some set
    show ?thesis by simp
  qed
qed

section \<open>What undeploying leaves\<close>

definition without_app :: "int \<Rightarrow> App list \<times> Deployment list \<times> Route list \<times> DNSRecordInfo list \<times> AppSecret list \<times> AppFile list
    \<Rightarrow> App list \<times> Deployment list \<times> Route list \<times> DNSRecordInfo list \<times> AppSecret list \<times> AppFile list" where
  "without_app i v = (case v of (A, D, R, N, S, F) \<Rightarrow>
     (filter (\<lambda>a. app_ID a \<noteq> i) A, filter (\<lambda>p. dep_AppID p \<noteq> i) D, filter (\<lambda>r. rt_AppID r \<noteq> i) R,
      filter (\<lambda>r. dns_AppID r \<noteq> i) N, filter (\<lambda>s. sec_AppID s \<noteq> i) S, filter (\<lambda>f. file_AppID f \<noteq> i) F))"

lemma ends_forget [ends_rules]:
  "app_ID app = i \<Longrightarrow> ends rows v (\<lambda>w. rows w = without_app i v) (forget E app)"
  using keepsD [OF rows_frame2(1)]
  by (auto simp: ensures_def forget_def exec_bind exec_db_do without_app_def rows_def Repo_Delete_def)

lemma result_forget: "result (forget E app) w = None"
  by (simp add: forget_def result_bind)

lemma ends_undeploy_on: "app_ID app = i \<Longrightarrow> ends rows v (\<lambda>w. rows w = without_app i v) (do { x \<leftarrow> undeploy_on E app c; Close E c; ret x })"
  unfolding undeploy_on_def
  by (rule ends_then) (intro ends_rules frame, assumption, simp add: exec_bind keepsD [OF rows_frame(5)])

lemma result_undeploy_on: "result (undeploy_on E app c) w = None"
  by (simp add: undeploy_on_def result_bind result_forget)

lemma Undeploy_rows:
  assumes "Repo_Get i (w_db w) = Some app"
  shows "result (Undeploy E i) w = None" and "rows (exec (Undeploy E i) w) = without_app i (rows w)"
proof -
  have id: "app_ID app = i" using Repo_Get_ids [OF assms] by simp
  let ?m = "if app_Status app = ''draft'' then forget E app
         else do {
           s \<leftarrow> db_get (Srv_Get (app_ServerID app));
           case s of
             None \<Rightarrow> forget E app
           | Some svr \<Rightarrow> do {
               r \<leftarrow> Connect E (srv_Host svr) (srv_Port svr) (srv_User svr) (srv_SSHKey svr);
               case r of
                 Inl _ \<Rightarrow> forget E app
               | Inr c \<Rightarrow> do { x \<leftarrow> undeploy_on E app c; Close E c; ret x }
             }
         }"
  have run: "exec (Undeploy E i) w = exec ?m w" "result (Undeploy E i) w = result ?m w"
    unfolding Undeploy_def exec_get_bind result_get_bind assms option.case by (rule refl)+
  show "result (Undeploy E i) w = None"
    unfolding run by (simp add: result_bind result_forget result_undeploy_on split: option.split sum.split)
  have "ends rows (rows w) (\<lambda>w'. rows w' = without_app i (rows w)) ?m"
    by (intro ends_rules ends_undeploy_on frame id)
  then show "rows (exec (Undeploy E i) w) = without_app i (rows w)"
    unfolding run by (rule endsD) simp
qed

section \<open>Properties\<close>

text \<open>
  C12. A rollback goes back to the newest deployment that succeeded: the compose file recorded
  with it becomes the app's, no other field and no other app changes, and a deployment of the
  app is started. Without such a deployment, or without its compose file, it is refused and
  nothing changes.
\<close>

theorem Rollback_correct:
  assumes "db_ok (w_db w)" and "Repo_Get i (w_db w) = Some app"
  shows "let w' = exec (Rollback E i) w in
    case Repo_GetLastSuccessfulDeployment (e_plan_deps E (w_trace w)) i (w_db w) of
      None \<Rightarrow> result (Rollback E i) w \<noteq> None \<and> w' = w
    | Some lst \<Rightarrow> lst \<in> set (deployments (w_db w)) \<and> dep_AppID lst = i \<and> dep_Status lst = ''success''
        \<and> (\<forall>p \<in> set (deployments (w_db w)). dep_AppID p = i \<longrightarrow> dep_Status p = ''success'' \<longrightarrow> dep_CreatedAt p \<le> dep_CreatedAt lst)
        \<and> (if dep_ComposeSnapshot lst = [] then result (Rollback E i) w \<noteq> None \<and> w' = w
           else result (Rollback E i) w = None \<and> w_tasks w' = w_tasks w @ [TaskDeploy i []]
             \<and> Repo_Get i (w_db w') = Some (app\<lparr>app_Compose := dep_ComposeSnapshot lst, app_UpdatedAt := now_s w\<rparr>)
             \<and> (\<forall>j. j \<noteq> i \<longrightarrow> Repo_Get j (w_db w') = Repo_Get j (w_db w)))"
proof (cases "Repo_GetLastSuccessfulDeployment (e_plan_deps E (w_trace w)) i (w_db w)")
  case None
  then show ?thesis by (simp add: Let_def Rollback_def trace_def exec_def result_def db_get_def)
next
  case (Some lst)
  let ?b = "app\<lparr>app_Compose := dep_ComposeSnapshot lst\<rparr>"
  have id: "app_ID app = i" using Repo_Get_ids [OF assms(2)] by simp
  have upd: "Repo_Update now ?b (w_db w)
      = (Inr (), map_app i (\<lambda>old. ?b\<lparr>app_CreatedAt := app_CreatedAt old, app_UpdatedAt := now\<rparr>) (w_db w))" for now
    by (rule Update_ok [OF assms(1,2)]) (simp_all add: id)
  have get: "Repo_Get j (map_app i (\<lambda>old. ?b\<lparr>app_CreatedAt := app_CreatedAt old, app_UpdatedAt := now\<rparr>) (w_db w))
      = (if j = i then Some (?b\<lparr>app_UpdatedAt := now\<rparr>) else Repo_Get j (w_db w))" for j now
    using assms(2) id by (subst Repo_Get_map_app) (auto simp: option.map_id0 map_option.id [unfolded id_def])
  have run: "run_state (Rollback E i) w = (if dep_ComposeSnapshot lst = []
      then (Some ''no compose snapshot available for rollback'', w)
      else (None, w\<lparr>w_db := snd (Repo_Update (now_s w) ?b (w_db w)), w_tasks := w_tasks w @ [TaskDeploy i []]\<rparr>))"
    using Some assms(2)
    by (simp add: Rollback_def trace_def db_get_def db_try_def upd go_task_def modify_def)
  show ?thesis
    using GetLast_correct [OF Some] unfolding Let_def Some option.case exec_def result_def run
    by (simp add: upd get)
qed

theorem Rollback_correct_witness:
  "result (Rollback sample_env 1) sample_world \<noteq> None \<and> exec (Rollback sample_env 1) sample_world = sample_world"
proof -
  have "Repo_GetLastSuccessfulDeployment (e_plan_deps sample_env (w_trace sample_world)) 1 (w_db sample_world) = None"
    by (simp add: Repo_GetLastSuccessfulDeployment_def sample_world_def sample_db_def empty_db_def sample_env_def reorder_def)
  with Rollback_correct [OF sample_ok sample_get, of sample_env] show ?thesis unfolding Let_def by simp
qed

lemma exec_DeployByGit:
  "exec (DeployByGit repo branch sha) w = w\<lparr>w_tasks := w_tasks w @ map (\<lambda>a. TaskDeploy (app_ID a) sha)
     (filter (\<lambda>a. \<not> app_Status a \<noteq> ''running'') (Repo_FindAllByGitRepo repo branch (w_db w)))\<rparr>"
  by (simp add: DeployByGit_def exec_get_bind forM_go_tasks)

text \<open>
  A push to a repository starts a deployment of exactly the running apps that are deployed
  from that repository and branch, each one once, and changes nothing else. An app without a
  repository or branch is never deployed by a webhook, whatever the request names.
\<close>

theorem DeployByGit_correct:
  "let w' = exec (DeployByGit repo branch sha) w;
       hit = {# a \<in># mset (apps (w_db w)). app_Status a = ''running'' \<and> app_GitRepo a = repo \<and> app_GitBranch a = branch
                \<and> repo \<noteq> [] \<and> branch \<noteq> [] #}
   in w_db w' = w_db w \<and> w_trace w' = w_trace w
    \<and> (\<exists>new. w_tasks w' = w_tasks w @ map (\<lambda>a. TaskDeploy (app_ID a) sha) new \<and> mset new = hit
         \<and> sorted (map app_ID new))"
proof -
  let ?new = "filter (\<lambda>a. \<not> app_Status a \<noteq> ''running'') (Repo_FindAllByGitRepo repo branch (w_db w))"
  note ex = exec_DeployByGit [of repo branch sha w]
  have "sorted (map app_ID (Repo_FindAllByGitRepo repo branch (w_db w)))"
    by (simp add: Repo_FindAllByGitRepo_def)
  then have "sorted (map app_ID ?new)" by (rule sorted_filter)
  moreover have "mset ?new = {# a \<in># mset (apps (w_db w)). app_Status a = ''running'' \<and> app_GitRepo a = repo
      \<and> app_GitBranch a = branch \<and> repo \<noteq> [] \<and> branch \<noteq> [] #}"
    by (auto simp: Repo_FindAllByGitRepo_def filter_filter_mset intro!: filter_mset_cong)
  ultimately show ?thesis unfolding Let_def ex by auto
qed

text \<open>
  Stopping and starting an app: when the call returns without an error, the compose
  command ended without one on the app's server in the course of the call, and the status of
  the app, and of no other, is the new one; when it returns an error, no app, deployment,
  route, DNS row, variable or file has changed.
\<close>

theorem Stop_Start_correct:
  assumes "Repo_Get i (w_db w) = Some app" and "Srv_Get (app_ServerID app) (w_db w) = Some svr"
    and "(op, verb, status) \<in> {(Stop E i, '' stop 2>&1'', ''stopped''), (Start E i, '' start 2>&1'', ''running'')}"
  shows "case result op w of
      Inl _ \<Rightarrow> rows (exec op w) = rows w
    | Inr _ \<Rightarrow> did_compose E (server_conn svr) i verb (w_trace w) (w_trace (exec op w))
        \<and> (\<exists>t. apps (w_db (exec op w)) = map (\<lambda>a. if app_ID a = i then a\<lparr>app_Status := status, app_UpdatedAt := t\<rparr> else a)
             (apps (w_db w)))"
proof -
  obtain msg where op: "op = on_server E i (compose_status E i verb msg status)"
    using assms(3) by (auto simp: Stop_def Start_def)
  have id: "app_ID app = i" using Repo_Get_ids [OF assms(1)] by simp
  let ?b = "compose_status E i verb msg status app svr (server_conn svr)"
  consider err where "result op w = Inl err" "rows (exec op w) = rows w"
    | w1 where "result op w = result ?b w1" "rows w1 = rows w" "rows (exec op w) = rows (exec ?b w1)"
        "prefix (w_trace w) (w_trace w1)" "prefix (w_trace (exec ?b w1)) (w_trace (exec op w))"
    using on_server_cases [OF assms(1,2), of E "compose_status E i verb msg status"] unfolding op by blast
  then show ?thesis
  proof cases
    case 2
    have same: "apps (w_db w1) = apps (w_db w)" "apps (w_db (exec op w)) = apps (w_db (exec ?b w1))"
      using 2 by (simp_all add: rows_def)
    show ?thesis
      using compose_status_spec [of E i verb msg status app svr "server_conn svr" w1] 2 did_compose_mono
      unfolding wp_exec_result id same by (auto split: sum.splits)
  qed simp
qed

theorem Stop_Start_correct_witness:
  "case result (Stop sample_env 1) sample_world of
      Inl _ \<Rightarrow> rows (exec (Stop sample_env 1) sample_world) = rows sample_world
    | Inr _ \<Rightarrow> did_compose sample_env (server_conn sample_server) 1 '' stop 2>&1'' (w_trace sample_world)
          (w_trace (exec (Stop sample_env 1) sample_world))
        \<and> (\<exists>t. apps (w_db (exec (Stop sample_env 1) sample_world))
             = map (\<lambda>a. if app_ID a = 1 then a\<lparr>app_Status := ''stopped'', app_UpdatedAt := t\<rparr> else a) (apps (w_db sample_world)))"
proof -
  have srv: "Srv_Get (app_ServerID sample_app) (w_db sample_world) = Some sample_server"
    by (simp add: Srv_Get_def sample_world_def sample_db_def sample_server_def sample_app_def)
  show ?thesis by (rule Stop_Start_correct [OF sample_get srv]) simp
qed

text \<open>
  Undeploying deletes at Cloudflare exactly the records that are the app's own, each once:
  recorded for the app, named after one of its domains, and pointing at one of the servers. A
  record that was only found there and points elsewhere is never deleted, and without a
  Cloudflare client there is no request.
\<close>

theorem deleteDNSRecords_exact:
  "let d = w_db w; tr = w_trace (exec (deleteDNSRecords E app) w);
       own = {rec \<in> set (dns_records d). dns_AppID rec = app_ID app \<and> dns_Name rec \<noteq> []
         \<and> (dns_Name rec = app_Domain app
            \<or> dns_Name rec \<in> rt_Domain ` {r \<in> set (routes d). rt_AppID r = app_ID app \<and> rt_Status r = ''active''})
         \<and> dns_Content rec \<in> srv_Host ` set (servers d)}
   in w_db (exec (deleteDNSRecords E app) w) = d
    \<and> (case e_cf E of None \<Rightarrow> tr = w_trace w
       | Some cf \<Rightarrow> \<exists>ids. tr = w_trace w @ map (\<lambda>rid. EvHttp ''DELETE'' (zone_url cf @ ''/'' @ rid) []) ids
           \<and> distinct ids \<and> set ids = dns_RecordID ` own)"
  unfolding Let_def
  using deleteDNSRecords_trace [of E app w] keepsD [OF keeps_db_dns, of E app w] unfolding delete_of_def by blast



end
