(* ===== verification/Move.thy ===== *)
theory Move
  imports Lifecycle
begin

text \<open>
  Moving an app to another server (\<open>MoveApp\<close>, \<open>MoveWithoutFiles\<close>, \<open>CopyAppFiles\<close>,
  \<open>prepareDirectCopy\<close>, \<open>relayCopy\<close>, \<open>upOnServer\<close> and \<open>CleanupFromServer\<close> of
  \<open>internal/app/service.go\<close>). The two ends of the relayed copy run at the same time; the model
  lists the source first, with its output as the input of the target.
\<close>

section \<open>Helpers\<close>

definition show_err :: "error option \<Rightarrow> string" where
  "show_err e = (case e of None \<Rightarrow> ''<nil>'' | Some m \<Rightarrow> m)"

definition serverName :: "int \<Rightarrow> db \<Rightarrow> string" where
  "serverName i d = (case Srv_Get i d of Some svr \<Rightarrow> srv_Name svr | None \<Rightarrow> ''#'' @ Itoa i)"

definition connect_to :: "env \<Rightarrow> Server \<Rightarrow> conn result prog" where
  "connect_to E svr = Connect E (srv_Host svr) (srv_Port svr) (srv_User svr) (srv_SSHKey svr)"

definition up_cmd :: "string \<Rightarrow> int \<Rightarrow> string" where
  "up_cmd dc i = dc @ '' -f '' @ compose_path i @ '' up -d 2>&1''"

definition upOnServer :: "env \<Rightarrow> int \<Rightarrow> int \<Rightarrow> error option prog" where
  "upOnServer E appID serverID = do {
     s \<leftarrow> db_get (Srv_Get serverID);
     case s of
       None \<Rightarrow> ret (Some (''server '' @ Itoa serverID @ '' not found''))
     | Some svr \<Rightarrow> do {
         r \<leftarrow> connect_to E svr;
         case r of
           Inl err \<Rightarrow> ret (Some (''SSH connect: '' @ err))
         | Inr c \<Rightarrow> do {
             dc \<leftarrow> DockerComposeCmd E c;
             u \<leftarrow> ExecLong E c (up_cmd dc appID);
             Close E c;
             ret (case u of (out, Some err) \<Rightarrow> Some (''compose up: '' @ err @ nl @ out) | (_, None) \<Rightarrow> None)
           }
       }
   }"

definition CleanupFromServer :: "env \<Rightarrow> int \<Rightarrow> int \<Rightarrow> bool \<Rightarrow> unit prog" where
  "CleanupFromServer E appID serverID purgeOld = do {
     a \<leftarrow> db_get (Repo_Get appID);
     case a of
       None \<Rightarrow> ret ()
     | Some app \<Rightarrow> do {
         s \<leftarrow> db_get (Srv_Get serverID);
         case s of
           None \<Rightarrow> ret ()
         | Some svr \<Rightarrow> do {
             r \<leftarrow> connect_to E svr;
             case r of
               Inl _ \<Rightarrow> ret ()
             | Inr c \<Rightarrow> do {
                 dc \<leftarrow> DockerComposeCmd E c;
                 (if purgeOld then do {
                    ExecLong E c (down_all dc (app_ID app));
                    ExecLong E c (rm_folder (app_ID app));
                    ret ()
                  } else do {
                    ExecLong E c (dc @ '' -f '' @ compose_path (app_ID app) @ '' down 2>&1 || true'');
                    ret ()
                  });
                 remove_routes E c app;
                 Close E c
               }
           }
       }
   }"

section \<open>Copying the folder\<close>

definition rootPrefix :: string where
  "rootPrefix = ''S=; [ '' @ dq @ ''$(id -u)'' @ dq @ '' = 0 ] || ! sudo -n true 2>/dev/null || S='' @ dq @ ''sudo -n''
     @ dq @ ''; ''"

definition folder :: "int \<Rightarrow> string" where
  "folder i = ''app-'' @ Itoa i"

definition unpack_cmd :: "string \<Rightarrow> string" where
  "unpack_cmd dir = rootPrefix @ ''$S mkdir -p /opt/dockify/apps && cd /opt/dockify/apps && { [ ! -e '' @ dir @ '' ] || $S mv ''
     @ dir @ '' '' @ dir @ ''.pre-migrate-$(date +%s); } && $S tar --numeric-owner -xpf - -C /opt/dockify/apps''"

definition count_cmd :: "string \<Rightarrow> string" where
  "count_cmd dir = rootPrefix @ ''cd /opt/dockify/apps && $S find '' @ dir @ '' -type f -printf '' @ sq @ ''%s'' @ bsl @ ''n''
     @ sq @ '' | awk '' @ sq @ ''{n++; b+=$1} END {print n+0, b+0}'' @ sq"

definition relayCopy :: "env \<Rightarrow> string \<Rightarrow> conn \<Rightarrow> conn \<Rightarrow> string \<Rightarrow> error option prog" where
  "relayCopy E dir src dst unpackCmd = do {
     s \<leftarrow> ExecPipe E src (rootPrefix @ ''$S tar --numeric-owner -cf - -C /opt/dockify/apps '' @ dir) None;
     d \<leftarrow> ExecPipe E dst unpackCmd (Some (fst s));
     ret (case snd d of
            Some err \<Rightarrow> Some (''target unpack error: '' @ err)
          | None \<Rightarrow> (case snd s of Some err \<Rightarrow> Some (''source pack error: '' @ err) | None \<Rightarrow> None))
   }"

definition known_line :: "string \<Rightarrow> string" where
  "known_line l = (case Fields l of a # b # _ \<Rightarrow> ''dockify-target '' @ a @ '' '' @ b @ nl | _ \<Rightarrow> [])"

definition key_entry :: "string \<Rightarrow> string \<Rightarrow> string \<Rightarrow> string" where
  "key_entry unpackCmd expiry pub = ''restrict,command='' @ dq @ ''sh -c '' @ bsl @ dq @ ''$(echo ''
     @ EncodeToString unpackCmd @ '' | base64 -d)'' @ bsl @ dq @ dq @ '',expiry-time='' @ dq @ expiry @ dq @ '' '' @ pub"

definition stream_cmd :: "string \<Rightarrow> string \<Rightarrow> Server \<Rightarrow> string" where
  "stream_cmd dir keyDir dst = rootPrefix @ ''( $S tar --numeric-owner -cf - -C /opt/dockify/apps '' @ dir @ ''; echo $? > ''
     @ keyDir @ ''/rc ) | ssh -i '' @ keyDir @ ''/k -o BatchMode=yes -o IdentitiesOnly=yes -o UserKnownHostsFile='' @ keyDir
     @ ''/known_hosts -o HostKeyAlias=dockify-target -o StrictHostKeyChecking=yes -p '' @ Itoa (srv_Port dst) @ '' ''
     @ shellQuote (srv_User dst) @ ''@'' @ shellQuote (srv_Host dst) @ '' && [ '' @ dq @ ''$(cat '' @ keyDir @ ''/rc)'' @ dq
     @ '' = 0 ]''"

text \<open>The cleanup closure of \<open>prepareDirectCopy\<close>, for a key directory and marker.\<close>

definition cleanupDirect :: "env \<Rightarrow> conn \<Rightarrow> conn \<Rightarrow> string \<Rightarrow> string \<Rightarrow> unit prog" where
  "cleanupDirect E src dst keyDir marker = do {
     Exec E src (''rm -rf '' @ shellQuote keyDir);
     Exec E dst (''sed -i --follow-symlinks '' @ sq @ ''/'' @ marker @ ''/d'' @ sq @ '' ~/.ssh/authorized_keys'');
     ret ()
   }"

text \<open>The key is there: pin the target's host keys and let it in; the result is the command to stream with.\<close>

definition authorize_key :: "env \<Rightarrow> string \<Rightarrow> conn \<Rightarrow> conn \<Rightarrow> Server \<Rightarrow> string \<Rightarrow> string \<Rightarrow> string \<Rightarrow> string result prog" where
  "authorize_key E dir src dst dstSvr unpackCmd keyDir pub = do {
     hk \<leftarrow> Exec E dst ''cat /etc/ssh/ssh_host_*_key.pub'';
     let known = concat (map known_line (Split1 (CHR 0x0A) (fst hk)));
     if snd hk \<noteq> None \<or> known = [] then ret (Inl (''read target host keys: '' @ show_err (snd hk)))
     else do {
       wr \<leftarrow> WriteFile E src (keyDir @ ''/known_hosts'') known 384;
       case wr of
         Some err \<Rightarrow> ret (Inl (''write known_hosts on source: '' @ err))
       | None \<Rightarrow> do {
           t \<leftarrow> gets now_s;
           let entry = key_entry unpackCmd (format_minutes (t + ExecPipeTimeout) @ ''Z'') pub;
           au \<leftarrow> Exec E dst (''mkdir -p ~/.ssh && chmod 700 ~/.ssh && echo '' @ shellQuote entry @ '' >> ~/.ssh/authorized_keys'');
           ret (case snd au of
                  Some err \<Rightarrow> Inl (''authorize key on target: '' @ err)
                | None \<Rightarrow> Inr (stream_cmd dir keyDir dstSvr))
         }
     }
   }"

definition prepareDirectCopy :: "env \<Rightarrow> string \<Rightarrow> conn \<Rightarrow> conn \<Rightarrow> Server \<Rightarrow> string \<Rightarrow> (string \<times> string \<times> string) result prog" where
  "prepareDirectCopy E dir src dst dstSvr unpackCmd = do {
     ks \<leftarrow> Exec E src (''ssh-keyscan -T 5 -p '' @ Itoa (srv_Port dstSvr) @ '' '' @ shellQuote (srv_Host dstSvr) @ '' 2>/dev/null'');
     if TrimSpace (fst ks) = [] then ret (Inl (''source cannot reach '' @ srv_Host dstSvr @ '':'' @ Itoa (srv_Port dstSvr)))
     else do {
       t \<leftarrow> gets now_s;
       let marker = ''dockify-migrate-'' @ dir @ ''-'' @ Itoa t;
       kg \<leftarrow> Exec E src (''D=$(mktemp -d) && ssh-keygen -q -t ed25519 -N '' @ sq @ sq @ '' -C '' @ marker
         @ '' -f $D/k && echo $D && cat $D/k.pub'');
       let ls = Split1 (CHR 0x0A) (TrimSpace (fst kg));
       if snd kg \<noteq> None \<or> length ls \<noteq> 2 \<or> \<not> HasPrefix (ls ! 0) ''/''
       then ret (Inl (''generate key on source: '' @ show_err (snd kg) @ '' '' @ Quote (fst kg)))
       else do {
         r \<leftarrow> authorize_key E dir src dst dstSvr unpackCmd (ls ! 0) (ls ! 1);
         case r of
           Inl err \<Rightarrow> do { cleanupDirect E src dst (ls ! 0) marker; ret (Inl err) }
         | Inr cmd \<Rightarrow> ret (Inr (cmd, ls ! 0, marker))
       }
     }
   }"

text \<open>Stop the app on the source, stream the folder, compare both ends.\<close>

definition stream_files :: "env \<Rightarrow> string \<Rightarrow> conn \<Rightarrow> conn \<Rightarrow> Server \<Rightarrow> string \<Rightarrow> string option \<Rightarrow> error option prog" where
  "stream_files E dir src dst dstSvr unpackCmd direct =
     (case direct of
        Some cmd \<Rightarrow> do {
          r \<leftarrow> ExecPipe E src cmd None;
          ret (case snd r of Some err \<Rightarrow> Some (''direct copy to '' @ srv_Name dstSvr @ '': '' @ err) | None \<Rightarrow> None)
        }
      | None \<Rightarrow> relayCopy E dir src dst unpackCmd)"

definition compare_files :: "env \<Rightarrow> string \<Rightarrow> conn \<Rightarrow> conn \<Rightarrow> error option prog" where
  "compare_files E dir src dst = do {
     s \<leftarrow> ExecLong E src (count_cmd dir);
     case s of
       (_, Some err) \<Rightarrow> ret (Some (''count source files: '' @ err))
     | (srcCount, None) \<Rightarrow> do {
         t \<leftarrow> ExecLong E dst (count_cmd dir);
         ret (case t of
                (_, Some err) \<Rightarrow> Some (''count target files: '' @ err)
              | (dstCount, None) \<Rightarrow>
                  if TrimSpace srcCount \<noteq> TrimSpace dstCount
                  then Some (''copy verification failed: source has '' @ Quote (TrimSpace srcCount)
                    @ '' (files bytes), target has '' @ Quote (TrimSpace dstCount))
                  else None)
       }
   }"

definition down_cmd :: "string \<Rightarrow> int \<Rightarrow> string" where
  "down_cmd dc i = dc @ '' -f '' @ compose_path i @ '' down 2>&1''"

definition transfer :: "env \<Rightarrow> int \<Rightarrow> string \<Rightarrow> conn \<Rightarrow> conn \<Rightarrow> Server \<Rightarrow> Server \<Rightarrow> string option \<Rightarrow> error option prog" where
  "transfer E appID dc src dst srcSvr dstSvr direct = do {
     d \<leftarrow> ExecLong E src (down_cmd dc appID);
     case d of
       (out, Some err) \<Rightarrow> ret (Some (''stop containers on '' @ srv_Name srcSvr @ '': '' @ err @ nl @ out))
     | (_, None) \<Rightarrow> do {
         st \<leftarrow> stream_files E (folder appID) src dst dstSvr (unpack_cmd (folder appID)) direct;
         case st of
           Some err \<Rightarrow> ret (Some err)
         | None \<Rightarrow> do {
             v \<leftarrow> compare_files E (folder appID) src dst;
             case v of
               Some err \<Rightarrow> ret (Some err)
             | None \<Rightarrow> do {
                 files \<leftarrow> db_get (Repo_ListFiles appID);
                 let managed = [folder appID, folder appID @ ''/docker-compose.yml'', folder appID @ ''/.env'']
                   @ map (\<lambda>f. shellQuote (folder appID @ ''/'' @ file_Path f)) files;
                 Exec E dst (rootPrefix @ ''cd /opt/dockify/apps && $S chown -h $(id -u):$(id -g) '' @ Join managed '' ''
                   @ '' 2>/dev/null; true'');
                 ret None
               }
           }
       }
   }"

definition copy_between :: "env \<Rightarrow> int \<Rightarrow> App \<Rightarrow> Server \<Rightarrow> Server \<Rightarrow> conn \<Rightarrow> conn \<Rightarrow> (string list \<times> error option) prog" where
  "copy_between E appID app srcSvr dstSvr src dst = do {
     let vols = dockerVolumes (e_yaml E) (app_Compose app);
     let warnings = (if vols \<noteq> [] then [''Docker volumes are not copied, only the app folder: '' @ Join vols '', ''] else []);
     own \<leftarrow> Exec E dst (''[ '' @ dq @ ''$(id -u)'' @ dq @ '' = 0 ] || sudo -n true'');
     let warnings = (if snd own \<noteq> None then warnings @ [srv_Name dstSvr
       @ '': SSH user is not root and has no passwordless sudo, so file ownership was not preserved''] else warnings);
     dc \<leftarrow> DockerComposeCmd E src;
     direct \<leftarrow> prepareDirectCopy E (folder appID) src dst dstSvr (unpack_cmd (folder appID));
     e \<leftarrow> transfer E appID dc src dst srcSvr dstSvr (case direct of Inr (cmd, _, _) \<Rightarrow> Some cmd | Inl _ \<Rightarrow> None);
     e' \<leftarrow> (case e of
       None \<Rightarrow> ret None
     | Some err \<Rightarrow> do {
         up \<leftarrow> upOnServer E appID (srv_ID srcSvr);
         ret (Some (case up of None \<Rightarrow> err
           | Some upErr \<Rightarrow> err @ '' (restart on '' @ srv_Name srcSvr @ '' also failed: '' @ upErr @ '')''))
       });
     (case direct of Inr (_, keyDir, marker) \<Rightarrow> cleanupDirect E src dst keyDir marker | Inl _ \<Rightarrow> ret ());
     ret (warnings, e')
   }"

definition copy_connected :: "env \<Rightarrow> int \<Rightarrow> App \<Rightarrow> Server \<Rightarrow> Server \<Rightarrow> (string list \<times> error option) prog" where
  "copy_connected E appID app srcSvr dstSvr = do {
     r \<leftarrow> connect_to E srcSvr;
     case r of
       Inl err \<Rightarrow> ret ([], Some (''connect source server: '' @ err))
     | Inr src \<Rightarrow> do {
         q \<leftarrow> connect_to E dstSvr;
         x \<leftarrow> (case q of
           Inl err \<Rightarrow> ret ([], Some (''connect target server: '' @ err))
         | Inr dst \<Rightarrow> do { y \<leftarrow> copy_between E appID app srcSvr dstSvr src dst; Close E dst; ret y });
         Close E src;
         ret x
       }
   }"

definition CopyAppFiles :: "env \<Rightarrow> int \<Rightarrow> int \<Rightarrow> int \<Rightarrow> (string list \<times> error option) prog" where
  "CopyAppFiles E appID sourceServerID targetServerID =
     (if sourceServerID = 0 \<or> targetServerID = 0 \<or> sourceServerID = targetServerID then ret ([], None)
      else do {
        a \<leftarrow> db_get (Repo_Get appID);
        case a of
          None \<Rightarrow> ret ([], Some (''app '' @ Itoa appID @ '' not found''))
        | Some app \<Rightarrow> do {
            s \<leftarrow> db_get (Srv_Get sourceServerID);
            case s of
              None \<Rightarrow> ret ([], Some (''source server '' @ Itoa sourceServerID @ '' not found''))
            | Some srcSvr \<Rightarrow> do {
                t \<leftarrow> db_get (Srv_Get targetServerID);
                case t of
                  None \<Rightarrow> ret ([], Some (''target server '' @ Itoa targetServerID @ '' not found''))
                | Some dstSvr \<Rightarrow> copy_connected E appID app srcSvr dstSvr
              }
          }
      })"

section \<open>Moving\<close>

text \<open>A nil pointer dereference in a goroutine, which ends the process.\<close>

abbreviation nil_panic :: error where
  "nil_panic \<equiv> ''panic: runtime error: invalid memory address or nil pointer dereference''"

definition abort_move :: "int \<Rightarrow> App \<Rightarrow> string \<Rightarrow> int \<Rightarrow> string \<Rightarrow> string \<Rightarrow> string \<Rightarrow> unit prog" where
  "abort_move appID app prevStatus fromServerID fromName toName msg = do {
     updateStatus appID prevStatus;
     recordDeployment appID fromServerID ''failed''
       (''Move to '' @ toName @ '' aborted, app is still on '' @ fromName @ '': '' @ msg) [] (app_Compose app)
   }"

definition finish_move :: "env \<Rightarrow> int \<Rightarrow> App \<Rightarrow> int \<Rightarrow> int \<Rightarrow> string \<Rightarrow> string \<Rightarrow> bool \<Rightarrow> string list \<Rightarrow> unit prog" where
  "finish_move E appID app fromServerID toServerID fromName toName purgeOld warnings = do {
     let keep = purgeOld \<and> dockerVolumes (e_yaml E) (app_Compose app) \<noteq> [];
     let purge = (purgeOld \<and> \<not> keep);
     let warnings = (if keep then warnings @ [''purge of '' @ fromName @ '' skipped, Docker volumes still live there'']
       else warnings);
     CleanupFromServer E appID fromServerID purge;
     let msg = ''Moved from '' @ fromName @ '' to '' @ toName @ ''; '' @ fromName @ '' ''
       @ (if purge then ''purged.'' else ''stopped, folder kept.'')
       @ concat (map (\<lambda>w. nl @ ''Warning: '' @ w) warnings);
     recordDeployment appID toServerID ''success'' msg [] (app_Compose app)
   }"

text \<open>The files are on the target: point the app there, deploy, and clean up once it runs.\<close>

definition switch_server :: "env \<Rightarrow> int \<Rightarrow> App \<Rightarrow> int \<Rightarrow> int \<Rightarrow> string \<Rightarrow> string \<Rightarrow> bool \<Rightarrow> string list \<Rightarrow> unit prog" where
  "switch_server E appID app fromServerID toServerID fromName toName purgeOld warnings = do {
     rs \<leftarrow> getRoutes E appID;
     forM rs (\<lambda>r. do {
       db_try (\<lambda>now. Repo_SaveRoute now \<lparr> rt_ID = 0, rt_AppID = appID, rt_ServerID = toServerID, rt_Domain = rt_Domain r,
         rt_Target = [], rt_Status = [], rt_CreatedAt = 0 \<rparr>);
       ret ()
     });
     deployWithCommit E appID [] [];
     a \<leftarrow> db_get (Repo_Get appID);
     case a of
       None \<Rightarrow> ret ()
     | Some now \<Rightarrow>
         if app_Status now \<noteq> ''running'' then ret ()
         else finish_move E appID app fromServerID toServerID fromName toName purgeOld warnings
   }"

definition MoveApp :: "env \<Rightarrow> int \<Rightarrow> int \<Rightarrow> int \<Rightarrow> bool \<Rightarrow> error option prog" where
  "MoveApp E appID fromServerID toServerID purgeOld = do {
     a \<leftarrow> db_get (Repo_Get appID);
     case a of
       None \<Rightarrow> ret None
     | Some app0 \<Rightarrow> do {
         fromName \<leftarrow> db_get (serverName fromServerID);
         toName \<leftarrow> db_get (serverName toServerID);
         updateStatus appID ''deploying'';
         r \<leftarrow> CopyAppFiles E appID fromServerID toServerID;
         case snd r of
           Some err \<Rightarrow> do { abort_move appID app0 (app_Status app0) fromServerID fromName toName err; ret None }
         | None \<Rightarrow> do {
             a' \<leftarrow> db_get (Repo_Get appID);
             case a' of
               None \<Rightarrow> do { upOnServer E appID fromServerID; ret (Some nil_panic) }
             | Some app1 \<Rightarrow> do {
                 let app = app1\<lparr>app_ServerID := toServerID\<rparr>;
                 u \<leftarrow> db_try (\<lambda>now. Repo_Update now app);
                 case u of
                   Inl err \<Rightarrow> do {
                     upOnServer E appID fromServerID;
                     abort_move appID app (app_Status app0) fromServerID fromName toName (''save new server: '' @ err);
                     ret None
                   }
                 | Inr _ \<Rightarrow> do {
                     switch_server E appID app fromServerID toServerID fromName toName purgeOld (fst r);
                     ret None
                   }
               }
           }
       }
   }"

definition MoveWithoutFiles :: "env \<Rightarrow> int \<Rightarrow> int \<Rightarrow> bool \<Rightarrow> string list \<Rightarrow> unit prog" where
  "MoveWithoutFiles E appID oldServerID purgeOld removedDomains = do {
     deployWithCommit E appID [] removedDomains;
     a \<leftarrow> db_get (Repo_Get appID);
     case a of
       None \<Rightarrow> ret ()
     | Some now \<Rightarrow> if app_Status now \<noteq> ''running'' then ret () else CleanupFromServer E appID oldServerID purgeOld
   }"

section \<open>Commands that destroy data\<close>

text \<open>A command that removes an app folder, or the containers of an app with their volumes and images.\<close>

definition purge_event :: "event \<Rightarrow> bool" where
  "purge_event ev \<longleftrightarrow> (\<exists>c inp secs cmd i. ev = EvRun c (wrapTimeout cmd secs) inp secs
     \<and> (cmd = rm_folder i \<or> (\<exists>dc \<in> compose_cmds. cmd = down_all dc i)))"

definition plain_cmd :: "string \<Rightarrow> bool" where
  "plain_cmd cmd \<longleftrightarrow> \<not> HasPrefix cmd ''rm -rf /'' \<and> \<not> HasPrefix cmd ''docker compose -f '' \<and> \<not> HasPrefix cmd ''docker-compose -f ''"

lemma shellQuote_inj: "shellQuote a = shellQuote b \<longleftrightarrow> a = b"
proof
  assume "shellQuote a = shellQuote b"
  then have "sh_word ShPlain (shellQuote a @ []) = sh_word ShPlain (shellQuote b @ [])" by simp
  then show "a = b" by (simp only: sh_word_shellQuote) simp
qed simp

lemma wrapTimeout_inj: "wrapTimeout a secs = wrapTimeout b secs \<longleftrightarrow> a = b"
  by (simp add: wrapTimeout_def shellQuote_inj)

lemma compose_path_cancel:
  assumes "compose_path i @ s = compose_path j @ t"
  shows "s = t"
proof -
  have "CHR ''/'' \<notin> set (nat_str n)" for n
    using nat_str_digits [of n] by (auto simp: list_all_iff is_digit_def less_eq_char_def)
  then have free: "CHR ''/'' \<notin> set (Itoa k)" for k by (simp add: Itoa_def)
  have "Itoa i @ CHR ''/'' # ''docker-compose.yml'' @ s = Itoa j @ CHR ''/'' # ''docker-compose.yml'' @ t"
    using assms by (simp add: compose_path_def app_dir_def)
  moreover have "takeWhile (\<lambda>c. c \<noteq> CHR ''/'') (Itoa k @ CHR ''/'' # r) = Itoa k" for k r
    by (subst takeWhile_append2) (use free in auto)
  ultimately have "Itoa i = Itoa j" by metis
  with assms show ?thesis by (simp add: compose_path_def app_dir_def)
qed

lemma harmless_plain: "plain_cmd cmd \<Longrightarrow> \<not> purge_event (EvRun c (wrapTimeout cmd secs) inp secs)"
  by (auto simp: purge_event_def wrapTimeout_inj plain_cmd_def HasPrefix_def rm_folder_def down_all_def app_dir_def compose_cmds_def)

lemma harmless_compose:
  assumes "dc \<in> compose_cmds" and "s \<noteq> '' down --volumes --rmi all 2>&1 || true''"
  shows "\<not> purge_event (EvRun c (wrapTimeout (dc @ '' -f '' @ compose_path i @ s) secs) inp secs)"
proof
  assume "purge_event (EvRun c (wrapTimeout (dc @ '' -f '' @ compose_path i @ s) secs) inp secs)"
  then obtain j dc' where "dc @ '' -f '' @ compose_path i @ s = rm_folder j
      \<or> dc' \<in> compose_cmds \<and> dc @ '' -f '' @ compose_path i @ s = down_all dc' j"
    by (auto simp: purge_event_def wrapTimeout_inj)
  with assms(1) have "compose_path i @ s = compose_path j @ '' down --volumes --rmi all 2>&1 || true''"
    by (auto simp: compose_cmds_def rm_folder_def down_all_def)
  with assms(2) show False using compose_path_cancel by blast
qed

text \<open>Nothing but undeploying and cleaning up runs such a command.\<close>

abbreviation harmless :: "event \<Rightarrow> bool" where "harmless \<equiv> \<lambda>ev. \<not> purge_event ev"

lemma harmless_kinds [simp]:
  "harmless (EvReadFile p)" "harmless (EvDial a)" "harmless (EvClose c)" "harmless (EvHttp m u b)" "harmless (EvSleep ns)"
  by (simp_all add: purge_event_def)

lemma harmless_caddy:
  assumes "caddy_event c ev"
  shows "harmless ev"
proof -
  have "plain_cmd cmd" if "HasPrefix cmd ''docker exec caddy '' \<or> HasPrefix cmd ''docker inspect caddy ''" for cmd
    using that by (auto simp: plain_cmd_def HasPrefix_iff)
  then have "harmless (EvRun c (wrapTimeout cmd secs) inp secs)"
    if "HasPrefix cmd ''docker exec caddy '' \<or> HasPrefix cmd ''docker inspect caddy ''" for cmd secs inp
    using that harmless_plain by blast
  with assms show ?thesis unfolding caddy_event_def by (elim disjE exE conjE) simp_all
qed

lemma plain_cmds [simp, events]:
  "plain_cmd (rootPrefix @ s)" "plain_cmd (writeFileCmd n m)" "plain_cmd (stream_cmd dir k svr)" "plain_cmd (unpack_cmd dir)"
  "plain_cmd (count_cmd dir)" "plain_cmd (''rm -rf '' @ shellQuote d)"
  by (simp_all add: plain_cmd_def HasPrefix_def rootPrefix_def writeFileCmd_def Let_def stream_cmd_def unpack_cmd_def count_cmd_def
      shellQuote_def)

lemma harmless_calls [events]:
  "plain_cmd cmd \<Longrightarrow> emits harmless (Exec E c cmd)" "plain_cmd cmd \<Longrightarrow> emits harmless (ExecLong E c cmd)"
  "plain_cmd cmd \<Longrightarrow> emits harmless (ExecPipe E c cmd inp)" "emits harmless (WriteFile E c n content mode)"
  "emits harmless (Close E c)" "emits harmless (ReadFile E p)"
  by (intro emits_calls harmless_plain; simp)+

lemma emits_harmless_caddy [events]:
  "emits harmless (AddRoute E c d t)" "emits harmless (AddRouteWithAuth E c d t u p)" "emits harmless (RemoveRoute E c d)"
  "emits harmless (SaveConfig E c)" "emits harmless (WaitForCertificate E c d ns)"
  by (rule emits_mono [OF emits_caddy_routes(2) harmless_caddy] emits_mono [OF emits_caddy_routes(3) harmless_caddy]
      emits_mono [OF emits_caddy_routes(4) harmless_caddy] emits_mono [OF emits_caddy_config(1) harmless_caddy]
      emits_mono [OF emits_WaitForCertificate harmless_caddy], assumption)+

lemma emits_harmless_Connect [events]: "emits harmless (Connect E host port user key)"
  by (rule emits_Connect) simp_all

lemma emits_harmless_steps [events]:
  "emits harmless (getRoutes E i)" "emits harmless (getDNSRecords E i)" "emits harmless (updateStatus i st)"
  "emits harmless (recordDeployment i sid st msg commit snap)" "emits harmless (registryLogin E c svr)"
  "emits harmless (DockerComposeCmd E c)"
  unfolding getRoutes_def getDNSRecords_def updateStatus_def recordDeployment_def registryLogin_def DockerComposeCmd_def Let_def
  by (intro events; simp add: plain_cmd_def HasPrefix_def)+

lemma emits_harmless_compose [events]:
  assumes "dc \<in> compose_cmds" and "s \<noteq> '' down --volumes --rmi all 2>&1 || true''"
  shows "emits harmless (ExecLong E c (dc @ '' -f '' @ compose_path i @ s))"
  by (rule emits_calls(2)) (rule harmless_compose [OF assms])

lemma emits_harmless_setup [events]:
  "emits harmless (setupRouteAndDNSForDomain E route app svr c content logs)"
  unfolding setupRouteAndDNSForDomain_def setup_dns_def dns_move_def dns_create_def Let_def
  by (intro events harmless_kinds)

lemma emits_harmless_phases [events]:
  "emits harmless (write_app_files E c i app)" "emits harmless (login_step E c svr)"
  "emits harmless (remove_domain E c logs d)" "emits harmless (setup_routes E c app svr content logs)"
  "emits harmless (fail_deploy i sid app msg commit)" "emits harmless (finish_deploy i svr app commit r)"
  "emits harmless (remove_routes E c app)"
  unfolding write_app_files_def login_step_def remove_domain_def setup_routes_def fail_deploy_def
    finish_deploy_def remove_routes_def Let_def
  by (intro events)+

lemma emits_harmless_compose_up [events]: "dc \<in> compose_cmds \<Longrightarrow> emits harmless (compose_up E c dc app logs)"
  unfolding compose_up_def by (intro events) simp_all

lemma emits_harmless_with_dc:
  assumes "\<And>dc. dc \<in> compose_cmds \<Longrightarrow> emits harmless (g dc)"
  shows "emits harmless (State_Monad.bind (DockerComposeCmd E c) g)"
  by (rule emits_bind_wp [OF emits_harmless_steps(6) DockerComposeCmd_range assms])

lemma emits_harmless_deploy [events]: "emits harmless (deployWithCommit E i commit rem)"
proof -
  have "emits harmless (deploy_on E i app svr c commit rem)" for app svr c
    unfolding deploy_on_def up_phase_def route_phase_def
    by (rule emits_harmless_with_dc) (intro events; simp add: plain_cmd_def HasPrefix_def)
  then show ?thesis unfolding deployWithCommit_def by (intro events)
qed

lemma emits_harmless_up [events]: "emits harmless (upOnServer E i sid)"
proof -
  have "emits harmless (do { dc \<leftarrow> DockerComposeCmd E c; u \<leftarrow> ExecLong E c (up_cmd dc i); Close E c; ret (g u) })" for c g
    unfolding up_cmd_def by (rule emits_harmless_with_dc) (intro events; simp)
  note body = this
  show ?thesis unfolding upOnServer_def connect_to_def by (intro body events)
qed

lemma emits_harmless_direct [events]:
  "emits harmless (cleanupDirect E src dst k m)" "emits harmless (authorize_key E dir src dst svr u k pub)"
  "emits harmless (relayCopy E dir src dst (unpack_cmd dir'))" "emits harmless (compare_files E dir src dst)"
  unfolding cleanupDirect_def authorize_key_def relayCopy_def compare_files_def Let_def
  by (intro events; (simp; fail)?; simp add: plain_cmd_def HasPrefix_def)+

lemma emits_harmless_copy [events]: "emits harmless (CopyAppFiles E i s t)"
proof -
  have prep: "emits harmless (prepareDirectCopy E dir src dst svr u)" for dir src dst svr u
    unfolding prepareDirectCopy_def Let_def
    by (intro events; (simp; fail)?; simp add: plain_cmd_def HasPrefix_def)
  have stream: "emits harmless (stream_files E dir src dst b (unpack_cmd dir) dopt)"
    if "\<And>cmd. dopt = Some cmd \<Longrightarrow> plain_cmd cmd" for dir src dst b dopt
    using that by (cases dopt) (auto simp: stream_files_def intro!: events)
  have trans: "emits harmless (transfer E i dc src dst a b dopt)"
    if "dc \<in> compose_cmds" "\<And>cmd. dopt = Some cmd \<Longrightarrow> plain_cmd cmd" for dc src dst a b dopt
    unfolding transfer_def down_cmd_def Let_def by (intro emits_harmless_compose stream that events) simp_all
  have direct: "wp (prepareDirectCopy E dir src dst svr u) (\<lambda>x _. \<forall>cmd k m. x = Inr (cmd, k, m) \<longrightarrow> plain_cmd cmd) w" for dir src dst svr u w
    unfolding wp_exec_result prepareDirectCopy_def authorize_key_def
    by (auto simp: result_bind Let_def split: sum.splits option.splits if_splits)
  have "emits harmless (copy_between E i app a b src dst)" for app a b src dst
    unfolding copy_between_def Let_def
    by (rule emits_bind, intro events, simp add: plain_cmd_def HasPrefix_def, rule emits_harmless_with_dc,
        rule emits_bind_wp [OF prep direct]) (intro trans events; auto split: sum.splits)
  note body = this
  show ?thesis unfolding CopyAppFiles_def copy_connected_def connect_to_def by (intro body events)
qed

section \<open>Frames\<close>

lemma keeps_copy [frame]:
  assumes "\<And>E c cmd. keeps f (Exec E c cmd)" "\<And>E c cmd. keeps f (ExecLong E c cmd)" "\<And>E c cmd inp. keeps f (ExecPipe E c cmd inp)"
    "\<And>E c n t m. keeps f (WriteFile E c n t m)" "\<And>E c. keeps f (Close E c)" "\<And>E h p u k. keeps f (Connect E h p u k)"
  shows "keeps f (upOnServer E i sid)" "keeps f (CopyAppFiles E i s t)"
proof -
  have dc: "keeps f (DockerComposeCmd E c)" for c unfolding DockerComposeCmd_def by (intro frame assms)
  show up: "keeps f (upOnServer E i sid)" for sid unfolding upOnServer_def connect_to_def by (intro frame assms dc)
  have "keeps f (prepareDirectCopy E dir src dst svr u)" for dir src dst svr u
    unfolding prepareDirectCopy_def authorize_key_def cleanupDirect_def Let_def by (intro frame assms)
  moreover have "keeps f (transfer E i cmd src dst a b direct)" for cmd src dst a b direct
    unfolding transfer_def stream_files_def relayCopy_def compare_files_def Let_def by (intro frame assms)
  moreover have "keeps f (cleanupDirect E src dst k m)" for src dst k m
    unfolding cleanupDirect_def by (intro frame assms)
  ultimately have "keeps f (copy_between E i app a b src dst)" for app a b src dst
    unfolding copy_between_def Let_def by (intro frame assms dc up) auto
  note body = this
  show "keeps f (CopyAppFiles E i s t)" unfolding CopyAppFiles_def copy_connected_def connect_to_def by (intro frame assms body)
qed

lemmas keeps_rows_copy [frame] = keeps_copy [where f = rows, OF rows_frame(1) rows_frame(2) rows_frame(3) rows_frame(4)
    rows_frame(5) keeps_rows_Connect]
lemmas keeps_core_copy [frame] = keeps_copy [where f = core, OF core_frame(1) core_frame(2) core_frame(3) core_frame(4)
    core_frame(5) keeps_core_Connect]

lemma keeps_rows_cleanup [frame]: "keeps rows (CleanupFromServer E i sid p)"
  unfolding CleanupFromServer_def connect_to_def by (intro frame)

lemma steps_copy [stmts]: "steps (upOnServer E i sid)" "steps (CopyAppFiles E i s t)" "steps (CleanupFromServer E i sid p)"
proof -
  have prep: "steps (prepareDirectCopy E dir src dst svr u)" "steps (cleanupDirect E src dst k m)" for dir src dst svr u k m
    unfolding prepareDirectCopy_def authorize_key_def cleanupDirect_def Let_def by (intro stmts)+
  have trans: "steps (transfer E i cmd src dst a b direct)" for cmd src dst a b direct
    unfolding transfer_def stream_files_def relayCopy_def compare_files_def Let_def by (intro stmts)
  show up: "steps (upOnServer E i sid)" for sid unfolding upOnServer_def connect_to_def by (intro stmts)
  show "steps (CopyAppFiles E i s t)"
    unfolding CopyAppFiles_def copy_connected_def connect_to_def copy_between_def Let_def by (intro stmts prep trans up)
  show "steps (CleanupFromServer E i sid p)" unfolding CleanupFromServer_def connect_to_def by (intro stmts)
qed

lemma steps_move [stmts]: "steps (MoveApp E i s t p)" "steps (MoveWithoutFiles E i s p removed)"
  unfolding MoveApp_def abort_move_def switch_server_def finish_move_def MoveWithoutFiles_def Let_def
  by (intro stmts app_update route_save)+

lemma steps_db_ok: "steps m \<Longrightarrow> db_ok (w_db w) \<Longrightarrow> db_ok (w_db (exec m w))"
  unfolding steps_def using db_steps_ok by blast

section \<open>How a move ends\<close>

abbreviation apps_of :: "world \<Rightarrow> App list" where "apps_of w \<equiv> apps (w_db w)"

abbreviation app_of :: "int \<Rightarrow> world \<Rightarrow> App option" where "app_of j w \<equiv> Repo_Get j (w_db w)"

text \<open>The lookup of every app after the status of one has been set.\<close>

definition with_status :: "int \<Rightarrow> string \<Rightarrow> int \<Rightarrow> world \<Rightarrow> world \<Rightarrow> bool" where
  "with_status i st t w w' \<longleftrightarrow>
     (\<forall>j. app_of j w' = map_option (\<lambda>a. if j = i then a\<lparr>app_Status := st, app_UpdatedAt := t\<rparr> else a) (app_of j w))"

lemma app_of_cong: "apps_of w = apps_of w' \<Longrightarrow> app_of j w = app_of j w'"
  by (simp add: Repo_Get_def)

lemma keeps_apps: "keeps rows m \<Longrightarrow> keeps apps_of m"
  by (simp add: keeps_def rows_def)

lemma with_status_updateStatus: "with_status i st (now_s w) w (exec (updateStatus i st) w)"
  by (simp add: with_status_def updateStatus_exec Repo_Get_UpdateStatus)

lemma with_status_after: "with_status i st t w w' \<Longrightarrow> apps_of w'' = apps_of w' \<Longrightarrow> with_status i st t w w''"
  using app_of_cong [of w'' w'] by (simp add: with_status_def)

lemma with_status_abort: "with_status i st (now_s w) w (exec (abort_move i app st fsrv fn tn msg) w)"
  unfolding abort_move_def exec_bind by (rule with_status_after [OF with_status_updateStatus apps_recordDeployment])

lemma deployed_with_status:
  assumes "deployed (apps_of w) D i sid commit compose w'"
  shows "\<exists>st \<in> {''running'', ''failed''}. \<exists>t. with_status i st t w w'"
proof -
  obtain ok tm where "apps_of w' = map (\<lambda>a. if app_ID a = i
      then a\<lparr>app_Status := if ok then ''running'' else ''failed'', app_UpdatedAt := tm\<rparr> else a) (apps_of w)"
    using assms unfolding deployed_def by blast
  then have "app_of j w' = app_of j (w\<lparr>w_db := Repo_UpdateStatus tm i (if ok then ''running'' else ''failed'') (w_db w)\<rparr>)" for j
    by (intro app_of_cong) simp
  then have "with_status i (if ok then ''running'' else ''failed'') tm w w'"
    by (simp add: with_status_def Repo_Get_UpdateStatus)
  then show ?thesis by (cases ok) auto
qed

lemma keeps_apps_finish: "keeps apps_of (finish_move E i app s t fn tn p ws)"
  unfolding finish_move_def Let_def
  by (rule keeps_bind, rule keeps_apps, rule keeps_rows_cleanup, rule keepsI, rule apps_recordDeployment)

lemma switch_server_status:
  assumes "db_ok (w_db w)" and "app_of i w = Some a"
  shows "\<exists>st \<in> {''running'', ''failed''}. \<exists>t. with_status i st t w (exec (switch_server E i app s tsv fn tn p ws) w)"
proof -
  let ?rs = "result (getRoutes E i) w"
  let ?loop = "forM ?rs (\<lambda>r. do {
       db_try (\<lambda>now. Repo_SaveRoute now \<lparr> rt_ID = 0, rt_AppID = i, rt_ServerID = tsv, rt_Domain = rt_Domain r,
         rt_Target = [], rt_Status = [], rt_CreatedAt = 0 \<rparr>);
       ret ()
     })"
  let ?w1 = "exec ?loop w"
  have save: "keeps apps_of (db_try (\<lambda>now. Repo_SaveRoute now r))" for r
    by (auto simp: keeps_def exec_db_try Repo_SaveRoute_def bump_def Let_def split: option.split)
  have "keeps apps_of ?loop" by (intro frame save)
  then have same: "apps_of ?w1 = apps_of w" by (rule keepsD)
  have "steps ?loop" by (intro stmts route_save)
  then have "db_ok (w_db ?w1)" using assms(1) by (rule steps_db_ok)
  moreover have "app_of i ?w1 = Some a" using app_of_cong [OF same] assms(2) by simp
  ultimately obtain D where "deployed (apps_of w) D i (app_ServerID a) [] (app_Compose a) (exec (deployWithCommit E i [] []) ?w1)"
    using deploy_deployed [of ?w1 i a "[]" E "[]"] same by auto
  from deployed_with_status [OF this]
  obtain st t where st: "st \<in> {''running'', ''failed''}" "with_status i st t w (exec (deployWithCommit E i [] []) ?w1)"
    by (elim bexE exE)
  have "exec (getRoutes E i) w = w" by (simp add: getRoutes_def exec_def trace_def db_get_def)
  then have "exec (switch_server E i app s tsv fn tn p ws) w = exec (case app_of i (exec (deployWithCommit E i [] []) ?w1) of
       None \<Rightarrow> ret ()
     | Some now \<Rightarrow>
         if app_Status now \<noteq> ''running'' then ret () else finish_move E i app s tsv fn tn p ws) (exec (deployWithCommit E i [] []) ?w1)"
    unfolding switch_server_def exec_bind [of "getRoutes _ _"] exec_bind [of "forM _ _"] exec_bind [of "deployWithCommit _ _ _ _"]
      exec_get_bind by simp
  moreover have "apps_of (exec (case x of None \<Rightarrow> ret ()
     | Some now \<Rightarrow> if app_Status now \<noteq> ''running'' then ret () else finish_move E i app s tsv fn tn p ws) v) = apps_of v" for x v
    by (rule keepsD) (intro frame keeps_apps_finish)
  ultimately have "with_status i st t w (exec (switch_server E i app s tsv fn tn p ws) w)"
    by (intro with_status_after [OF st(2)]) simp
  with st(1) show ?thesis by (intro bexI exI)
qed

text \<open>After a copy that reported no error the app is updated, or the old server is started again.\<close>

definition switch_or_abort :: "env \<Rightarrow> int \<Rightarrow> string \<Rightarrow> int \<Rightarrow> int \<Rightarrow> string \<Rightarrow> string \<Rightarrow> bool \<Rightarrow> string list \<Rightarrow> App \<Rightarrow> error option prog" where
  "switch_or_abort E appID prevStatus fromServerID toServerID fromName toName purgeOld warnings app = do {
     u \<leftarrow> db_try (\<lambda>now. Repo_Update now app);
     case u of
       Inl err \<Rightarrow> do {
         upOnServer E appID fromServerID;
         abort_move appID app prevStatus fromServerID fromName toName (''save new server: '' @ err);
         ret None
       }
     | Inr _ \<Rightarrow> do {
         switch_server E appID app fromServerID toServerID fromName toName purgeOld warnings;
         ret None
       }
   }"

lemma MoveApp_run:
  fixes w :: world and E :: env and i :: int and s :: int and t :: int and p :: bool
  assumes "app_of i w = Some app"
  defines "w1 \<equiv> exec (updateStatus i ''deploying'') w"
  defines "w2 \<equiv> exec (CopyAppFiles E i s t) w1" and "r \<equiv> result (CopyAppFiles E i s t) w1"
    and "app1 \<equiv> app\<lparr>app_Status := ''deploying'', app_UpdatedAt := now_s w\<rparr>"
  defines "m \<equiv> (case snd r of
       Some err \<Rightarrow> do { abort_move i app (app_Status app) s (serverName s (w_db w)) (serverName t (w_db w)) err; ret None }
     | None \<Rightarrow> switch_or_abort E i (app_Status app) s t (serverName s (w_db w)) (serverName t (w_db w)) p (fst r)
         (app1\<lparr>app_ServerID := t\<rparr>))"
  shows "exec (MoveApp E i s t p) w = exec m w2" and "result (MoveApp E i s t p) w = result m w2"
    and "rows w2 = rows w1" and "app_of i w2 = Some app1" and "with_status i ''deploying'' (now_s w) w w2"
proof -
  show rows: "rows w2 = rows w1" unfolding w2_def by (rule keepsD [OF keeps_rows_copy(2)])
  then have same: "apps_of w2 = apps_of w1" by (simp add: rows_def)
  then show st: "with_status i ''deploying'' (now_s w) w w2"
    unfolding w1_def using with_status_after [OF with_status_updateStatus] by blast
  with assms(1) show get: "app_of i w2 = Some app1" by (simp add: with_status_def app1_def)
  have 1: "exec (MoveApp E i s t p) w = exec (case snd r of
         Some err \<Rightarrow> do { abort_move i app (app_Status app) s (serverName s (w_db w)) (serverName t (w_db w)) err; ret None }
       | None \<Rightarrow> do {
           a' \<leftarrow> db_get (Repo_Get i);
           case a' of
             None \<Rightarrow> do { upOnServer E i s; ret (Some nil_panic) }
           | Some app1 \<Rightarrow> switch_or_abort E i (app_Status app) s t (serverName s (w_db w)) (serverName t (w_db w)) p (fst r)
               (app1\<lparr>app_ServerID := t\<rparr>) }) w2"
    and 2: "result (MoveApp E i s t p) w = result (case snd r of
         Some err \<Rightarrow> do { abort_move i app (app_Status app) s (serverName s (w_db w)) (serverName t (w_db w)) err; ret None }
       | None \<Rightarrow> do {
           a' \<leftarrow> db_get (Repo_Get i);
           case a' of
             None \<Rightarrow> do { upOnServer E i s; ret (Some nil_panic) }
           | Some app1 \<Rightarrow> switch_or_abort E i (app_Status app) s t (serverName s (w_db w)) (serverName t (w_db w)) p (fst r)
               (app1\<lparr>app_ServerID := t\<rparr>) }) w2"
    unfolding MoveApp_def exec_get_bind result_get_bind assms(1) option.case exec_bind [of "updateStatus _ _"]
      result_bind [of "updateStatus _ _"] exec_bind [of "CopyAppFiles _ _ _ _"] result_bind [of "CopyAppFiles _ _ _ _"]
      w1_def [symmetric] w2_def [symmetric] r_def [symmetric] switch_or_abort_def Let_def by (rule refl)+
  show "exec (MoveApp E i s t p) w = exec m w2" "result (MoveApp E i s t p) w = result m w2"
    unfolding 1 2 m_def by (cases "snd r"; simp add: exec_get_bind result_get_bind get)+
qed

lemma routes_recordDeployment: "routes (w_db (exec (recordDeployment i sid st msg commit snap) w)) = routes (w_db w)"
  by (simp add: recordDeployment_def exec_bind exec_db_try Repo_AddDeployment_def new_deployment_def bump_def)

lemma routes_abort: "routes (w_db (exec (abort_move i app st s fn tn msg) w)) = routes (w_db w)"
  by (simp add: abort_move_def exec_bind routes_recordDeployment updateStatus_exec Repo_UpdateStatus_def map_app_def)

text \<open>The app as it was, or on the new server with a definite status; other apps as they were.\<close>

definition app_kept :: "int \<Rightarrow> App \<Rightarrow> world \<Rightarrow> world \<Rightarrow> bool" where
  "app_kept i app w w' \<longleftrightarrow> (\<exists>t. app_of i w' = Some (app\<lparr>app_UpdatedAt := t\<rparr>)) \<and> routes (w_db w') = routes (w_db w)"

definition app_switched :: "int \<Rightarrow> App \<Rightarrow> int \<Rightarrow> world \<Rightarrow> bool" where
  "app_switched i app sid w' \<longleftrightarrow> (\<exists>st \<in> {''running'', ''failed''}. \<exists>t.
     app_of i w' = Some (app\<lparr>app_ServerID := sid, app_Status := st, app_UpdatedAt := t\<rparr>))"

lemma app_kept_abort:
  assumes "app_of i w2 = Some (app\<lparr>app_Status := st2, app_UpdatedAt := t2\<rparr>)" and "routes (w_db w2) = routes (w_db w)"
  shows "app_kept i app w (exec (abort_move i a (app_Status app) s fn tn msg) w2)"
proof -
  have "app_of i (exec (abort_move i a (app_Status app) s fn tn msg) w2) = Some (app\<lparr>app_UpdatedAt := now_s w2\<rparr>)"
    using with_status_abort [of i "app_Status app" w2 a s fn tn msg] assms(1) by (simp add: with_status_def)
  with assms(2) show ?thesis unfolding app_kept_def routes_abort by (intro conjI exI)
qed

lemma switch_or_abort_cases:
  fixes app :: App and t :: int and t2 :: int and st2 :: string and w :: world and w2 :: world
  assumes ok: "db_ok (w_db w2)" and get: "app_of i w2 = Some (app\<lparr>app_Status := st2, app_UpdatedAt := t2\<rparr>)"
    and id: "app_ID app = i" and routes: "routes (w_db w2) = routes (w_db w)"
  defines "b \<equiv> app\<lparr>app_Status := st2, app_UpdatedAt := t2, app_ServerID := t\<rparr>"
  shows "app_kept i app w (exec (switch_or_abort E i (app_Status app) s t fn tn p ws b) w2)
      \<or> app_switched i app t (exec (switch_or_abort E i (app_Status app) s t fn tn p ws b) w2)"
    and "\<forall>j. j \<noteq> i \<longrightarrow> app_of j (exec (switch_or_abort E i (app_Status app) s t fn tn p ws b) w2) = app_of j w2"
    and "result (switch_or_abort E i (app_Status app) s t fn tn p ws b) w2 = None"
proof -
  let ?now = "now_s w2" and ?m = "switch_or_abort E i (app_Status app) s t fn tn p ws b"
  have idb: "app_ID b = i" "i \<in> app_ids (w_db w2)" using id Repo_Get_ids [OF get] by (simp_all add: b_def)
  show "result ?m w2 = None" by (simp add: switch_or_abort_def result_bind split: sum.split)
  have res: "result (db_try (\<lambda>now. Repo_Update now b)) w2 = fst (Repo_Update ?now b (w_db w2))"
    by (simp add: result_def db_try_def split: prod.split)
  have "(app_kept i app w (exec ?m w2) \<or> app_switched i app t (exec ?m w2)) \<and> (\<forall>j. j \<noteq> i \<longrightarrow> app_of j (exec ?m w2) = app_of j w2)"
  proof (cases "fst (Repo_Update ?now b (w_db w2))")
    case (Inl err)
    then have d: "snd (Repo_Update ?now b (w_db w2)) = w_db w2" by (auto simp: Repo_Update_def split: if_splits)
    let ?v = "exec (upOnServer E i s) w2"
    have v: "rows ?v = rows w2" by (rule keepsD [OF keeps_rows_copy(1)])
    then have same: "app_of j ?v = app_of j w2" "routes (w_db ?v) = routes (w_db w2)" for j
      using app_of_cong [of ?v w2] by (simp_all add: rows_def)
    let ?a = "abort_move i b (app_Status app) s fn tn (''save new server: '' @ err)"
    have ex: "exec ?m w2 = exec ?a ?v"
      unfolding switch_or_abort_def exec_bind [of "db_try _"] res Inl sum.case exec_db_try d
      by (simp add: exec_bind)
    have "app_kept i app w (exec ?a ?v)" using get routes by (intro app_kept_abort) (simp_all add: same)
    moreover have "app_of j (exec ?a ?v) = app_of j w2" if "j \<noteq> i" for j
      using with_status_abort [of i "app_Status app" ?v b s fn tn "''save new server: '' @ err"] that same(1)
      by (simp add: with_status_def option.map_ident)
    ultimately show ?thesis unfolding ex by blast
  next
    case (Inr u)
    then have d: "snd (Repo_Update ?now b (w_db w2))
        = map_app i (\<lambda>old. b\<lparr>app_CreatedAt := app_CreatedAt old, app_UpdatedAt := ?now\<rparr>) (w_db w2)" (is "_ = ?d3")
      using idb by (auto simp: Repo_Update_def split: if_splits)
    let ?w3 = "w2\<lparr>w_db := ?d3\<rparr>" and ?s = "switch_server E i b s t fn tn p ws"
    have ex: "exec ?m w2 = exec ?s ?w3"
      unfolding switch_or_abort_def exec_bind [of "db_try _"] res Inr sum.case exec_db_try d by (simp add: exec_bind)
    have get3: "app_of j ?w3 = map_option (\<lambda>a. if j = i then b\<lparr>app_CreatedAt := app_CreatedAt a, app_UpdatedAt := ?now\<rparr> else a)
        (app_of j w2)" for j
      by (simp add: Repo_Get_map_app idb)
    have "db_step (w_db w2) ?d3" using app_update [of "w_db w2" ?now b] d by simp
    then have "db_ok (w_db ?w3)" using db_step_ok ok by simp
    moreover have "app_of i ?w3 = Some (app\<lparr>app_Status := st2, app_ServerID := t, app_UpdatedAt := ?now\<rparr>)"
      using get3 [of i] get by (simp add: b_def)
    ultimately obtain st tm where st: "st \<in> {''running'', ''failed''}" "with_status i st tm ?w3 (exec ?s ?w3)"
      using switch_server_status [of ?w3 i _ E b s t fn tn p ws] by (metis (no_types, lifting))
    then have "app_of i (exec ?s ?w3) = Some (app\<lparr>app_ServerID := t, app_Status := st, app_UpdatedAt := tm\<rparr>)"
      using get3 [of i] get unfolding with_status_def by (simp add: b_def)
    moreover have "app_of j (exec ?s ?w3) = app_of j w2" if "j \<noteq> i" for j
      using st(2) that get3 [of j] unfolding with_status_def by (simp add: option.map_ident)
    ultimately show ?thesis unfolding ex app_switched_def using st(1) by blast
  qed
  then show "app_kept i app w (exec ?m w2) \<or> app_switched i app t (exec ?m w2)"
    and "\<forall>j. j \<noteq> i \<longrightarrow> app_of j (exec ?m w2) = app_of j w2" by simp_all
qed

section \<open>When data may be destroyed\<close>

lemma emits_harmless_cleanup: "emits harmless (CleanupFromServer E i sid False)"
proof -
  have "emits harmless (do {
      dc \<leftarrow> DockerComposeCmd E c;
      (if False then do { ExecLong E c (down_all dc (app_ID app)); ExecLong E c (rm_folder (app_ID app)); ret () }
       else do { ExecLong E c (dc @ '' -f '' @ compose_path (app_ID app) @ '' down 2>&1 || true''); ret () });
      remove_routes E c app;
      Close E c
    })" for c app
    by (rule emits_harmless_with_dc) (simp only: if_False, intro events, assumption, simp)
  note body = this
  show ?thesis unfolding CleanupFromServer_def connect_to_def by (intro body events)
qed

text \<open>
  A program that destroys nothing before the app runs: from \<open>I\<close>, either all new events are harmless or
  \<open>G\<close> holds at the end.
\<close>

definition guarded :: "(world \<Rightarrow> bool) \<Rightarrow> 'a prog \<Rightarrow> world \<Rightarrow> bool" where
  "guarded G m w \<longleftrightarrow> G (exec m w) \<or> (\<exists>evs. w_trace (exec m w) = w_trace w @ evs \<and> list_all harmless evs)"

lemma guarded_harmless: "emits harmless m \<Longrightarrow> guarded G m w"
  by (simp add: guarded_def emits_def)

lemma guarded_bind:
  assumes "emits harmless m" and "guarded G (g (result m w)) (exec m w)"
  shows "guarded G (State_Monad.bind m g) w"
proof -
  obtain evs where "w_trace (exec m w) = w_trace w @ evs" "list_all harmless evs"
    using assms(1) unfolding emits_def by blast
  with assms(2) show ?thesis
    unfolding guarded_def exec_bind by (metis append.assoc list_all_append)
qed

lemma guarded_ret: "guarded G m w \<Longrightarrow> guarded G (State_Monad.bind m (\<lambda>_. ret x)) w"
  by (simp add: guarded_def exec_bind)

definition may_purge :: "env \<Rightarrow> int \<Rightarrow> bool \<Rightarrow> App \<Rightarrow> world \<Rightarrow> bool" where
  "may_purge E i p app w \<longleftrightarrow> p \<and> dockerVolumes (e_yaml E) (app_Compose app) = []
     \<and> (\<exists>a. app_of i w = Some a \<and> app_Status a = ''running'')"

lemma guarded_switch: "guarded (may_purge E i p app) (switch_server E i app s t fn tn p ws) w"
proof -
  have fin: "guarded (may_purge E i p app) (case app_of i v of None \<Rightarrow> ret ()
     | Some now \<Rightarrow> if app_Status now \<noteq> ''running'' then ret () else finish_move E i app s t fn tn p ws) v" for v
  proof (cases "\<exists>a. app_of i v = Some a \<and> app_Status a = ''running''")
    case True
    then obtain a where a: "app_of i v = Some a" "app_Status a = ''running''" by blast
    show ?thesis
    proof (cases "p \<and> dockerVolumes (e_yaml E) (app_Compose app) = []")
      case True
      have "app_of i (exec (finish_move E i app s t fn tn p ws) v) = Some a"
        using app_of_cong [OF keepsD [OF keeps_apps_finish]] a(1) by metis
      with True a show ?thesis by (simp add: guarded_def may_purge_def)
    next
      case False
      then have "(p \<and> \<not> (p \<and> dockerVolumes (e_yaml E) (app_Compose app) \<noteq> [])) = False" by blast
      then have "emits harmless (finish_move E i app s t fn tn p ws)"
        unfolding finish_move_def Let_def by (simp only:) (intro events emits_harmless_cleanup)
      with a show ?thesis by (simp add: guarded_harmless)
    qed
  next
    case False
    then have "(case app_of i v of None \<Rightarrow> ret ()
     | Some now \<Rightarrow> if app_Status now \<noteq> ''running'' then ret () else finish_move E i app s t fn tn p ws) = ret ()"
      by (auto split: option.split)
    then show ?thesis by (simp add: guarded_harmless events)
  qed
  show ?thesis
    unfolding switch_server_def
    by (intro guarded_bind events) (simp add: db_get_def result_def exec_def fin [unfolded db_get_def])
qed

lemma guarded_MoveApp:
  assumes "app_of i w = Some app"
  shows "guarded (may_purge E i p app) (MoveApp E i s t p) w"
proof -
  let ?w1 = "exec (updateStatus i ''deploying'') w"
  let ?w2 = "exec (CopyAppFiles E i s t) ?w1" and ?r = "result (CopyAppFiles E i s t) ?w1"
  note run = MoveApp_run(1) [OF assms, of E s t p]
  let ?b = "app\<lparr>app_Status := ''deploying'', app_UpdatedAt := now_s w, app_ServerID := t\<rparr>"
  have "may_purge E i p ?b = may_purge E i p app" by (simp add: may_purge_def fun_eq_iff)
  then have sw: "guarded (may_purge E i p app) (switch_server E i ?b s t fn tn p ws) v" for fn tn ws v
    using guarded_switch [of E i p ?b s t fn tn ws v] by simp
  have abort: "emits harmless (do { abort_move i a st s fn tn msg; ret None })" for a st fn tn msg
    unfolding abort_move_def by (intro events)
  have "guarded (may_purge E i p app) (switch_or_abort E i st s t fn tn p ws ?b) v" for st fn tn ws v
    unfolding switch_or_abort_def
    by (rule guarded_bind, intro events)
      (cases "result (db_try (\<lambda>now. Repo_Update now ?b)) v",
       simp_all add: guarded_ret [OF sw] guarded_harmless [OF emits_bind [OF emits_harmless_up abort]])
  then have "guarded (may_purge E i p app) (case snd ?r of
       Some err \<Rightarrow> do { abort_move i app (app_Status app) s (serverName s (w_db w)) (serverName t (w_db w)) err; ret None }
     | None \<Rightarrow> switch_or_abort E i (app_Status app) s t (serverName s (w_db w)) (serverName t (w_db w)) p (fst ?r) ?b) ?w2"
    by (cases "snd ?r") (simp_all add: guarded_harmless [OF abort])
  moreover have "emits harmless (do { updateStatus i ''deploying''; CopyAppFiles E i s t })" by (intro events)
  then obtain evs where "w_trace ?w2 = w_trace w @ evs" "list_all harmless evs"
    unfolding emits_def exec_bind by blast
  ultimately show ?thesis
    unfolding guarded_def run by (metis (no_types, lifting) append.assoc list_all_append)
qed

section \<open>What a copy guarantees\<close>

text \<open>The files on both ends were counted during the call and agree in number and bytes.\<close>

definition verified_copy :: "env \<Rightarrow> int \<Rightarrow> conn \<Rightarrow> conn \<Rightarrow> event list \<Rightarrow> event list \<Rightarrow> bool" where
  "verified_copy E i src dst tr0 tr \<longleftrightarrow> (\<exists>a b. succeeded E src (count_cmd (folder i)) None ExecLongTimeout a tr0 tr
     \<and> succeeded E dst (count_cmd (folder i)) None ExecLongTimeout b tr0 tr \<and> TrimSpace a = TrimSpace b)"

lemma verified_copy_mono:
  "verified_copy E i src dst tr1 tr2 \<Longrightarrow> prefix tr0 tr1 \<Longrightarrow> prefix tr2 tr3 \<Longrightarrow> verified_copy E i src dst tr0 tr3"
  unfolding verified_copy_def by (meson succeeded_mono)

lemma verified_copyI:
  assumes "succeeded E src (count_cmd (folder i)) None ExecLongTimeout a tr0 tr1"
    and "succeeded E dst (count_cmd (folder i)) None ExecLongTimeout b tr1 tr2"
    and "prefix tr0 tr1" and "prefix tr1 tr2" and "TrimSpace a = TrimSpace b"
  shows "verified_copy E i src dst tr0 tr2"
  unfolding verified_copy_def
  using succeeded_mono [OF assms(1) prefix_order.refl assms(4)] succeeded_mono [OF assms(2,3) prefix_order.refl] assms(5)
  by blast

lemma compare_files_sound:
  "wp (compare_files E (folder i) src dst) (\<lambda>x w'. x = None \<longrightarrow> verified_copy E i src dst (w_trace w) (w_trace w')) w"
proof -
  let ?cmd = "count_cmd (folder i)"
  have ex: "wp (ExecLong E c cmd) (\<lambda>x w'. (snd x = None \<longrightarrow> succeeded E c cmd None ExecLongTimeout (fst x) (w_trace v) (w_trace w'))
      \<and> prefix (w_trace v) (w_trace w')) v" for c cmd v
    by (rule wp_conj [OF ExecLong_answer wp_grow [OF emits_True(4)]])
  have two: "wp (ExecLong E dst ?cmd) (\<lambda>u. wp (ret (case u of (_, Some err) \<Rightarrow> Some (f err)
        | (b, None) \<Rightarrow> if TrimSpace a \<noteq> TrimSpace b then Some (g b) else None))
      (\<lambda>x w'. x = None \<longrightarrow> verified_copy E i src dst (w_trace w) (w_trace w'))) v"
    if "succeeded E src ?cmd None ExecLongTimeout a (w_trace w) (w_trace v)" "prefix (w_trace w) (w_trace v)" for a f g v
    by (rule wp_mono [OF ex]) (use that in \<open>auto simp: wp_ret split: option.splits if_splits intro: verified_copyI\<close>)
  show ?thesis
    unfolding compare_files_def wp_bind [of "ExecLong _ src _"]
    by (rule wp_mono [OF ex]) (auto simp only: wp_bind two wp_ret simp_thms fst_conv snd_conv option.distinct split: prod.split option.split)
qed

lemma transfer_sound:
  "wp (transfer E i dc src dst a b direct) (\<lambda>x w'. x = None \<longrightarrow> verified_copy E i src dst (w_trace w) (w_trace w')) w"
proof -
  let ?Q = "\<lambda>x :: error option. \<lambda>w'. x = None \<longrightarrow> verified_copy E i src dst (w_trace w) (w_trace w')"
  let ?own = "do {
     files \<leftarrow> db_get (Repo_ListFiles i);
     Exec E dst (rootPrefix @ ''cd /opt/dockify/apps && $S chown -h $(id -u):$(id -g) '' @ Join ([folder i, folder i @ ''/docker-compose.yml'', folder i @ ''/.env'']
                   @ map (\<lambda>f. shellQuote (folder i @ ''/'' @ file_Path f)) files) '' '' @ '' 2>/dev/null; true'');
     ret None
   }"
  have own: "wp ?own ?Q v" if "verified_copy E i src dst (w_trace w) (w_trace v)" for v
    by (rule wp_grow [where P = "\<lambda>_. True"], intro events) (use that in \<open>auto intro: verified_copy_mono\<close>)
  have cmp: "wp (compare_files E (folder i) src dst) (\<lambda>r. wp (case r of Some err \<Rightarrow> ret (Some err) | None \<Rightarrow> ?own) ?Q) v"
    if "prefix (w_trace w) (w_trace v)" for v
    by (rule wp_mono [OF compare_files_sound])
      (use that in \<open>auto simp only: wp_ret own simp_thms option.distinct split: option.split intro: own verified_copy_mono\<close>)
  have st: "wp (stream_files E (folder i) src dst b (unpack_cmd (folder i)) direct) (\<lambda>r. wp (case r of Some err \<Rightarrow> ret (Some err)
      | None \<Rightarrow> do { v \<leftarrow> compare_files E (folder i) src dst; case v of Some err \<Rightarrow> ret (Some err) | None \<Rightarrow> ?own }) ?Q) v"
    if "prefix (w_trace w) (w_trace v)" for v
    by (rule wp_grow [where P = "\<lambda>_. True"], simp only: stream_files_def relayCopy_def, intro events)
      (use that in \<open>auto simp only: wp_ret wp_bind simp_thms option.distinct split: option.split intro: cmp prefix_order.trans\<close>)
  show ?thesis
    unfolding transfer_def Let_def wp_bind [of "ExecLong _ _ _"]
    by (rule wp_grow [OF emits_True(4)])
      (auto simp only: wp_ret wp_bind [of "stream_files _ _ _ _ _ _ _"] st simp_thms option.distinct split: prod.split option.split)
qed

lemma Connect_to_conn: "wp (connect_to E svr) (\<lambda>x w'. (\<forall>c. x = Inr c \<longrightarrow> c = server_conn svr) \<and> prefix (w_trace w) (w_trace w')) w"
  unfolding connect_to_def server_conn_def by (rule wp_conj [OF Connect_conn wp_grow [OF emits_True(9)]])

lemma upOnServer_sound:
  "wp (upOnServer E i sid) (\<lambda>x w'. (x = None \<longrightarrow> (\<exists>a. Srv_Get sid (w_db w) = Some a
     \<and> did_compose E (server_conn a) i '' up -d 2>&1'' (w_trace w) (w_trace w')))
     \<and> prefix (w_trace w) (w_trace w')) w"
proof (cases "Srv_Get sid (w_db w)")
  case None
  then show ?thesis unfolding upOnServer_def by (simp add: wp_bind wp_db_get wp_ret)
next
  case (Some a)
  let ?Q = "\<lambda>x w'. (x = None \<longrightarrow> (\<exists>a. Srv_Get sid (w_db w) = Some a
     \<and> did_compose E (server_conn a) i '' up -d 2>&1'' (w_trace w) (w_trace w'))) \<and> prefix (w_trace w) (w_trace w')"
  have close: "wp (Close E c) (\<lambda>_. wp (ret (case u of (out, Some err) \<Rightarrow> Some (g out err) | (_, None) \<Rightarrow> None)) ?Q) v"
    if "snd u = None \<longrightarrow> did_compose E (server_conn a) i '' up -d 2>&1'' (w_trace w) (w_trace v)" "prefix (w_trace w) (w_trace v)"
    for c u g v
    by (rule wp_grow [OF emits_True(7)])
      (use that Some in \<open>cases u; auto simp: wp_ret split: option.splits intro: did_compose_mono prefix_order.trans\<close>)
  have dc: "wp (DockerComposeCmd E c) (\<lambda>x w'. x \<in> compose_cmds \<and> prefix (w_trace v) (w_trace w')) v" for c v
    by (rule wp_conj [OF DockerComposeCmd_range wp_grow [OF emits_True_steps(1)]])
  have ex: "wp (ExecLong E c cmd) (\<lambda>x w'. (snd x = None \<longrightarrow> succeeded E c cmd None ExecLongTimeout (fst x) (w_trace v) (w_trace w'))
      \<and> prefix (w_trace v) (w_trace w')) v" for c cmd v
    by (rule wp_conj [OF ExecLong_answer wp_grow [OF emits_True(4)]])
  have up: "wp (do { dc \<leftarrow> DockerComposeCmd E c; u \<leftarrow> ExecLong E c (up_cmd dc i); Close E c;
      ret (case u of (out, Some err) \<Rightarrow> Some (g out err) | (_, None) \<Rightarrow> None) }) ?Q v"
    if "c = server_conn a" "prefix (w_trace w) (w_trace v)" for c g v
    unfolding wp_bind
    by (rule wp_mono [OF dc], rule wp_mono [OF ex], rule close)
      (use that in \<open>auto simp: did_compose_def up_cmd_def intro: succeeded_mono prefix_order.trans\<close>)
  show ?thesis
    unfolding upOnServer_def wp_bind [of "db_get _"] wp_db_get Some option.case wp_bind [of "connect_to _ _"]
  proof (rule wp_mono [OF Connect_to_conn])
    fix r :: "conn result" and w1 :: world
    assume r: "(\<forall>c. r = Inr c \<longrightarrow> c = server_conn a) \<and> prefix (w_trace w) (w_trace w1)"
    show "wp (case r of Inl err \<Rightarrow> ret (Some (''SSH connect: '' @ err)) | Inr c \<Rightarrow> do {
             dc \<leftarrow> DockerComposeCmd E c;
             u \<leftarrow> ExecLong E c (up_cmd dc i);
             Close E c;
             ret (case u of (out, Some err) \<Rightarrow> Some (''compose up: '' @ err @ nl @ out) | (_, None) \<Rightarrow> None)
           }) (\<lambda>x w'. (x = None \<longrightarrow> (\<exists>aa. Some a = Some aa
       \<and> did_compose E (server_conn aa) i '' up -d 2>&1'' (w_trace w) (w_trace w'))) \<and> prefix (w_trace w) (w_trace w')) w1"
    proof (cases r)
      case (Inl err)
      with r show ?thesis by (simp add: wp_ret)
    next
      case (Inr c)
      with r up [of c w1] Some show ?thesis by simp
    qed
  qed
qed

text \<open>The servers, apart from their pinned keys.\<close>

definition fleet :: "world \<Rightarrow> Server list" where
  "fleet w = map (\<lambda>s. s\<lparr>srv_HostKey := []\<rparr>) (servers (w_db w))"

lemma keeps_fleet_db: "keeps w_db m \<Longrightarrow> keeps fleet m"
  by (simp add: keeps_def fleet_def)

lemmas fleet_frame [frame] = keeps_fleet_db [OF keeps_Exec(1)] keeps_fleet_db [OF keeps_Exec(2)] keeps_fleet_db [OF keeps_Exec(3)]
  keeps_fleet_db [OF keeps_Exec(4)] keeps_fleet_db [OF keeps_Exec(5)] keeps_fleet_db [OF keeps_ReadFile(1)]
  keeps_fleet_db [OF keeps_emit(1)]

lemma keeps_fleet_Connect [frame]: "keeps fleet (Connect E host port user key)"
proof -
  have "keeps fleet (pinHostKey E host port k)" for k
    unfolding pinHostKey_def
    by (intro frame) (simp add: keeps_def exec_db_try pin_key_def Let_def Srv_SaveHostKey_def map_server_def fleet_def)
  then show ?thesis unfolding Connect_def by (intro frame) auto
qed

lemma fleet_get:
  assumes "fleet w' = fleet w" and "Srv_Get sid (w_db w) = Some a"
  shows "\<exists>b. Srv_Get sid (w_db w') = Some b \<and> server_conn b = server_conn a \<and> srv_Name b = srv_Name a"
proof -
  have "map_option (\<lambda>s. s\<lparr>srv_HostKey := []\<rparr>) (Srv_Get sid (w_db v)) = find (\<lambda>s. srv_ID s = sid) (fleet v)" for v
    unfolding Srv_Get_def fleet_def by (rule find_mapI [symmetric]) simp
  with assms have "map_option (\<lambda>s. s\<lparr>srv_HostKey := []\<rparr>) (Srv_Get sid (w_db w')) = Some (a\<lparr>srv_HostKey := []\<rparr>)"
    by (metis option.simps(9))
  then obtain b where b: "Srv_Get sid (w_db w') = Some b" "b\<lparr>srv_HostKey := []\<rparr> = a\<lparr>srv_HostKey := []\<rparr>" by auto
  have "srv_Host b = srv_Host a" "srv_Port b = srv_Port a" "srv_User b = srv_User a" "srv_Name b = srv_Name a"
    using b(2) by (metis Server.select_convs Server.surjective Server.update_convs)+
  with b(1) show ?thesis by (auto simp: server_conn_def)
qed

text \<open>The compose command that stops an app.\<close>

definition stop_event :: "int \<Rightarrow> event \<Rightarrow> bool" where
  "stop_event i ev \<longleftrightarrow> (\<exists>c dc. ev = EvRun c (wrapTimeout (down_cmd dc i) ExecLongTimeout) None ExecLongTimeout)"

definition copy_result :: "env \<Rightarrow> int \<Rightarrow> Server \<Rightarrow> Server \<Rightarrow> error option \<Rightarrow> event list \<Rightarrow> event list \<Rightarrow> bool" where
  "copy_result E i a b x tr0 tr \<longleftrightarrow> (case x of
     None \<Rightarrow> verified_copy E i (server_conn a) (server_conn b) tr0 tr
   | Some err \<Rightarrow> did_compose E (server_conn a) i '' up -d 2>&1'' tr0 tr
       \<or> (\<exists>pre why. err = pre @ '' (restart on '' @ srv_Name a @ '' also failed: '' @ why @ '')''))"

lemma copy_result_mono:
  "copy_result E i a b x tr1 tr2 \<Longrightarrow> prefix tr0 tr1 \<Longrightarrow> prefix tr2 tr3 \<Longrightarrow> copy_result E i a b x tr0 tr3"
  unfolding copy_result_def by (auto split: option.splits intro: verified_copy_mono did_compose_mono)

lemma copy_between_sound:
  assumes "Srv_Get (srv_ID a) (w_db w) = Some a'" and "server_conn a' = server_conn a"
  shows "wp (copy_between E i app a b (server_conn a) (server_conn b)) (\<lambda>x w'. copy_result E i a b (snd x) (w_trace w) (w_trace w')) w"
proof -
  let ?src = "server_conn a" and ?dst = "server_conn b"
  let ?Q = "\<lambda>x w'. copy_result E i a b (snd x) (w_trace w) (w_trace w')"
  let ?J = "\<lambda>v. prefix (w_trace w) (w_trace v) \<and> fleet v = fleet w"
  have step: "wp m (\<lambda>_. ?J) v" if "?J v" "emits (\<lambda>_. True) m" "keeps fleet m" for m :: "'x prog" and v
    using that emits_prefix [OF that(2), of v] keepsD [OF that(3), of v] by (auto simp: wp_exec_result intro: prefix_order.trans)
  have fin: "wp (do { (case direct of Inr (_, k, m) \<Rightarrow> cleanupDirect E ?src ?dst k m | Inl _ \<Rightarrow> ret ()); ret (ws, e) }) ?Q v"
    if "copy_result E i a b e (w_trace w) (w_trace v)" for direct :: "(string \<times> string \<times> string) result" and ws e v
  proof -
    have "emits (\<lambda>_. True) (case direct of Inr (_, k, m) \<Rightarrow> cleanupDirect E ?src ?dst k m | Inl _ \<Rightarrow> ret ())"
      unfolding cleanupDirect_def by (intro events)
    then show ?thesis
      unfolding wp_bind by (rule wp_grow) (use that in \<open>auto simp: wp_ret intro: copy_result_mono\<close>)
  qed
  have up: "wp (upOnServer E i (srv_ID a)) (\<lambda>x v'. copy_result E i a b (Some (case x of None \<Rightarrow> err
       | Some upErr \<Rightarrow> err @ '' (restart on '' @ srv_Name a @ '' also failed: '' @ upErr @ '')'')) (w_trace w) (w_trace v')) v"
    if "?J v" for err v
  proof (rule wp_mono [OF upOnServer_sound])
    fix x :: "error option" and v' :: world
    note J = that
    obtain b' where b': "Srv_Get (srv_ID a) (w_db v) = Some b'" "server_conn b' = server_conn a"
      using fleet_get [OF conjunct2 [OF J] assms(1)] assms(2) by auto
    assume x: "(x = None \<longrightarrow> (\<exists>aa. Srv_Get (srv_ID a) (w_db v) = Some aa
        \<and> did_compose E (server_conn aa) i '' up -d 2>&1'' (w_trace v) (w_trace v'))) \<and> prefix (w_trace v) (w_trace v')"
    show "copy_result E i a b (Some (case x of None \<Rightarrow> err
       | Some upErr \<Rightarrow> err @ '' (restart on '' @ srv_Name a @ '' also failed: '' @ upErr @ '')'')) (w_trace w) (w_trace v')"
    proof (cases x)
      case None
      with x b' that show ?thesis by (auto simp: copy_result_def intro: did_compose_mono)
    next
      case (Some upErr)
      then show ?thesis by (simp only: copy_result_def option.case) blast
    qed
  qed
  have restart: "wp (case e of None \<Rightarrow> ret None | Some err \<Rightarrow> do {
         up \<leftarrow> upOnServer E i (srv_ID a);
         ret (Some (case up of None \<Rightarrow> err
           | Some upErr \<Rightarrow> err @ '' (restart on '' @ srv_Name a @ '' also failed: '' @ upErr @ '')'')) })
      (\<lambda>e' v'. copy_result E i a b e' (w_trace w) (w_trace v')) v"
    if "?J v" "e = None \<longrightarrow> verified_copy E i ?src ?dst (w_trace w) (w_trace v)" for e v
  proof (cases e)
    case None
    with that show ?thesis by (simp add: wp_ret copy_result_def)
  next
    case (Some err)
    show ?thesis unfolding Some option.case wp_bind wp_ret by (rule up [OF that(1)])
  qed
  have trans: "wp (transfer E i dc ?src ?dst a b direct) (\<lambda>e v'. ?J v' \<and> (e = None \<longrightarrow> verified_copy E i ?src ?dst (w_trace w) (w_trace v'))) v"
    if "?J v" for dc direct v
  proof -
    have "emits (\<lambda>_. True) (transfer E i dc ?src ?dst a b direct)" "keeps fleet (transfer E i dc ?src ?dst a b direct)"
      unfolding transfer_def stream_files_def relayCopy_def compare_files_def Let_def by (intro events frame)+
    from wp_conj [OF step [OF that this] transfer_sound] show ?thesis
      by (rule wp_mono) (use that in \<open>auto intro: verified_copy_mono\<close>)
  qed
  have prep: "emits (\<lambda>_. True) (prepareDirectCopy E dir ?src ?dst b u)" "keeps fleet (prepareDirectCopy E dir ?src ?dst b u)"
      "emits (\<lambda>_. True) (DockerComposeCmd E ?src)" "keeps fleet (DockerComposeCmd E ?src)" for dir u
    unfolding prepareDirectCopy_def authorize_key_def cleanupDirect_def DockerComposeCmd_def Let_def by (intro events frame)+
  show ?thesis
    unfolding copy_between_def Let_def
    by (subst wp_bind, rule wp_mono [OF step [OF _ emits_True(3) fleet_frame(1)]], simp,
        subst wp_bind, rule wp_mono [OF step [OF _ prep(3,4)]], assumption,
        subst wp_bind, rule wp_mono [OF step [OF _ prep(1,2)]], assumption,
        subst wp_bind, rule wp_mono [OF trans], assumption,
        subst wp_bind, rule wp_mono [OF restart], blast, blast, rule fin)
qed

text \<open>A copy that was tried: verified, or started again, or given up before anything was stopped.\<close>

definition copy_outcome :: "env \<Rightarrow> int \<Rightarrow> Server \<Rightarrow> Server \<Rightarrow> error option \<Rightarrow> event list \<Rightarrow> event list \<Rightarrow> bool" where
  "copy_outcome E i a b x tr0 tr \<longleftrightarrow> copy_result E i a b x tr0 tr
     \<or> x \<noteq> None \<and> (\<exists>evs. tr = tr0 @ evs \<and> list_all (\<lambda>ev. \<not> stop_event i ev) evs)"

lemma emits_no_stop:
  "emits (\<lambda>ev. \<not> stop_event i ev) (connect_to E svr)" "emits (\<lambda>ev. \<not> stop_event i ev) (Close E c)"
  unfolding connect_to_def by (rule emits_Connect emits_calls(5); simp add: stop_event_def)+

lemma copy_connected_sound:
  assumes "Srv_Get (srv_ID a) (w_db w) = Some a"
  shows "wp (copy_connected E i app a b) (\<lambda>x w'. copy_outcome E i a b (snd x) (w_trace w) (w_trace w')) w"
proof -
  let ?w1 = "exec (connect_to E a) w"
  let ?w2 = "exec (connect_to E b) ?w1"
  have fl: "fleet ?w2 = fleet w" by (simp add: keepsD [OF keeps_fleet_Connect] connect_to_def)
  have pre: "prefix (w_trace w) (w_trace ?w2)"
    using emits_prefix [OF emits_True(9)] unfolding connect_to_def by (meson prefix_order.trans)
  have conn: "result (connect_to E svr) v = Inr c \<Longrightarrow> c = server_conn svr" for svr v c
    using Connect_to_conn [of E svr v] by (simp add: wp_exec_result)
  obtain e1 e2 where ev: "w_trace ?w1 = w_trace w @ e1" "list_all (\<lambda>ev. \<not> stop_event i ev) e1"
      "w_trace ?w2 = w_trace ?w1 @ e2" "list_all (\<lambda>ev. \<not> stop_event i ev) e2"
    using emits_no_stop(1) unfolding emits_def by meson
  show ?thesis
  proof (cases "result (connect_to E a) w")
    case (Inl err)
    with ev(1,2) show ?thesis by (simp add: copy_connected_def wp_exec_result exec_bind result_bind copy_outcome_def)
  next
    case src: (Inr src)
    show ?thesis
    proof (cases "result (connect_to E b) ?w1")
      case (Inl err)
      obtain e3 where "w_trace (exec (Close E src) ?w2) = w_trace ?w2 @ e3" "list_all (\<lambda>ev. \<not> stop_event i ev) e3"
        using emits_no_stop(2) unfolding emits_def by meson
      with src Inl ev show ?thesis
        by (simp add: copy_connected_def wp_exec_result exec_bind result_bind copy_outcome_def)
    next
      case (Inr dst)
      let ?m = "copy_between E i app a b src dst"
      let ?w3 = "exec ?m ?w2"
      let ?w5 = "exec (Close E src) (exec (Close E dst) ?w3)"
      obtain a' where "Srv_Get (srv_ID a) (w_db ?w2) = Some a'" "server_conn a' = server_conn a"
        using fleet_get [OF fl assms] by blast
      from copy_between_sound [OF this, of E i app b] conn [OF src] conn [OF Inr]
      have "copy_result E i a b (snd (result ?m ?w2)) (w_trace ?w2) (w_trace ?w3)" by (simp add: wp_exec_result)
      moreover have "prefix (w_trace ?w3) (w_trace ?w5)"
        using emits_prefix [OF emits_True(7)] by (meson prefix_order.trans)
      ultimately have "copy_result E i a b (snd (result ?m ?w2)) (w_trace w) (w_trace ?w5)"
        using pre copy_result_mono by blast
      with src Inr show ?thesis
        by (simp add: copy_connected_def wp_exec_result exec_bind result_bind copy_outcome_def)
    qed
  qed
qed

lemma CopyAppFiles_eq:
  assumes "s \<noteq> 0" and "t \<noteq> 0" and "s \<noteq> t" and "Repo_Get i (w_db w) = Some app"
    and "Srv_Get s (w_db w) = Some a" and "Srv_Get t (w_db w) = Some b"
  shows "exec (CopyAppFiles E i s t) w = exec (copy_connected E i app a b) w"
    and "result (CopyAppFiles E i s t) w = result (copy_connected E i app a b) w"
proof -
  have "(s = 0 \<or> t = 0 \<or> s = t) = False" using assms(1-3) by simp
  then show "exec (CopyAppFiles E i s t) w = exec (copy_connected E i app a b) w"
    "result (CopyAppFiles E i s t) w = result (copy_connected E i app a b) w"
    unfolding CopyAppFiles_def
    by (simp_all only: if_False exec_get_bind result_get_bind assms(4-6) option.case)
qed

section \<open>Properties\<close>

text \<open>
  C8. Copying an app's folder is safe: when the copy reports success, the files on both servers
  were counted during the call and agree in number and bytes; when it reports an error, either
  the app was never stopped on the source, or \<open>compose up\<close> has started it there again, or the error
  says that starting it again failed.
\<close>

theorem CopyAppFiles_safe:
  assumes "s \<noteq> 0" and "t \<noteq> 0" and "s \<noteq> t" and "Repo_Get i (w_db w) = Some app"
    and "Srv_Get s (w_db w) = Some a" and "Srv_Get t (w_db w) = Some b"
  shows "let tr0 = w_trace w; tr = w_trace (exec (CopyAppFiles E i s t) w)
    in case snd (result (CopyAppFiles E i s t) w) of
         None \<Rightarrow> verified_copy E i (server_conn a) (server_conn b) tr0 tr
       | Some err \<Rightarrow> (\<exists>evs. tr = tr0 @ evs \<and> list_all (\<lambda>ev. \<not> stop_event i ev) evs)
           \<or> did_compose E (server_conn a) i '' up -d 2>&1'' tr0 tr
           \<or> (\<exists>pre why. err = pre @ '' (restart on '' @ srv_Name a @ '' also failed: '' @ why @ '')'')"
proof -
  have "srv_ID a = s" using Srv_Get_ids [OF assms(5)] by simp
  then have "Srv_Get (srv_ID a) (w_db w) = Some a" using assms(5) by simp
  from copy_connected_sound [OF this, of E i app b]
  have "copy_outcome E i a b (snd (result (CopyAppFiles E i s t) w)) (w_trace w) (w_trace (exec (CopyAppFiles E i s t) w))"
    by (simp add: wp_exec_result CopyAppFiles_eq [OF assms])
  then show ?thesis
    unfolding copy_outcome_def copy_result_def Let_def by (cases "snd (result (CopyAppFiles E i s t) w)") auto
qed

text \<open>A world with two servers.\<close>

definition move_world :: world where
  "move_world = sample_world\<lparr>w_db := sample_db\<lparr>servers := [sample_server, sample_server\<lparr>srv_ID := 2, srv_Name := ''x'', srv_Host := ''g''\<rparr>],
     sqlite_sequence := (\<lambda>_. 2)\<rparr>\<rparr>"

lemma move_world_get:
  "Repo_Get 1 (w_db move_world) = Some sample_app" "Srv_Get 1 (w_db move_world) = Some sample_server"
  "Srv_Get 2 (w_db move_world) = Some (sample_server\<lparr>srv_ID := 2, srv_Name := ''x'', srv_Host := ''g''\<rparr>)"
  by (simp_all add: move_world_def sample_db_def Repo_Get_def Srv_Get_def sample_app_def sample_server_def)

lemma move_world_ok: "db_ok (w_db move_world)"
  by (simp add: db_ok_def ids_inv_def refs_inv_def keys_inv_def ids_ok_def refs_ok_def move_world_def sample_db_def
      empty_db_def sample_server_def sample_app_def server_ids_def)

theorem CopyAppFiles_safe_witness:
  "let tr0 = w_trace move_world; tr = w_trace (exec (CopyAppFiles sample_env 1 1 2) move_world); c = server_conn sample_server;
       c' = server_conn (sample_server\<lparr>srv_ID := 2, srv_Name := ''x'', srv_Host := ''g''\<rparr>)
    in case snd (result (CopyAppFiles sample_env 1 1 2) move_world) of
         None \<Rightarrow> verified_copy sample_env 1 c c' tr0 tr
       | Some err \<Rightarrow> (\<exists>evs. tr = tr0 @ evs \<and> list_all (\<lambda>ev. \<not> stop_event 1 ev) evs)
           \<or> did_compose sample_env c 1 '' up -d 2>&1'' tr0 tr
           \<or> (\<exists>pre why. err = pre @ '' (restart on '' @ srv_Name sample_server @ '' also failed: '' @ why @ '')'')"
  using CopyAppFiles_safe [OF _ _ _ move_world_get, of sample_env] by (simp only: Let_def)



text \<open>
  C4. A move destroys data only when it may: unless the user asked for it, the app has no Docker
  volumes (which the copy does not carry over) and the app runs in the end, no command of the
  whole move removes an app folder or the volumes of an app, on any server.
\<close>

theorem MoveApp_purge_safe:
  assumes "Repo_Get i (w_db w) = Some app"
    and "\<not> p \<or> dockerVolumes (e_yaml E) (app_Compose app) \<noteq> []
      \<or> map_option app_Status (Repo_Get i (w_db (exec (MoveApp E i s t p) w))) \<noteq> Some ''running''"
  shows "\<exists>evs. w_trace (exec (MoveApp E i s t p) w) = w_trace w @ evs \<and> list_all (\<lambda>ev. \<not> purge_event ev) evs"
  using guarded_MoveApp [OF assms(1), of E p s t] assms(2)
  by (auto simp: guarded_def may_purge_def list_all_iff)

theorem MoveApp_purge_safe_witness:
  "\<exists>evs. w_trace (exec (MoveApp sample_env 1 1 2 False) move_world) = w_trace move_world @ evs
     \<and> list_all (\<lambda>ev. \<not> purge_event ev) evs"
  using MoveApp_purge_safe [OF move_world_get(1)] by blast

end
