(* ===== verification/Scheduler.thy ===== *)
theory Scheduler
  imports Worker
begin

text \<open>
  Choosing a server for a new app: \<open>internal/scheduler/scheduler.go\<close> and \<open>PickServerID\<close> of
  \<open>internal/app/service.go\<close>. Usage figures are rationals, so the score is exact; the largest
  \<open>float64\<close> is a number like any other. Dereferencing a nil server ends the request and is the
  result \<open>None\<close>.
\<close>

definition MaxFloat64 :: rat where
  "MaxFloat64 = 2 ^ 1024 - 2 ^ 971"

definition score :: "Server \<Rightarrow> rat" where
  "score s = srv_CPUUsage s * (1 / 2) + srv_RAMUsage s * (1 / 2)"

fun pick_best :: "Server option \<Rightarrow> rat \<Rightarrow> Server list \<Rightarrow> Server option" where
  "pick_best best bestScore [] = best"
| "pick_best best bestScore (s # ss) =
     (if score s < bestScore then pick_best (Some s) (score s) ss else pick_best best bestScore ss)"

definition PickServer :: "(Server list \<Rightarrow> Server list) \<Rightarrow> db \<Rightarrow> Server option result" where
  "PickServer plan d =
     (let online = Srv_ListOnline plan d
      in if online = [] then Inl ''no online servers available'' else Inr (pick_best None MaxFloat64 online))"

definition PickServerID :: "env \<Rightarrow> int result option prog" where
  "PickServerID E =
     (if \<not> e_scheduler E then ret (Some (Inl ''scheduler not available''))
      else do {
        h \<leftarrow> trace;
        p \<leftarrow> db_get (PickServer (e_plan_servers E h));
        ret (case p of
               Inl err \<Rightarrow> Some (Inl err)
             | Inr None \<Rightarrow> None
             | Inr (Some svr) \<Rightarrow> Some (Inr (srv_ID svr)))
      })"

lemma pick_best_bound: "pick_best best b ss = Some s \<Longrightarrow> best = Some s \<or> s \<in> set ss \<and> score s < b"
  by (induction ss arbitrary: best b) (fastforce split: if_splits)+

lemma pick_best_least:
  assumes "\<And>t. best = Some t \<Longrightarrow> score t = b" and "best \<noteq> None \<or> (\<exists>t \<in> set ss. score t < b)"
  obtains s where "pick_best best b ss = Some s" and "best = Some s \<or> s \<in> set ss"
    and "score s \<le> b" and "\<forall>t \<in> set ss. score s \<le> score t"
proof -
  have "\<exists>s. pick_best best b ss = Some s \<and> (best = Some s \<or> s \<in> set ss) \<and> score s \<le> b \<and> (\<forall>t \<in> set ss. score s \<le> score t)"
    using assms
  proof (induction ss arbitrary: best b)
    case Nil
    then show ?case by auto
  next
    case (Cons x xs)
    show ?case
    proof (cases "score x < b")
      case True
      from Cons.IH [of "Some x" "score x"] obtain s where "pick_best (Some x) (score x) xs = Some s"
        "Some x = Some s \<or> s \<in> set xs" "score s \<le> score x" "\<forall>t \<in> set xs. score s \<le> score t" by auto
      with True show ?thesis by auto
    next
      case False
      with Cons.prems have "best \<noteq> None \<or> (\<exists>t \<in> set xs. score t < b)" by auto
      from Cons.IH [OF Cons.prems(1) this] obtain s where "pick_best best b xs = Some s"
        "best = Some s \<or> s \<in> set xs" "score s \<le> b" "\<forall>t \<in> set xs. score s \<le> score t" by auto
      with False show ?thesis by (intro exI [of _ s]) auto
    qed
  qed
  then show thesis using that by blast
qed

lemma percent_below_max: "srv_CPUUsage s \<le> 100 \<Longrightarrow> srv_RAMUsage s \<le> 100 \<Longrightarrow> score s < MaxFloat64"
proof -
  assume "srv_CPUUsage s \<le> 100" "srv_RAMUsage s \<le> 100"
  then have "score s \<le> 100" by (simp add: score_def)
  also have "(100 :: rat) < MaxFloat64" by (simp add: MaxFloat64_def)
  finally show ?thesis .
qed

lemma keeps_PickServerID [frame]: "keeps f (PickServerID E)"
  unfolding PickServerID_def by (intro frame)

text \<open>
  Automatic placement picks a server that is online and has the least load of all that are;
  it fails exactly when no server is online.
\<close>

theorem PickServer_least:
  assumes "list_all (\<lambda>s. srv_CPUUsage s \<le> 100 \<and> srv_RAMUsage s \<le> 100) (servers d)"
  shows "case PickServer plan d of
      Inl _ \<Rightarrow> list_all (\<lambda>s. srv_Status s \<noteq> ''online'') (servers d)
    | Inr p \<Rightarrow> \<exists>s. p = Some s \<and> s \<in> set (servers d) \<and> srv_Status s = ''online''
        \<and> list_all (\<lambda>t. if srv_Status t = ''online'' then score s \<le> score t else True) (servers d)"
proof -
  let ?o = "Srv_ListOnline plan d"
  have mem: "set ?o = {s \<in> set (servers d). srv_Status s = ''online''}" by (simp add: Srv_ListOnline_def)
  show ?thesis
  proof (cases "?o = []")
    case True
    with mem have "\<forall>s \<in> set (servers d). srv_Status s \<noteq> ''online''" by auto
    with True show ?thesis by (simp add: PickServer_def list_all_iff)
  next
    case False
    then obtain t where "t \<in> set ?o" by (cases ?o) auto
    with mem assms have "\<exists>t \<in> set ?o. score t < MaxFloat64"
      by (intro bexI [of _ t] percent_below_max) (auto simp: list_all_iff)
    from pick_best_least [of None MaxFloat64 ?o, OF _ disjI2 [OF this]] obtain s
      where "pick_best None MaxFloat64 ?o = Some s" "s \<in> set ?o" "\<forall>t \<in> set ?o. score s \<le> score t" by auto
    with False mem show ?thesis by (auto simp: PickServer_def list_all_iff)
  qed
qed

theorem PickServer_least_witness:
  "PickServer (\<lambda>xs. xs) sample_db = Inr (Some sample_server)"
proof -
  have "case PickServer (\<lambda>xs. xs) sample_db of
      Inl _ \<Rightarrow> list_all (\<lambda>s. srv_Status s \<noteq> ''online'') (servers sample_db)
    | Inr p \<Rightarrow> \<exists>s. p = Some s \<and> s \<in> set (servers sample_db) \<and> srv_Status s = ''online''
        \<and> list_all (\<lambda>t. if srv_Status t = ''online'' then score s \<le> score t else True) (servers sample_db)"
    by (rule PickServer_least) (simp add: sample_db_def sample_server_def)
  then show ?thesis by (auto simp: sample_db_def sample_server_def split: sum.splits)
qed

end
