(* ===== verification/Handlers.thy ===== *)
theory Handlers
  imports Move Scheduler
begin

text \<open>
  The JSON interface for apps, from \<open>internal/app/handler.go\<close>. A handler gets the id of the URL
  as text and the body as the decoder leaves it (\<open>None\<close>: not decodable; fields the JSON leaves
  out are empty) and answers a status and a body. \<open>go\<close> and \<open>h.run\<close> start a goroutine, an entry of
  \<open>w_tasks\<close>. Statements that cannot fail without a failing disk have no error branch. Reading
  the lock of an app is \<open>Busy\<close>.
\<close>

section \<open>Requests and replies\<close>

datatype body =
    JError error
  | JMessage string
  | JApps "App list"
  | JApp App
  | JPatched App string "string option"
  | JSecrets "AppSecret list"
  | JFiles "AppFile list"
  | JDeployments "Deployment list"
  | JDeployment Deployment
  | Plain string
  | Page string error
  | Redirect string
  | Aborted

type_synonym reply = "int \<times> body"

record envVarInput =
  ev_Key :: string
  ev_Value :: string
  ev_IsSecret :: bool

record create_input =
  ci_Name :: string
  ci_ServerID :: int
  ci_Domain :: string
  ci_Domains :: "string list"
  ci_Port :: int
  ci_Compose :: string
  ci_Image :: string
  ci_EnvVars :: "envVarInput list"
  ci_Volumes :: string
  ci_GitRepo :: string
  ci_GitBranch :: string
  ci_AuthUser :: string
  ci_AuthPass :: string
  ci_MemoryLimit :: string
  ci_CPULimit :: string
  ci_LogMaxSize :: string
  ci_LogMaxFile :: string
  ci_Command :: string
  ci_Ports :: string
  ci_UlimitsNofile :: string
  ci_Draft :: bool

record patch_input =
  pi_Compose :: "string option"
  pi_ServerID :: "int option"
  pi_MoveFiles :: bool
  pi_PurgeOld :: bool

definition url_id :: "string \<Rightarrow> int" where
  "url_id param = fst (ParseInt param)"

definition Busy :: "int \<Rightarrow> bool prog" where
  "Busy i = gets (\<lambda>w. i \<in> w_locked w)"

definition friendlyError :: "error \<Rightarrow> string" where
  "friendlyError msg =
     (if Contains msg ''FOREIGN KEY'' then ''please select a server or save as draft''
      else if Contains msg ''UNIQUE constraint'' then ''an app with this name already exists''
      else msg)"

definition refuseBusy :: "int \<Rightarrow> reply prog \<Rightarrow> reply prog" where
  "refuseBusy i continue = do {
     busy \<leftarrow> Busy i;
     if busy then ret (409, JError ''operation in progress'') else continue
   }"

section \<open>Creating an app\<close>

fun create_env_keys :: "envVarInput list \<Rightarrow> string list result" where
  "create_env_keys [] = Inr []"
| "create_env_keys (e # es) =
     (let k = TrimSpace (ev_Key e)
      in if k = [] then create_env_keys es
         else case ValidEnvKey k of
             Inl err \<Rightarrow> Inl err
           | Inr _ \<Rightarrow> (case create_env_keys es of Inl err \<Rightarrow> Inl err | Inr ks \<Rightarrow> Inr (k # ks)))"

text \<open>The primary domain and the others, normalised in place; a blank one stays as it is.\<close>

fun create_domains :: "string list \<Rightarrow> string list result" where
  "create_domains [] = Inr []"
| "create_domains (d # ds) =
     (case (if TrimSpace d = [] then Inr d else ValidDomain d) of
        Inl err \<Rightarrow> Inl err
      | Inr n \<Rightarrow> (case create_domains ds of Inl err \<Rightarrow> Inl err | Inr ns \<Rightarrow> Inr (n # ns)))"

fun first_seen :: "string list \<Rightarrow> string list \<Rightarrow> string list" where
  "first_seen seen [] = []"
| "first_seen seen (d # ds) =
     (if d = [] \<or> d \<in> set seen then first_seen seen ds else d # first_seen (d # seen) ds)"

definition create_routes :: "string \<Rightarrow> string list \<Rightarrow> string list" where
  "create_routes domain domains =
     first_seen [] (domain # filter (\<lambda>d. d \<noteq> [] \<and> d \<noteq> domain) (map TrimSpace domains))"

definition create_compose :: "env \<Rightarrow> create_input \<Rightarrow> string list \<Rightarrow> string" where
  "create_compose E ci envKeys =
     (if ci_Compose ci = [] \<and> ci_Image ci \<noteq> []
      then generateCompose (e_yaml E) (ci_Image ci) (ci_Port ci) (ci_Volumes ci) (ci_Name ci) (ci_MemoryLimit ci)
        (ci_CPULimit ci) (ci_LogMaxSize ci) (ci_LogMaxFile ci) envKeys (ci_Command ci) (ci_Ports ci) (ci_UlimitsNofile ci)
      else ci_Compose ci)"

definition create_app :: "create_input \<Rightarrow> int \<Rightarrow> string \<Rightarrow> string \<Rightarrow> App" where
  "create_app ci serverID domain compose = \<lparr> app_ID = 0, app_Name = ci_Name ci, app_ServerID = serverID,
     app_Domain = domain, app_Port = ci_Port ci, app_Compose = compose, app_GitRepo = ci_GitRepo ci,
     app_GitBranch = ci_GitBranch ci, app_AuthUser = ci_AuthUser ci, app_AuthPass = ci_AuthPass ci,
     app_Status = (if ci_Draft ci then ''draft'' else []),
     app_ComposeMode = (if ci_Image ci \<noteq> [] \<and> (ci_Compose ci = [] \<or> \<not> Contains (ci_Compose ci) ''services:'')
       then ''simple'' else ''advanced''),
     app_MemoryLimit = ci_MemoryLimit ci, app_CPULimit = ci_CPULimit ci, app_LogMaxSize = ci_LogMaxSize ci,
     app_LogMaxFile = ci_LogMaxFile ci, app_Command = ci_Command ci, app_Ports = ci_Ports ci,
     app_UlimitsNofile = ci_UlimitsNofile ci, app_CreatedAt = 0, app_UpdatedAt = 0 \<rparr>"

definition save_route :: "int \<Rightarrow> int \<Rightarrow> string \<Rightarrow> unit prog" where
  "save_route i serverID domain = do { db_try (\<lambda>now. Repo_SaveRoute now (new_route i serverID domain [])); ret () }"

definition store_app :: "create_input \<Rightarrow> App \<Rightarrow> string list \<Rightarrow> reply prog" where
  "store_app ci app domains = do {
     r \<leftarrow> db_try (\<lambda>now. Repo_Create now app);
     case r of
       Inl err \<Rightarrow> ret (500, JError err)
     | Inr i \<Rightarrow> do {
         forM (ci_EnvVars ci) (\<lambda>e. if TrimSpace (ev_Key e) = [] then ret ()
           else do { db_try (\<lambda>_. Repo_SetSecretWithType i (TrimSpace (ev_Key e)) (ev_Value e) (ev_IsSecret e)); ret () });
         forM (create_routes (app_Domain app) domains) (save_route i (app_ServerID app));
         (if ci_Draft ci then ret () else go_task (TaskDeploy i []));
         ret (201, JApp (app\<lparr>app_ID := i\<rparr>))
       }
   }"

definition Handler_Create :: "env \<Rightarrow> create_input option \<Rightarrow> reply prog" where
  "Handler_Create E input =
     (case input of
        None \<Rightarrow> ret (400, JError ''invalid JSON'')
      | Some ci \<Rightarrow>
          if ci_Name ci = [] then ret (400, JError ''name is required'')
          else (case create_env_keys (ci_EnvVars ci) of
             Inl err \<Rightarrow> ret (400, JError err)
           | Inr envKeys \<Rightarrow> (case create_domains (ci_Domain ci # ci_Domains ci) of
             Inl err \<Rightarrow> ret (400, JError err)
           | Inr domains \<Rightarrow> do {
               let compose = create_compose E ci envKeys;
               if compose = [] then ret (400, JError ''provide either compose or image'')
               else do {
                 p \<leftarrow> (if ci_ServerID ci = 0 \<and> \<not> ci_Draft ci then PickServerID E else ret (Some (Inr (ci_ServerID ci))));
                 case p of
                   None \<Rightarrow> ret (500, Aborted)
                 | Some (Inl err) \<Rightarrow> ret (400, JError (''auto-select failed: '' @ err))
                 | Some (Inr serverID) \<Rightarrow> store_app ci (create_app ci serverID (hd domains) compose) (tl domains)
               }
             })))"

section \<open>Reading and changing an app\<close>

definition Handler_List :: "reply prog" where
  "Handler_List = do { as \<leftarrow> db_get Repo_List; ret (200, JApps as) }"

definition Handler_Get :: "string \<Rightarrow> reply prog" where
  "Handler_Get param = do {
     a \<leftarrow> db_get (Repo_Get (url_id param));
     ret (case a of None \<Rightarrow> (404, JError ''app not found'') | Some app \<Rightarrow> (200, JApp app))
   }"

text \<open>
  \<open>Patch\<close> in its steps: the compose file, the server, the row that is saved, the work that is
  started.
\<close>

definition patch_compose :: "string option \<Rightarrow> App \<Rightarrow> App result" where
  "patch_compose c app =
     (case c of
        None \<Rightarrow> Inr app
      | Some text \<Rightarrow>
          if TrimSpace text = [] then Inl ''compose must not be empty''
          else Inr (app\<lparr>app_Compose := TrimSpace text, app_ComposeMode := ''advanced''\<rparr>))"

definition patch_server :: "int option \<Rightarrow> App \<Rightarrow> int result prog" where
  "patch_server sid app =
     (case sid of
        None \<Rightarrow> ret (Inr (app_ServerID app))
      | Some s \<Rightarrow>
          if s = app_ServerID app then ret (Inr s)
          else do {
            svr \<leftarrow> db_get (Srv_Get s);
            ret (case svr of None \<Rightarrow> Inl (''server '' @ Itoa s @ '' not found'') | Some _ \<Rightarrow> Inr s)
          })"

definition patch_start :: "env \<Rightarrow> int \<Rightarrow> patch_input \<Rightarrow> int \<Rightarrow> int \<Rightarrow> bool \<Rightarrow> bool \<Rightarrow> bool \<Rightarrow> string prog" where
  "patch_start E i pin oldServerID newServerID moving changed isDraft =
     (if moving \<and> pi_MoveFiles pin then do {
        go_task (TaskMoveApp i oldServerID newServerID (pi_PurgeOld pin));
        ret ''move''
      } else if moving then do {
        rs \<leftarrow> getRoutes E i;
        forM rs (\<lambda>rt. save_route i newServerID (rt_Domain rt));
        go_task (TaskMoveWithoutFiles i oldServerID (pi_PurgeOld pin) []);
        ret ''move_without_files''
      } else if changed \<and> \<not> isDraft then do {
        go_task (TaskRedeploy i []);
        ret ''redeploy''
      } else ret ''none'')"

definition patch_save :: "env \<Rightarrow> int \<Rightarrow> patch_input \<Rightarrow> App \<Rightarrow> App \<Rightarrow> int \<Rightarrow> reply prog" where
  "patch_save E i pin old app newServerID = do {
     let isDraft = (app_Status old = ''draft'');
     let oldServerID = app_ServerID old;
     let moving = (newServerID \<noteq> oldServerID \<and> \<not> isDraft \<and> oldServerID \<noteq> 0);
     let changed = (pi_Compose pin \<noteq> None \<or> newServerID \<noteq> oldServerID);
     if (pi_MoveFiles pin \<or> pi_PurgeOld pin) \<and> \<not> moving
     then ret (400, JError ''move_files and purge_old need a server_id different from the current one'')
     else do {
       let app = app\<lparr>app_ServerID := (if moving \<and> pi_MoveFiles pin then oldServerID else newServerID)\<rparr>;
       u \<leftarrow> (if changed then db_try (\<lambda>now. Repo_Update now app) else ret (Inr ()));
       case u of
         Inl err \<Rightarrow> ret (500, JError (friendlyError err))
       | Inr _ \<Rightarrow> do {
           action \<leftarrow> patch_start E i pin oldServerID newServerID moving changed isDraft;
           let vols = dockerVolumes (e_yaml E) (app_Compose app);
           ret (202, JPatched app action
             (if moving \<and> pi_MoveFiles pin \<and> vols \<noteq> []
              then Some (''Docker volumes ('' @ Join vols '', '' @ '') are not copied'') else None))
         }
     }
   }"

definition Handler_Patch :: "env \<Rightarrow> string \<Rightarrow> patch_input result \<Rightarrow> reply prog" where
  "Handler_Patch E param input =
     (case input of
        Inl err \<Rightarrow> ret (400, JError (''invalid JSON: '' @ err))
      | Inr pin \<Rightarrow> do {
          a \<leftarrow> db_get (Repo_Get (url_id param));
          case a of
            None \<Rightarrow> ret (404, JError ''app not found'')
          | Some old \<Rightarrow> refuseBusy (url_id param) (
              case patch_compose (pi_Compose pin) old of
                Inl err \<Rightarrow> ret (400, JError err)
              | Inr app \<Rightarrow> do {
                  r \<leftarrow> patch_server (pi_ServerID pin) old;
                  case r of
                    Inl err \<Rightarrow> ret (400, JError err)
                  | Inr newServerID \<Rightarrow> patch_save E (url_id param) pin old app newServerID
                })
        })"

section \<open>Starting operations\<close>

definition Handler_Delete :: "string \<Rightarrow> reply prog" where
  "Handler_Delete param = refuseBusy (url_id param) (do {
     go_task (TaskUndeploy (url_id param));
     ret (202, JMessage ''undeploy started'')
   })"

definition Handler_Redeploy :: "string \<Rightarrow> reply prog" where
  "Handler_Redeploy param = refuseBusy (url_id param) (do {
     go_task (TaskRedeploy (url_id param) []);
     ret (202, JMessage ''redeploy started'')
   })"

definition Handler_Rollback :: "env \<Rightarrow> string \<Rightarrow> reply prog" where
  "Handler_Rollback E param = refuseBusy (url_id param) (do {
     r \<leftarrow> Rollback E (url_id param);
     ret (case r of Some err \<Rightarrow> (400, JError err) | None \<Rightarrow> (202, JMessage ''rollback started''))
   })"

abbreviation em_dash :: string where "em_dash \<equiv> [CHR 0xE2, CHR 0x80, CHR 0x94]"

definition stop_or_start :: "string \<Rightarrow> string \<Rightarrow> (int \<Rightarrow> unit result prog) \<Rightarrow> string \<Rightarrow> reply prog" where
  "stop_or_start verb past op param = do {
     a \<leftarrow> db_get (Repo_Get (url_id param));
     if map_option app_Status a = Some ''draft''
     then ret (400, JError (''cannot '' @ verb @ '' a draft '' @ em_dash @ '' deploy it first''))
     else refuseBusy (url_id param) (do {
       r \<leftarrow> op (url_id param);
       ret (case r of Inl err \<Rightarrow> (500, JError err) | Inr _ \<Rightarrow> (200, JMessage past))
     })
   }"

definition Handler_Stop :: "env \<Rightarrow> string \<Rightarrow> reply prog" where
  "Handler_Stop E = stop_or_start ''stop'' ''stopped'' (Stop E)"

definition Handler_Start :: "env \<Rightarrow> string \<Rightarrow> reply prog" where
  "Handler_Start E = stop_or_start ''start'' ''started'' (Start E)"

section \<open>Variables, files and history\<close>

definition Handler_ListSecrets :: "string \<Rightarrow> reply prog" where
  "Handler_ListSecrets param = do { l \<leftarrow> db_get (Repo_ListSecrets (url_id param)); ret (200, JSecrets l) }"

abbreviation j_ok :: reply where "j_ok \<equiv> (200, JMessage ''ok'')"

definition answer :: "unit result \<Rightarrow> reply" where
  "answer r = (case r of Inl err \<Rightarrow> (500, JError err) | Inr _ \<Rightarrow> j_ok)"

definition Handler_SetSecret :: "string \<Rightarrow> (string \<times> string \<times> bool option) option \<Rightarrow> reply prog" where
  "Handler_SetSecret param input =
     (case input of
        None \<Rightarrow> ret (400, JError ''invalid JSON'')
      | Some (key, val, isSecret) \<Rightarrow>
          if key = [] then ret (400, JError ''key is required'')
          else (case ValidEnvKey key of
             Inl err \<Rightarrow> ret (400, JError err)
           | Inr _ \<Rightarrow> do {
               r \<leftarrow> db_try (\<lambda>_. case isSecret of None \<Rightarrow> Repo_SetSecret (url_id param) key val
                 | Some b \<Rightarrow> Repo_SetSecretWithType (url_id param) key val b);
               ret (answer r)
             }))"

definition Handler_DeleteSecret :: "string \<Rightarrow> string \<Rightarrow> reply prog" where
  "Handler_DeleteSecret param key = do { db_do (\<lambda>_. Repo_DeleteSecret (url_id param) key); ret j_ok }"

definition Handler_ListFiles :: "string \<Rightarrow> reply prog" where
  "Handler_ListFiles param = do { l \<leftarrow> db_get (Repo_ListFiles (url_id param)); ret (200, JFiles l) }"

definition Handler_SetFile :: "string \<Rightarrow> (string \<times> string) option \<Rightarrow> reply prog" where
  "Handler_SetFile param input =
     (case input of
        None \<Rightarrow> ret (400, JError ''invalid JSON'')
      | Some (path, content) \<Rightarrow>
          if path = [] then ret (400, JError ''path is required'')
          else (case ValidFilePath path of
             Inl err \<Rightarrow> ret (400, JError err)
           | Inr p \<Rightarrow> do { r \<leftarrow> db_try (\<lambda>_. Repo_SetFile (url_id param) p content); ret (answer r) }))"

definition Handler_DeleteFile :: "string \<Rightarrow> string \<Rightarrow> reply prog" where
  "Handler_DeleteFile param path =
     (case ValidFilePath path of
        Inl err \<Rightarrow> ret (400, JError err)
      | Inr p \<Rightarrow> do { db_do (\<lambda>_. Repo_DeleteFile (url_id param) p); ret j_ok })"

definition Handler_ListDeployments :: "env \<Rightarrow> string \<Rightarrow> reply prog" where
  "Handler_ListDeployments E param = do {
     h \<leftarrow> trace;
     l \<leftarrow> db_get (Repo_ListDeployments (e_plan_deps E h) (url_id param));
     ret (200, JDeployments l)
   }"

definition Handler_ClearDeployments :: "string \<Rightarrow> reply prog" where
  "Handler_ClearDeployments param = do { db_do (\<lambda>_. Repo_DeleteDeployments (url_id param)); ret j_ok }"

definition Handler_GetDeployment :: "string \<Rightarrow> reply prog" where
  "Handler_GetDeployment param = do {
     x \<leftarrow> db_get (Repo_GetDeployment (url_id param));
     ret (case x of None \<Rightarrow> (404, JError ''deployment not found'') | Some dep \<Rightarrow> (200, JDeployment dep))
   }"

definition Handler_Logs :: "env \<Rightarrow> string \<Rightarrow> string \<Rightarrow> reply prog" where
  "Handler_Logs E param tail = do {
     r \<leftarrow> FetchLogs E (url_id param) (if url_id tail \<le> 0 then 100 else url_id tail);
     ret (case r of Inl err \<Rightarrow> (500, Plain (err @ nl)) | Inr logs \<Rightarrow> (200, Plain logs))
   }"

section \<open>Loops over rows\<close>

lemma now_s_db [simp]: "now_s (w\<lparr>w_db := d\<rparr>) = now_s w"
  by (simp add: now_s_def)

lemma exec_forM_db:
  assumes "\<And>x w. exec (f x) w = w\<lparr>w_db := g (now_s w) x (w_db w)\<rparr>"
  shows "exec (forM xs f) w = w\<lparr>w_db := fold (g (now_s w)) xs (w_db w)\<rparr>"
proof (induction xs arbitrary: w)
  case (Cons x xs)
  show ?case by (simp only: forM.simps exec_bind assms Cons.IH) simp
qed simp

lemma exec_db_try_ret: "exec (do { db_try f; ret x }) w = w\<lparr>w_db := snd (f (now_s w) (w_db w))\<rparr>"
  by (simp add: exec_bind exec_db_try)

lemma exec_save_route: "exec (save_route i sid dm) w = w\<lparr>w_db := snd (Repo_SaveRoute (now_s w) (new_route i sid dm []) (w_db w))\<rparr>"
  by (simp add: save_route_def exec_db_try_ret)

declare exec_db_do [simp]

lemma wp_go [wp_simps]: "wp (go_task t) Q w = Q () (w\<lparr>w_tasks := w_tasks w @ [t]\<rparr>)"
  by (simp add: go_task_def wp_simps)

lemma wp_Busy [wp_simps]: "wp (Busy i) Q w = Q (i \<in> w_locked w) w"
  by (simp add: Busy_def wp_simps)

lemma wp_getRoutes [wp_simps]: "wp (getRoutes E i) Q w = Q (Repo_GetRoutes (e_plan_routes E (w_trace w)) i (w_db w)) w"
  by (simp add: getRoutes_def wp_simps)

lemma wp_refuseBusy [wp_simps]:
  "wp (refuseBusy i m) Q w = (if i \<in> w_locked w then Q (409, JError ''operation in progress'') w else wp m Q w)"
  by (simp add: refuseBusy_def wp_simps)

section \<open>What a patch leaves alone\<close>

definition patched_fields :: "int \<Rightarrow> App \<Rightarrow> App" where
  "patched_fields i a = (if app_ID a = i
     then a\<lparr>app_Compose := [], app_ComposeMode := [], app_ServerID := 0, app_UpdatedAt := 0\<rparr> else a)"

text \<open>Everything but the fields a patch may change, the servers of routes and the time of the row.\<close>

definition patch_scope :: "int \<Rightarrow> world \<Rightarrow> App list \<times> (int \<times> string) list \<times> AppSecret list \<times> AppFile list
    \<times> Deployment list \<times> DNSRecordInfo list \<times> Server list \<times> event list" where
  "patch_scope i w = (map (patched_fields i) (apps (w_db w)), map (\<lambda>r. (rt_AppID r, rt_Domain r)) (routes (w_db w)),
     app_secrets (w_db w), app_files (w_db w), deployments (w_db w), dns_records (w_db w), servers (w_db w), w_trace w)"

lemma patch_scope_update:
  assumes "db_ok d" and "Repo_Get i d = Some old"
    and "patched_fields i new = patched_fields i old" and "app_ID new = i"
  shows "patch_scope i (w\<lparr>w_db := snd (Repo_Update now new d)\<rparr>) = patch_scope i (w\<lparr>w_db := d\<rparr>)"
proof -
  have old: "app_ID old = i" "old \<in> set (apps d)" using Repo_Get_ids [OF assms(2)] by auto
  have "patched_fields i (new\<lparr>app_CreatedAt := app_CreatedAt b, app_UpdatedAt := now\<rparr>) = patched_fields i b"
    if "b \<in> set (apps d)" "app_ID b = i" for b
  proof -
    have "distinct (map app_ID (apps d))" using assms(1) by (simp add: db_ok_def ids_inv_def ids_ok_def)
    with that old have "b = old" by (metis distinct_map inj_on_def)
    with assms(3,4) old show ?thesis
      by (cases old, cases new) (simp add: patched_fields_def)
  qed
  then show ?thesis
    using assms(4) by (auto simp: patch_scope_def Repo_Update_def map_app_def)
qed

lemma patch_scope_route:
  assumes "(i, dm) \<in> set (map (\<lambda>r. (rt_AppID r, rt_Domain r)) (routes (w_db w)))"
  shows "patch_scope i (w\<lparr>w_db := snd (Repo_SaveRoute now (new_route i sid dm []) (w_db w))\<rparr>) = patch_scope i w"
proof (cases "find (\<lambda>x. rt_AppID x = i \<and> rt_Domain x = dm) (routes (w_db w))")
  case None
  with assms show ?thesis by (auto simp: find_None_iff)
next
  case (Some x)
  have "map (\<lambda>r. (rt_AppID r, rt_Domain r)) (map (\<lambda>y. if rt_AppID y = i \<and> rt_Domain y = dm then g y else y) rs)
    = map (\<lambda>r. (rt_AppID r, rt_Domain r)) rs" if "\<And>y. rt_AppID (g y) = rt_AppID y \<and> rt_Domain (g y) = rt_Domain y" for g rs
    using that by (induction rs) auto
  from this [of "\<lambda>y. y\<lparr>rt_ServerID := sid, rt_Status := ''active''\<rparr>"] Some show ?thesis
    by (auto simp: patch_scope_def Repo_SaveRoute_def new_route_def)
qed

lemma patch_start_scope:
  "wp (patch_start E i pin s t moving changed isDraft)
     (\<lambda>_ w'. patch_scope i w' = patch_scope i w \<and> (\<exists>ts. w_tasks w' = w_tasks w @ ts \<and> length ts \<le> 1)) w"
proof -
  let ?I = "\<lambda>w'. patch_scope i w' = patch_scope i w \<and> w_tasks w' = w_tasks w"
  let ?rs = "Repo_GetRoutes (e_plan_routes E (w_trace w)) i (w_db w)"
  have "wp (forM ?rs (\<lambda>rt. save_route i t (rt_Domain rt))) (\<lambda>_. ?I) w"
  proof (rule wp_forM)
    fix rt v
    assume rt: "rt \<in> set ?rs" and v: "?I v"
    then have "(i, rt_Domain rt) \<in> set (map (\<lambda>r. (rt_AppID r, rt_Domain r)) (routes (w_db v)))"
      by (auto simp: patch_scope_def Repo_GetRoutes_def image_iff)
    from patch_scope_route [OF this] v show "wp (save_route i t (rt_Domain rt)) (\<lambda>_. ?I) v"
      by (simp add: wp_exec exec_save_route)
  qed simp
  then have loop: "wp (do { forM ?rs (\<lambda>rt. save_route i t (rt_Domain rt)); go_task task; ret action })
    (\<lambda>_ w'. patch_scope i w' = patch_scope i w \<and> (\<exists>ts. w_tasks w' = w_tasks w @ ts \<and> length ts \<le> 1)) w" for task action
    unfolding wp_bind by (rule wp_mono) (simp add: wp_simps, simp add: patch_scope_def)
  have one: "patch_scope i (w\<lparr>w_tasks := w_tasks w @ [task]\<rparr>) = patch_scope i w" for task by (simp add: patch_scope_def)
  have routes: "wp (do { rs \<leftarrow> getRoutes E i; g rs }) Q w = wp (g ?rs) Q w" for g and Q :: "string \<Rightarrow> world \<Rightarrow> bool"
    by (simp add: wp_simps)
  show ?thesis
    unfolding patch_start_def
    by (cases "moving \<and> pi_MoveFiles pin"; cases moving; cases "changed \<and> \<not> isDraft"; simp add: routes loop [simplified];
        simp add: wp_simps one)
qed

abbreviation in_scope :: "int \<Rightarrow> world \<Rightarrow> world \<Rightarrow> bool" where
  "in_scope i w w' \<equiv> patch_scope i w' = patch_scope i w \<and> (\<exists>ts. w_tasks w' = w_tasks w @ ts \<and> length ts \<le> 1)"

lemma patch_save_scope:
  assumes "db_ok (w_db w)" and "Repo_Get i (w_db w) = Some old"
    and "patched_fields i app = patched_fields i old" and "app_ID app = i"
  shows "wp (patch_save E i pin old app sid) (\<lambda>_. in_scope i w) w"
proof -
  let ?moving = "sid \<noteq> app_ServerID old \<and> app_Status old \<noteq> ''draft'' \<and> app_ServerID old \<noteq> 0"
  let ?app = "app\<lparr>app_ServerID := if ?moving \<and> pi_MoveFiles pin then app_ServerID old else sid\<rparr>"
  let ?w1 = "w\<lparr>w_db := snd (Repo_Update (now_s w) ?app (w_db w))\<rparr>"
  have "patched_fields i ?app = patched_fields i old" "app_ID ?app = i"
    using assms(3,4) by (simp_all add: patched_fields_def)
  from patch_scope_update [OF assms(1,2) this, where w = w and now = "now_s w"] have upd: "patch_scope i ?w1 = patch_scope i w" by simp
  have start: "wp (do { action \<leftarrow> patch_start E i pin s t mv ch dr; ret (g action) }) (\<lambda>_. in_scope i w) v"
    if "patch_scope i v = patch_scope i w" "w_tasks v = w_tasks w" for s t mv ch dr v and g :: "string \<Rightarrow> reply"
    using patch_start_scope [of E i pin s t mv ch dr v] unfolding wp_bind wp_ret that .
  show ?thesis
  proof (cases "(pi_MoveFiles pin \<or> pi_PurgeOld pin) \<and> \<not> ?moving")
    case True
    then show ?thesis unfolding patch_save_def Let_def by (simp only: if_True) (simp add: wp_ret)
  next
    case False
    show ?thesis
    proof (cases "pi_Compose pin \<noteq> None \<or> sid \<noteq> app_ServerID old")
      case True
      have save: "wp (db_try (\<lambda>now. Repo_Update now ?app))
          (\<lambda>_ v. patch_scope i v = patch_scope i w \<and> w_tasks v = w_tasks w) w"
        unfolding wp_exec exec_db_try using upd by simp
      have rest: "wp (case u of Inl err \<Rightarrow> ret (500, JError (friendlyError err))
          | Inr _ \<Rightarrow> do { action \<leftarrow> patch_start E i pin s t mv ch dr; ret (g action) }) (\<lambda>_. in_scope i w) v"
        if "patch_scope i v = patch_scope i w \<and> w_tasks v = w_tasks w"
        for v s t mv ch dr and u :: "unit result" and g :: "string \<Rightarrow> reply"
        using that start [of v s t mv ch dr g] by (cases u) (simp_all add: wp_ret)
      from False True show ?thesis
        unfolding patch_save_def Let_def
        by (simp only: if_False if_True) (subst wp_bind, rule wp_mono [OF save], rule rest)
    next
      case unchanged: False
      with False show ?thesis
        unfolding patch_save_def Let_def
        by (simp only: if_False if_True) (subst wp_bind, simp only: wp_ret sum.case, rule start; simp)
    qed
  qed
qed

lemma patch_compose_fields:
  "patch_compose c old = Inr app \<Longrightarrow> app_ID old = i \<Longrightarrow> patched_fields i app = patched_fields i old \<and> app_ID app = i"
  by (auto simp: patch_compose_def patched_fields_def split: option.splits if_splits)

lemma wp_patch_server: "wp (patch_server sid app) Q w = Q (result (patch_server sid app) w) w"
  unfolding wp_exec_result
  by (simp add: patch_server_def exec_get_bind split: option.split)



section \<open>What creating an app stores\<close>

definition create_vars :: "create_input \<Rightarrow> (string \<times> string \<times> bool) list" where
  "create_vars ci = map (\<lambda>e. (TrimSpace (ev_Key e), ev_Value e, ev_IsSecret e))
     (filter (\<lambda>e. TrimSpace (ev_Key e) \<noteq> []) (ci_EnvVars ci))"

abbreviation put_secret :: "int \<Rightarrow> string \<times> string \<times> bool \<Rightarrow> db \<Rightarrow> db" where
  "put_secret i \<equiv> \<lambda>(k, v) d. snd ((case v of (v, b) \<Rightarrow> Repo_SetSecretWithType i k v b) d)"

abbreviation put_route :: "int \<Rightarrow> int \<Rightarrow> int \<Rightarrow> string \<Rightarrow> db \<Rightarrow> db" where
  "put_route now i sid dm d \<equiv> snd (Repo_SaveRoute now (new_route i sid dm []) d)"

lemma secrets_part:
  "routes (fold (put_secret i) kvs d) = routes d" "apps (fold (put_secret i) kvs d) = apps d"
  "app_ids (fold (put_secret i) kvs d) = app_ids d" "server_ids (fold (put_secret i) kvs d) = server_ids d"
proof -
  have one: "routes (put_secret i x d) = routes d" "apps (put_secret i x d) = apps d"
    "server_ids (put_secret i x d) = server_ids d" for x d
    by (simp_all add: case_prod_beta Repo_SetSecretWithType_def upsert_secret_def server_ids_def)
  show "routes (fold (put_secret i) kvs d) = routes d" "apps (fold (put_secret i) kvs d) = apps d"
    "server_ids (fold (put_secret i) kvs d) = server_ids d"
    by (induction kvs arbitrary: d) (simp_all add: one)
  then show "app_ids (fold (put_secret i) kvs d) = app_ids d" by (simp add: app_ids_def)
qed

lemma routes_part:
  "app_secrets (fold (put_route now i sid) dms d) = app_secrets d" "apps (fold (put_route now i sid) dms d) = apps d"
proof -
  have one: "app_secrets (put_route now i sid dm d) = app_secrets d" "apps (put_route now i sid dm d) = apps d" for dm d
    by (simp_all add: Repo_SaveRoute_def Let_def split: option.split)
  show "app_secrets (fold (put_route now i sid) dms d) = app_secrets d" "apps (fold (put_route now i sid) dms d) = apps d"
    by (induction dms arbitrary: d) (simp_all add: one)
qed

lemma saved_routes:
  assumes "i \<in> app_ids d"
  shows "route_server_of (fold (put_route now i sid) dms d) j dm
    = (if j = i \<and> sid \<in> server_ids d \<and> dm \<in> set dms then Some sid else route_server_of d j dm)"
proof (cases "sid \<in> server_ids d")
  case True
  have "route_server_of (fold (\<lambda>(k, v) d. snd (Repo_SaveRoute now (new_route i v k []) d)) (map (\<lambda>dm. (dm, sid)) dms) d) j dm
    = (if j = i then (case map_of (rev (map (\<lambda>dm. (dm, sid)) dms)) dm of Some v \<Rightarrow> Some v | None \<Rightarrow> route_server_of d j dm)
       else route_server_of d j dm)"
    by (rule route_store.lookup_fold) (use assms True in auto)
  moreover have "map_of (rev (map (\<lambda>dm. (dm, sid)) dms)) dm = (if dm \<in> set dms then Some sid else None)"
    by (auto simp: rev_map map_of_map_restrict restrict_map_def)
  ultimately show ?thesis using True by (simp add: fold_map comp_def)
next
  case False
  then have "put_route now i sid dm d = d" for dm
    by (simp add: Repo_SaveRoute_def new_route_def)
  then have "fold (put_route now i sid) dms d = d" by (induction dms) simp_all
  with False show ?thesis by simp
qed

lemma store_app_run:
  fixes w :: world and ci :: create_input and a :: App and domains :: "string list"
  defines "r \<equiv> Repo_Create (now_s w) a (w_db w)"
  shows "fst r = Inl err \<Longrightarrow> exec (store_app ci a domains) w = w \<and> fst (result (store_app ci a domains) w) = 500"
    and "fst r = Inr i \<Longrightarrow> exec (store_app ci a domains) w
      = w\<lparr>w_db := fold (put_route (now_s w) i (app_ServerID a)) (create_routes (app_Domain a) domains)
           (fold (put_secret i) (create_vars ci) (snd r)),
          w_tasks := w_tasks w @ (if ci_Draft ci then [] else [TaskDeploy i []])\<rparr>
      \<and> fst (result (store_app ci a domains) w) = 201"
proof -
  have vars: "exec (forM es (\<lambda>e. if TrimSpace (ev_Key e) = [] then ret ()
        else do { db_try (\<lambda>_. Repo_SetSecretWithType i (TrimSpace (ev_Key e)) (ev_Value e) (ev_IsSecret e)); ret () })) v
      = v\<lparr>w_db := fold (put_secret i) (map (\<lambda>e. (TrimSpace (ev_Key e), ev_Value e, ev_IsSecret e))
        (filter (\<lambda>e. TrimSpace (ev_Key e) \<noteq> []) es)) (w_db v)\<rparr>" for i es and v :: world
    by (induction es arbitrary: v) (auto simp: exec_bind exec_db_try)
  have create: "exec (db_try (\<lambda>now. Repo_Create now a)) w = w\<lparr>w_db := snd r\<rparr>"
      "result (db_try (\<lambda>now. Repo_Create now a)) w = fst r"
    by (simp_all add: exec_db_try r_def) (simp add: db_try_def result_def split: prod.splits)
  have put': "exec (save_route i s dm) v = v\<lparr>w_db := (\<lambda>now. put_route now i s) (now_s v) dm (w_db v)\<rparr>" for i s dm v
    by (simp add: exec_save_route)
  show "exec (store_app ci a domains) w = w \<and> fst (result (store_app ci a domains) w) = 500" if "fst r = Inl err"
  proof -
    have "snd r = w_db w" using that by (auto simp: r_def Repo_Create_def Let_def split: if_splits)
    with that show ?thesis
      unfolding store_app_def exec_bind [of "db_try _"] result_bind [of "db_try _"] create by simp
  qed
  show "exec (store_app ci a domains) w
      = w\<lparr>w_db := fold (put_route (now_s w) i (app_ServerID a)) (create_routes (app_Domain a) domains)
           (fold (put_secret i) (create_vars ci) (snd r)),
          w_tasks := w_tasks w @ (if ci_Draft ci then [] else [TaskDeploy i []])\<rparr>
      \<and> fst (result (store_app ci a domains) w) = 201" if "fst r = Inr i"
    unfolding store_app_def exec_bind [of "db_try _"] result_bind [of "db_try _"] create that sum.case
      exec_bind [of "forM _ _"] vars exec_forM_db [OF put'] create_vars_def
    by (simp add: exec_bind result_bind exec_go)
qed

lemma create_fresh:
  assumes "db_ok d" and "fst (Repo_Create now a d) = Inr i"
  defines "d1 \<equiv> snd (Repo_Create now a d)"
  shows "i = next_id TApps d" and "server_ref d (app_ServerID a)"
    and "apps d1 = apps d @ [a\<lparr>app_ID := i, app_Status := defaultStatus (app_Status a), app_CreatedAt := now, app_UpdatedAt := now\<rparr>]"
    and "i \<in> app_ids d1" and "server_ids d1 = server_ids d"
    and "secret_of d1 i k = None" and "route_server_of d1 i dm = None"
proof -
  from assms(2) have i: "i = next_id TApps d" and ref: "server_ref d (app_ServerID a)"
    and d1: "d1 = bump TApps (d\<lparr>apps := apps d @ [a\<lparr>app_ID := i, app_Status := defaultStatus (app_Status a),
      app_CreatedAt := now, app_UpdatedAt := now\<rparr>]\<rparr>)"
    by (auto simp: Repo_Create_def d1_def Let_def split: if_splits)
  then show "i = next_id TApps d" "server_ref d (app_ServerID a)" "i \<in> app_ids d1" "server_ids d1 = server_ids d"
    "apps d1 = apps d @ [a\<lparr>app_ID := i, app_Status := defaultStatus (app_Status a), app_CreatedAt := now, app_UpdatedAt := now\<rparr>]"
    by (simp_all add: app_ids_def server_ids_def)
  have "i \<notin> app_ids d"
    using assms(1) i by (auto simp: db_ok_def ids_inv_def ids_ok_def app_ids_def next_id_def)
  moreover have "\<forall>s \<in> set (app_secrets d). sec_AppID s \<in> app_ids d" "\<forall>r \<in> set (routes d). rt_AppID r \<in> app_ids d"
    using assms(1) by (auto simp: db_ok_def refs_inv_def refs_ok_def)
  ultimately show "secret_of d1 i k = None" "route_server_of d1 i dm = None"
    by (auto simp: secret_of_def route_server_of_def d1 find_None_iff)
qed

text \<open>What a request that was answered with 201 has stored and started.\<close>

definition created :: "create_input \<Rightarrow> world \<Rightarrow> world \<Rightarrow> bool" where
  "created ci w w' \<longleftrightarrow> (\<exists>domains a. let i = next_id TApps (w_db w) in
     create_domains (ci_Domain ci # ci_Domains ci) = Inr domains
     \<and> apps (w_db w') = apps (w_db w) @ [a] \<and> app_ID a = i \<and> app_Name a = ci_Name ci \<and> app_Domain a = hd domains
     \<and> app_Status a = (if ci_Draft ci then ''draft'' else ''created'') \<and> server_ref (w_db w) (app_ServerID a)
     \<and> (ci_ServerID ci = 0 \<and> \<not> ci_Draft ci \<or> app_ServerID a = ci_ServerID ci)
     \<and> (\<forall>k. secret_of (w_db w') i k = map_of (rev (create_vars ci)) k)
     \<and> (\<forall>dm. route_server_of (w_db w') i dm
          = (if app_ServerID a \<in> server_ids (w_db w) \<and> dm \<in> set (create_routes (hd domains) (tl domains))
             then Some (app_ServerID a) else None))
     \<and> w_tasks w' = w_tasks w @ (if ci_Draft ci then [] else [TaskDeploy i []]))"

lemma store_app_created:
  assumes "db_ok (w_db w)" and "create_domains (ci_Domain ci # ci_Domains ci) = Inr domains"
    and "fst (Repo_Create (now_s w) (create_app ci sid (hd domains) compose) (w_db w)) = Inr i"
    and "ci_ServerID ci = 0 \<and> \<not> ci_Draft ci \<or> sid = ci_ServerID ci"
  shows "created ci w (exec (store_app ci (create_app ci sid (hd domains) compose) (tl domains)) w)"
proof -
  let ?a = "create_app ci sid (hd domains) compose"
  let ?d1 = "snd (Repo_Create (now_s w) ?a (w_db w))"
  let ?row = "?a\<lparr>app_ID := i, app_Status := defaultStatus (app_Status ?a), app_CreatedAt := now_s w, app_UpdatedAt := now_s w\<rparr>"
  let ?d2 = "fold (put_secret i) (create_vars ci) ?d1"
  let ?w' = "exec (store_app ci ?a (tl domains)) w"
  note fresh = create_fresh [OF assms(1,3)]
  have w': "?w' = w\<lparr>w_db := fold (put_route (now_s w) i sid) (create_routes (hd domains) (tl domains)) ?d2,
      w_tasks := w_tasks w @ (if ci_Draft ci then [] else [TaskDeploy i []])\<rparr>"
    using store_app_run(2) [OF assms(3), of ci "tl domains"] by (simp add: create_app_def)
  have sec: "secret_of (w_db ?w') i k = map_of (rev (create_vars ci)) k" for k
    using secret_store.lookup_fold [where kvs = "create_vars ci" and d = ?d1 and i = i and j = i and l = k] fresh(4,6)
    by (simp add: w' secret_of_def routes_part split: option.splits)
  have "i \<in> app_ids ?d2" using fresh(4) by (simp add: secrets_part)
  from saved_routes [OF this]
  have rt: "route_server_of (w_db ?w') i dm
      = (if sid \<in> server_ids (w_db w) \<and> dm \<in> set (create_routes (hd domains) (tl domains)) then Some sid else None)" for dm
    using fresh(5,7) by (simp add: w' route_server_of_def secrets_part)
  have row: "apps (w_db ?w') = apps (w_db w) @ [?row]"
    using fresh(3) by (simp add: w' routes_part secrets_part)
  have fields: "app_ID ?row = i" "app_ServerID ?row = sid" "app_ServerID ?a = sid" "app_Name ?row = ci_Name ci"
      "app_Domain ?row = hd domains" "app_Status ?row = (if ci_Draft ci then ''draft'' else ''created'')"
    by (simp_all add: create_app_def defaultStatus_def)
  have tasks: "w_tasks ?w' = w_tasks w @ (if ci_Draft ci then [] else [TaskDeploy i []])" by (simp only: w') simp
  note ref = fresh(2) [unfolded fields(3)]
  show ?thesis
    unfolding created_def Let_def fresh(1) [symmetric]
    by (intro exI [of _ domains] exI [of _ ?row] conjI allI)
      (simp_all only: assms(2,4) row sec rt fields tasks ref)
qed

text \<open>What an answer of \<open>Handler_Create\<close> leaves: the app, or nothing.\<close>

abbreviation all_or_nothing :: "create_input \<Rightarrow> world \<Rightarrow> reply \<Rightarrow> world \<Rightarrow> bool" where
  "all_or_nothing ci w r w' \<equiv> (if fst r = 201 then created ci w w' else w' = w)"

lemma store_all_or_nothing:
  assumes "db_ok (w_db w)" and "create_domains (ci_Domain ci # ci_Domains ci) = Inr domains"
    and "ci_ServerID ci = 0 \<and> \<not> ci_Draft ci \<or> sid = ci_ServerID ci"
  shows "wp (store_app ci (create_app ci sid (hd domains) compose) (tl domains)) (all_or_nothing ci w) w"
proof (cases "fst (Repo_Create (now_s w) (create_app ci sid (hd domains) compose) (w_db w))")
  case (Inl err)
  from store_app_run(1) [OF this] show ?thesis by (simp add: wp_exec_result)
next
  case (Inr i)
  from store_app_run(2) [OF this] store_app_created [OF assms(1,2) Inr assms(3)] show ?thesis by (simp add: wp_exec_result)
qed

lemma picked_all_or_nothing:
  assumes "db_ok (w_db w)" and "create_domains (ci_Domain ci # ci_Domains ci) = Inr domains"
    and "ci_ServerID ci = 0 \<and> \<not> ci_Draft ci \<or> p = Some (Inr (ci_ServerID ci))"
  shows "wp (case p of
         None \<Rightarrow> ret (500, Aborted)
       | Some (Inl err) \<Rightarrow> ret (400, JError (''auto-select failed: '' @ err))
       | Some (Inr serverID) \<Rightarrow> store_app ci (create_app ci serverID (hd domains) compose) (tl domains)) (all_or_nothing ci w) w"
proof (cases p)
  case None
  then show ?thesis by (simp add: wp_ret)
next
  case (Some q)
  then show ?thesis
    using store_all_or_nothing [OF assms(1,2), of "projr q" compose] assms(3)
    by (cases q) (simp add: wp_ret, simp only: option.case sum.case sum.sel option.inject sum.inject)
qed

lemma wp_PickServerID:
  assumes "\<And>p. Q p w"
  shows "wp (PickServerID E) Q w"
  using assms unfolding wp_exec_result by (simp add: keepsD [OF keeps_PickServerID [where f = "\<lambda>w. w"]])

lemma pick_all_or_nothing:
  assumes "db_ok (w_db w)" and "create_domains (ci_Domain ci # ci_Domains ci) = Inr domains"
  shows "wp (do {
       p \<leftarrow> (if ci_ServerID ci = 0 \<and> \<not> ci_Draft ci then PickServerID E else ret (Some (Inr (ci_ServerID ci))));
       case p of
         None \<Rightarrow> ret (500, Aborted)
       | Some (Inl err) \<Rightarrow> ret (400, JError (''auto-select failed: '' @ err))
       | Some (Inr serverID) \<Rightarrow> store_app ci (create_app ci serverID (hd domains) compose) (tl domains)
     }) (all_or_nothing ci w) w"
  using picked_all_or_nothing [OF assms] unfolding wp_bind
  by (cases "ci_ServerID ci = 0 \<and> \<not> ci_Draft ci") (simp_all only: if_True if_False wp_PickServerID wp_ret simp_thms)

lemma create_all_or_nothing:
  assumes "db_ok (w_db w)"
  shows "wp (Handler_Create E (Some ci)) (all_or_nothing ci w) w"
proof -
  have refused: "wp (ret ((400, b) :: reply)) (all_or_nothing ci w) w" for b by (simp add: wp_ret)
  show ?thesis
  proof (cases "ci_Name ci = []")
    case True
    then show ?thesis unfolding Handler_Create_def option.case by (simp only: if_True simp_thms refused)
  next
    case False
    then show ?thesis
      unfolding Handler_Create_def option.case Let_def
      by (cases "create_domains (ci_Domain ci # ci_Domains ci)"; cases "create_env_keys (ci_EnvVars ci)";
          cases "create_compose E ci (projr (create_env_keys (ci_EnvVars ci))) = []";
          simp only: if_True if_False simp_thms sum.case sum.sel refused pick_all_or_nothing [OF assms])
  qed
qed


text \<open>A request for a draft with one variable, and the same with a blank domain.\<close>

definition sample_create :: create_input where
  "sample_create = \<lparr> ci_Name = ''b'', ci_ServerID = 1, ci_Domain = [], ci_Domains = [], ci_Port = 80, ci_Compose = ''c'',
     ci_Image = [], ci_EnvVars = [], ci_Volumes = [], ci_GitRepo = [], ci_GitBranch = [], ci_AuthUser = [], ci_AuthPass = [],
     ci_MemoryLimit = [], ci_CPULimit = [], ci_LogMaxSize = [], ci_LogMaxFile = [], ci_Command = [], ci_Ports = [],
     ci_UlimitsNofile = [], ci_Draft = False \<rparr>"

lemma TrimSpace_blank: "TrimSpace [] = []" "TrimSpace '' '' = []"
proof -
  show "TrimSpace [] = []" by (rule TrimSpace_id) simp_all
  show "TrimSpace '' '' = []" by code_simp
qed

lemma sample_create_run:
  assumes "TrimSpace dm = []"
  shows "fst (result (Handler_Create sample_env (Some (sample_create\<lparr>ci_Domain := dm\<rparr>))) sample_world) = 201"
proof -
  let ?ci = "sample_create\<lparr>ci_Domain := dm\<rparr>"
  have "fst (Repo_Create (now_s sample_world) (create_app ?ci 1 dm ''c'') (w_db sample_world)) = Inr 2"
    by (simp add: Repo_Create_def create_app_def sample_create_def sample_world_def sample_db_def empty_db_def sample_app_def
        server_ref_def server_ids_def sample_server_def next_id_def Let_def)
  from store_app_run(2) [OF this] show ?thesis
    using assms by (simp add: Handler_Create_def sample_create_def create_compose_def Let_def)
qed


text \<open>
  A domain of white space is neither refused nor dropped: the request is accepted, the app
  is created with that domain and a route for it is stored and goes to the proxy.
\<close>

theorem Handler_Create_blank_domain:
  "let w' = exec (Handler_Create sample_env (Some (sample_create\<lparr>ci_Domain := '' ''\<rparr>))) sample_world
   in route_server_of (w_db w') 2 '' '' = Some 1 \<and> w_tasks w' = [TaskDeploy 2 []]"
proof -
  let ?ci = "sample_create\<lparr>ci_Domain := '' ''\<rparr>"
  let ?a = "create_app ?ci 1 '' '' ''c''"
  have create: "fst (Repo_Create (now_s sample_world) ?a (w_db sample_world)) = Inr 2"
    by (simp add: Repo_Create_def create_app_def sample_create_def sample_world_def sample_db_def empty_db_def sample_app_def
        server_ref_def server_ids_def sample_server_def next_id_def Let_def)
  have dms: "create_domains (ci_Domain ?ci # ci_Domains ?ci) = Inr ['' '']"
    by (simp add: sample_create_def TrimSpace_blank)
  have "exec (Handler_Create sample_env (Some ?ci)) sample_world = exec (store_app ?ci ?a []) sample_world"
    by (simp add: Handler_Create_def sample_create_def create_compose_def Let_def TrimSpace_blank)
  with store_app_created [OF sample_ok dms, of 1 "''c''" 2] create [unfolded sample_create_def]
  have "created ?ci sample_world (exec (Handler_Create sample_env (Some ?ci)) sample_world)" by (simp add: sample_create_def)
  then show ?thesis
    unfolding created_def dms
    by (auto simp: Let_def sample_create_def create_routes_def sample_world_def sample_db_def empty_db_def next_id_def
        server_ref_def server_ids_def sample_server_def)
qed

end
