(* ===== verification/Forms.thy ===== *)
theory Forms
  imports Handlers
begin

text \<open>
  The web forms for apps, from the second half of \<open>internal/app/handler.go\<close>. A submitted form is
  the multimap \<open>r.Form\<close>; \<open>None\<close> is a form that does not parse. A rendered page is its template and
  the error it shows; the rows of the variable editor are modelled with the script of the page
  that puts them into hidden fields. A redirect is the path without the base path.
\<close>

section \<open>Form fields\<close>

type_synonym form = "string \<Rightarrow> string list"

definition FormValue :: "form \<Rightarrow> string \<Rightarrow> string" where
  "FormValue f k = (case f k of [] \<Rightarrow> [] | v # _ \<Rightarrow> v)"

definition trimmed_value :: "form \<Rightarrow> string \<Rightarrow> string" where
  "trimmed_value f k = TrimSpace (FormValue f k)"

text \<open>\<open>url.QueryEscape\<close>.\<close>

definition hex_upper :: "nat \<Rightarrow> char" where
  "hex_upper n = (if n < 10 then char_of (48 + n) else char_of (55 + n))"

definition query_byte :: "char \<Rightarrow> string" where
  "query_byte c =
     (if is_alpha c \<or> is_digit c \<or> c \<in> set ''-_.~'' then [c]
      else if c = CHR '' '' then ''+''
      else [CHR ''%'', hex_upper (of_char c div 16), hex_upper (of_char c mod 16)])"

definition QueryEscape :: "string \<Rightarrow> string" where
  "QueryEscape s = ByteReplace query_byte s"

definition parseDomains :: "form \<Rightarrow> string list" where
  "parseDomains f = first_seen [] (map (\<lambda>d. ToLower (TrimSpace d)) (f ''domain''))"

definition form_env_keys :: "form \<Rightarrow> string list" where
  "form_env_keys f = filter (\<lambda>k. k \<noteq> []) (map TrimSpace (f ''env_key''))"

text \<open>The variable editor.\<close>

record formEnvVar =
  fe_Key :: string
  fe_Value :: string
  fe_IsSecret :: bool
  fe_Masked :: bool
  fe_Orig :: string

text \<open>The rows that count: key, value, kind and the key the row was stored under.\<close>

definition submitted_rows :: "form \<Rightarrow> (string \<times> string \<times> bool \<times> string) list" where
  "submitted_rows f =
     map (\<lambda>i. (TrimSpace (f ''env_key'' ! i), f ''env_val'' ! i,
         i < length (f ''env_type'') \<and> f ''env_type'' ! i = ''secret'',
         if i < length (f ''env_orig'') then f ''env_orig'' ! i else []))
       (filter (\<lambda>i. TrimSpace (f ''env_key'' ! i) \<noteq> [] \<and> i < length (f ''env_val'')) [0..<length (f ''env_key'')])"

definition formEnvVars :: "form \<Rightarrow> formEnvVar list" where
  "formEnvVars f = map (\<lambda>(k, v, s, orig). let masked = (v = [] \<and> orig \<noteq> []) in
     \<lparr> fe_Key = k, fe_Value = v, fe_IsSecret = s, fe_Masked = masked, fe_Orig = if masked then orig else [] \<rparr>)
     (submitted_rows f)"

definition existing_secret :: "AppSecret list \<Rightarrow> string \<Rightarrow> AppSecret option" where
  "existing_secret existing k = find (\<lambda>e. sec_Key e = k) (rev existing)"

text \<open>The value a row stands for: a masked row of a secret keeps the stored one.\<close>

definition row_value :: "AppSecret list \<Rightarrow> string \<Rightarrow> string \<Rightarrow> string" where
  "row_value existing v orig =
     (if v = [] \<and> orig \<noteq> [] then
        (case existing_secret existing orig of
           None \<Rightarrow> v
         | Some e \<Rightarrow> if sec_IsSecret e then sec_Value e else v)
      else v)"

definition saveFormEnvVars :: "form \<Rightarrow> int \<Rightarrow> unit prog" where
  "saveFormEnvVars f i = do {
     existing \<leftarrow> db_get (Repo_ListSecrets i);
     forM (submitted_rows f) (\<lambda>(k, v, isSecret, orig).
       if isSecret \<and> row_value existing v orig = [] then ret ()
       else do { db_try (\<lambda>_. Repo_SetSecretWithType i k (row_value existing v orig) isSecret); ret () });
     forM existing (\<lambda>e. if sec_Key e \<in> set (map fst (submitted_rows f)) then ret ()
       else db_do (\<lambda>_. Repo_DeleteSecret i (sec_Key e)))
   }"

definition saveFormFiles :: "form \<Rightarrow> int \<Rightarrow> unit prog" where
  "saveFormFiles f i =
     forM [0..<length (f ''file_path'')] (\<lambda>n.
       case ValidFilePath (f ''file_path'' ! n) of
         Inl _ \<Rightarrow> ret ()
       | Inr p \<Rightarrow>
           if n \<ge> length (f ''file_content'') then ret ()
           else if f ''file_content'' ! n = [] then ret ()
           else do { db_try (\<lambda>_. Repo_SetFile i p (f ''file_content'' ! n)); ret () })"

text \<open>The rows the edit page shows: secret values stay on the server.\<close>

definition edit_env_list :: "AppSecret list \<Rightarrow> formEnvVar list" where
  "edit_env_list secrets = map (\<lambda>s. if sec_IsSecret s
     then \<lparr> fe_Key = sec_Key s, fe_Value = [], fe_IsSecret = True, fe_Masked = True, fe_Orig = sec_Key s \<rparr>
     else \<lparr> fe_Key = sec_Key s, fe_Value = sec_Value s, fe_IsSecret = False, fe_Masked = False, fe_Orig = [] \<rparr>) secrets"

definition edit_domains :: "App \<Rightarrow> Route list \<Rightarrow> string list" where
  "edit_domains app rs = (if app_Domain app \<noteq> [] then [app_Domain app] else [])
     @ map rt_Domain (filter (\<lambda>r. rt_Domain r \<noteq> app_Domain app) rs)"

section \<open>Adding an app\<close>

definition form_compose :: "env \<Rightarrow> form \<Rightarrow> string" where
  "form_compose E f = generateCompose (e_yaml E) (trimmed_value f ''image'') (url_id (FormValue f ''port''))
     (trimmed_value f ''volumes'') (trimmed_value f ''name'') (trimmed_value f ''memory_limit'')
     (trimmed_value f ''cpu_limit'') (trimmed_value f ''log_max_size'') (trimmed_value f ''log_max_file'')
     (form_env_keys f) (trimmed_value f ''command'') (trimmed_value f ''ports'') (trimmed_value f ''ulimits_nofile'')"

definition simple_mode :: "form \<Rightarrow> bool" where
  "simple_mode f \<longleftrightarrow> FormValue f ''mode'' = ''simple'' \<and> trimmed_value f ''image'' \<noteq> []"

definition main_branch :: "form \<Rightarrow> string" where
  "main_branch f = (if trimmed_value f ''git_branch'' = [] then ''main'' else trimmed_value f ''git_branch'')"

definition primary_domain :: "string list \<Rightarrow> string" where
  "primary_domain domains = (case filter (\<lambda>d. d \<noteq> []) domains of [] \<Rightarrow> [] | d # _ \<Rightarrow> d)"

definition add_domains :: "form \<Rightarrow> string list" where
  "add_domains f = (if parseDomains f = [] then [trimmed_value f ''domain''] else parseDomains f)"

definition add_app :: "env \<Rightarrow> form \<Rightarrow> App" where
  "add_app E f = \<lparr> app_ID = 0, app_Name = trimmed_value f ''name'', app_ServerID = url_id (FormValue f ''server_id''),
     app_Domain = primary_domain (add_domains f), app_Port = url_id (FormValue f ''port''),
     app_Compose = (if simple_mode f then form_compose E f else trimmed_value f ''compose''),
     app_GitRepo = trimmed_value f ''git_repo'', app_GitBranch = main_branch f,
     app_AuthUser = trimmed_value f ''auth_user'', app_AuthPass = trimmed_value f ''auth_pass'',
     app_Status = (if FormValue f ''draft'' = ''1'' then ''draft'' else []),
     app_ComposeMode = (if simple_mode f then ''simple'' else ''advanced''),
     app_MemoryLimit = trimmed_value f ''memory_limit'', app_CPULimit = trimmed_value f ''cpu_limit'',
     app_LogMaxSize = trimmed_value f ''log_max_size'', app_LogMaxFile = trimmed_value f ''log_max_file'',
     app_Command = trimmed_value f ''command'', app_Ports = trimmed_value f ''ports'',
     app_UlimitsNofile = trimmed_value f ''ulimits_nofile'', app_CreatedAt = 0, app_UpdatedAt = 0 \<rparr>"

definition app_path :: "int \<Rightarrow> string" where
  "app_path i = ''/apps/'' @ Itoa i"

definition store_form :: "form \<Rightarrow> App \<Rightarrow> reply prog" where
  "store_form f app = do {
     r \<leftarrow> db_try (\<lambda>now. Repo_Create now app);
     case r of
       Inl err \<Rightarrow> ret (500, Page ''apps_add.html'' (friendlyError err))
     | Inr i \<Rightarrow> do {
         saveFormEnvVars f i;
         saveFormFiles f i;
         forM (add_domains f) (\<lambda>d. if d = [] then ret () else save_route i (app_ServerID app) d);
         (if app_Status app = ''draft'' then ret () else go_task (TaskDeploy i []));
         ret (303, Redirect (app_path i))
       }
   }"

definition AppAddForm :: "env \<Rightarrow> form option \<Rightarrow> reply prog" where
  "AppAddForm E input =
     (case input of
        None \<Rightarrow> ret (400, Page ''_error'' ''invalid form data'')
      | Some f \<Rightarrow> do {
          let app = add_app E f;
          if app_Name app = [] \<or> app_Compose app = []
          then ret (400, Page ''apps_add.html'' ''name and compose (or image) are required'')
          else (case validateForm (f ''env_key'') (f ''file_path'') (add_domains f) of
             Inl err \<Rightarrow> ret (400, Page ''apps_add.html'' err)
           | Inr _ \<Rightarrow>
               if app_ServerID app = 0 \<and> app_Status app \<noteq> ''draft'' then do {
                 p \<leftarrow> PickServerID E;
                 case p of
                   None \<Rightarrow> ret (500, Aborted)
                 | Some (Inl _) \<Rightarrow>
                     ret (400, Page ''apps_add.html'' (''no available servers '' @ em_dash @ '' save as draft or add a server first''))
                 | Some (Inr sid) \<Rightarrow> store_form f (app\<lparr>app_ServerID := sid\<rparr>)
               } else store_form f app)
        })"

section \<open>Editing an app\<close>

definition checked :: "form \<Rightarrow> string \<Rightarrow> bool" where
  "checked f k \<longleftrightarrow> FormValue f k \<in> {''1'', ''true'', ''on''}"

definition edit_server :: "form \<Rightarrow> App \<Rightarrow> int" where
  "edit_server f old = (let sid = url_id (FormValue f ''server_id'') in
     if sid = 0 \<and> app_Status old \<noteq> ''draft'' then app_ServerID old else sid)"

text \<open>The form never has the stored password: empty keeps it, an empty user name removes it.\<close>

definition edit_auth_pass :: "form \<Rightarrow> App \<Rightarrow> string" where
  "edit_auth_pass f old =
     (if trimmed_value f ''auth_pass'' \<noteq> [] then trimmed_value f ''auth_pass''
      else if trimmed_value f ''auth_user'' = [] then [] else app_AuthPass old)"

definition edit_app :: "env \<Rightarrow> form \<Rightarrow> App \<Rightarrow> App" where
  "edit_app E f old = old\<lparr>
     app_Name := trimmed_value f ''name'', app_ServerID := edit_server f old,
     app_Domain := primary_domain (parseDomains f), app_Port := url_id (FormValue f ''port''),
     app_Compose := (if simple_mode f then form_compose E f
       else if trimmed_value f ''compose'' = [] then app_Compose old else trimmed_value f ''compose''),
     app_ComposeMode := (if simple_mode f then ''simple'' else ''advanced''),
     app_GitRepo := trimmed_value f ''git_repo'', app_GitBranch := main_branch f,
     app_AuthUser := trimmed_value f ''auth_user'', app_AuthPass := edit_auth_pass f old,
     app_MemoryLimit := trimmed_value f ''memory_limit'', app_CPULimit := trimmed_value f ''cpu_limit'',
     app_LogMaxSize := trimmed_value f ''log_max_size'', app_LogMaxFile := trimmed_value f ''log_max_file'',
     app_Command := trimmed_value f ''command'', app_Ports := trimmed_value f ''ports'',
     app_UlimitsNofile := trimmed_value f ''ulimits_nofile''\<rparr>"

abbreviation busyMsg :: string where
  "busyMsg \<equiv> ''Another operation on this app is still running; try again when it has finished.''"

definition server_label :: "int \<Rightarrow> db \<Rightarrow> string" where
  "server_label sid d = (case find (\<lambda>s. srv_ID s = sid) (rev (Srv_List d)) of
     None \<Rightarrow> CHR ''#'' # Itoa sid | Some s \<Rightarrow> srv_Name s)"

definition move_message :: "env \<Rightarrow> App \<Rightarrow> bool \<Rightarrow> bool \<Rightarrow> string \<Rightarrow> string \<Rightarrow> string" where
  "move_message E app moveFiles purgeOld oldName newName =
     (if moveFiles then
        ''Moving to '' @ newName @ '' in the background: '' @ oldName @ '' is stopped while files are copied; if the copy ''
          @ ''fails the app is restarted there. See the deployment history for the result.''
          @ (let vols = dockerVolumes (e_yaml E) (app_Compose app) in
             if vols = [] then [] else '' Warning: Docker volumes ('' @ Join vols '', '' @ '') are not copied.'')
      else ''App moved from '' @ oldName @ '' to '' @ newName @ ''.''
          @ (if purgeOld then '' '' @ oldName @ '' will be purged once the new deployment succeeds.''
             else '' Containers on '' @ oldName @ '' will be stopped once the new deployment succeeds.''))"

text \<open>The routes become the submitted domains; the result is the domains that went.\<close>

definition edit_routes :: "env \<Rightarrow> int \<Rightarrow> int \<Rightarrow> string list \<Rightarrow> string list prog" where
  "edit_routes E i serverID domains = do {
     oldRoutes \<leftarrow> getRoutes E i;
     forM domains (save_route i serverID);
     let removed = filter (\<lambda>d. d \<notin> set domains) (map rt_Domain oldRoutes);
     forM removed (\<lambda>d. db_do (\<lambda>_. Repo_DeleteRouteByDomain i d));
     ret removed
   }"

definition edit_start :: "int \<Rightarrow> bool \<Rightarrow> bool \<Rightarrow> bool \<Rightarrow> bool \<Rightarrow> int \<Rightarrow> int \<Rightarrow> string list \<Rightarrow> unit prog" where
  "edit_start i moving moveFiles purgeOld isDraft oldServerID serverID removed =
     (if moving \<and> moveFiles then go_task (TaskMoveApp i oldServerID serverID purgeOld)
      else if moving then go_task (TaskMoveWithoutFiles i oldServerID purgeOld removed)
      else if \<not> isDraft then go_task (TaskRedeploy i removed)
      else ret ())"

definition edit_save :: "env \<Rightarrow> form \<Rightarrow> int \<Rightarrow> App \<Rightarrow> App \<Rightarrow> reply prog" where
  "edit_save E f i old app = do {
     let isDraft = (app_Status old = ''draft'');
     let oldServerID = app_ServerID old;
     let serverID = app_ServerID app;
     let moving = (\<not> isDraft \<and> oldServerID \<noteq> 0 \<and> oldServerID \<noteq> serverID);
     let moveFiles = checked f ''move_files'';
     let purgeOld = checked f ''purge_old'';
     let app = (if moving \<and> moveFiles then app\<lparr>app_ServerID := oldServerID\<rparr> else app);
     oldName \<leftarrow> db_get (server_label oldServerID);
     newName \<leftarrow> db_get (server_label serverID);
     u \<leftarrow> db_try (\<lambda>now. Repo_Update now app);
     case u of
       Inl err \<Rightarrow> ret (500, Page ''apps_add.html'' err)
     | Inr _ \<Rightarrow> do {
         saveFormEnvVars f i;
         saveFormFiles f i;
         removed \<leftarrow> edit_routes E i (app_ServerID app) (parseDomains f);
         edit_start i moving moveFiles purgeOld isDraft oldServerID serverID removed;
         ret (303, Redirect (app_path i @ (if moving
           then ''?flash='' @ QueryEscape (move_message E app moveFiles purgeOld oldName newName) else [])))
       }
   }"

definition AppEditForm :: "env \<Rightarrow> string \<Rightarrow> form option \<Rightarrow> reply prog" where
  "AppEditForm E param input = do {
     a \<leftarrow> db_get (Repo_Get (url_id param));
     case a of
       None \<Rightarrow> ret (404, Page ''error.html'' ''app not found'')
     | Some old \<Rightarrow> (case input of
         None \<Rightarrow> ret (400, Page ''apps_add.html'' ''invalid form data'')
       | Some f \<Rightarrow> do {
           let app = edit_app E f old;
           if app_Name app = [] \<or> app_Compose app = []
           then ret (400, Page ''apps_add.html'' ''name and compose are required'')
           else (case validateForm (f ''env_key'') (f ''file_path'') (parseDomains f) of
              Inl err \<Rightarrow> ret (400, Page ''apps_add.html'' err)
            | Inr _ \<Rightarrow> do {
                busy \<leftarrow> Busy (url_id param);
                if busy then ret (409, Page ''apps_add.html'' busyMsg)
                else edit_save E f (url_id param) old app
              })
         })
   }"

section \<open>The buttons of the app page\<close>

definition web_refuseBusy :: "int \<Rightarrow> reply prog \<Rightarrow> reply prog" where
  "web_refuseBusy i continue = do {
     busy \<leftarrow> Busy i;
     if busy then ret (303, Redirect (app_path i @ ''?flash='' @ QueryEscape busyMsg)) else continue
   }"

definition AppDeleteWeb :: "string \<Rightarrow> reply prog" where
  "AppDeleteWeb param = web_refuseBusy (url_id param) (do {
     go_task (TaskUndeploy (url_id param));
     ret (303, Redirect ''/apps'')
   })"

definition AppClearDeploymentsWeb :: "string \<Rightarrow> reply prog" where
  "AppClearDeploymentsWeb param = do {
     db_do (\<lambda>_. Repo_DeleteDeployments (url_id param));
     ret (303, Redirect (app_path (url_id param)))
   }"

definition AppRedeployWeb :: "string \<Rightarrow> reply prog" where
  "AppRedeployWeb param = web_refuseBusy (url_id param) (do {
     go_task (TaskRedeploy (url_id param) []);
     ret (303, Redirect (app_path (url_id param)))
   })"

definition AppDeployWeb :: "string \<Rightarrow> reply prog" where
  "AppDeployWeb param = do {
     a \<leftarrow> db_get (Repo_Get (url_id param));
     case a of
       None \<Rightarrow> ret (404, Page ''error.html'' ''app not found'')
     | Some app \<Rightarrow>
         if app_ServerID app = 0 then ret (303, Redirect (app_path (url_id param) @ ''/edit''))
         else web_refuseBusy (url_id param) (do {
           updateStatus (url_id param) ''deploying'';
           go_task (TaskRedeploy (url_id param) []);
           ret (303, Redirect (app_path (url_id param)))
         })
   }"

definition web_answer :: "int \<Rightarrow> int \<Rightarrow> error option \<Rightarrow> reply" where
  "web_answer code i r = (case r of Some err \<Rightarrow> (code, Plain (err @ nl)) | None \<Rightarrow> (303, Redirect (app_path i)))"

definition AppRollbackWeb :: "env \<Rightarrow> string \<Rightarrow> reply prog" where
  "AppRollbackWeb E param = web_refuseBusy (url_id param) (do {
     r \<leftarrow> Rollback E (url_id param);
     ret (web_answer 400 (url_id param) r)
   })"

definition AppStopWeb :: "env \<Rightarrow> string \<Rightarrow> reply prog" where
  "AppStopWeb E param = web_refuseBusy (url_id param) (do {
     r \<leftarrow> Stop E (url_id param);
     ret (web_answer 500 (url_id param) (case r of Inl err \<Rightarrow> Some err | Inr _ \<Rightarrow> None))
   })"

definition AppStartWeb :: "env \<Rightarrow> string \<Rightarrow> reply prog" where
  "AppStartWeb E param = web_refuseBusy (url_id param) (do {
     r \<leftarrow> Start E (url_id param);
     ret (web_answer 500 (url_id param) (case r of Inl err \<Rightarrow> Some err | Inr _ \<Rightarrow> None))
   })"

definition AppRedeployAll :: "reply prog" where
  "AppRedeployAll = do {
     as \<leftarrow> db_get Repo_List;
     n \<leftarrow> foldM (\<lambda>n a.
       if app_Status a = ''running'' then do {
         busy \<leftarrow> Busy (app_ID a);
         if \<not> busy then do { go_task (TaskRedeploy (app_ID a) []); ret (n + 1) } else ret n
       } else ret n) 0 as;
     ret (303, Redirect (''/apps?flash='' @ QueryEscape (''Redeploying '' @ Itoa n @ '' running apps...'')))
   }"

section \<open>The variable editor\<close>

text \<open>What the form asks for: every row that is written, as a pair of key and contents.\<close>

definition written_rows :: "AppSecret list \<Rightarrow> form \<Rightarrow> (string \<times> string \<times> bool) list" where
  "written_rows existing f = filter (\<lambda>(k, v, s). \<not> (s \<and> v = []))
     (map (\<lambda>(k, v, s, orig). (k, row_value existing v orig, s)) (submitted_rows f))"

definition but_secrets :: "db \<Rightarrow> db" where
  "but_secrets d = d\<lparr>app_secrets := [], sqlite_sequence := (\<lambda>_. 0)\<rparr>"

lemma but_secrets_ops:
  "but_secrets (snd (Repo_SetSecretWithType i k v b d)) = but_secrets d"
  "but_secrets (Repo_DeleteSecret i k d) = but_secrets d"
  by (simp_all add: but_secrets_def Repo_SetSecretWithType_def upsert_secret_def bump_def Repo_DeleteSecret_def)

lemma exec_saveFormEnvVars:
  "exec (saveFormEnvVars f i) w = w\<lparr>w_db :=
     fold (\<lambda>k d. Repo_DeleteSecret i k d)
       (filter (\<lambda>k. k \<notin> set (map fst (submitted_rows f))) (map sec_Key (Repo_ListSecrets i (w_db w))))
       (fold (\<lambda>(k, v) d. snd ((case v of (v, b) \<Rightarrow> Repo_SetSecretWithType i k v b) d))
         (written_rows (Repo_ListSecrets i (w_db w)) f) (w_db w))\<rparr>"
proof -
  let ?ex = "Repo_ListSecrets i (w_db w)"
  let ?row = "\<lambda>(k, v, s, orig). (k, row_value ?ex v orig, s)"
  let ?g = "\<lambda>x. if (case x of (k, v, s, orig) \<Rightarrow> \<not> (s \<and> row_value ?ex v orig = []))
    then (\<lambda>d. snd ((case ?row x of (k, v) \<Rightarrow> case v of (v, b) \<Rightarrow> Repo_SetSecretWithType i k v b) d)) else id"
  have put: "exec (case x of (k, v, s, orig) \<Rightarrow> if s \<and> row_value ?ex v orig = [] then ret ()
      else do { db_try (\<lambda>_. Repo_SetSecretWithType i k (row_value ?ex v orig) s); ret () }) v
    = v\<lparr>w_db := (\<lambda>_. ?g) (now_s v) x (w_db v)\<rparr>" for x :: "string \<times> string \<times> bool \<times> string" and v :: world
    by (cases x) (simp add: exec_db_try_ret)
  have del: "exec (if sec_Key e \<in> K then ret () else db_do (\<lambda>_. Repo_DeleteSecret i (sec_Key e))) v
    = v\<lparr>w_db := (\<lambda>_ e. if sec_Key e \<notin> K then Repo_DeleteSecret i (sec_Key e) else id) (now_s v) e (w_db v)\<rparr>" for e K v
    by simp
  have written: "fold ?g (submitted_rows f) d = fold (\<lambda>(k, v) d. snd ((case v of (v, b) \<Rightarrow> Repo_SetSecretWithType i k v b) d))
      (written_rows ?ex f) d" for d
  proof -
    have "fold ?g rs d = fold (\<lambda>(k, v) d. snd ((case v of (v, b) \<Rightarrow> Repo_SetSecretWithType i k v b) d))
      (filter (\<lambda>(k, v, s). \<not> (s \<and> v = [])) (map ?row rs)) d" for rs
      by (induction rs arbitrary: d) (auto simp: case_prod_beta)
    then show ?thesis by (simp add: written_rows_def)
  qed
  have deleted: "fold (\<lambda>e. if sec_Key e \<notin> K then Repo_DeleteSecret i (sec_Key e) else id) es d
    = fold (\<lambda>k d. Repo_DeleteSecret i k d) (filter (\<lambda>k. k \<notin> K) (map sec_Key es)) d" for K es d
    by (induction es arbitrary: d) auto
  show ?thesis
    unfolding saveFormEnvVars_def exec_get_bind
    by (simp only: exec_bind [of "forM _ _"] exec_forM_db [OF put] exec_forM_db [OF del] written deleted) simp
qed

lemma set_secret_app_ids: "app_ids (snd ((case v of (v, b) \<Rightarrow> Repo_SetSecretWithType i k v b) d)) = app_ids d"
  by (cases v) (simp add: Repo_SetSecretWithType_def upsert_secret_def app_ids_def)

lemma secret_after_save:
  assumes "i \<in> app_ids (w_db w)"
  shows "secret_of (w_db (exec (saveFormEnvVars f i) w)) j k
    = (if j = i then
         (case map_of (rev (written_rows (Repo_ListSecrets i (w_db w)) f)) k of
            Some x \<Rightarrow> Some x
          | None \<Rightarrow> if k \<in> set (map fst (submitted_rows f)) then secret_of (w_db w) i k else None)
       else secret_of (w_db w) j k)"
proof -
  let ?ex = "Repo_ListSecrets i (w_db w)" and ?rows = "submitted_rows f"
  let ?wr = "written_rows ?ex f"
  let ?d1 = "fold (\<lambda>(k, v) d. snd ((case v of (v, b) \<Rightarrow> Repo_SetSecretWithType i k v b) d)) ?wr (w_db w)"
  have d1: "secret_of ?d1 j k = (if j = i then (case map_of (rev ?wr) k of Some v \<Rightarrow> Some v | None \<Rightarrow> secret_of (w_db w) j k)
      else secret_of (w_db w) j k)"
    by (rule secret_store.lookup_fold) (rule assms)
  have keys: "map_of (rev ?wr) k = None" if "k \<notin> set (map fst ?rows)"
    using that by (force simp: map_of_eq_None_iff written_rows_def image_iff)
  have stored: "secret_of (w_db w) i k = None" if "k \<notin> set (map sec_Key ?ex)"
    using that by (auto simp: secret_of_def Repo_ListSecrets_def find_None_iff)
  let ?gone = "filter (\<lambda>k. k \<notin> set (map fst ?rows)) (map sec_Key ?ex)"
  have "w_db (exec (saveFormEnvVars f i) w) = fold (\<lambda>k d. Repo_DeleteSecret i k d) ?gone ?d1"
    by (simp add: exec_saveFormEnvVars)
  then have "secret_of (w_db (exec (saveFormEnvVars f i) w)) j k
      = (if j = i \<and> k \<in> set ?gone then None else secret_of ?d1 j k)"
    by (simp only: secret_store.lookup_fold_del)
  then show ?thesis
    unfolding d1 using keys stored by (auto split: option.splits)
qed

lemma but_secrets_save: "but_secrets (w_db (exec (saveFormEnvVars f i) w)) = but_secrets (w_db w)"
proof -
  have "but_secrets (fold (\<lambda>(k, v) d. snd ((case v of (v, b) \<Rightarrow> Repo_SetSecretWithType i k v b) d)) kvs d) = but_secrets d" for kvs d
    by (induction kvs arbitrary: d) (simp_all add: case_prod_beta but_secrets_ops)
  moreover have "but_secrets (fold (\<lambda>k d. Repo_DeleteSecret i k d) ks d) = but_secrets d" for ks d
    by (induction ks arbitrary: d) (simp_all add: but_secrets_ops)
  ultimately show ?thesis by (simp add: exec_saveFormEnvVars)
qed

text \<open>The script of the page: it puts the rows of the editor into hidden fields.\<close>

definition submit_env :: "formEnvVar list \<Rightarrow> form" where
  "submit_env evs = (\<lambda>_. [])(
     ''env_key'' := map fe_Key evs, ''env_val'' := map fe_Value evs,
     ''env_type'' := map (\<lambda>r. if fe_IsSecret r then ''secret'' else ''plain'') evs,
     ''env_orig'' := map (\<lambda>r. if fe_Masked r then fe_Orig r else []) evs)"

lemma submitted_rows_submit:
  assumes "list_all (\<lambda>r. fe_Key r \<noteq> [] \<and> TrimSpace (fe_Key r) = fe_Key r) evs"
  shows "submitted_rows (submit_env evs)
    = map (\<lambda>r. (fe_Key r, fe_Value r, fe_IsSecret r, if fe_Masked r then fe_Orig r else [])) evs"
proof -
  have "filter (\<lambda>i. TrimSpace (map fe_Key evs ! i) \<noteq> [] \<and> i < length evs) [0..<length evs] = [0..<length evs]"
    using assms by (auto simp: filter_id_conv list_all_length)
  then show ?thesis
    using assms by (auto simp: submitted_rows_def submit_env_def list_all_length intro!: nth_equalityI)
qed

lemma existing_secret_distinct:
  assumes "distinct (map sec_Key xs)" and "s \<in> set xs"
  shows "existing_secret xs (sec_Key s) = Some s"
  unfolding existing_secret_def using assms by (intro find_distinct) (simp_all add: rev_map [symmetric])

lemma listed_keys_distinct: "db_ok d \<Longrightarrow> distinct (map sec_Key (Repo_ListSecrets i d))"
proof -
  assume "db_ok d"
  then have "distinct (map (\<lambda>s. (sec_AppID s, sec_Key s)) (filter (\<lambda>s. sec_AppID s = i) (app_secrets d)))"
    by (simp add: db_ok_def keys_inv_def distinct_map_filter)
  then have "distinct (map sec_Key (filter (\<lambda>s. sec_AppID s = i) (app_secrets d)))"
    unfolding distinct_map by (auto simp: inj_on_def)
  then show "distinct (map sec_Key (Repo_ListSecrets i d))"
    by (simp add: Repo_ListSecrets_def distinct_map)
qed

lemma listed_secret_of:
  assumes "db_ok d" and "s \<in> set (Repo_ListSecrets i d)"
  shows "secret_of d i (sec_Key s) = Some (sec_Value s, sec_IsSecret s)"
proof -
  have s: "s \<in> set (app_secrets d)" "sec_AppID s = i" using assms(2) by (auto simp: Repo_ListSecrets_def)
  have "distinct (map (\<lambda>s. (sec_AppID s, sec_Key s)) (app_secrets d))" using assms(1) by (simp add: db_ok_def keys_inv_def)
  from find_distinct [OF this s(1)] show ?thesis by (simp add: secret_of_def s(2))
qed

lemma written_unchanged:
  assumes ok: "db_ok d" and trim: "list_all (\<lambda>s. sec_Key s \<noteq> [] \<and> TrimSpace (sec_Key s) = sec_Key s) (Repo_ListSecrets i d)"
  defines "evs \<equiv> edit_env_list (Repo_ListSecrets i d)"
  shows "map fst (submitted_rows (submit_env evs)) = map sec_Key (Repo_ListSecrets i d)"
    and "(k, x) \<in> set (written_rows (Repo_ListSecrets i d) (submit_env evs)) \<Longrightarrow> secret_of d i k = Some x"
proof -
  let ?ex = "Repo_ListSecrets i d"
  have "list_all (\<lambda>r. fe_Key r \<noteq> [] \<and> TrimSpace (fe_Key r) = fe_Key r) evs"
    using trim by (auto simp: evs_def edit_env_list_def list_all_iff)
  from submitted_rows_submit [OF this]
  have sub: "submitted_rows (submit_env evs) = map (\<lambda>s. (sec_Key s, if sec_IsSecret s then [] else sec_Value s,
      sec_IsSecret s, if sec_IsSecret s then sec_Key s else [])) ?ex"
    by (simp add: evs_def edit_env_list_def)
  then show "map fst (submitted_rows (submit_env evs)) = map sec_Key ?ex" by simp
  have val: "row_value ?ex (if sec_IsSecret s then [] else sec_Value s) (if sec_IsSecret s then sec_Key s else []) = sec_Value s"
    if "s \<in> set ?ex" for s
    using existing_secret_distinct [OF listed_keys_distinct [OF ok] that] trim that
    by (auto simp: row_value_def list_all_iff)
  show "secret_of d i k = Some x" if mem: "(k, x) \<in> set (written_rows ?ex (submit_env evs))"
  proof -
    obtain s where "s \<in> set ?ex" "k = sec_Key s" "x = (sec_Value s, sec_IsSecret s)"
      using mem val by (auto simp: written_rows_def sub simp del: row_value_def)
    with listed_secret_of [OF ok] show ?thesis by simp
  qed
qed



text \<open>
  Opening the edit page and saving it: no value of a secret is sent to the page, and
  submitting the rows as they were shown leaves every variable of every app as it was.
\<close>

theorem edit_form_roundtrip:
  assumes "db_ok (w_db w)" and "i \<in> app_ids (w_db w)"
    and "list_all (\<lambda>s. sec_Key s \<noteq> [] \<and> TrimSpace (sec_Key s) = sec_Key s) (Repo_ListSecrets i (w_db w))"
  shows "let evs = edit_env_list (Repo_ListSecrets i (w_db w))
    in list_all (\<lambda>e. fe_Value e = [] \<or> \<not> fe_IsSecret e) evs
     \<and> secret_of (w_db (exec (saveFormEnvVars (submit_env evs) i) w)) j k = secret_of (w_db w) j k"
proof -
  let ?ex = "Repo_ListSecrets i (w_db w)"
  let ?f = "submit_env (edit_env_list ?ex)"
  have hidden: "list_all (\<lambda>e. fe_Value e = [] \<or> \<not> fe_IsSecret e) (edit_env_list ?ex)"
    by (auto simp add: edit_env_list_def list_all_iff)
  have written: "secret_of (w_db w) i k = Some x" if "map_of (rev (written_rows ?ex ?f)) k = Some x" for x
    using written_unchanged(2) [OF assms(1,3)] map_of_SomeD [OF that] by simp
  have "secret_of (w_db w) i k = None" if "k \<notin> set (map sec_Key ?ex)"
    using that by (auto simp: secret_of_def Repo_ListSecrets_def find_None_iff)
  with written have "secret_of (w_db (exec (saveFormEnvVars ?f i) w)) j k = secret_of (w_db w) j k"
    unfolding secret_after_save [OF assms(2)] written_unchanged(1) [OF assms(1,3)] by (auto split: option.splits)
  with hidden show ?thesis by (simp add: Let_def)
qed

definition secret_world :: world where
  "secret_world = sample_world\<lparr>w_db := sample_db\<lparr>app_secrets := [\<lparr> sec_ID = 1, sec_AppID = 1, sec_Key = ''K'',
     sec_Value = ''v'', sec_IsSecret = True \<rparr>]\<rparr>\<rparr>"

theorem edit_form_roundtrip_witness:
  "secret_of (w_db (exec (saveFormEnvVars (submit_env (edit_env_list (Repo_ListSecrets 1 (w_db secret_world)))) 1) secret_world)) 1 ''K''
     = Some (''v'', True)"
proof -
  have "db_ok (w_db secret_world)"
    by (simp add: db_ok_def ids_inv_def refs_inv_def keys_inv_def ids_ok_def refs_ok_def secret_world_def sample_db_def
        empty_db_def sample_server_def sample_app_def server_ids_def app_ids_def)
  moreover have "1 \<in> app_ids (w_db secret_world)"
    by (simp add: app_ids_def secret_world_def sample_db_def sample_app_def)
  moreover have "TrimSpace ''K'' = ''K''"
    by (rule TrimSpace_id) (simp_all add: graphic_def less_eq_char_def)
  then have "list_all (\<lambda>s. sec_Key s \<noteq> [] \<and> TrimSpace (sec_Key s) = sec_Key s) (Repo_ListSecrets 1 (w_db secret_world))"
    by (simp add: Repo_ListSecrets_def secret_world_def)
  ultimately have "secret_of (w_db (exec (saveFormEnvVars (submit_env (edit_env_list (Repo_ListSecrets 1 (w_db secret_world)))) 1) secret_world)) 1 ''K''
     = secret_of (w_db secret_world) 1 ''K''"
    using edit_form_roundtrip unfolding Let_def by blast
  then show ?thesis by (simp add: secret_of_def secret_world_def)
qed

section \<open>The routes of an edited app\<close>

definition route_part :: "world \<Rightarrow> Route list \<times> int set \<times> int set \<times> event list \<times> task list \<times> int set" where
  "route_part w = (routes (w_db w), app_ids (w_db w), server_ids (w_db w), w_trace w, w_tasks w, w_locked w)"

lemma keeps_route_part [frame]:
  "keeps route_part (saveFormEnvVars f i)" "keeps route_part (saveFormFiles f i)"
proof -
  have set: "keeps route_part (db_try (\<lambda>_. Repo_SetSecretWithType i k v b))"
      "keeps route_part (db_do (\<lambda>_. Repo_DeleteSecret i k))" "keeps route_part (db_try (\<lambda>_. Repo_SetFile i p c))"
    for i k v b p c
    by (simp_all add: keeps_def route_part_def exec_db_try Repo_SetSecretWithType_def upsert_secret_def Repo_DeleteSecret_def
        Repo_SetFile_def app_ids_def server_ids_def)
  show "keeps route_part (saveFormEnvVars f i)" "keeps route_part (saveFormFiles f i)"
    unfolding saveFormEnvVars_def saveFormFiles_def by (intro frame set)+
qed

lemma routes_after_save:
  assumes "i \<in> app_ids d" and "sid \<in> server_ids d"
  shows "route_server_of (fold (\<lambda>dm d. Repo_DeleteRouteByDomain i dm d) gone
      (fold (\<lambda>dm d. snd (Repo_SaveRoute now (new_route i sid dm []) d)) ds d)) j dm
    = (if j = i then if dm \<in> set gone then None else if dm \<in> set ds then Some sid else route_server_of d i dm
       else route_server_of d j dm)"
proof -
  have "route_server_of (fold (\<lambda>(k, v) d. snd (Repo_SaveRoute now (new_route i v k []) d)) (map (\<lambda>dm. (dm, sid)) ds) d) j dm
    = (if j = i then (case map_of (rev (map (\<lambda>dm. (dm, sid)) ds)) dm of Some v \<Rightarrow> Some v | None \<Rightarrow> route_server_of d j dm)
       else route_server_of d j dm)"
    by (rule route_store.lookup_fold) (use assms in auto)
  moreover have "map_of (rev (map (\<lambda>dm. (dm, sid)) ds)) dm = (if dm \<in> set ds then Some sid else None)"
    by (auto simp: rev_map map_of_map_restrict restrict_map_def)
  ultimately have "route_server_of (fold (\<lambda>dm d. snd (Repo_SaveRoute now (new_route i sid dm []) d)) ds d) j dm
    = (if j = i \<and> dm \<in> set ds then Some sid else route_server_of d j dm)"
    by (simp add: fold_map comp_def)
  then show ?thesis by (simp only: route_store.lookup_fold_del) auto
qed

lemma edit_routes_exec:
  "exec (edit_routes E i sid ds) w = w\<lparr>w_db := fold (\<lambda>dm d. Repo_DeleteRouteByDomain i dm d)
      (result (edit_routes E i sid ds) w)
      (fold (\<lambda>dm d. snd (Repo_SaveRoute (now_s w) (new_route i sid dm []) d)) ds (w_db w))\<rparr>"
  "result (edit_routes E i sid ds) w
    = filter (\<lambda>dm. dm \<notin> set ds) (map rt_Domain (Repo_GetRoutes (e_plan_routes E (w_trace w)) i (w_db w)))"
proof -
  have get: "exec (getRoutes E i) w = w" "result (getRoutes E i) w = Repo_GetRoutes (e_plan_routes E (w_trace w)) i (w_db w)"
    by (simp_all add: getRoutes_def exec_def result_def trace_def db_get_def)
  have put: "exec (save_route i sid dm) v = v\<lparr>w_db := (\<lambda>now dm d. snd (Repo_SaveRoute now (new_route i sid dm []) d)) (now_s v) dm (w_db v)\<rparr>"
    for dm v by (simp add: exec_save_route)
  have del: "exec (db_do (\<lambda>_. Repo_DeleteRouteByDomain i dm)) v = v\<lparr>w_db := (\<lambda>_ dm d. Repo_DeleteRouteByDomain i dm d) (now_s v) dm (w_db v)\<rparr>"
    for dm v by simp
  show res: "result (edit_routes E i sid ds) w
    = filter (\<lambda>dm. dm \<notin> set ds) (map rt_Domain (Repo_GetRoutes (e_plan_routes E (w_trace w)) i (w_db w)))"
    by (simp add: edit_routes_def result_bind get Let_def)
  show "exec (edit_routes E i sid ds) w = w\<lparr>w_db := fold (\<lambda>dm d. Repo_DeleteRouteByDomain i dm d)
      (result (edit_routes E i sid ds) w)
      (fold (\<lambda>dm d. snd (Repo_SaveRoute (now_s w) (new_route i sid dm []) d)) ds (w_db w))\<rparr>"
    unfolding res
    by (simp add: edit_routes_def exec_bind get Let_def exec_forM_db [OF put] exec_forM_db [OF del])
qed

text \<open>What an edit starts, as the code of the form decides it.\<close>

definition edit_task :: "form \<Rightarrow> App \<Rightarrow> string list \<Rightarrow> task list" where
  "edit_task f old removed =
     (let i = app_ID old; moving = app_Status old \<noteq> ''draft'' \<and> app_ServerID old \<noteq> 0 \<and> app_ServerID old \<noteq> edit_server f old
      in if moving \<and> checked f ''move_files''
         then [TaskMoveApp i (app_ServerID old) (edit_server f old) (checked f ''purge_old'')]
         else if moving then [TaskMoveWithoutFiles i (app_ServerID old) (checked f ''purge_old'') removed]
         else if app_Status old \<noteq> ''draft'' then [TaskRedeploy i removed]
         else [])"

text \<open>The server an edited app has when the form is saved: a move with files keeps the old one for now.\<close>

definition server_for_now :: "form \<Rightarrow> App \<Rightarrow> int" where
  "server_for_now f old =
     (if app_Status old \<noteq> ''draft'' \<and> app_ServerID old \<noteq> 0 \<and> checked f ''move_files'' then app_ServerID old
      else edit_server f old)"

lemma exec_edit_start:
  "exec (edit_start (app_ID old) (app_Status old \<noteq> ''draft'' \<and> app_ServerID old \<noteq> 0 \<and> app_ServerID old \<noteq> edit_server f old)
      (checked f ''move_files'') (checked f ''purge_old'') (app_Status old = ''draft'') (app_ServerID old) (edit_server f old) gone) w
    = w\<lparr>w_tasks := w_tasks w @ edit_task f old gone\<rparr>"
  by (auto simp: edit_start_def edit_task_def Let_def exec_go)

lemma edit_save_run:
  fixes w :: world and f :: form and old :: App and E :: env
  defines "sid \<equiv> server_for_now f old" and "app \<equiv> edit_app E f old"
  defines "u \<equiv> Repo_Update (now_s w) (app\<lparr>app_ServerID := sid\<rparr>) (w_db w)"
  defines "w2 \<equiv> exec (saveFormFiles f (app_ID old)) (exec (saveFormEnvVars f (app_ID old)) (w\<lparr>w_db := snd u\<rparr>))"
  defines "m \<equiv> edit_routes E (app_ID old) sid (parseDomains f)"
  shows "fst u = Inl err \<Longrightarrow> result (edit_save E f (app_ID old) old app) w = (500, Page ''apps_add.html'' err)"
    and "fst u = Inr () \<Longrightarrow> fst (result (edit_save E f (app_ID old) old app) w) = 303"
    and "fst u = Inr () \<Longrightarrow> exec (edit_save E f (app_ID old) old app) w
      = (exec m w2)\<lparr>w_tasks := w_tasks (exec m w2) @ edit_task f old (result m w2)\<rparr>"
proof -
  let ?moving = "app_Status old \<noteq> ''draft'' \<and> app_ServerID old \<noteq> 0 \<and> app_ServerID old \<noteq> edit_server f old"
  have serv: "app_ServerID app = edit_server f old" by (simp add: app_def edit_app_def)
  have now: "(if ?moving \<and> checked f ''move_files'' then app\<lparr>app_ServerID := app_ServerID old\<rparr> else app) = app\<lparr>app_ServerID := sid\<rparr>"
    by (auto simp: sid_def server_for_now_def serv app_def edit_app_def)
  have upd: "exec (db_try (\<lambda>now. Repo_Update now a)) w = w\<lparr>w_db := snd (Repo_Update (now_s w) a (w_db w))\<rparr>"
      "result (db_try (\<lambda>now. Repo_Update now a)) w = fst (Repo_Update (now_s w) a (w_db w))" for a
    by (simp_all add: exec_db_try) (simp add: db_try_def result_def split: prod.splits)
  show "result (edit_save E f (app_ID old) old app) w = (500, Page ''apps_add.html'' err)" if "fst u = Inl err"
    unfolding edit_save_def Let_def serv now exec_get_bind result_get_bind result_bind [of "db_try _"] upd u_def [symmetric]
    by (simp add: that)
  show "fst (result (edit_save E f (app_ID old) old app) w) = 303" if "fst u = Inr ()"
    unfolding edit_save_def Let_def serv now exec_get_bind result_get_bind result_bind [of "db_try _"] upd u_def [symmetric]
    by (simp add: that result_bind)
  show "exec (edit_save E f (app_ID old) old app) w
      = (exec m w2)\<lparr>w_tasks := w_tasks (exec m w2) @ edit_task f old (result m w2)\<rparr>" if "fst u = Inr ()"
    unfolding edit_save_def Let_def serv now exec_get_bind result_get_bind exec_bind [of "db_try _"] upd u_def [symmetric]
    by (simp add: that exec_bind m_def w2_def exec_edit_start)
qed

lemma AppEditForm_saved:
  assumes "Repo_Get (url_id param) (w_db w) = Some old" and "fst (result (AppEditForm E param (Some f)) w) = 303"
  shows "exec (AppEditForm E param (Some f)) w = exec (edit_save E f (app_ID old) old (edit_app E f old)) w"
    and "fst (result (edit_save E f (app_ID old) old (edit_app E f old)) w) = 303"
proof -
  have id: "url_id param = app_ID old" using Repo_Get_ids [OF assms(1)] by simp
  have busy: "exec (do { b \<leftarrow> Busy i; g b }) w = exec (g (i \<in> w_locked w)) w"
    "result (do { b \<leftarrow> Busy i; g b }) w = result (g (i \<in> w_locked w)) w" for i and g :: "bool \<Rightarrow> reply prog"
    by (simp_all add: Busy_def exec_def result_def)
  show "exec (AppEditForm E param (Some f)) w = exec (edit_save E f (app_ID old) old (edit_app E f old)) w"
    "fst (result (edit_save E f (app_ID old) old (edit_app E f old)) w) = 303"
    using assms unfolding AppEditForm_def exec_get_bind result_get_bind assms(1) option.case Let_def
    by (auto simp: busy id split: if_splits sum.splits)
qed

lemma server_after_update:
  "app_ids (snd (Repo_Update now a d)) = app_ids d" "server_ids (snd (Repo_Update now a d)) = server_ids d"
  "routes (snd (Repo_Update now a d)) = routes d"
proof -
  have "map (app_ID \<circ> (\<lambda>b. if app_ID b = app_ID a then a\<lparr>app_CreatedAt := app_CreatedAt b, app_UpdatedAt := now\<rparr> else b)) xs
    = map app_ID xs" for xs
    by (induction xs) auto
  from this [of "apps d"] have "map app_ID (apps (snd (Repo_Update now a d))) = map app_ID (apps d)"
    by (auto simp: Repo_Update_def map_app_def)
  then show "app_ids (snd (Repo_Update now a d)) = app_ids d" by (simp only: app_ids_def)
qed (simp_all add: Repo_Update_def map_app_def server_ids_def)


definition sample_form :: form where
  "sample_form = (\<lambda>_. [])(''name'' := [''a''])"


end
