(* ===== verification/Auth.thy ===== *)
theory Auth
  imports GoStrings
begin

text \<open>
  Authentication of the web interface, from \<open>internal/http/auth.go\<close>: the sessions, the login
  throttle, the middleware in front of the protected routes and the login form. Times are
  nanoseconds of a clock that never goes back. The two maps are functions; each function here is one
  critical section of its mutex, and the relation \<open>auth_step\<close> interleaves the critical
  sections of the requests that are in flight. The site also has the log the code writes, one line
  for each login, failed login and logout, newest first: what the maps promise is stated on
  the log. Parsing the \<open>Origin\<close> header as a URL is a parameter.
\<close>

section \<open>Requests\<close>

record request =
  rq_Method :: string
  rq_RemoteAddr :: string
  rq_Host :: string
  rq_Header :: "string \<Rightarrow> string"
  rq_Cookie :: "string option"
  rq_Form :: "(string \<Rightarrow> string) option"

datatype verdict =
    Served
  | Denied int string
  | RedirectTo string int
  | LoginPage int string

text \<open>\<open>net.SplitHostPort\<close>, the host or \<open>None\<close> for an error.\<close>

definition LastIndexByte :: "char \<Rightarrow> string \<Rightarrow> nat option" where
  "LastIndexByte c s = (if c \<in> set s then Some (length s - 1 - length (takeWhile (\<lambda>x. x \<noteq> c) (rev s))) else None)"

definition SplitHostPort :: "string \<Rightarrow> string option" where
  "SplitHostPort hp =
     (case LastIndexByte CHR '':'' hp of
        None \<Rightarrow> None
      | Some i \<Rightarrow>
          if take 1 hp = ''[''
          then (let e = length (takeWhile (\<lambda>x. x \<noteq> CHR '']'') hp)
                in if e = length hp \<or> e + 1 \<noteq> i then None
                   else if CHR ''['' \<in> set (drop 1 hp) \<or> CHR '']'' \<in> set (drop (e + 1) hp) then None
                   else Some (take (e - 1) (drop 1 hp)))
          else (let host = take i hp
                in if CHR '':'' \<in> set host \<or> CHR ''['' \<in> set hp \<or> CHR '']'' \<in> set hp then None
                   else Some host))"

definition clientKey :: "request \<Rightarrow> string" where
  "clientKey r = (case SplitHostPort (rq_RemoteAddr r) of Some host \<Rightarrow> host | None \<Rightarrow> rq_RemoteAddr r)"

section \<open>Sessions and the login throttle\<close>

abbreviation sec :: int where "sec \<equiv> 1000000000"
abbreviation sessionMaxAge :: int where "sessionMaxAge \<equiv> 24 * 3600 * sec"
abbreviation loginMaxFailures :: nat where "loginMaxFailures \<equiv> 10"
abbreviation loginWindow :: int where "loginWindow \<equiv> 15 * 60 * sec"

text \<open>An entry of the throttle: the failures counted and the time of the first.\<close>

record auth =
  sessions :: "string \<Rightarrow> int option"
  loginFailures :: "string \<Rightarrow> (nat \<times> int) option"

definition drop_ended :: "int \<Rightarrow> (string \<Rightarrow> (nat \<times> int) option) \<Rightarrow> string \<Rightarrow> (nat \<times> int) option" where
  "drop_ended now m = (\<lambda>k. case m k of Some (c, since) \<Rightarrow> if loginWindow \<le> now - since then None else m k | None \<Rightarrow> None)"

definition loginBlocked :: "int \<Rightarrow> string \<Rightarrow> auth \<Rightarrow> bool \<times> auth" where
  "loginBlocked now key a =
     (let m = drop_ended now (loginFailures a)
      in (case m key of Some (c, since) \<Rightarrow> loginMaxFailures \<le> c | None \<Rightarrow> False, a\<lparr>loginFailures := m\<rparr>))"

definition recordLoginFailure :: "int \<Rightarrow> string \<Rightarrow> auth \<Rightarrow> auth" where
  "recordLoginFailure now key a =
     a\<lparr>loginFailures := (loginFailures a)(key := Some
        (case loginFailures a key of Some (c, since) \<Rightarrow> (c + 1, since) | None \<Rightarrow> (1, now)))\<rparr>"

definition clearLoginFailures :: "string \<Rightarrow> auth \<Rightarrow> auth" where
  "clearLoginFailures key a = a\<lparr>loginFailures := (loginFailures a)(key := None)\<rparr>"

definition getSessionUser :: "int \<Rightarrow> auth \<Rightarrow> request \<Rightarrow> string" where
  "getSessionUser now a r =
     (case rq_Cookie r of
        None \<Rightarrow> []
      | Some c \<Rightarrow> (case sessions a c of None \<Rightarrow> [] | Some expiry \<Rightarrow> if now > expiry then [] else ''admin''))"

definition setSession :: "int \<Rightarrow> string \<Rightarrow> auth \<Rightarrow> auth" where
  "setSession now i a =
     a\<lparr>sessions := (\<lambda>k. if k = i then Some (now + sessionMaxAge)
        else case sessions a k of Some expiry \<Rightarrow> if now > expiry then None else Some expiry | None \<Rightarrow> None)\<rparr>"

definition clearSession :: "request \<Rightarrow> auth \<Rightarrow> auth" where
  "clearSession r a = (case rq_Cookie r of None \<Rightarrow> a | Some c \<Rightarrow> a\<lparr>sessions := (sessions a)(c := None)\<rparr>)"

section \<open>The middleware\<close>

text \<open>
  \<open>http.CrossOriginProtection.Check\<close> of the standard library, without trusted origins. \<open>urlHost\<close>
  is the host of a parsed URL, \<open>None\<close> when it does not parse.
\<close>

definition csrfCheck :: "(string \<Rightarrow> string option) \<Rightarrow> request \<Rightarrow> error option" where
  "csrfCheck urlHost r =
     (if rq_Method r \<in> {''GET'', ''HEAD'', ''OPTIONS''} then None
      else let site = rq_Header r ''Sec-Fetch-Site''; origin = rq_Header r ''Origin''
      in if site = ''same-origin'' \<or> site = ''none'' then None
         else if site \<noteq> [] then Some ''cross-origin request detected from Sec-Fetch-Site header''
         else if origin = [] \<or> urlHost origin = Some (rq_Host r) then None
         else Some ''cross-origin request detected, and/or browser is out of date: Sec-Fetch-Site is missing, and Origin does not match Host'')"

definition AuthMiddleware :: "(string \<Rightarrow> string option) \<Rightarrow> bool \<Rightarrow> string \<Rightarrow> int \<Rightarrow> auth \<Rightarrow> request \<Rightarrow> verdict" where
  "AuthMiddleware urlHost enabled apiToken now a r =
     (case (if enabled then CutPrefix (rq_Header r ''Authorization'') ''Bearer '' else None) of
        Some bearer \<Rightarrow>
          if apiToken \<noteq> [] \<and> bearer = apiToken then Served else Denied 401 ''invalid api token''
      | None \<Rightarrow>
          (case csrfCheck urlHost r of
             Some err \<Rightarrow> Denied 403 err
           | None \<Rightarrow> if \<not> enabled \<or> getSessionUser now a r \<noteq> [] then Served else RedirectTo ''/login'' 302))"

section \<open>The login form\<close>

text \<open>
  \<open>HandleLogin\<close> in its two critical sections: up to the throttle, and from the comparison of
  the credentials on. \<open>Inl\<close> is a request that is answered already. The sleep
  after a failure holds no lock.
\<close>

definition FormField :: "request \<Rightarrow> string \<Rightarrow> string" where
  "FormField r k = (case rq_Form r of Some f \<Rightarrow> f k | None \<Rightarrow> [])"

definition login_enter :: "int \<Rightarrow> request \<Rightarrow> auth \<Rightarrow> verdict option \<times> auth" where
  "login_enter now r a =
     (if rq_Method r \<noteq> ''POST'' then (Some (LoginPage 200 []), a)
      else if rq_Form r = None then (Some (LoginPage 400 ''invalid form''), a)
      else (case loginBlocked now (clientKey r) a of
              (True, a') \<Rightarrow> (Some (LoginPage 429 ''too many failed logins, try again later''), a')
            | (False, a') \<Rightarrow> (None, a')))"

definition credentials_ok :: "string \<Rightarrow> string \<Rightarrow> request \<Rightarrow> bool" where
  "credentials_ok cfgUser cfgPass r \<longleftrightarrow> FormField r ''user'' = cfgUser \<and> FormField r ''pass'' = cfgPass"

definition login_finish :: "string \<Rightarrow> string \<Rightarrow> int \<Rightarrow> string \<Rightarrow> request \<Rightarrow> auth \<Rightarrow> verdict \<times> auth" where
  "login_finish cfgUser cfgPass now i r a =
     (if credentials_ok cfgUser cfgPass r
      then (RedirectTo ''/'' 302, setSession now i (clearLoginFailures (clientKey r) a))
      else (LoginPage 401 ''invalid username or password'', recordLoginFailure now (clientKey r) a))"

text \<open>One request alone.\<close>

definition HandleLogin :: "string \<Rightarrow> string \<Rightarrow> int \<Rightarrow> int \<Rightarrow> string \<Rightarrow> request \<Rightarrow> auth \<Rightarrow> verdict \<times> auth" where
  "HandleLogin cfgUser cfgPass t1 t2 i r a =
     (case login_enter t1 r a of
        (Some v, a') \<Rightarrow> (v, a')
      | (None, a') \<Rightarrow> login_finish cfgUser cfgPass t2 i r a')"

definition HandleLogout :: "request \<Rightarrow> auth \<Rightarrow> verdict \<times> auth" where
  "HandleLogout r a = (RedirectTo ''/login'' 302, clearSession r a)"

section \<open>Requests in flight\<close>

datatype log_line =
    LoggedIn request string int
  | LoginFailed string int
  | LoggedOut string

record site =
  s_auth :: auth
  s_now :: int
  s_pending :: "request multiset"
  s_log :: "log_line list"

record login_conf =
  lc_User :: string
  lc_Pass :: string
  lc_parallel :: nat

definition in_flight :: "string \<Rightarrow> site \<Rightarrow> nat" where
  "in_flight k s = size (filter_mset (\<lambda>r. clientKey r = k) (s_pending s))"

definition log_login :: "login_conf \<Rightarrow> int \<Rightarrow> string \<Rightarrow> request \<Rightarrow> log_line" where
  "log_login C now i r =
     (if credentials_ok (lc_User C) (lc_Pass C) r then LoggedIn r i now else LoginFailed (clientKey r) now)"

definition start_site :: "int \<Rightarrow> site" where
  "start_site t = \<lparr> s_auth = \<lparr> sessions = (\<lambda>_. None), loginFailures = (\<lambda>_. None) \<rparr>, s_now = t, s_pending = {#}, s_log = [] \<rparr>"

text \<open>
  A step of the site: time passes, a login passes the throttle (while fewer than \<open>lc_parallel\<close>
  logins of its client are in flight) or is answered there, a login in flight ends with any session
  id the generator may draw, a session is closed.
\<close>

inductive auth_step :: "login_conf \<Rightarrow> site \<Rightarrow> site \<Rightarrow> bool" for C where
  tick: "0 \<le> d \<Longrightarrow> auth_step C s (s\<lparr>s_now := s_now s + d\<rparr>)"
| enter: "login_enter (s_now s) r (s_auth s) = (None, a) \<Longrightarrow> in_flight (clientKey r) s < lc_parallel C \<Longrightarrow>
    auth_step C s (s\<lparr>s_auth := a, s_pending := add_mset r (s_pending s)\<rparr>)"
| answered: "login_enter (s_now s) r (s_auth s) = (Some v, a) \<Longrightarrow> auth_step C s (s\<lparr>s_auth := a\<rparr>)"
| finish: "r \<in># s_pending s \<Longrightarrow> login_finish (lc_User C) (lc_Pass C) (s_now s) i r (s_auth s) = (v, a) \<Longrightarrow>
    auth_step C s (s\<lparr>s_auth := a, s_pending := s_pending s - {#r#}, s_log := log_login C (s_now s) i r # s_log s\<rparr>)"
| logout: "rq_Cookie r = Some c \<Longrightarrow> HandleLogout r (s_auth s) = (v, a) \<Longrightarrow>
    auth_step C s (s\<lparr>s_auth := a, s_log := LoggedOut c # s_log s\<rparr>)"

inductive_cases auth_stepE: "auth_step C s s'"

abbreviation auth_reach :: "login_conf \<Rightarrow> site \<Rightarrow> bool" where
  "auth_reach C s \<equiv> \<exists>t. (auth_step C)\<^sup>*\<^sup>* (start_site t) s"

section \<open>Sessions follow the log\<close>

text \<open>When the session \<open>i\<close> was last opened, unless it was closed since.\<close>

fun session_since :: "string \<Rightarrow> log_line list \<Rightarrow> int option" where
  "session_since i [] = None"
| "session_since i (LoggedIn r j t # l) = (if j = i then Some t else session_since i l)"
| "session_since i (LoggedOut j # l) = (if j = i then None else session_since i l)"
| "session_since i (LoginFailed k t # l) = session_since i l"

text \<open>The session map and the log agree, but for entries past their age, which may be gone.\<close>

definition agrees :: "int \<Rightarrow> int option \<Rightarrow> int option \<Rightarrow> bool" where
  "agrees now since entry = (case since of
     None \<Rightarrow> entry = None
   | Some t \<Rightarrow> entry = Some (t + sessionMaxAge) \<or> entry = None \<and> t + sessionMaxAge < now)"

definition sessions_follow :: "site \<Rightarrow> bool" where
  "sessions_follow s \<longleftrightarrow> (\<forall>i. agrees (s_now s) (session_since i (s_log s)) (sessions (s_auth s) i))"

definition logins_checked :: "login_conf \<Rightarrow> log_line list \<Rightarrow> bool" where
  "logins_checked C l \<longleftrightarrow> (\<forall>r i t. LoggedIn r i t \<in> set l \<longrightarrow> credentials_ok (lc_User C) (lc_Pass C) r)"

lemma agrees_basic [simp]: "agrees now None None" "agrees now (Some t) (Some e) \<longleftrightarrow> e = t + sessionMaxAge"
  by (simp_all add: agrees_def)

lemma agrees_later: "agrees now x m \<Longrightarrow> now \<le> now' \<Longrightarrow> agrees now' x m"
  by (auto simp: agrees_def split: option.splits)

lemma agrees_pruned:
  "agrees now x m \<Longrightarrow> agrees now x (case m of Some expiry \<Rightarrow> if now > expiry then None else Some expiry | None \<Rightarrow> None)"
  by (auto simp: agrees_def split: option.splits)

lemma login_enter_sessions: "login_enter now r a = (v, a') \<Longrightarrow> sessions a' = sessions a"
  by (auto simp: login_enter_def loginBlocked_def Let_def split: if_splits prod.splits bool.splits)

lemmas auth_update_defs = setSession_def clearLoginFailures_def recordLoginFailure_def login_finish_def log_login_def

lemma step_sessions_follow:
  assumes "auth_step C s s'" and "sessions_follow s"
  shows "sessions_follow s'"
  using assms(1)
proof (cases rule: auth_step.cases)
  case (finish r i v a)
  then show ?thesis
    using assms(2) by (auto simp: sessions_follow_def auth_update_defs agrees_pruned split: if_splits)
next
  case (logout r c v a)
  then show ?thesis
    using assms(2) by (auto simp: sessions_follow_def HandleLogout_def clearSession_def)
next
  case (tick d)
  then show ?thesis
    using assms(2) by (auto simp: sessions_follow_def intro: agrees_later)
qed (use assms(2) in \<open>auto simp: sessions_follow_def dest: login_enter_sessions\<close>)

lemma step_logins_checked:
  "auth_step C s s' \<Longrightarrow> logins_checked C (s_log s) \<Longrightarrow> logins_checked C (s_log s')"
  by (erule auth_stepE) (auto simp: logins_checked_def log_login_def split: if_splits)

lemma reach_follows:
  assumes "auth_reach C s"
  shows "sessions_follow s" "logins_checked C (s_log s)"
proof -
  obtain t where "(auth_step C)\<^sup>*\<^sup>* (start_site t) s"
    using assms by blast
  then have "sessions_follow s \<and> logins_checked C (s_log s)"
    by (induction rule: rtranclp_induct)
      (auto simp: start_site_def sessions_follow_def [of "start_site t"] logins_checked_def [of _ "[]"]
        intro: step_sessions_follow step_logins_checked,
       simp add: sessions_follow_def)
  then show "sessions_follow s" "logins_checked C (s_log s)"
    by simp_all
qed

text \<open>The log knows who may enter: an open session that is not too old.\<close>

definition session_open :: "site \<Rightarrow> request \<Rightarrow> bool" where
  "session_open s r \<longleftrightarrow> (\<exists>c t. rq_Cookie r = Some c \<and> session_since c (s_log s) = Some t \<and> s_now s \<le> t + sessionMaxAge)"

lemma getSessionUser_open:
  assumes "sessions_follow s"
  shows "getSessionUser (s_now s) (s_auth s) r \<noteq> [] \<longleftrightarrow> session_open s r"
proof (cases "rq_Cookie r")
  case (Some c)
  then show ?thesis
    using assms [unfolded sessions_follow_def, rule_format, of c]
    by (auto simp: getSessionUser_def session_open_def agrees_def split: option.splits)
qed (simp add: getSessionUser_def session_open_def)

section \<open>The throttle bounds the guesses\<close>

text \<open>The times of the failed logins of a client, newest first.\<close>

fun fail_times :: "string \<Rightarrow> log_line list \<Rightarrow> int list" where
  "fail_times k [] = []"
| "fail_times k (LoginFailed j t # l) = (if j = k then t # fail_times k l else fail_times k l)"
| "fail_times k (LoggedIn r i t # l) = fail_times k l"
| "fail_times k (LoggedOut i # l) = fail_times k l"

definition never_logged_in :: "string \<Rightarrow> log_line list \<Rightarrow> bool" where
  "never_logged_in k l \<longleftrightarrow> (\<forall>r i t. LoggedIn r i t \<in> set l \<longrightarrow> clientKey r \<noteq> k)"

definition in_window :: "int \<Rightarrow> int list \<Rightarrow> nat" where
  "in_window t F = length (filter (\<lambda>u. t \<le> u \<and> u < t + loginWindow) F)"

definition after :: "int \<Rightarrow> int list \<Rightarrow> nat" where
  "after t F = length (filter (\<lambda>u. t < u) F)"

text \<open>
  The failures \<open>F\<close> of a client split into those of the current entry and the older ones. With at
  most \<open>B\<close> in an entry, no interval as long as the window meets more than two entries.
\<close>

definition windowed :: "nat \<Rightarrow> int \<Rightarrow> int list \<Rightarrow> (nat \<times> int) option \<Rightarrow> bool" where
  "windowed B now F e = (case e of
     None \<Rightarrow> after (now - loginWindow) F \<le> B \<and> (\<forall>t. in_window t F \<le> 2 * B)
   | Some (c, since) \<Rightarrow> since \<le> now \<and> c \<le> B \<and>
       (\<forall>u \<in> set (take c F). since \<le> u) \<and> (\<forall>u \<in> set (drop c F). u \<le> since) \<and>
       after (since - loginWindow) (drop c F) \<le> B \<and> (\<forall>t. in_window t (drop c F) \<le> 2 * B))"

lemma within_append: "in_window t (F @ G) = in_window t F + in_window t G"
  by (simp add: in_window_def)

lemma within_le: "in_window t F \<le> length F"
  by (simp add: in_window_def)

lemma within_after: "u < t \<Longrightarrow> in_window t F \<le> after u F"
  unfolding in_window_def after_def by (induction F) auto

lemma within_late: "(\<And>u. u \<in> set F \<Longrightarrow> t + loginWindow \<le> u) \<Longrightarrow> in_window t F = 0"
  unfolding in_window_def by (fastforce simp: filter_empty_conv)

lemma after_append: "after t (F @ G) = after t F + after t G"
  by (simp add: after_def)

lemma after_le: "after t F \<le> length F"
  by (simp add: after_def)

lemma after_mono: "u \<le> t \<Longrightarrow> after t F \<le> after u F"
  unfolding after_def by (induction F) auto

lemma after_early: "(\<And>u. u \<in> set F \<Longrightarrow> u \<le> t) \<Longrightarrow> after t F = 0"
  unfolding after_def by (fastforce simp: filter_empty_conv)

lemma windowed_bound:
  assumes "windowed B now F e"
  shows "in_window t F \<le> 2 * B"
proof (cases e)
  case (Some p)
  obtain c since where p: "p = (c, since)" by (cases p)
  have w: "c \<le> B" "\<forall>u \<in> set (take c F). since \<le> u" "after (since - loginWindow) (drop c F) \<le> B"
      "in_window t (drop c F) \<le> 2 * B"
    using assms by (simp_all add: windowed_def Some p)
  have split: "in_window t F = in_window t (take c F) + in_window t (drop c F)"
    by (metis append_take_drop_id within_append)
  show ?thesis
  proof (cases "t \<le> since - loginWindow")
    case True
    then have "in_window t (take c F) = 0"
      using w(2) by (intro within_late) fastforce
    then show ?thesis
      using split w(4) by simp
  next
    case False
    then have "in_window t (drop c F) \<le> B"
      using w(3) within_after [of "since - loginWindow" t "drop c F"] by simp
    moreover have "in_window t (take c F) \<le> B"
      using within_le [of t "take c F"] w(1) by simp
    ultimately show ?thesis
      using split by simp
  qed
qed (use assms in \<open>simp add: windowed_def\<close>)

lemma windowed_later: "windowed B now F e \<Longrightarrow> now \<le> now' \<Longrightarrow> windowed B now' F e"
  using after_mono [of "now - loginWindow" "now' - loginWindow" F]
  by (auto simp: windowed_def split: option.splits)

lemma windowed_ended:
  assumes "windowed B now F (Some (c, since))" and "loginWindow \<le> now - since"
  shows "windowed B now F None"
proof -
  have "after (now - loginWindow) (drop c F) = 0"
    using assms by (intro after_early) (fastforce simp: windowed_def)
  moreover have "after (now - loginWindow) (take c F) \<le> B"
    using after_le [of "now - loginWindow" "take c F"] assms(1) by (simp add: windowed_def)
  ultimately have "after (now - loginWindow) F \<le> B"
    using after_append [of "now - loginWindow" "take c F" "drop c F"] by simp
  then show ?thesis
    using windowed_bound [OF assms(1)] by (simp add: windowed_def)
qed

lemma windowed_drop_ended: "windowed B now F (m k) \<Longrightarrow> windowed B now F (drop_ended now m k)"
  using windowed_ended [of B now F] by (auto simp: drop_ended_def split: option.splits)

lemma windowed_failure:
  assumes "windowed B now F e" and "\<forall>u \<in> set F. u \<le> now"
    and "(case e of Some (c, since) \<Rightarrow> c + 1 | None \<Rightarrow> 1) \<le> B"
  shows "windowed B now (now # F) (Some (case e of Some (c, since) \<Rightarrow> (c + 1, since) | None \<Rightarrow> (1, now)))"
  using assms by (auto simp: windowed_def split: option.splits)

text \<open>What holds of the throttle and the log at every moment, for a client \<open>k\<close>.\<close>

definition most_failures :: "login_conf \<Rightarrow> nat" where
  "most_failures C = loginMaxFailures - 1 + lc_parallel C"

definition throttled :: "login_conf \<Rightarrow> string \<Rightarrow> site \<Rightarrow> bool" where
  "throttled C k s \<longleftrightarrow>
     in_flight k s \<le> lc_parallel C \<and> (\<forall>u \<in> set (fail_times k (s_log s)). u \<le> s_now s) \<and>
     (\<forall>c since. loginFailures (s_auth s) k = Some (c, since) \<longrightarrow> c + in_flight k s \<le> most_failures C) \<and>
     (never_logged_in k (s_log s) \<longrightarrow>
        windowed (most_failures C) (s_now s) (fail_times k (s_log s)) (loginFailures (s_auth s) k))"

lemma in_flight_simps [simp]:
  "in_flight k (s\<lparr>s_auth := a\<rparr>) = in_flight k s" "in_flight k (s\<lparr>s_now := t\<rparr>) = in_flight k s"
  "in_flight k (s\<lparr>s_log := l\<rparr>) = in_flight k s"
  "in_flight k (s\<lparr>s_pending := add_mset r (s_pending s)\<rparr>) = in_flight k s + (if clientKey r = k then 1 else 0)"
  by (simp_all add: in_flight_def)

lemma in_flight_done:
  "r \<in># s_pending s \<Longrightarrow>
   in_flight k s = in_flight k (s\<lparr>s_pending := s_pending s - {#r#}\<rparr>) + (if clientKey r = k then 1 else 0)"
  by (auto simp: in_flight_def dest!: multi_member_split)

lemma login_enter_failures:
  "login_enter now r a = (v, a') \<Longrightarrow>
   loginFailures a' = loginFailures a \<or> loginFailures a' = drop_ended now (loginFailures a)"
  by (auto simp: login_enter_def loginBlocked_def Let_def split: if_splits prod.splits bool.splits)

lemma login_enter_admits:
  "login_enter now r a = (None, a') \<Longrightarrow> loginFailures a' (clientKey r) = Some (c, since) \<Longrightarrow> c < loginMaxFailures"
  by (auto simp: login_enter_def loginBlocked_def Let_def not_le split: if_splits prod.splits bool.splits)

lemma drop_ended_SomeD: "drop_ended now m k = Some e \<Longrightarrow> m k = Some e"
  by (auto simp: drop_ended_def split: option.splits if_splits)

lemma enter_windowed:
  assumes "login_enter now r a = (v, a')" and "windowed B now F (loginFailures a k)"
  shows "windowed B now F (loginFailures a' k)"
  using login_enter_failures [OF assms(1)] windowed_drop_ended [where m = "loginFailures a" and k = k, OF assms(2)] assms(2) by auto

lemma enter_entry:
  assumes "login_enter now r a = (v, a')" and "loginFailures a' k = Some e"
  shows "loginFailures a k = Some e"
  using login_enter_failures [OF assms(1)] assms(2) by (auto dest: drop_ended_SomeD)

lemma throttled_finish:
  assumes s: "throttled C k s" and r: "r \<in># s_pending s"
    and fin: "login_finish (lc_User C) (lc_Pass C) (s_now s) i r (s_auth s) = (v, a)"
  shows "throttled C k (s\<lparr>s_auth := a, s_pending := s_pending s - {#r#}, s_log := log_login C (s_now s) i r # s_log s\<rparr>)"
    (is "throttled C k ?s'")
proof -
  let ?e = "loginFailures (s_auth s) k"
  have n: "in_flight k s = in_flight k ?s' + (if clientKey r = k then 1 else 0)"
    using in_flight_done [OF r, of k] by (simp add: in_flight_def)
  have now: "s_now ?s' = s_now s" "s_auth ?s' = a" "s_log ?s' = log_login C (s_now s) i r # s_log s"
    by simp_all
  show ?thesis
  proof (cases "credentials_ok (lc_User C) (lc_Pass C) r")
    case True
    then have "loginFailures a k = (if clientKey r = k then None else ?e)"
        "log_login C (s_now s) i r = LoggedIn r i (s_now s)"
      using fin by (auto simp: auth_update_defs)
    then show ?thesis
      using s n unfolding throttled_def now by (auto simp: never_logged_in_def split: if_splits)
  next
    case False
    then have l: "log_login C (s_now s) i r = LoginFailed (clientKey r) (s_now s)"
      by (simp add: log_login_def)
    have a: "loginFailures a k = (if clientKey r = k
        then Some (case ?e of Some (c, since) \<Rightarrow> (c + 1, since) | None \<Rightarrow> (1, s_now s)) else ?e)"
      using fin False by (auto simp: auth_update_defs)
    have q: "never_logged_in k (LoginFailed j t # l) \<longleftrightarrow> never_logged_in k l" for j t l
      by (simp add: never_logged_in_def)
    show ?thesis
    proof (cases "clientKey r = k")
      case True
      have b: "(case ?e of Some (c, since) \<Rightarrow> c + 1 | None \<Rightarrow> 1) + in_flight k ?s' \<le> most_failures C"
        using s n True by (auto simp: throttled_def most_failures_def split: option.splits)
      have "windowed (most_failures C) (s_now s) (s_now s # fail_times k (s_log s))
          (Some (case ?e of Some (c, since) \<Rightarrow> (c + 1, since) | None \<Rightarrow> (1, s_now s)))"
        if "never_logged_in k (s_log s)"
        by (rule windowed_failure) (use s b that in \<open>auto simp: throttled_def\<close>)
      then show ?thesis
        using s n b True unfolding throttled_def now unfolding l q a by (auto split: option.splits prod.splits)
    next
      case other: False
      then show ?thesis
        using s n unfolding throttled_def now unfolding l q a by simp
    qed
  qed
qed

lemma throttled_step:
  assumes "auth_step C s s'" and s: "throttled C k s"
  shows "throttled C k s'"
  using assms(1)
proof (cases rule: auth_step.cases)
  case (tick d)
  then show ?thesis
    using s by (fastforce simp: throttled_def intro: windowed_later)
next
  case (enter r a)
  have w: "windowed B (s_now s) F (loginFailures (s_auth s) k) \<Longrightarrow> windowed B (s_now s) F (loginFailures a k)" for B F
    by (rule enter_windowed [OF enter(2)])
  have c: "c + in_flight k s' \<le> most_failures C" if "loginFailures a k = Some (c, since)" for c since
  proof (cases "clientKey r = k")
    case True
    then show ?thesis
      using login_enter_admits [OF enter(2)] that enter(1,3) by (fastforce simp: in_flight_def most_failures_def)
  next
    case False
    then show ?thesis
      using enter_entry [OF enter(2) that] s enter(1) by (auto simp: throttled_def in_flight_def)
  qed
  have "in_flight k s' \<le> lc_parallel C"
    using s enter(1,3) by (auto simp: throttled_def in_flight_def)
  then show ?thesis
    using s c w unfolding throttled_def by (simp add: enter(1))
next
  case (answered r v a)
  then show ?thesis
    using s enter_windowed [OF answered(2)] enter_entry [OF answered(2)] by (fastforce simp: throttled_def)
next
  case (finish r i v a)
  then show ?thesis
    using throttled_finish [OF s] by blast
next
  case (logout r c v a)
  then have "loginFailures a = loginFailures (s_auth s)"
    by (auto simp: HandleLogout_def clearSession_def)
  then show ?thesis
    using s logout(1) by (simp add: throttled_def never_logged_in_def)
qed

lemma throttled_start: "throttled C k (start_site t)"
  by (simp add: start_site_def throttled_def in_flight_def windowed_def after_def in_window_def)

lemma throttled_reach:
  assumes "auth_reach C s"
  shows "throttled C k s"
proof -
  obtain t where "(auth_step C)\<^sup>*\<^sup>* (start_site t) s"
    using assms by blast
  then show ?thesis
    by (induction rule: rtranclp_induct) (simp_all only: throttled_start throttled_step)
qed

text \<open>A login that meets no other one is two steps.\<close>

definition lone_login :: "login_conf \<Rightarrow> string \<Rightarrow> request \<Rightarrow> site \<Rightarrow> site" where
  "lone_login C i r s =
     s\<lparr>s_auth := snd (login_finish (lc_User C) (lc_Pass C) (s_now s) i r (snd (login_enter (s_now s) r (s_auth s)))),
       s_log := log_login C (s_now s) i r # s_log s\<rparr>"

lemma lone_login_reach:
  assumes "auth_reach C s" and "fst (login_enter (s_now s) r (s_auth s)) = None" and "in_flight (clientKey r) s < lc_parallel C"
  shows "auth_reach C (lone_login C i r s)"
proof -
  obtain a where a: "login_enter (s_now s) r (s_auth s) = (None, a)"
    using assms(2) by (cases "login_enter (s_now s) r (s_auth s)") simp
  let ?m = "s\<lparr>s_auth := a, s_pending := add_mset r (s_pending s)\<rparr>"
  let ?f = "login_finish (lc_User C) (lc_Pass C) (s_now s) i r a"
  have "auth_step C s ?m"
    by (rule auth_step.enter [OF a assms(3)])
  moreover have "auth_step C ?m (lone_login C i r s)"
    using auth_step.finish [of r ?m C i "fst ?f" "snd ?f"] by (simp add: lone_login_def a)
  ultimately show ?thesis
    using assms(1) by (meson rtranclp.rtrancl_into_rtrancl)
qed

section \<open>Properties\<close>


text \<open>A site where one client failed to log in and another one succeeded.\<close>

definition sample_login :: "string \<Rightarrow> string \<Rightarrow> request" where
  "sample_login addr pass = \<lparr> rq_Method = ''POST'', rq_RemoteAddr = addr, rq_Host = ''dockify'', rq_Header = (\<lambda>_. []),
     rq_Cookie = None, rq_Form = Some (\<lambda>k. if k = ''user'' then ''admin'' else pass) \<rparr>"

definition sample_conf :: login_conf where
  "sample_conf = \<lparr> lc_User = ''admin'', lc_Pass = ''s3cret'', lc_parallel = 1 \<rparr>"

definition sample_site :: site where
  "sample_site = lone_login sample_conf ''abc'' (sample_login ''10.0.0.2:7'' ''s3cret'')
     (lone_login sample_conf [] (sample_login ''10.0.0.1:7'' ''guess'') (start_site 0))"

lemma sample_keys:
  "clientKey (sample_login ''10.0.0.2:7'' p) = ''10.0.0.2''" "clientKey (sample_login ''10.0.0.1:7'' p) = ''10.0.0.1''"
  by (simp_all add: clientKey_def sample_login_def SplitHostPort_def LastIndexByte_def)

lemma sample_checks:
  "credentials_ok ''admin'' ''s3cret'' (sample_login a ''s3cret'')" "\<not> credentials_ok ''admin'' ''s3cret'' (sample_login a ''guess'')"
  by (simp_all add: credentials_ok_def FormField_def sample_login_def)

lemmas sample_defs = sample_site_def lone_login_def sample_conf_def start_site_def login_enter_def loginBlocked_def Let_def
  drop_ended_def auth_update_defs sample_keys sample_checks

lemma sample_log: "s_log sample_site = [LoggedIn (sample_login ''10.0.0.2:7'' ''s3cret'') ''abc'' 0, LoginFailed ''10.0.0.1'' 0]"
  by (simp add: sample_defs)

lemma sample_reach: "auth_reach sample_conf sample_site"
  unfolding sample_site_def
  by (intro lone_login_reach exI [of _ 0]; simp add: sample_defs in_flight_def) (simp_all add: sample_login_def)


text \<open>C28. What passes the middleware when authentication is on: a request with the configured API token,
  or one without a bearer token that no other site sent and whose cookie names a
  session opened by a login at most a day ago and not closed since; and every login in the log was
  made with the configured user and password.
\<close>

theorem AuthMiddleware_correct:
  assumes "auth_reach C s"
  shows "(AuthMiddleware urlHost True apiToken (s_now s) (s_auth s) r = Served \<longleftrightarrow>
      (case CutPrefix (rq_Header r ''Authorization'') ''Bearer '' of
         Some bearer \<Rightarrow> apiToken \<noteq> [] \<and> bearer = apiToken
       | None \<Rightarrow> csrfCheck urlHost r = None \<and> session_open s r)) \<and>
    logins_checked C (s_log s)"
  using getSessionUser_open [OF reach_follows(1) [OF assms], of r] reach_follows(2) [OF assms]
  by (auto simp: AuthMiddleware_def split: option.splits)

theorem AuthMiddleware_correct_witness:
  "AuthMiddleware (\<lambda>_. None) True [] (s_now sample_site) (s_auth sample_site)
     ((sample_login [] [])\<lparr>rq_Method := ''GET'', rq_Cookie := Some ''abc''\<rparr>) = Served"
  by (simp add: conjunct1 [OF AuthMiddleware_correct [OF sample_reach]] CutPrefix_def HasPrefix_def sample_login_def csrfCheck_def session_open_def
      sample_log)
    (simp add: sample_defs)

end
