(* ===== verification/Webhook.thy ===== *)
theory Webhook
  imports Lifecycle Regex
begin

text \<open>
  The webhooks of \<open>internal/webhook/handler.go\<close> and the service of
  \<open>internal/settings/settings.go\<close> that keeps their secret and looks for updates. A webhook handler
  is a function of its request: the answer, and the call of \<open>DeployByGit\<close> it starts in the
  background, if any. HMAC-SHA256, the random generator, the JSON decoders, the request to
  GitHub's API and running a command are parameters.
\<close>

section \<open>Hexadecimal\<close>

definition hex_lower :: "nat \<Rightarrow> char" where
  "hex_lower n = (if n < 10 then digit_char n else char_of (87 + n))"

definition hex_encode :: "string \<Rightarrow> string" where
  "hex_encode s = concat (map (\<lambda>c. [hex_lower (of_char c div 16), hex_lower (of_char c mod 16)]) s)"

definition hex_val :: "char \<Rightarrow> nat option" where
  "hex_val c =
     (if is_digit c then Some (digit_val c)
      else if CHR ''a'' \<le> c \<and> c \<le> CHR ''f'' then Some (of_char c - 87)
      else if CHR ''A'' \<le> c \<and> c \<le> CHR ''F'' then Some (of_char c - 55)
      else None)"

text \<open>\<open>hex.DecodeString\<close>, \<open>None\<close> for an error.\<close>

fun hex_decode :: "string \<Rightarrow> string option" where
  "hex_decode [] = Some []"
| "hex_decode [c] = None"
| "hex_decode (a # b # s) =
     (case (hex_val a, hex_val b, hex_decode s) of
        (Some x, Some y, Some r) \<Rightarrow> Some (char_of (16 * x + y) # r)
      | _ \<Rightarrow> None)"

lemma hex_val_lower: "n < 16 \<Longrightarrow> hex_val (hex_lower n) = Some n"
proof -
  have "\<forall>n \<in> set [0..<16]. hex_val (hex_lower n) = Some n"
    by code_simp
  then show "n < 16 \<Longrightarrow> hex_val (hex_lower n) = Some n"
    by simp
qed

lemma hex_decode_encode: "hex_decode (hex_encode s) = Some s"
proof (induction s)
  case (Cons c s)
  have "(of_char c :: nat) < 256"
    by (rule of_char_bound)
  then have "(of_char c :: nat) div 16 < 16"
    by (intro less_mult_imp_div_less) simp
  then show ?case
    using Cons by (simp add: hex_encode_def hex_val_lower)
qed (simp add: hex_encode_def)

section \<open>The handlers\<close>

record hook_request =
  hr_Header :: "string \<Rightarrow> string"
  hr_Body :: "string result"

record push =
  ps_Ref :: string
  ps_After :: string
  ps_URL :: string

record hook_env =
  hk_hmac :: "string \<Rightarrow> string \<Rightarrow> string"
  hk_github :: "string \<Rightarrow> push result"
  hk_gitlab :: "string \<Rightarrow> push result"

type_synonym hook_answer = "(int \<times> string) \<times> (string \<times> string \<times> string) option"

text \<open>\<open>io.ReadAll\<close> of the body behind \<open>http.MaxBytesReader\<close>: one MiB at most.\<close>

definition read_body :: "hook_request \<Rightarrow> string result" where
  "read_body r = (case hr_Body r of
     Inl err \<Rightarrow> Inl err
   | Inr b \<Rightarrow> if 2 ^ 20 < length b then Inl ''http: request body too large'' else Inr b)"

definition verifyHMACSHA256 :: "hook_env \<Rightarrow> string \<Rightarrow> string \<Rightarrow> string \<Rightarrow> bool" where
  "verifyHMACSHA256 H sig body secret =
     (if \<not> HasPrefix sig ''sha256='' then False
      else case hex_decode (drop 7 sig) of
          None \<Rightarrow> False
        | Some sigBytes \<Rightarrow> sigBytes = hk_hmac H secret body)"

definition GitHub :: "hook_env \<Rightarrow> string \<Rightarrow> hook_request \<Rightarrow> hook_answer" where
  "GitHub H secret r =
     (if hr_Header r ''X-GitHub-Event'' \<noteq> ''push'' then ((200, ''ignored''), None)
      else case read_body r of
        Inl _ \<Rightarrow> ((400, ''read body''), None)
      | Inr body \<Rightarrow>
          (case hk_github H body of
             Inl _ \<Rightarrow> ((400, ''invalid payload''), None)
           | Inr p \<Rightarrow>
               if secret = [] \<or> \<not> verifyHMACSHA256 H (hr_Header r ''X-Hub-Signature-256'') body secret
               then ((401, ''invalid signature''), None)
               else ((200, ''ok''), Some (ps_URL p, TrimPrefix (ps_Ref p) ''refs/heads/'', ps_After p))))"

definition GitLab :: "hook_env \<Rightarrow> string \<Rightarrow> hook_request \<Rightarrow> hook_answer" where
  "GitLab H secret r =
     (if hr_Header r ''X-Gitlab-Event'' \<noteq> ''Push Hook'' then ((200, ''ignored''), None)
      else case read_body r of
        Inl _ \<Rightarrow> ((400, ''read body''), None)
      | Inr body \<Rightarrow>
          (case hk_gitlab H body of
             Inl _ \<Rightarrow> ((400, ''invalid payload''), None)
           | Inr p \<Rightarrow>
               if secret = [] \<or> hr_Header r ''X-Gitlab-Token'' \<noteq> secret
               then ((401, ''invalid token''), None)
               else ((200, ''ok''), Some (ps_URL p, TrimPrefix (ps_Ref p) ''refs/heads/'', ps_After p))))"

text \<open>The background call, when it runs.\<close>

definition hook_effect :: "hook_answer \<Rightarrow> unit prog" where
  "hook_effect a = (case snd a of None \<Rightarrow> ret () | Some (repo, branch, sha) \<Rightarrow> DeployByGit repo branch sha)"

section \<open>Settings\<close>

text \<open>
  The row \<open>webhook_secret\<close> of the table \<open>settings\<close>, the cached answer of the update check
  with its time, and what was done outside: the times of the requests to GitHub and the commands run.
\<close>

record UpdateInfo =
  ui_Current :: string
  ui_Latest :: string
  ui_HasUpdate :: bool

record settings =
  st_secret :: "string option"
  st_cache :: "(UpdateInfo \<times> error option \<times> int) option"
  st_requests :: "int list"
  st_commands :: "string list list"

record settings_env =
  se_version :: string
  se_now :: "settings \<Rightarrow> int"
  se_random :: string
  se_latest :: "int list \<Rightarrow> (int \<times> string) result"
  se_decode :: "string \<Rightarrow> string result"
  se_exec :: "string list \<Rightarrow> string \<times> error option"

type_synonym 'a settings_op = "(settings, 'a) state"

text \<open>32 random bytes in hexadecimal.\<close>

definition generateSecret :: "settings_env \<Rightarrow> string" where
  "generateSecret V = hex_encode (se_random V)"

definition GetWebhookSecret :: "settings_env \<Rightarrow> string settings_op" where
  "GetWebhookSecret V = do {
     v \<leftarrow> gets st_secret;
     case v of
       Some value \<Rightarrow> ret value
     | None \<Rightarrow> do { modify (\<lambda>s. s\<lparr>st_secret := Some (generateSecret V)\<rparr>); ret (generateSecret V) }
   }"

text \<open>An update of no row is no error.\<close>

definition RegenerateWebhookSecret :: "settings_env \<Rightarrow> string settings_op" where
  "RegenerateWebhookSecret V = do {
     modify (\<lambda>s. case st_secret s of None \<Rightarrow> s | Some _ \<Rightarrow> s\<lparr>st_secret := Some (generateSecret V)\<rparr>);
     ret (generateSecret V)
   }"

abbreviation five_minutes :: int where "five_minutes \<equiv> 5 * 60 * 1000000000"

definition current_version :: "settings_env \<Rightarrow> string" where
  "current_version V = (if se_version V = [] then ''0.0.0'' else se_version V)"

text \<open>The answer of GitHub as the check reads it.\<close>

definition update_answer :: "settings_env \<Rightarrow> (int \<times> string) result \<Rightarrow> UpdateInfo \<times> error option" where
  "update_answer V resp =
     (let current = current_version V;
          unknown = \<lparr> ui_Current = current, ui_Latest = [], ui_HasUpdate = False \<rparr>
      in case resp of
           Inl err \<Rightarrow> (unknown, Some (''fetch latest: '' @ err))
         | Inr (status, body) \<Rightarrow>
             if status = 403 \<or> status = 429
             then (unknown, Some (''GitHub API rate limit exceeded (HTTP '' @ Itoa status @ '')''))
             else case se_decode V body of
                 Inl err \<Rightarrow> (unknown, Some (''decode: '' @ err))
               | Inr latest \<Rightarrow>
                   (\<lparr> ui_Current = current, ui_Latest = latest,
                      ui_HasUpdate = (latest \<noteq> [] \<and> latest \<noteq> ''v'' @ current \<and> latest \<noteq> current) \<rparr>, None))"

definition fetch_update :: "settings_env \<Rightarrow> (UpdateInfo \<times> error option) settings_op" where
  "fetch_update V = do {
     resp \<leftarrow> gets (\<lambda>s. se_latest V (st_requests s));
     modify (\<lambda>s. s\<lparr>st_requests := se_now V s # st_requests s\<rparr>);
     let answer = update_answer V resp;
     modify (\<lambda>s. s\<lparr>st_cache := Some (fst answer, snd answer, se_now V s)\<rparr>);
     ret answer
   }"

definition CheckUpdate :: "settings_env \<Rightarrow> bool \<Rightarrow> (UpdateInfo \<times> error option) settings_op" where
  "CheckUpdate V force = do {
     now \<leftarrow> gets (se_now V);
     cached \<leftarrow> gets st_cache;
     case (if force then None else cached) of
       Some (info, err, stamp) \<Rightarrow> if now - stamp < five_minutes then ret (info, err) else fetch_update V
     | None \<Rightarrow> fetch_update V
   }"

definition releaseTag :: rx where
  "releaseTag = RSeq (RChr CHR ''v'') (RSeq (RPlus (RCls is_digit)) (RSeq (RChr CHR ''.'')
     (RSeq (RPlus (RCls is_digit)) (RSeq (RChr CHR ''.'') (RPlus (RCls is_digit))))))"

definition upgradeArgv :: "string \<Rightarrow> string list result" where
  "upgradeArgv tag =
     (if \<not> rx_match releaseTag tag
      then Inl (''no latest release tag known (got '' @ Quote tag @ ''); check for updates first'')
      else let url = ''https://raw.githubusercontent.com/coderbuzz/dockify/'' @ tag @ ''/scripts/update.sh''
        in Inr [''systemd-run'', ''--no-block'', ''--unit=dockify-upgrade'', ''--collect'',
             ''--setenv=DOCKIFY_FORCE=y'', ''--setenv=DOCKIFY_VERSION='' @ tag,
             ''/bin/bash'', ''-c'', ''set -o pipefail; sleep 3; curl -fsSL '' @ url @ '' | bash''])"

definition RunUpdate :: "settings_env \<Rightarrow> error option settings_op" where
  "RunUpdate V = do {
     checked \<leftarrow> CheckUpdate V False;
     case upgradeArgv (ui_Latest (fst checked)) of
       Inl err \<Rightarrow> ret (Some err)
     | Inr argv \<Rightarrow> do {
         modify (\<lambda>s. s\<lparr>st_commands := argv # st_commands s\<rparr>);
         ret (case se_exec V argv of
                (out, Some err) \<Rightarrow> Some (''systemd-run: '' @ err @ '': '' @ out)
              | (out, None) \<Rightarrow> None)
       }
   }"

section \<open>Properties\<close>

lemma hook_effect_None: "hook_effect (b, None) = ret ()"
  by (simp add: hook_effect_def)

lemma exec_hook_effect:
  "exec (hook_effect (b, Some (repo, branch, sha))) w = w\<lparr>w_tasks := w_tasks w @ map (\<lambda>a. TaskDeploy (app_ID a) sha)
     (filter (\<lambda>a. \<not> app_Status a \<noteq> ''running'') (Repo_FindAllByGitRepo repo branch (w_db w)))\<rparr>"
  by (simp add: hook_effect_def exec_DeployByGit)

text \<open>A push whose body was signed with the secret of the settings.\<close>

definition signed_push :: "hook_env \<Rightarrow> string \<Rightarrow> hook_request \<Rightarrow> push \<Rightarrow> bool" where
  "signed_push H secret r p \<longleftrightarrow> secret \<noteq> [] \<and> hr_Header r ''X-GitHub-Event'' = ''push'' \<and>
     (\<exists>body mac. hr_Body r = Inr body \<and> length body \<le> 2 ^ 20 \<and> hk_github H body = Inr p \<and>
        hr_Header r ''X-Hub-Signature-256'' = ''sha256='' @ mac \<and> hex_decode mac = Some (hk_hmac H secret body))"

definition pushed_apps :: "push \<Rightarrow> world \<Rightarrow> App set" where
  "pushed_apps p w = {a \<in> set (apps (w_db w)). app_Status a = ''running'' \<and> app_GitRepo a = ps_URL p \<and>
     app_GitBranch a = TrimPrefix (ps_Ref p) ''refs/heads/'' \<and> app_GitRepo a \<noteq> [] \<and> app_GitBranch a \<noteq> []}"

lemma verify_iff:
  "verifyHMACSHA256 H sig body secret \<longleftrightarrow> (\<exists>mac. sig = ''sha256='' @ mac \<and> hex_decode mac = Some (hk_hmac H secret body))"
proof (cases "HasPrefix sig ''sha256=''")
  case True
  then obtain mac where "sig = ''sha256='' @ mac"
    unfolding HasPrefix_iff by blast
  then show ?thesis
    by (auto simp: verifyHMACSHA256_def HasPrefix_def split: option.splits)
qed (auto simp: verifyHMACSHA256_def HasPrefix_def)

lemma GitHub_accepts:
  "snd (GitHub H secret r) = Some c \<longleftrightarrow>
     (\<exists>p. signed_push H secret r p \<and> c = (ps_URL p, TrimPrefix (ps_Ref p) ''refs/heads/'', ps_After p))"
  unfolding GitHub_def read_body_def signed_push_def by (auto simp: verify_iff not_less split: sum.splits)

lemma found_pushed:
  "set (filter (\<lambda>a. \<not> app_Status a \<noteq> ''running'') (Repo_FindAllByGitRepo (ps_URL p) (TrimPrefix (ps_Ref p) ''refs/heads/'') (w_db w)))
     = pushed_apps p w"
  by (auto simp: pushed_apps_def Repo_FindAllByGitRepo_def)


definition sample_hook :: hook_env where
  "sample_hook = \<lparr> hk_hmac = (\<lambda>key body. key @ body), hk_github = (\<lambda>_. Inr \<lparr> ps_Ref = ''refs/heads/main'', ps_After = ''c0ffee'',
     ps_URL = ''https://git.example/a.git'' \<rparr>), hk_gitlab = (\<lambda>_. Inl ''unused'') \<rparr>"

definition sample_push :: hook_request where
  "sample_push = \<lparr> hr_Header = (\<lambda>h. if h = ''X-GitHub-Event'' then ''push'' else ''sha256='' @ hex_encode ''key{}''),
     hr_Body = Inr ''{}'' \<rparr>"

definition sample_pushed :: push where
  "sample_pushed = \<lparr> ps_Ref = ''refs/heads/main'', ps_After = ''c0ffee'', ps_URL = ''https://git.example/a.git'' \<rparr>"


text \<open>The tags that reach the command line: the letter v, digits and dots.\<close>

lemma releaseTag_chars:
  assumes "rx_match releaseTag tag"
  shows "\<exists>a b c. tag = ''v'' @ a @ ''.'' @ b @ ''.'' @ c \<and> list_all is_digit (a @ b @ c) \<and> a \<noteq> [] \<and> b \<noteq> [] \<and> c \<noteq> []"
proof -
  have "tag \<in> rx_lang releaseTag"
    using assms by (simp add: rx_match_lang)
  then show ?thesis
    unfolding releaseTag_def by (fastforce simp: lang_RChr lang_RPlus_cls)
qed

lemma upgradeArgv_tag:
  "upgradeArgv tag = Inr argv \<Longrightarrow>
   \<exists>a b c. tag = ''v'' @ a @ ''.'' @ b @ ''.'' @ c \<and> list_all is_digit (a @ b @ c) \<and> a \<noteq> [] \<and> b \<noteq> [] \<and> c \<noteq> []"
  by (rule releaseTag_chars) (simp add: upgradeArgv_def split: if_splits)

text \<open>An update runs only the fixed command line, once: its release tag is a \<open>v\<close> and three
  decimal numbers with dots, so nothing GitHub answers can add words or commands to the shell
  line; without a known release no command runs. A check made less than five minutes after the
  last one asks GitHub nothing.
\<close>

theorem RunUpdate_safe:
  "(st_commands (exec (RunUpdate V) s) = st_commands s \<or>
    (\<exists>a b c argv. list_all is_digit (a @ b @ c) \<and> a \<noteq> [] \<and> b \<noteq> [] \<and> c \<noteq> [] \<and>
       upgradeArgv (''v'' @ a @ ''.'' @ b @ ''.'' @ c) = Inr argv \<and> st_commands (exec (RunUpdate V) s) = argv # st_commands s)) \<and>
   (case st_cache s of Some (info, err, stamp) \<Rightarrow>
      stamp + five_minutes \<le> se_now V s \<or> st_requests (exec (RunUpdate V) s) = st_requests s | None \<Rightarrow> True)"
proof -
  let ?argv = "\<lambda>v. upgradeArgv (ui_Latest v)"
  let ?Q = "\<lambda>v w. st_commands w = st_commands s \<and> (case st_cache s of Some (info, err, stamp) \<Rightarrow>
      stamp + five_minutes \<le> se_now V s \<or> st_requests w = st_requests s | None \<Rightarrow> True)"
  have "wp (CheckUpdate V False) ?Q s"
    by (auto simp: CheckUpdate_def fetch_update_def wp_simps Let_def split: option.splits)
  then have "wp (RunUpdate V) (\<lambda>_ w. (st_commands w = st_commands s \<or>
      (\<exists>tag argv. upgradeArgv tag = Inr argv \<and> st_commands w = argv # st_commands s)) \<and>
      (case st_cache s of Some (info, err, stamp) \<Rightarrow>
        stamp + five_minutes \<le> se_now V s \<or> st_requests w = st_requests s | None \<Rightarrow> True)) s"
    unfolding RunUpdate_def wp_bind by (rule wp_mono) (auto simp: wp_simps split: sum.splits option.splits)
  then show ?thesis
    unfolding wp_exec
    using upgradeArgv_tag by (elim conj_forward disj_forward) (blast, blast)
qed

end
