(* ===== verification/AppLocks.thy ===== *)
theory AppLocks
  imports GoStrings
begin

text \<open>
  The locks that serialise the lifecycle operations of one app: \<open>lock\<close>, \<open>appMutex\<close> and \<open>Busy\<close> of
  \<open>internal/app/service.go\<close> and the way the operations use them. \<open>appLocks\<close> is the sync.Map from
  app ids to mutexes, a mutex is a number, \<open>locked\<close> holds those that are locked now.
  A goroutine is a phase: it looks its mutex up, waits for it, then works through the steps of its
  body and unlocks. \<open>Rollback\<close> unlocks only on an error; otherwise it hands the held
  mutex to the goroutine that deploys. \<open>Busy\<close> tries the mutex and gives it back. What the
  steps of a body do is in the other theories; here only their number counts. Unlocking an
  unlocked mutex ends the process.
\<close>

section \<open>Mutexes\<close>

record mutexes =
  appLocks :: "int \<Rightarrow> nat option"
  next_mutex :: nat
  locked :: "nat set"
  crashed :: bool

text \<open>\<open>LoadOrStore\<close> with a new mutex, which is dropped when there is one already.\<close>

definition appMutex :: "int \<Rightarrow> mutexes \<Rightarrow> nat \<times> mutexes" where
  "appMutex i x = (case appLocks x i of
     Some m \<Rightarrow> (m, x\<lparr>next_mutex := next_mutex x + 1\<rparr>)
   | None \<Rightarrow> (next_mutex x, x\<lparr>appLocks := (appLocks x)(i := Some (next_mutex x)), next_mutex := next_mutex x + 1\<rparr>))"

text \<open>\<open>None\<close>: the caller has to wait.\<close>

definition Lock :: "nat \<Rightarrow> mutexes \<Rightarrow> mutexes option" where
  "Lock m x = (if m \<in> locked x then None else Some (x\<lparr>locked := insert m (locked x)\<rparr>))"

definition TryLock :: "nat \<Rightarrow> mutexes \<Rightarrow> bool \<times> mutexes" where
  "TryLock m x = (case Lock m x of None \<Rightarrow> (False, x) | Some x' \<Rightarrow> (True, x'))"

definition Unlock :: "nat \<Rightarrow> mutexes \<Rightarrow> mutexes" where
  "Unlock m x = x\<lparr>crashed := (crashed x \<or> m \<notin> locked x), locked := locked x - {m}\<rparr>"

section \<open>Goroutines\<close>

text \<open>
  An entry point that starts with \<open>defer s.lock(id)()\<close> has a body of some steps. A rollback
  has its own steps, and the steps of the deployment it starts unless it fails. A probe is a
  call of \<open>Busy\<close>.
\<close>

datatype job =
    Operation nat
  | RollbackJob nat "nat option"
  | Probe

datatype phase =
    Called job int
  | AtLock job int nat
  | Holding job int nat

record system =
  sy_mutexes :: mutexes
  sy_threads :: "phase multiset"

definition idle :: system where
  "idle = \<lparr> sy_mutexes = \<lparr> appLocks = (\<lambda>_. None), next_mutex = 0, locked = {}, crashed = False \<rparr>, sy_threads = {#} \<rparr>"

text \<open>\<open>becomes x p qs\<close>: the goroutine in phase \<open>p\<close> goes on as \<open>qs\<close>.\<close>

abbreviation becomes :: "system \<Rightarrow> mutexes \<Rightarrow> phase \<Rightarrow> phase multiset \<Rightarrow> system" where
  "becomes s x p qs \<equiv> \<lparr> sy_mutexes = x, sy_threads = sy_threads s - {#p#} + qs \<rparr>"

inductive lock_step :: "system \<Rightarrow> system \<Rightarrow> bool" where
  find_mutex: "Called j i \<in># sy_threads s \<Longrightarrow> appMutex i (sy_mutexes s) = (m, x) \<Longrightarrow>
    lock_step s (becomes s x (Called j i) {#AtLock j i m#})"
| acquire: "AtLock j i m \<in># sy_threads s \<Longrightarrow> j \<noteq> Probe \<Longrightarrow> Lock m (sy_mutexes s) = Some x \<Longrightarrow>
    lock_step s (becomes s x (AtLock j i m) {#Holding j i m#})"
| try_lock: "AtLock Probe i m \<in># sy_threads s \<Longrightarrow> TryLock m (sy_mutexes s) = (free, x) \<Longrightarrow>
    lock_step s (becomes s x (AtLock Probe i m) (if free then {#Holding Probe i m#} else {#}))"
| work: "Holding (Operation (Suc n)) i m \<in># sy_threads s \<Longrightarrow>
    lock_step s (becomes s (sy_mutexes s) (Holding (Operation (Suc n)) i m) {#Holding (Operation n) i m#})"
| work_rollback: "Holding (RollbackJob (Suc n) next) i m \<in># sy_threads s \<Longrightarrow>
    lock_step s (becomes s (sy_mutexes s) (Holding (RollbackJob (Suc n) next) i m) {#Holding (RollbackJob n next) i m#})"
| release: "Holding j i m \<in># sy_threads s \<Longrightarrow> j = Operation 0 \<or> j = RollbackJob 0 None \<or> j = Probe \<Longrightarrow>
    lock_step s (becomes s (Unlock m (sy_mutexes s)) (Holding j i m) {#})"
| hand_over: "Holding (RollbackJob 0 (Some k)) i m \<in># sy_threads s \<Longrightarrow>
    lock_step s (becomes s (sy_mutexes s) (Holding (RollbackJob 0 (Some k)) i m) {#Holding (Operation k) i m#})"

text \<open>A request arrives at any time, for any app.\<close>

inductive arrive :: "system \<Rightarrow> system \<Rightarrow> bool" where
  arrive: "arrive s (s\<lparr>sy_threads := add_mset (Called j i) (sy_threads s)\<rparr>)"

inductive_cases lock_stepE: "lock_step s s'"
inductive_cases arriveE: "arrive s s'"

abbreviation lock_reach :: "system \<Rightarrow> bool" where
  "lock_reach s \<equiv> (sup lock_step arrive)\<^sup>*\<^sup>* idle s"

section \<open>Invariant\<close>

fun holds :: "nat \<Rightarrow> phase \<Rightarrow> bool" where
  "holds m (Holding j i m') = (m = m')"
| "holds m (Called j i) = False"
| "holds m (AtLock j i m') = False"

fun knows :: "phase \<Rightarrow> (int \<times> nat) option" where
  "knows (Called j i) = None"
| "knows (AtLock j i m) = Some (i, m)"
| "knows (Holding j i m) = Some (i, m)"

definition holders :: "nat \<Rightarrow> system \<Rightarrow> nat" where
  "holders m s = size (filter_mset (holds m) (sy_threads s))"

text \<open>
  Different apps have different mutexes, every goroutine has the one of its app, and a mutex is
  locked just when one goroutine holds it.
\<close>

definition locks_ok :: "system \<Rightarrow> bool" where
  "locks_ok s \<longleftrightarrow>
     \<not> crashed (sy_mutexes s) \<and>
     inj_on (appLocks (sy_mutexes s)) (dom (appLocks (sy_mutexes s))) \<and>
     (\<forall>i m. appLocks (sy_mutexes s) i = Some m \<longrightarrow> m < next_mutex (sy_mutexes s)) \<and>
     (\<forall>p i m. p \<in># sy_threads s \<longrightarrow> knows p = Some (i, m) \<longrightarrow> appLocks (sy_mutexes s) i = Some m) \<and>
     (\<forall>m. holders m s = (if m \<in> locked (sy_mutexes s) then 1 else 0))"

lemma appMutex_cases:
  assumes "appMutex i x = (m, x')"
  obtains "appLocks x i = Some m" "appLocks x' = appLocks x" "locked x' = locked x" "crashed x' = crashed x"
      "next_mutex x' = Suc (next_mutex x)"
  | "appLocks x i = None" "m = next_mutex x" "appLocks x' = (appLocks x)(i := Some m)" "locked x' = locked x"
      "crashed x' = crashed x" "next_mutex x' = Suc (next_mutex x)"
  using assms by (auto simp: appMutex_def split: option.splits)

lemma appMutex_ok:
  assumes "appMutex i x = (m, x')"
    and "inj_on (appLocks x) (dom (appLocks x))" "\<forall>i m. appLocks x i = Some m \<longrightarrow> m < next_mutex x"
  shows "inj_on (appLocks x') (dom (appLocks x'))" "\<forall>i m. appLocks x' i = Some m \<longrightarrow> m < next_mutex x'"
    "appLocks x' i = Some m" "\<And>j n. appLocks x j = Some n \<Longrightarrow> appLocks x' j = Some n"
    "locked x' = locked x" "crashed x' = crashed x"
proof -
  have "inj_on (appLocks x') (dom (appLocks x')) \<and> (\<forall>i m. appLocks x' i = Some m \<longrightarrow> m < next_mutex x') \<and>
      appLocks x' i = Some m \<and> (\<forall>j n. appLocks x j = Some n \<longrightarrow> appLocks x' j = Some n) \<and>
      locked x' = locked x \<and> crashed x' = crashed x"
  proof (cases rule: appMutex_cases [OF assms(1)])
    case 1
    then show ?thesis
      using assms(2,3) by (simp add: less_SucI)
  next
    case 2
    have "appLocks x j \<noteq> Some m" for j
      using assms(3) 2(2) by fastforce
    then have "inj_on (appLocks x') (dom (appLocks x'))"
      using assms(2) unfolding 2(3) inj_on_def by (auto simp: dom_def)
    then show ?thesis
      using assms(3) 2 by (auto simp: less_SucI)
  qed
  then show "inj_on (appLocks x') (dom (appLocks x'))" "\<forall>i m. appLocks x' i = Some m \<longrightarrow> m < next_mutex x'"
    "appLocks x' i = Some m" "\<And>j n. appLocks x j = Some n \<Longrightarrow> appLocks x' j = Some n"
    "locked x' = locked x" "crashed x' = crashed x"
    by blast+
qed

lemma filter_mset_none: "filter_mset P M = {#} \<longleftrightarrow> (\<forall>x. x \<in># M \<longrightarrow> \<not> P x)"
  by (induction M) auto

lemma holders_becomes:
  assumes "p \<in># sy_threads s"
  shows "holders m (becomes s x p qs) + (if holds m p then 1 else 0) = holders m s + size (filter_mset (holds m) qs)"
  using assms by (auto simp: holders_def dest!: multi_member_split)

lemma locks_ok_holds:
  assumes "locks_ok s" and "Holding j i m \<in># sy_threads s"
  shows "m \<in> locked (sy_mutexes s)" "holders m s = 1" "appLocks (sy_mutexes s) i = Some m"
proof -
  have "holders m s \<noteq> 0"
    using assms(2) by (auto simp: holders_def dest!: multi_member_split)
  then show "m \<in> locked (sy_mutexes s)" "holders m s = 1"
    using assms(1) by (auto simp: locks_ok_def split: if_splits)
  show "appLocks (sy_mutexes s) i = Some m"
    using assms unfolding locks_ok_def by (metis knows.simps(3))
qed

text \<open>A step that replaces one goroutine keeps the invariant if it does so locally.\<close>

lemma locks_ok_becomes:
  assumes ok: "locks_ok s" and p: "p \<in># sy_threads s"
    and x: "\<not> crashed x" "inj_on (appLocks x) (dom (appLocks x))" "\<forall>i m. appLocks x i = Some m \<longrightarrow> m < next_mutex x"
      "\<And>j n. appLocks (sy_mutexes s) j = Some n \<Longrightarrow> appLocks x j = Some n"
    and qs: "\<And>q i m. q \<in># qs \<Longrightarrow> knows q = Some (i, m) \<Longrightarrow> appLocks x i = Some m"
    and h: "\<And>m. holders m s + size (filter_mset (holds m) qs)
        = (if m \<in> locked x then 1 else 0) + (if holds m p then 1 else 0)"
  shows "locks_ok (becomes s x p qs)"
proof -
  have "appLocks x i = Some m" if "q \<in># sy_threads s" "knows q = Some (i, m)" for q i m
    using that ok x(4) unfolding locks_ok_def by blast
  moreover have "holders m (becomes s x p qs) = (if m \<in> locked x then 1 else 0)" for m
    using holders_becomes [OF p, of m x qs] h [of m] by linarith
  ultimately show ?thesis
    using x(1-3) qs unfolding locks_ok_def by (auto dest!: in_diffD)
qed

lemma locks_ok_step:
  assumes "lock_step s s'" and ok: "locks_ok s"
  shows "locks_ok s'"
proof -
  have parts: "\<not> crashed (sy_mutexes s)" "inj_on (appLocks (sy_mutexes s)) (dom (appLocks (sy_mutexes s)))"
      "\<forall>i m. appLocks (sy_mutexes s) i = Some m \<longrightarrow> m < next_mutex (sy_mutexes s)"
      "\<And>p i m. p \<in># sy_threads s \<Longrightarrow> knows p = Some (i, m) \<Longrightarrow> appLocks (sy_mutexes s) i = Some m"
      "\<And>m. holders m s = (if m \<in> locked (sy_mutexes s) then 1 else 0)"
    using ok unfolding locks_ok_def by blast+
  show ?thesis
    using assms(1)
  proof (cases rule: lock_step.cases)
    case (find_mutex j i m x)
    note a = appMutex_ok [OF find_mutex(3) parts(2,3)]
    show ?thesis
      unfolding find_mutex(1)
      by (rule locks_ok_becomes [OF ok find_mutex(2)]) (use a parts in auto)
  next
    case (acquire j i m x)
    then have x: "x = (sy_mutexes s)\<lparr>locked := insert m (locked (sy_mutexes s))\<rparr>" "m \<notin> locked (sy_mutexes s)"
      by (auto simp: Lock_def split: if_splits)
    show ?thesis
      unfolding acquire(1)
      by (rule locks_ok_becomes [OF ok acquire(2)]) (use x parts parts(4) [OF acquire(2)] in auto)
  next
    case (try_lock i m free x)
    then have x: "x = (if free then (sy_mutexes s)\<lparr>locked := insert m (locked (sy_mutexes s))\<rparr> else sy_mutexes s)"
        "free \<longleftrightarrow> m \<notin> locked (sy_mutexes s)"
      by (auto simp: TryLock_def Lock_def split: if_splits)
    show ?thesis
      unfolding try_lock(1)
      by (rule locks_ok_becomes [OF ok try_lock(2)]) (use x parts parts(4) [OF try_lock(2)] in \<open>auto split: if_splits\<close>)
  next
    case (work n i m)
    show ?thesis
      unfolding work(1)
      by (rule locks_ok_becomes [OF ok work(2)]) (use parts parts(4) [OF work(2)] in auto)
  next
    case (work_rollback n "next" i m)
    show ?thesis
      unfolding work_rollback(1)
      by (rule locks_ok_becomes [OF ok work_rollback(2)]) (use parts parts(4) [OF work_rollback(2)] in auto)
  next
    case (release j i m)
    show ?thesis
      unfolding release(1)
      by (rule locks_ok_becomes [OF ok release(2)])
        (use parts locks_ok_holds [OF ok release(2)] in \<open>auto simp: Unlock_def\<close>)
  next
    case (hand_over k i m)
    show ?thesis
      unfolding hand_over(1)
      by (rule locks_ok_becomes [OF ok hand_over(2)]) (use parts parts(4) [OF hand_over(2)] in auto)
  qed
qed

lemma locks_ok_arrive: "arrive s s' \<Longrightarrow> locks_ok s \<Longrightarrow> locks_ok s'"
  by (erule arriveE) (auto simp: locks_ok_def holders_def)

lemma locks_ok_idle: "locks_ok idle"
  by (simp add: locks_ok_def idle_def holders_def)

lemma locks_ok_reach: "lock_reach s \<Longrightarrow> locks_ok s"
  by (induction rule: rtranclp_induct) (auto simp: locks_ok_idle intro: locks_ok_step locks_ok_arrive)

section \<open>Progress\<close>

text \<open>An upper bound of the steps a goroutine can still make.\<close>

fun job_cost :: "job \<Rightarrow> nat" where
  "job_cost (Operation n) = n + 1"
| "job_cost (RollbackJob n next) = n + 1 + (case next of None \<Rightarrow> 0 | Some k \<Rightarrow> k + 1)"
| "job_cost Probe = 1"

fun phase_cost :: "phase \<Rightarrow> nat" where
  "phase_cost (Called j i) = job_cost j + 2"
| "phase_cost (AtLock j i m) = job_cost j + 1"
| "phase_cost (Holding j i m) = job_cost j"

definition cost :: "system \<Rightarrow> nat" where
  "cost s = sum_mset (image_mset phase_cost (sy_threads s))"

lemma cost_becomes:
  "p \<in># sy_threads s \<Longrightarrow> sum_mset (image_mset phase_cost qs) < phase_cost p \<Longrightarrow> cost (becomes s x p qs) < cost s"
  by (auto simp: cost_def dest!: multi_member_split)

lemma cost_step: "lock_step s s' \<Longrightarrow> cost s' < cost s"
  by (induction rule: lock_step.induct) (erule cost_becomes, (auto split: if_splits) [1])+

text \<open>A goroutine can always go on, or waits for one that can.\<close>

lemma holding_steps: "Holding j i m \<in># sy_threads s \<Longrightarrow> \<exists>s'. lock_step s s'"
proof (cases j)
  case (Operation n)
  then show "Holding j i m \<in># sy_threads s \<Longrightarrow> ?thesis"
    by (cases n) (blast intro: lock_step.release lock_step.work)+
next
  case (RollbackJob n k)
  then show "Holding j i m \<in># sy_threads s \<Longrightarrow> ?thesis"
    by (cases n; cases k) (blast intro: lock_step.release lock_step.work_rollback lock_step.hand_over)+
qed (blast intro: lock_step.release)

lemma some_step:
  assumes ok: "locks_ok s" and "sy_threads s \<noteq> {#}"
  shows "\<exists>s'. lock_step s s'"
proof -
  obtain p where p: "p \<in># sy_threads s"
    using assms(2) by blast
  show ?thesis
  proof (cases p)
    case (Called j i)
    then show ?thesis
      using p lock_step.find_mutex [of j i s "fst (appMutex i (sy_mutexes s))" "snd (appMutex i (sy_mutexes s))"] by auto
  next
    case (AtLock j i m)
    show ?thesis
    proof (cases "m \<in> locked (sy_mutexes s)")
      case True
      then have "holders m s \<noteq> 0"
        using ok by (auto simp: locks_ok_def)
      then obtain q where "q \<in># sy_threads s" "holds m q"
        by (auto simp: holders_def filter_mset_none)
      then show ?thesis
        using holding_steps by (cases q) auto
    next
      case False
      then have "Lock m (sy_mutexes s) = Some ((sy_mutexes s)\<lparr>locked := insert m (locked (sy_mutexes s))\<rparr>)"
        by (simp add: Lock_def)
      then show ?thesis
        using p AtLock lock_step.acquire [of j i m s]
          lock_step.try_lock [of i m s True "(sy_mutexes s)\<lparr>locked := insert m (locked (sy_mutexes s))\<rparr>"]
        by (cases "j = Probe") (auto simp: TryLock_def)
    qed
  next
    case (Holding j i m)
    then show ?thesis
      using p holding_steps by blast
  qed
qed

lemma locks_ok_steps: "(lock_step ^^ n) s s' \<Longrightarrow> locks_ok s \<Longrightarrow> locks_ok s' \<and> n + cost s' \<le> cost s"
proof (induction n arbitrary: s')
  case (Suc n)
  then obtain t where "(lock_step ^^ n) s t" "lock_step t s'"
    by auto
  then show ?case
    using Suc locks_ok_step cost_step by fastforce
qed simp

lemma no_holders_unlocked:
  "locks_ok s \<Longrightarrow> sy_threads s = {#} \<Longrightarrow> locked (sy_mutexes s) = {}"
  by (auto simp: locks_ok_def holders_def split: if_splits)

section \<open>Properties\<close>

fun runs_for :: "int \<Rightarrow> phase \<Rightarrow> bool" where
  "runs_for i (Holding j i' m) = (i' = i)"
| "runs_for i (Called j i') = False"
| "runs_for i (AtLock j i' m) = False"

lemma runs_for_holds:
  assumes "locks_ok s" and "appLocks (sy_mutexes s) i = Some m"
  shows "filter_mset (runs_for i) (sy_threads s) = filter_mset (holds m) (sy_threads s)"
proof (rule filter_mset_cong [OF refl])
  fix p
  assume p: "p \<in># sy_threads s"
  show "runs_for i p = holds m p"
  proof (cases p)
    case (Holding j i' m')
    then have "appLocks (sy_mutexes s) i' = Some m'"
      using locks_ok_holds(3) [OF assms(1)] p by blast
    then show ?thesis
      using assms Holding unfolding locks_ok_def inj_on_def by (auto simp: dom_def)
  qed simp_all
qed

text \<open>C9. The lifecycle operations of an app exclude each other: whatever requests arrive and however
  their steps interleave, no mutex is ever unlocked that is not locked, at most one
  goroutine works for an app, and the mutex of the app is locked just while one does, handing
  over in a rollback included.
\<close>

theorem locks_exclusive:
  assumes "lock_reach s"
  shows "\<not> crashed (sy_mutexes s) \<and> size (filter_mset (runs_for i) (sy_threads s)) \<le> 1 \<and>
    (case appLocks (sy_mutexes s) i of
       None \<Rightarrow> filter_mset (runs_for i) (sy_threads s) = {#}
     | Some m \<Rightarrow> m \<in> locked (sy_mutexes s) \<longleftrightarrow> size (filter_mset (runs_for i) (sy_threads s)) = 1)"
proof (cases "appLocks (sy_mutexes s) i")
  case None
  have ok: "locks_ok s"
    by (rule locks_ok_reach [OF assms])
  have "\<not> runs_for i p" if "p \<in># sy_threads s" for p
    using locks_ok_holds(3) [OF ok] that None by (cases p) auto
  then have none: "filter_mset (runs_for i) (sy_threads s) = {#}"
    unfolding filter_mset_none by blast
  show ?thesis
    using ok unfolding none None by (simp add: locks_ok_def)
next
  case (Some m)
  have ok: "locks_ok s"
    by (rule locks_ok_reach [OF assms])
  then have "size (filter_mset (runs_for i) (sy_threads s)) = (if m \<in> locked (sy_mutexes s) then 1 else 0)"
    using runs_for_holds [OF ok Some] by (simp add: locks_ok_def holders_def)
  then show ?thesis
    using ok Some by (simp add: locks_ok_def)
qed

text \<open>C10. The lifecycle operations end: once no request arrives any more, every schedule of the
  goroutines makes at most \<open>cost s\<close> further steps, and it can only stop when every operation is
  done and every mutex is free. So no operation waits for ever, and no lock is lost.
\<close>

theorem operations_finish:
  assumes "lock_reach s" and "(lock_step ^^ n) s s'"
  shows "n \<le> cost s \<and> ((\<exists>t. lock_step s' t) \<or> sy_threads s' = {#} \<and> locked (sy_mutexes s') = {})"
proof -
  have "locks_ok s' \<and> n + cost s' \<le> cost s"
    by (rule locks_ok_steps [OF assms(2) locks_ok_reach [OF assms(1)]])
  then show ?thesis
    using some_step no_holders_unlocked by (cases "sy_threads s' = {#}") auto
qed

text \<open>Two requests for the app 7: a deployment that holds the lock and a rollback that waits for it.\<close>

definition two_requests :: system where
  "two_requests = \<lparr> sy_mutexes = \<lparr> appLocks = [7 \<mapsto> 0], next_mutex = 2, locked = {0}, crashed = False \<rparr>,
     sy_threads = {#Holding (Operation 1) 7 0, AtLock (RollbackJob 1 (Some 1)) 7 0#} \<rparr>"

lemma two_requests_reach: "lock_reach two_requests"
proof -
  let ?d = "Operation 1" and ?r = "RollbackJob 1 (Some 1)"
  let ?x1 = "\<lparr> appLocks = [7 \<mapsto> 0], next_mutex = 1, locked = {}, crashed = False \<rparr> :: mutexes"
  let ?x2 = "\<lparr> appLocks = [7 \<mapsto> 0], next_mutex = 2, locked = {}, crashed = False \<rparr> :: mutexes"
  let ?x3 = "\<lparr> appLocks = [7 \<mapsto> 0], next_mutex = 2, locked = {0}, crashed = False \<rparr> :: mutexes"
  let ?s = "\<lambda>x M. \<lparr> sy_mutexes = x, sy_threads = M \<rparr>"
  let ?s1 = "?s (sy_mutexes idle) {#Called ?d 7#}" and ?s2 = "?s ?x1 {#AtLock ?d 7 0#}"
  let ?s3 = "?s ?x1 {#Called ?r 7, AtLock ?d 7 0#}" and ?s4 = "?s ?x2 {#AtLock ?r 7 0, AtLock ?d 7 0#}"
  have "arrive idle ?s1"
    using arrive.arrive [of idle ?d 7] by (simp add: idle_def)
  moreover have "lock_step ?s1 ?s2"
    using lock_step.find_mutex [of ?d 7 ?s1 0 ?x1] by (simp add: appMutex_def idle_def)
  moreover have "arrive ?s2 ?s3"
    using arrive.arrive [of ?s2 ?r 7] by simp
  moreover have "lock_step ?s3 ?s4"
    using lock_step.find_mutex [of ?r 7 ?s3 0 ?x2] by (simp add: appMutex_def)
  moreover have "lock_step ?s4 two_requests"
    using lock_step.acquire [of ?d 7 0 ?s4 ?x3] by (simp add: Lock_def two_requests_def)
  ultimately show ?thesis
    by (meson converse_rtranclp_into_rtranclp rtranclp.rtrancl_refl sup2CI)
qed

theorem locks_exclusive_witness:
  "\<not> crashed (sy_mutexes two_requests) \<and> size (filter_mset (runs_for 7) (sy_threads two_requests)) = 1"
  using locks_exclusive [OF two_requests_reach, of 7] by (simp add: two_requests_def)

theorem operations_finish_witness:
  "(\<exists>t. lock_step two_requests t) \<and> cost two_requests = 7"
  using operations_finish [OF two_requests_reach, of 0 two_requests] by (simp add: two_requests_def cost_def)

end
