(* ===== verification/ServerSvc.thy ===== *)
theory ServerSvc
  imports Move
begin

text \<open>
  The server service, from \<open>internal/server/service.go\<close>: adding and deleting servers, the connection
  test, the set-up of a worker with its Caddy container, pruning, reading the resources of a
  worker, and the monitor. Reading the JSON of \<open>docker inspect\<close> and the verb \<open>%f\<close> of \<open>Sscanf\<close> are
  parameters (\<open>server_env\<close>); all commands run through \<open>Exec\<close> and \<open>ExecLong\<close>.
\<close>

section \<open>Rows\<close>

definition server_defaults :: "Server \<Rightarrow> Server" where
  "server_defaults s =
     (let s1 = (if srv_Port s = 0 then s\<lparr>srv_Port := 22\<rparr> else s);
          s2 = (if srv_User s1 = [] then s1\<lparr>srv_User := ''root''\<rparr> else s1)
      in if srv_Status s2 = [] then s2\<lparr>srv_Status := StatusPending\<rparr> else s2)"

text \<open>The server with its defaults and its id, as the caller's pointer has it afterwards.\<close>

definition Svc_Create :: "Server \<Rightarrow> Server result prog" where
  "Svc_Create s = do {
     r \<leftarrow> db_try (\<lambda>now. Srv_Create now (server_defaults s));
     ret (case r of Inl err \<Rightarrow> Inl err | Inr i \<Rightarrow> Inr ((server_defaults s)\<lparr>srv_ID := i\<rparr>))
   }"

definition Svc_Update :: "Server \<Rightarrow> unit result prog" where
  "Svc_Update s = db_try (\<lambda>now. Srv_Update now s)"

text \<open>The error says whether apps still use the server (\<open>ErrServerHasApps\<close>).\<close>

datatype delete_error = ErrServerHasApps int | DeleteFailed error

definition delete_message :: "delete_error \<Rightarrow> error" where
  "delete_message e = (case e of
     ErrServerHasApps n \<Rightarrow> ''server still has '' @ Itoa n @ '' app(s); move or delete them first''
   | DeleteFailed err \<Rightarrow> err)"

definition Svc_Delete :: "int \<Rightarrow> delete_error option prog" where
  "Svc_Delete i = do {
     n \<leftarrow> db_get (Srv_CountApps i);
     if 0 < n then ret (Some (ErrServerHasApps n))
     else do {
       r \<leftarrow> db_try (\<lambda>_. Srv_Delete i);
       ret (case r of Inl err \<Rightarrow> Some (DeleteFailed err) | Inr _ \<Rightarrow> None)
     }
   }"

definition server_status :: "int \<Rightarrow> string \<Rightarrow> unit prog" where
  "server_status i status = db_do (\<lambda>now. Srv_UpdateStatus now i status)"

definition connect_server :: "env \<Rightarrow> Server \<Rightarrow> conn result prog" where
  "connect_server E s = Connect E (srv_Host s) (srv_Port s) (srv_User s) (srv_SSHKey s)"

section \<open>Testing and pruning\<close>

definition TestConnection :: "env \<Rightarrow> int \<Rightarrow> error option prog" where
  "TestConnection E i = do {
     s \<leftarrow> db_get (Srv_Get i);
     case s of
       None \<Rightarrow> ret (Some ''server not found'')
     | Some svr \<Rightarrow> do {
         r \<leftarrow> connect_server E svr;
         case r of
           Inl err \<Rightarrow> do { server_status i StatusOffline; ret (Some (''SSH connect failed: '' @ err)) }
         | Inr c \<Rightarrow> do {
             out \<leftarrow> Exec E c ''uptime'';
             case snd out of
               Some err \<Rightarrow> do { server_status i StatusOffline; Close E c; ret (Some (''SSH exec failed: '' @ err)) }
             | None \<Rightarrow> do { server_status i StatusOnline; Close E c; ret None }
           }
       }
   }"

definition prune_cmd :: "bool \<Rightarrow> bool \<Rightarrow> string" where
  "prune_cmd rmAll rmVolumes =
     (if rmAll then ''docker system prune -af'' else ''docker system prune -f'')
     @ (if rmVolumes then '' --volumes'' else [])"

definition PruneWorker :: "env \<Rightarrow> int \<Rightarrow> bool \<Rightarrow> bool \<Rightarrow> (string \<times> error option) prog" where
  "PruneWorker E i rmAll rmVolumes = do {
     s \<leftarrow> db_get (Srv_Get i);
     case s of
       None \<Rightarrow> ret ([], Some ''server not found'')
     | Some svr \<Rightarrow> do {
         r \<leftarrow> connect_server E svr;
         case r of
           Inl err \<Rightarrow> ret ([], Some (''SSH connect failed: '' @ err))
         | Inr c \<Rightarrow> do {
             pruned \<leftarrow> ExecLong E c (prune_cmd rmAll rmVolumes @ '' 2>&1'');
             case pruned of
               (out, Some err) \<Rightarrow> do { Close E c; ret (out, Some (''prune failed: '' @ err)) }
             | (out, None) \<Rightarrow> do {
                 b \<leftarrow> ExecLong E c ''docker builder prune -af 2>&1'';
                 Close E c;
                 ret (if TrimSpace (fst b) \<noteq> [] then out @ nl @ fst b else out, None)
               }
           }
       }
   }"

section \<open>Setting up a worker\<close>

record server_env =
  sv_inspect :: "string \<Rightarrow> (string list \<times> (string \<Rightarrow> string)) option"
  sv_float :: "string \<Rightarrow> rat"
  sv_public :: "string \<Rightarrow> string result"

text \<open>
  \<open>sv_inspect\<close> decodes the sources of the mounts and the labels; \<open>None\<close> when one does not decode.
  \<open>sv_public\<close> is the line of the public key for a private key.
\<close>

definition caddyManaged :: "server_env \<Rightarrow> string \<Rightarrow> bool" where
  "caddyManaged V inspect = (case sv_inspect V inspect of
     None \<Rightarrow> False
   | Some (mounts, labels) \<Rightarrow> labels ''dockify.managed'' = ''true''
       \<or> (\<exists>m \<in> set mounts. m = ''/opt/dockify/caddy'' \<or> m = ''/opt/dockify/caddy/config.json''))"

definition baseConfig :: string where
  "baseConfig = ''{'' @ dq @ ''apps'' @ dq @ '':{'' @ dq @ ''http'' @ dq @ '':{'' @ dq @ ''servers'' @ dq @ '':{'' @ dq @ ''srv0'' @ dq @ '':{'' @ dq @ ''listen'' @ dq @ '':['' @ dq @ '':80'' @ dq @ '','' @ dq @ '':443'' @ dq @ ''],'' @ dq @ ''metrics'' @ dq @ '':{}}}}}}''"

definition inspect_cmd :: string where
  "inspect_cmd = ''docker inspect caddy --format '' @ sq @ ''{{json .Mounts}} {{json .Config.Labels}}'' @ sq @ '' 2>/dev/null''"

definition mkdir_cmd :: string where
  "mkdir_cmd = ''sudo mkdir -p /opt/dockify/apps /opt/dockify/caddy && sudo chown $(id -u):$(id -g) /opt/dockify /opt/dockify/apps 2>/dev/null && sudo chown -R $(id -u):$(id -g) /opt/dockify/caddy 2>/dev/null || mkdir -p /opt/dockify/apps /opt/dockify/caddy 2>/dev/null''"

definition compose_plugin_cmd :: string where
  "compose_plugin_cmd = ''docker compose version 2>/dev/null || (sudo mkdir -p /usr/local/lib/docker/cli-plugins && sudo curl -fsSL '' @ dq @ ''https://github.com/docker/compose/releases/latest/download/docker-compose-$(uname -s)-$(uname -m)'' @ dq @ '' -o /usr/local/lib/docker/cli-plugins/docker-compose && sudo chmod +x /usr/local/lib/docker/cli-plugins/docker-compose)''"

definition caddyRun :: string where
  "caddyRun = Join [
     ''docker pull caddy:2 2>/dev/null'',
     ''if [ -d /opt/dockify/caddy/config.json ]; then'',
     ''  sudo rm -rf /opt/dockify/caddy/config.json 2>/dev/null || rm -rf /opt/dockify/caddy/config.json 2>/dev/null'',
     ''fi'',
     ''sudo mkdir -p /opt/dockify/caddy && sudo chown $(id -u):$(id -g) /opt/dockify 2>/dev/null && sudo chown -R $(id -u):$(id -g) /opt/dockify/caddy 2>/dev/null || mkdir -p /opt/dockify/caddy'',
     ''if [ ! -f /opt/dockify/caddy/config.json ]; then'',
     ''  echo '' @ sq @ baseConfig @ sq @ '' > /opt/dockify/caddy/config.json'',
     ''fi'',
     ''docker rm -f caddy 2>/dev/null'',
     ''docker run -d '' @ [CHR 0x5C],
     ''  --name caddy '' @ [CHR 0x5C],
     ''  --network dockify '' @ [CHR 0x5C],
     ''  -p 80:80 '' @ [CHR 0x5C],
     ''  -p 443:443 '' @ [CHR 0x5C],
     ''  -p 127.0.0.1:2019:2019 '' @ [CHR 0x5C],
     ''  -v caddy_data:/data '' @ [CHR 0x5C],
     ''  -v /opt/dockify/caddy:/etc/caddy '' @ [CHR 0x5C],
     ''  --label dockify.managed=true '' @ [CHR 0x5C],
     ''  --restart unless-stopped '' @ [CHR 0x5C],
     ''  caddy:2 caddy run --config /etc/caddy/config.json'',
     ''sleep 2'',
     ''if docker ps -q --filter name=^/caddy$ --filter status=running | grep -q .; then'',
     ''  if docker exec caddy curl -sf -o /dev/null -X PATCH http://localhost:2019/config/metrics -H '' @ sq @ ''Content-Type: application/json'' @ sq @ '' -d '' @ sq @ ''{}'' @ sq @ '' 2>/dev/null; then'',
     ''    docker exec caddy curl -s http://localhost:2019/config/ > /opt/dockify/caddy/config.json'',
     ''    echo '' @ dq @ ''METRICS_ENABLED'' @ dq,
     ''  else'',
     ''    echo '' @ dq @ ''METRICS_UNAVAILABLE'' @ dq,
     ''  fi'',
     ''else'',
     ''  echo '' @ dq @ ''CADDY_FAILED'' @ dq,
     ''fi''] nl"

definition migrateCmd :: string where
  "migrateCmd = Join [
     ''docker pull caddy:2 2>/dev/null'',
     ''if [ -d /opt/dockify/caddy/config.json ]; then'',
     ''  sudo rm -rf /opt/dockify/caddy/config.json 2>/dev/null || rm -rf /opt/dockify/caddy/config.json 2>/dev/null'',
     ''fi'',
     ''sudo mkdir -p /opt/dockify/caddy && sudo chown $(id -u):$(id -g) /opt/dockify 2>/dev/null && sudo chown -R $(id -u):$(id -g) /opt/dockify/caddy 2>/dev/null || mkdir -p /opt/dockify/caddy'',
     ''if [ ! -f /opt/dockify/caddy/config.json ]; then'',
     ''  docker exec caddy curl -s http://localhost:2019/config/ > /opt/dockify/caddy/config.json 2>/dev/null || echo '' @ sq @ ''{'' @ dq @ ''apps'' @ dq @ '':{'' @ dq @ ''http'' @ dq @ '':{'' @ dq @ ''servers'' @ dq @ '':{'' @ dq @ ''srv0'' @ dq @ '':{'' @ dq @ ''listen'' @ dq @ '':['' @ dq @ '':80'' @ dq @ '','' @ dq @ '':443'' @ dq @ ''],'' @ dq @ ''metrics'' @ dq @ '':{}}}}}}'' @ sq @ '' > /opt/dockify/caddy/config.json'',
     ''fi'',
     ''if docker exec caddy curl -sf -o /dev/null -X PATCH http://localhost:2019/config/metrics -H '' @ sq @ ''Content-Type: application/json'' @ sq @ '' -d '' @ sq @ ''{}'' @ sq @ '' 2>/dev/null; then'',
     ''  docker exec caddy curl -s http://localhost:2019/config/ > /opt/dockify/caddy/config.json'',
     ''  docker rm -f caddy'',
     ''  docker run -d '' @ [CHR 0x5C],
     ''    --name caddy '' @ [CHR 0x5C],
     ''    --network dockify '' @ [CHR 0x5C],
     ''    -p 80:80 '' @ [CHR 0x5C],
     ''    -p 443:443 '' @ [CHR 0x5C],
     ''    -p 127.0.0.1:2019:2019 '' @ [CHR 0x5C],
     ''    -v caddy_data:/data '' @ [CHR 0x5C],
     ''    -v /opt/dockify/caddy:/etc/caddy '' @ [CHR 0x5C],
     ''    --label dockify.managed=true '' @ [CHR 0x5C],
     ''    --restart unless-stopped '' @ [CHR 0x5C],
     ''    caddy:2 caddy run --config /etc/caddy/config.json'',
     ''  echo '' @ dq @ ''METRICS_ENABLED'' @ dq,
     ''else'',
     ''  echo '' @ dq @ ''METRICS_UNAVAILABLE'' @ dq,
     ''fi''] nl"

definition deploy_caddy :: "env \<Rightarrow> conn \<Rightarrow> bool prog" where
  "deploy_caddy E c = do {
     r \<leftarrow> ExecLong E c caddyRun;
     ret (snd r = None \<and> \<not> Contains (fst r) ''CADDY_FAILED'')
   }"

definition setup_caddy :: "env \<Rightarrow> int \<Rightarrow> conn \<Rightarrow> error option prog" where
  "setup_caddy E i c = do {
     running \<leftarrow> Exec E c ''docker ps -q --filter name=^/caddy$'';
     if TrimSpace (fst running) = [] then do {
       ok \<leftarrow> deploy_caddy E c;
       if \<not> ok then do { server_status i StatusError; ret (Some ''deploy caddy: container failed to start'') }
       else ret None
     }
     else do { r \<leftarrow> ExecLong E c migrateCmd; ret None }
   }"

text \<open>A caddy container that Dockify did not create is never touched.\<close>

definition guard_caddy :: "env \<Rightarrow> server_env \<Rightarrow> int \<Rightarrow> Server \<Rightarrow> conn \<Rightarrow> error option prog" where
  "guard_caddy E V i svr c = do {
     r \<leftarrow> Exec E c inspect_cmd;
     if snd r = None \<and> TrimSpace (fst r) \<noteq> [] \<and> \<not> caddyManaged V (fst r) then do {
       server_status i StatusError;
       ret (Some (''a caddy container not created by Dockify exists on '' @ srv_Name svr
         @ '' (running or stopped); remove or rename it first''))
     }
     else setup_caddy E i c
   }"

definition init_connected :: "env \<Rightarrow> server_env \<Rightarrow> int \<Rightarrow> Server \<Rightarrow> conn \<Rightarrow> error option prog" where
  "init_connected E V i svr c = do {
     docker \<leftarrow> ExecLong E c ''command -v docker || curl -fsSL https://get.docker.com | sh'';
     case snd docker of
       Some err \<Rightarrow> do { server_status i StatusError; ret (Some (''install docker: '' @ err)) }
     | None \<Rightarrow> do {
         plugin \<leftarrow> ExecLong E c compose_plugin_cmd;
         folders \<leftarrow> Exec E c mkdir_cmd;
         network \<leftarrow> Exec E c ''docker network inspect dockify >/dev/null 2>&1 || docker network create dockify'';
         guard_caddy E V i svr c
       }
   }"

definition InitWorker :: "env \<Rightarrow> server_env \<Rightarrow> int \<Rightarrow> error option prog" where
  "InitWorker E V i = do {
     s \<leftarrow> db_get (Srv_Get i);
     case s of
       None \<Rightarrow> ret (Some ''server not found'')
     | Some svr \<Rightarrow> do {
         server_status i ''initializing'';
         r \<leftarrow> connect_server E svr;
         case r of
           Inl err \<Rightarrow> do { server_status i StatusError; ret (Some (''SSH connect: '' @ err)) }
         | Inr c \<Rightarrow> do {
             failed \<leftarrow> init_connected E V i svr c;
             case failed of
               Some err \<Rightarrow> do { Close E c; ret (Some err) }
             | None \<Rightarrow> do {
                 server_status i StatusOnline;
                 go_task (TaskRefreshResources i);
                 Close E c;
                 ret None
               }
           }
       }
   }"

section \<open>Resources\<close>

text \<open>\<open>Sscanf\<close> with \<open>%d\<close> into a zero: a sign and digits at the start; 0 when there is no number or it is out of range.\<close>

definition scan_int :: "string \<Rightarrow> int" where
  "scan_int s =
     (let sign = (if s \<noteq> [] \<and> (hd s = CHR ''-'' \<or> hd s = CHR ''+'') then [hd s] else []);
          ds = takeWhile is_digit (drop (length sign) s)
      in if ds = [] then 0 else case ParseInt (sign @ ds) of (n, bad) \<Rightarrow> if bad then 0 else n)"

definition read_int :: "env \<Rightarrow> conn \<Rightarrow> string \<Rightarrow> int prog" where
  "read_int E c cmd = do { r \<leftarrow> Exec E c cmd; ret (if snd r \<noteq> None then 0 else scan_int (TrimSpace (fst r))) }"

definition read_float :: "env \<Rightarrow> server_env \<Rightarrow> conn \<Rightarrow> string \<Rightarrow> rat prog" where
  "read_float E V c cmd = do { r \<leftarrow> Exec E c cmd; ret (if snd r \<noteq> None then 0 else sv_float V (TrimSpace (fst r))) }"

definition ParseCPUCount :: "env \<Rightarrow> conn \<Rightarrow> int prog" where
  "ParseCPUCount E c = read_int E c ''nproc''"

definition ParseRAM :: "env \<Rightarrow> conn \<Rightarrow> int prog" where
  "ParseRAM E c = read_int E c (''awk '' @ sq @ ''/MemTotal/{printf '' @ dq @ ''%d'' @ dq @ '', $2/1024}'' @ sq @ '' /proc/meminfo'')"

definition ParseDisk :: "env \<Rightarrow> conn \<Rightarrow> int prog" where
  "ParseDisk E c = read_int E c (''df -BG / | awk '' @ sq @ ''NR==2 {gsub(/G/,'' @ dq @ dq @ ''); print $2}'' @ sq)"

definition parseCPUUsage :: "env \<Rightarrow> server_env \<Rightarrow> conn \<Rightarrow> rat prog" where
  "parseCPUUsage E V c = read_float E V c (''s=$(head -1 /proc/stat); sleep 1; e=$(head -1 /proc/stat); awk -v s='' @ dq @ ''$s'' @ dq @ '' -v e='' @ dq @ ''$e'' @ dq @ '' '' @ sq @ ''BEGIN{n=split(s,a); split(e,b); t1=a[2]+a[3]+a[4]+a[5]; t2=b[2]+b[3]+b[4]+b[5]; dt=t2-t1; di=b[5]-a[5]; if(dt>0) printf '' @ dq @ ''%.1f'' @ dq @ '', 100*(dt-di)/dt}'' @ sq)"

definition ParseRAMUsage :: "env \<Rightarrow> server_env \<Rightarrow> conn \<Rightarrow> rat prog" where
  "ParseRAMUsage E V c = read_float E V c (''awk '' @ sq @ ''/MemTotal/{t=$2} /MemAvailable/{a=$2} END{printf '' @ dq @ ''%.1f'' @ dq @ '', 100*(t-a)/t}'' @ sq @ '' /proc/meminfo'')"

definition ParseDiskUsage :: "env \<Rightarrow> server_env \<Rightarrow> conn \<Rightarrow> rat prog" where
  "ParseDiskUsage E V c = read_float E V c (''df -BG / | awk '' @ sq @ ''NR==2 {gsub(/%/,'' @ dq @ dq @ ''); print $5}'' @ sq)"

text \<open>The rows a reading leaves: the columns of the server, its status and one measurement.\<close>

definition store_resources :: "int \<Rightarrow> int \<Rightarrow> int \<Rightarrow> int \<Rightarrow> rat \<Rightarrow> rat \<Rightarrow> rat \<Rightarrow> unit prog" where
  "store_resources i cpuCores ramMB diskGB cpuUsage ramUsage diskUsage = do {
     db_do (\<lambda>now. Srv_UpdateResources now i cpuCores ramMB diskGB cpuUsage ramUsage diskUsage);
     server_status i StatusOnline;
     r \<leftarrow> db_try (\<lambda>now. Srv_InsertStats now \<lparr> vs_ID = 0, vs_ServerID = i, vs_CPUPercent = cpuUsage, vs_RAMPercent = ramUsage,
       vs_DiskPercent = diskUsage, vs_CPUCores = cpuCores, vs_RAMMB = ramMB, vs_DiskGB = diskGB, vs_CreatedAt = 0 \<rparr>);
     ret ()
   }"

definition RefreshResources :: "env \<Rightarrow> server_env \<Rightarrow> int \<Rightarrow> error option prog" where
  "RefreshResources E V i = do {
     s \<leftarrow> db_get (Srv_Get i);
     case s of
       None \<Rightarrow> ret None
     | Some svr \<Rightarrow> do {
         r \<leftarrow> connect_server E svr;
         case r of
           Inl err \<Rightarrow> do { server_status i StatusOffline; ret (Some err) }
         | Inr c \<Rightarrow> do {
             cpuCores \<leftarrow> ParseCPUCount E c;
             ramMB \<leftarrow> ParseRAM E c;
             diskGB \<leftarrow> ParseDisk E c;
             cpuUsage \<leftarrow> parseCPUUsage E V c;
             ramUsage \<leftarrow> ParseRAMUsage E V c;
             diskUsage \<leftarrow> ParseDiskUsage E V c;
             store_resources i cpuCores ramMB diskGB cpuUsage ramUsage diskUsage;
             Close E c;
             ret None
           }
       }
   }"

definition connectAndInit :: "env \<Rightarrow> server_env \<Rightarrow> int \<Rightarrow> unit prog" where
  "connectAndInit E V i = do {
     t \<leftarrow> TestConnection E i;
     n \<leftarrow> InitWorker E V i;
     r \<leftarrow> RefreshResources E V i;
     ret ()
   }"

section \<open>The monitor\<close>

text \<open>One round of the loop of \<open>Run\<close>: the ticker of ten seconds, or the hourly one that prunes.\<close>

datatype monitor_tick = RefreshTick | PruneTick

definition refreshAll :: "unit prog" where
  "refreshAll = do {
     found \<leftarrow> db_get Srv_List;
     forM found (\<lambda>s. if srv_Status s \<noteq> StatusOnline \<and> srv_Status s \<noteq> StatusOffline then ret ()
       else go_task (TaskRefreshResources (srv_ID s)))
   }"

definition monitor_round :: "monitor_tick \<Rightarrow> unit prog" where
  "monitor_round t = (case t of
     RefreshTick \<Rightarrow> refreshAll
   | PruneTick \<Rightarrow> db_do (\<lambda>now. Srv_PruneStats (now - 7 * 24 * 3600)))"

text \<open>The range and the bucket, in minutes, of the charts.\<close>

definition history_range :: "int \<Rightarrow> string \<Rightarrow> int \<times> int" where
  "history_range now duration =
     (if duration = ''realtime'' then (now - 2 * 60, 1)
      else if duration = ''1h'' then (now - 3600, 1)
      else if duration = ''6h'' then (now - 6 * 3600, 5)
      else if duration = ''24h'' then (now - 24 * 3600, 10)
      else if duration = ''7d'' then (now - 7 * 24 * 3600, 60)
      else (now - 2 * 60, 1))"

section \<open>What the set-up touches\<close>

text \<open>The two commands that replace or restart the container named caddy, and every other one.\<close>

definition caddy_script :: "conn \<Rightarrow> event \<Rightarrow> bool" where
  "caddy_script c ev \<longleftrightarrow> ev = EvRun c (wrapTimeout caddyRun ExecLongTimeout) None ExecLongTimeout
     \<or> ev = EvRun c (wrapTimeout migrateCmd ExecLongTimeout) None ExecLongTimeout"

definition no_script :: "event \<Rightarrow> bool" where
  "no_script ev \<longleftrightarrow> (\<forall>c. \<not> caddy_script c ev)"

text \<open>Since \<open>tr0\<close> the container was inspected on \<open>c\<close>, and the answer was no container or one of Dockify's.\<close>

definition vetted :: "env \<Rightarrow> server_env \<Rightarrow> conn \<Rightarrow> event list \<Rightarrow> event list \<Rightarrow> bool" where
  "vetted E V c tr0 tr \<longleftrightarrow> (\<exists>h rest. tr = tr0 @ h @ EvRun c (wrapTimeout inspect_cmd ExecTimeout) None ExecTimeout # rest \<and>
     (case e_run E (tr0 @ h) c (wrapTimeout inspect_cmd ExecTimeout) None of
        Exited out None _ \<Rightarrow> TrimSpace out = [] \<or> caddyManaged V out
      | _ \<Rightarrow> True))"

definition respects_caddy :: "env \<Rightarrow> server_env \<Rightarrow> event list \<Rightarrow> world \<Rightarrow> bool" where
  "respects_caddy E V tr0 w \<longleftrightarrow> (\<exists>evs. w_trace w = tr0 @ evs \<and>
     (\<forall>c. (\<exists>ev \<in> set evs. caddy_script c ev) \<longrightarrow> vetted E V c tr0 (w_trace w)))"

lemma vetted_mono: "vetted E V c tr0 tr \<Longrightarrow> vetted E V c tr0 (tr @ evs)"
  unfolding vetted_def by (elim exE conjE) (rule exI, rule exI, rule conjI [rotated], assumption, simp)

lemma respects_more:
  assumes "respects_caddy E V tr0 w" and "emits (\<lambda>ev. \<forall>d. caddy_script d ev \<longrightarrow> vetted E V d tr0 (w_trace w)) m"
  shows "respects_caddy E V tr0 (exec m w)"
proof -
  obtain evs where evs: "w_trace w = tr0 @ evs"
      "\<And>c. (\<exists>ev \<in> set evs. caddy_script c ev) \<Longrightarrow> vetted E V c tr0 (w_trace w)"
    using assms(1) unfolding respects_caddy_def by blast
  obtain more where more: "w_trace (exec m w) = w_trace w @ more"
      "list_all (\<lambda>ev. \<forall>d. caddy_script d ev \<longrightarrow> vetted E V d tr0 (w_trace w)) more"
    using assms(2) unfolding emits_def by blast
  have "vetted E V c tr0 (w_trace w @ more)" if "\<exists>ev \<in> set (evs @ more). caddy_script c ev" for c
    using that evs(2) more(2) by (auto simp: list_all_iff intro: vetted_mono)
  then show ?thesis
    unfolding respects_caddy_def using evs(1) more(1) by (intro exI [of _ "evs @ more"]) simp
qed

lemma stable_respects: "emits no_script m \<Longrightarrow> stable (respects_caddy E V tr0) m"
  unfolding stable_def by (auto intro!: respects_more elim!: emits_mono simp: no_script_def)

lemma stable_bind: "stable I m \<Longrightarrow> (\<And>x. stable I (g x)) \<Longrightarrow> stable I (State_Monad.bind m g)"
  by (simp add: stable_def exec_bind)

lemma no_script_events [simp]:
  "no_script (EvReadFile p)" "no_script (EvDial a)" "no_script (EvClose c)"
  "no_script (EvRun c (wrapTimeout cmd ExecTimeout) i ExecTimeout)"
  by (simp_all add: no_script_def caddy_script_def)

lemma no_script_long:
  "cmd \<noteq> caddyRun \<Longrightarrow> cmd \<noteq> migrateCmd \<Longrightarrow> no_script (EvRun c (wrapTimeout cmd ExecLongTimeout) i ExecLongTimeout)"
  by (simp add: no_script_def caddy_script_def wrapTimeout_inj)

lemma script_plain:
  "''command -v docker || curl -fsSL https://get.docker.com | sh'' \<noteq> caddyRun"
  "''command -v docker || curl -fsSL https://get.docker.com | sh'' \<noteq> migrateCmd"
  "compose_plugin_cmd \<noteq> caddyRun" "compose_plugin_cmd \<noteq> migrateCmd"
  by (simp_all add: caddyRun_def migrateCmd_def compose_plugin_cmd_def)

lemma emits_status: "emits P (server_status i s)"
  unfolding server_status_def by (rule emits_trace) (rule frame)

lemma emits_go_task: "emits P (go_task t)"
  by (rule emits_trace) (simp add: go_task_def keeps_def exec_def)

lemma emits_no_script [events]:
  "emits no_script (Exec E c cmd)" "emits no_script (Close E c)" "emits no_script (server_status i s)" "emits no_script (go_task t)"
  "emits no_script (connect_server E svr)" "emits no_script (db_get f)"
  "emits no_script (ExecLong E c ''command -v docker || curl -fsSL https://get.docker.com | sh'')"
  "emits no_script (ExecLong E c compose_plugin_cmd)"
  unfolding connect_server_def
  by (auto intro!: emits_calls emits_status emits_go_task emits_Connect emits_trace [of "db_get f"] frame no_script_long script_plain)

lemma setup_scripts:
  assumes "\<And>ev. no_script ev \<Longrightarrow> P ev" and "\<And>ev. caddy_script c ev \<Longrightarrow> P ev"
  shows "emits P (setup_caddy E i c)"
proof -
  have basic: "emits P (Exec E c cmd)" "emits P (server_status i s)" for cmd s
    by (rule emits_mono [OF emits_no_script(1)], erule assms(1), rule emits_status)
  have long: "emits P (ExecLong E c caddyRun)" "emits P (ExecLong E c migrateCmd)"
    by (rule emits_calls, rule assms(2), simp add: caddy_script_def)+
  show ?thesis
    unfolding setup_caddy_def deploy_caddy_def by (intro events basic long)
qed

lemma inspected:
  "vetted E V c tr0 (w_trace (exec (Exec E c inspect_cmd) w)) \<or>
   snd (result (Exec E c inspect_cmd) w) = None \<and> TrimSpace (fst (result (Exec E c inspect_cmd) w)) \<noteq> [] \<and>
   \<not> caddyManaged V (fst (result (Exec E c inspect_cmd) w))"
  if "prefix tr0 (w_trace w)"
proof -
  obtain h where h: "w_trace w = tr0 @ h"
    using \<open>prefix tr0 (w_trace w)\<close> by (rule prefixE)
  let ?cmd = "wrapTimeout inspect_cmd ExecTimeout"
  have tr0: "result trace w = w_trace w" "exec trace w = w"
    by (simp_all add: trace_def gets_def result_def exec_def)
  have tr: "w_trace (exec (Exec E c inspect_cmd) w) = tr0 @ h @ [EvRun c ?cmd None ExecTimeout]"
    by (simp add: Exec_def run_def exec_bind trace_def emit_def gets_def modify_def exec_def h)
  have "result (Exec E c inspect_cmd) w = (case e_run E (tr0 @ h) c ?cmd None of
      NoSession err \<Rightarrow> ([], Some (''new session: '' @ err))
    | NoStart err \<Rightarrow> ([], Some (''exec '' @ Quote inspect_cmd @ '': '' @ err))
    | TimedOut out \<Rightarrow> (out, Some (''exec '' @ Quote inspect_cmd @ '': timed out after '' @ duration_str ExecTimeout))
    | Exited out None _ \<Rightarrow> (out, None)
    | Exited out (Some err) errout \<Rightarrow> (out, Some (''exec '' @ Quote inspect_cmd @ '': '' @ err @ '': '' @ errout)))"
    using tr0 by (simp add: Exec_def run_def result_bind result_ret h [symmetric])
  then show ?thesis
    unfolding tr vetted_def by (cases "e_run E (tr0 @ h) c ?cmd None") (auto split: option.splits)
qed

lemma respects_prefix: "respects_caddy E V tr0 w \<Longrightarrow> prefix tr0 (w_trace w)"
  by (auto simp: respects_caddy_def)

lemma stable_guard: "stable (respects_caddy E V tr0) (guard_caddy E V i svr c)"
  unfolding stable_def
proof (intro allI impI)
  fix w
  assume w: "respects_caddy E V tr0 w"
  let ?w1 = "exec (Exec E c inspect_cmd) w" and ?r = "result (Exec E c inspect_cmd) w"
  have w1: "respects_caddy E V tr0 ?w1"
    using stable_respects [OF emits_no_script(1)] w by (auto simp: stable_def)
  let ?foreign = "snd ?r = None \<and> TrimSpace (fst ?r) \<noteq> [] \<and> \<not> caddyManaged V (fst ?r)"
  let ?rest = "if ?foreign then do { server_status i StatusError; ret (Some (''a caddy container not created by Dockify exists on '' @ srv_Name svr
         @ '' (running or stopped); remove or rename it first'')) } else setup_caddy E i c"
  have "respects_caddy E V tr0 (exec ?rest ?w1)"
  proof (cases ?foreign)
    case True
    have "stable (respects_caddy E V tr0) (do { server_status i StatusError; ret x })" for x :: "error option"
      by (rule stable_respects) (intro events)
    then show ?thesis
      using w1 unfolding if_P [OF True] stable_def by blast
  next
    case False
    then have "vetted E V c tr0 (w_trace ?w1)"
      using inspected [OF respects_prefix [OF w]] by blast
    then have "emits (\<lambda>ev. \<forall>d. caddy_script d ev \<longrightarrow> vetted E V d tr0 (w_trace ?w1)) (setup_caddy E i c)"
      by (intro setup_scripts) (auto simp: no_script_def caddy_script_def)
    then show ?thesis
      using respects_more [OF w1] unfolding if_not_P [OF False] by blast
  qed
  then show "respects_caddy E V tr0 (exec (guard_caddy E V i svr c) w)"
    unfolding guard_caddy_def exec_bind .
qed

lemma stable_InitWorker: "stable (respects_caddy E V tr0) (InitWorker E V i)"
proof -
  note leaf = stable_respects [OF emits_no_script(1)] stable_respects [OF emits_no_script(2)] stable_respects [OF emits_no_script(3)]
    stable_respects [OF emits_no_script(4)] stable_respects [OF emits_no_script(5)] stable_respects [OF emits_no_script(6)]
    stable_respects [OF emits_no_script(7)] stable_respects [OF emits_no_script(8)]
  have fin: "stable (respects_caddy E V tr0) (ret x)" for x :: 'z
    by (rule stable_respects) (intro events)
  have "stable (respects_caddy E V tr0) (init_connected E V i svr c)" for svr c
    unfolding init_connected_def
    by (intro stable_bind leaf) (auto split: option.split intro!: stable_bind leaf stable_guard fin)
  then show ?thesis
    unfolding InitWorker_def
    by (intro stable_bind leaf) (auto split: option.split sum.split intro!: stable_bind leaf fin)
qed

section \<open>Properties\<close>


text \<open>On the sample worker, where every command succeeds without output, the container is deployed.\<close>

lemma trace_of_calls:
  "w_trace (exec (ExecLong E c cmd) w) = w_trace w @ [EvRun c (wrapTimeout cmd ExecLongTimeout) None ExecLongTimeout]"
  "w_trace (exec (Close E c) w) = w_trace w @ [EvClose c]" "w_trace (exec (go_task t) w) = w_trace w"
  "w_trace (exec (server_status i s) w) = w_trace w"
  by (simp_all add: ExecLong_def run_def Close_def go_task_def server_status_def db_do_def exec_bind trace_def emit_def gets_def
      modify_def exec_def)

lemma sample_calls: "result (Exec sample_env c cmd) w = ([], None)" "result (ExecLong sample_env c cmd) w = ([], None)"
  by (simp_all add: Exec_def ExecLong_def sample_run)

abbreviation sample_conn :: conn where
  "sample_conn \<equiv> \<lparr> c_Host = ''h'', c_Port = 22, c_User = ''root'' \<rparr>"

lemma sample_connect:
  "result (connect_server sample_env sample_server) (exec (server_status 1 s) sample_world) = Inr sample_conn"
  by (simp add: connect_server_def Connect_def ReadFile_def trace_def emit_def exec_def result_def pinHostKey_def db_try_def
      pin_key_def server_status_def db_do_def Srv_HostKey_def Srv_UpdateStatus_def map_server_def Let_def
      sample_env_def sample_world_def sample_db_def sample_server_def reorder_def)

lemma sample_deployed:
  "\<exists>ev \<in> set (w_trace (exec (InitWorker sample_env V 1) sample_world)). caddy_script sample_conn ev"
proof -
  have get: "Srv_Get 1 (w_db sample_world) = Some sample_server"
    by (simp add: Srv_Get_def sample_world_def sample_db_def sample_server_def)
  have trim: "TrimSpace [] = []"
    by (rule TrimSpace_Nil)
  have inner: "\<exists>v. exec (init_connected sample_env V 1 sample_server sample_conn) w = exec (ExecLong sample_env sample_conn caddyRun) v"
      "result (init_connected sample_env V 1 sample_server sample_conn) w = None" for w
    by (auto simp: init_connected_def guard_caddy_def setup_caddy_def deploy_caddy_def exec_bind result_bind sample_calls trim
        Contains_def)
  obtain v where "exec (init_connected sample_env V 1 sample_server sample_conn)
      (exec (connect_server sample_env sample_server) (exec (server_status 1 ''initializing'') sample_world))
    = exec (ExecLong sample_env sample_conn caddyRun) v"
    using inner(1) by blast
  then show ?thesis
    unfolding InitWorker_def exec_get_bind get option.case
    by (simp add: exec_bind sample_connect inner(2) trace_of_calls caddy_script_def)
qed

definition sample_reader :: server_env where
  "sample_reader = \<lparr> sv_inspect = (\<lambda>_. None), sv_float = (\<lambda>_. 0), sv_public = Inr \<rparr>"


end
