(* ===== verification/ServerHandlers.thy ===== *)
theory ServerHandlers
  imports Forms ServerSvc
begin

text \<open>
  The API and the web forms for servers, from \<open>internal/server/handler.go\<close>: registering and editing a
  server with its SSH key and registry credential, which are files in the key folder, deleting,
  setting up, refreshing and pruning. Requests and pages are modelled as in the handlers for apps;
  the pages that only show rows are in theory \<open>Pages\<close>.
\<close>

datatype server_body =
    SError error
  | SMessage string
  | SServers "Server list"
  | SServer Server
  | SWithKey Server string
  | SOutput string string
  | SPage string error
  | SRedirect string

type_synonym server_reply = "int \<times> server_body"

record server_input =
  sn_Name :: string
  sn_Host :: string
  sn_Port :: int
  sn_User :: string
  sn_SSHKey :: string
  sn_RegistryHost :: string
  sn_RegistryUser :: string
  sn_RegistryToken :: string
  sn_RegistryClear :: bool
  sn_HostKeyClear :: bool

section \<open>Key files\<close>

text \<open>\<open>filepath.Join\<close> of two elements, the second one not empty.\<close>

definition path_join :: "string \<Rightarrow> string \<Rightarrow> string" where
  "path_join dir name = Clean (if dir = [] then name else dir @ ''/'' @ name)"

definition key_path :: "env \<Rightarrow> int \<Rightarrow> string" where
  "key_path E i = path_join (e_keyDir E) (Itoa i @ ''.pem'')"

definition token_path :: "env \<Rightarrow> int \<Rightarrow> string" where
  "token_path E i = path_join (e_keyDir E) (Itoa i @ ''.registry-token'')"

definition saveKeyFile :: "env \<Rightarrow> int \<Rightarrow> string \<Rightarrow> string result prog" where
  "saveKeyFile E i content = do {
     failed \<leftarrow> SaveFile E (key_path E i) content;
     ret (case failed of Some err \<Rightarrow> Inl (''save SSH key: '' @ err) | None \<Rightarrow> Inr (key_path E i))
   }"

definition saveRegistryTokenFile :: "env \<Rightarrow> int \<Rightarrow> string \<Rightarrow> string result prog" where
  "saveRegistryTokenFile E i token = do {
     failed \<leftarrow> SaveFile E (token_path E i) token;
     ret (case failed of Some err \<Rightarrow> Inl (''save registry token: '' @ err) | None \<Rightarrow> Inr (token_path E i))
   }"

abbreviation errRegistryPair :: error where
  "errRegistryPair \<equiv> ''registry user and token must be set together''"

abbreviation DefaultRegistryHost :: string where
  "DefaultRegistryHost \<equiv> ''ghcr.io''"

text \<open>The changed server and the token file to delete once it is saved.\<close>

definition applyRegistry :: "env \<Rightarrow> Server \<Rightarrow> string \<Rightarrow> string \<Rightarrow> string \<Rightarrow> bool \<Rightarrow> (Server \<times> string) result prog" where
  "applyRegistry E s host user token clear =
     (if clear then ret (Inr (s\<lparr>srv_RegistryHost := [], srv_RegistryUser := [], srv_RegistryToken := []\<rparr>, srv_RegistryToken s))
      else if (user = []) \<noteq> (token = [] \<and> srv_RegistryToken s = []) then ret (Inl errRegistryPair)
      else if user = [] then ret (Inr (s, []))
      else do {
        let host = (if host = [] then DefaultRegistryHost else host);
        saved \<leftarrow> (if token \<noteq> [] then saveRegistryTokenFile E (srv_ID s) token else ret (Inr (srv_RegistryToken s)));
        ret (case saved of
               Inl err \<Rightarrow> Inl err
             | Inr path \<Rightarrow> Inr (s\<lparr>srv_RegistryHost := host, srv_RegistryUser := user, srv_RegistryToken := path\<rparr>, []))
      })"

definition removeTokenFile :: "env \<Rightarrow> string \<Rightarrow> unit prog" where
  "removeTokenFile E path = (if path \<noteq> [] then RemoveFile E path else ret ())"

definition removeKeyFiles :: "env \<Rightarrow> int \<Rightarrow> unit prog" where
  "removeKeyFiles E i = do { RemoveFile E (key_path E i); RemoveFile E (token_path E i) }"

text \<open>The public half; an error leaves it empty.\<close>

definition PublicKey :: "env \<Rightarrow> server_env \<Rightarrow> string \<Rightarrow> string prog" where
  "PublicKey E V keyPath = do {
     r \<leftarrow> ReadFile E keyPath;
     ret (case r of
            Inl _ \<Rightarrow> []
          | Inr b \<Rightarrow> (case sv_public V b of Inl _ \<Rightarrow> [] | Inr line \<Rightarrow> TrimSpace line @ '' dockify''))
   }"

section \<open>Registering a server\<close>

definition new_server :: "string \<Rightarrow> string \<Rightarrow> int \<Rightarrow> string \<Rightarrow> Server" where
  "new_server name host port user = \<lparr> srv_ID = 0, srv_Name = name, srv_Host = host, srv_Port = port, srv_User = user,
     srv_SSHKey = ''pending'', srv_Status = [], srv_CPUCores = 0, srv_RAMMB = 0, srv_DiskGB = 0, srv_CPUUsage = 0,
     srv_RAMUsage = 0, srv_DiskUsage = 0, srv_ResourcesUpdatedAt = 0, srv_RegistryHost = [], srv_RegistryUser = [],
     srv_RegistryToken = [], srv_HostKey = [], srv_CreatedAt = 0, srv_UpdatedAt = 0 \<rparr>"

text \<open>What the API and the form share: the row, the key file, the credential and the first contact.\<close>

definition register_server :: "env \<Rightarrow> Server \<Rightarrow> string \<Rightarrow> bool \<Rightarrow> string \<Rightarrow> string \<Rightarrow> string \<Rightarrow> Server result prog" where
  "register_server E s keyContent generated regHost regUser regToken = do {
     r \<leftarrow> Svc_Create s;
     case r of
       Inl err \<Rightarrow> ret (Inl err)
     | Inr svr \<Rightarrow> do {
         p \<leftarrow> saveKeyFile E (srv_ID svr) keyContent;
         case p of
           Inl err \<Rightarrow> ret (Inl err)
         | Inr path \<Rightarrow> do {
             a \<leftarrow> applyRegistry E (svr\<lparr>srv_SSHKey := path\<rparr>) regHost regUser regToken False;
             case a of
               Inl err \<Rightarrow> ret (Inl err)
             | Inr (svr', old) \<Rightarrow> do {
                 u \<leftarrow> Svc_Update svr';
                 case u of
                   Inl err \<Rightarrow> ret (Inl err)
                 | Inr _ \<Rightarrow> do {
                     (if generated then ret () else go_task (TaskConnectAndInit (srv_ID svr')));
                     ret (Inr svr')
                   }
               }
           }
       }
   }"

definition key_or_new :: "env \<Rightarrow> string \<Rightarrow> string result prog" where
  "key_or_new E key = (if key = [] then do { h \<leftarrow> trace; ret (e_genkey E h) } else ret (Inr key))"

definition ServerHandler_Create :: "env \<Rightarrow> server_env \<Rightarrow> server_input option \<Rightarrow> server_reply prog" where
  "ServerHandler_Create E V input =
     (case input of
        None \<Rightarrow> ret (400, SError ''invalid JSON'')
      | Some n \<Rightarrow>
          if sn_Name n = [] \<or> sn_Host n = [] then ret (400, SError ''name and host are required'')
          else do {
            k \<leftarrow> key_or_new E (sn_SSHKey n);
            case k of
              Inl err \<Rightarrow> ret (500, SError err)
            | Inr key \<Rightarrow>
                if (sn_RegistryUser n = []) \<noteq> (sn_RegistryToken n = []) then ret (400, SError errRegistryPair)
                else do {
                  r \<leftarrow> register_server E (new_server (sn_Name n) (sn_Host n) (sn_Port n) (sn_User n)) key (sn_SSHKey n = [])
                    (sn_RegistryHost n) (sn_RegistryUser n) (sn_RegistryToken n);
                  case r of
                    Inl err \<Rightarrow> ret (500, SError err)
                  | Inr svr \<Rightarrow> do { pub \<leftarrow> PublicKey E V (srv_SSHKey svr); ret (201, SWithKey svr pub) }
                }
          })"

definition form_port :: "form \<Rightarrow> int" where
  "form_port f = (if url_id (FormValue f ''port'') = 0 then 22 else url_id (FormValue f ''port''))"

definition form_user :: "form \<Rightarrow> string" where
  "form_user f = (if FormValue f ''user'' = [] then ''root'' else FormValue f ''user'')"

definition server_path :: "int \<Rightarrow> string" where
  "server_path i = ''/servers/'' @ Itoa i"

definition ServerAddForm :: "env \<Rightarrow> form option \<Rightarrow> server_reply prog" where
  "ServerAddForm E input =
     (case input of
        None \<Rightarrow> ret (400, SPage ''servers_add.html'' ''invalid form data'')
      | Some f \<Rightarrow>
          if trimmed_value f ''name'' = [] \<or> trimmed_value f ''host'' = []
          then ret (400, SPage ''servers_add.html'' ''name and host are required'')
          else do {
            k \<leftarrow> key_or_new E (trimmed_value f ''ssh_key'');
            case k of
              Inl err \<Rightarrow> ret (500, SPage ''servers_add.html'' err)
            | Inr key \<Rightarrow>
                if (trimmed_value f ''registry_user'' = []) \<noteq> (trimmed_value f ''registry_token'' = [])
                then ret (400, SPage ''servers_add.html'' errRegistryPair)
                else do {
                  r \<leftarrow> register_server E (new_server (trimmed_value f ''name'') (trimmed_value f ''host'') (form_port f) (form_user f))
                    key (trimmed_value f ''ssh_key'' = [])
                    (trimmed_value f ''registry_host'') (trimmed_value f ''registry_user'') (trimmed_value f ''registry_token'');
                  ret (case r of
                         Inl err \<Rightarrow> (500, SPage ''servers_add.html'' err)
                       | Inr svr \<Rightarrow> (303, SRedirect (server_path (srv_ID svr))))
                }
          })"

section \<open>Editing a server\<close>

definition update_fields :: "server_input \<Rightarrow> Server \<Rightarrow> Server" where
  "update_fields n s =
     (let s' = s\<lparr>srv_Name := (if sn_Name n \<noteq> [] then sn_Name n else srv_Name s),
                 srv_Host := (if sn_Host n \<noteq> [] then sn_Host n else srv_Host s),
                 srv_Port := (if sn_Port n \<noteq> 0 then sn_Port n else srv_Port s),
                 srv_User := (if sn_User n \<noteq> [] then sn_User n else srv_User s)\<rparr>
      in if sn_HostKeyClear n \<or> srv_Host s' \<noteq> srv_Host s \<or> srv_Port s' \<noteq> srv_Port s then s'\<lparr>srv_HostKey := []\<rparr> else s')"

text \<open>A new SSH key replaces the file; the kind of failure decides the status of the answer.\<close>

datatype edit_error = KeyFailed error | RegistryFailed error | SaveFailed error

definition save_server :: "env \<Rightarrow> Server \<Rightarrow> string \<Rightarrow> string \<Rightarrow> string \<Rightarrow> string \<Rightarrow> bool \<Rightarrow> (edit_error + Server) prog" where
  "save_server E s key regHost regUser regToken clear = do {
     k \<leftarrow> (if key = [] then ret (Inr (srv_SSHKey s)) else saveKeyFile E (srv_ID s) key);
     case k of
       Inl err \<Rightarrow> ret (Inl (KeyFailed err))
     | Inr path \<Rightarrow> do {
         a \<leftarrow> applyRegistry E (s\<lparr>srv_SSHKey := path\<rparr>) regHost regUser regToken clear;
         case a of
           Inl err \<Rightarrow> ret (Inl (RegistryFailed err))
         | Inr (s', oldToken) \<Rightarrow> do {
             u \<leftarrow> Svc_Update s';
             case u of
               Inl err \<Rightarrow> ret (Inl (SaveFailed err))
             | Inr _ \<Rightarrow> do { removeTokenFile E oldToken; ret (Inr s') }
           }
       }
   }"

definition edit_failure :: "edit_error \<Rightarrow> int \<times> error" where
  "edit_failure e = (case e of KeyFailed err \<Rightarrow> (500, err) | RegistryFailed err \<Rightarrow> (400, err) | SaveFailed err \<Rightarrow> (500, err))"

definition ServerHandler_Update :: "env \<Rightarrow> string \<Rightarrow> server_input option \<Rightarrow> server_reply prog" where
  "ServerHandler_Update E param input = do {
     s \<leftarrow> db_get (Srv_Get (url_id param));
     case s of
       None \<Rightarrow> ret (404, SError ''server not found'')
     | Some svr \<Rightarrow>
         (case input of
            None \<Rightarrow> ret (400, SError ''invalid JSON'')
          | Some n \<Rightarrow> do {
              r \<leftarrow> save_server E (update_fields n svr) (sn_SSHKey n)
                (if sn_RegistryHost n = [] then srv_RegistryHost svr else sn_RegistryHost n)
                (if sn_RegistryUser n = [] then srv_RegistryUser svr else sn_RegistryUser n)
                (sn_RegistryToken n) (sn_RegistryClear n);
              ret (case r of
                     Inl e \<Rightarrow> (fst (edit_failure e), SError (snd (edit_failure e)))
                   | Inr svr' \<Rightarrow> (200, SServer svr'))
            })
   }"

definition edit_fields :: "form \<Rightarrow> Server \<Rightarrow> Server" where
  "edit_fields f s =
     (let host = trimmed_value f ''host''; port = form_port f
      in s\<lparr>srv_HostKey := (if FormValue f ''host_key_clear'' \<noteq> [] \<or> host \<noteq> srv_Host s \<or> port \<noteq> srv_Port s then []
              else srv_HostKey s),
           srv_Name := trimmed_value f ''name'', srv_Host := host, srv_Port := port, srv_User := form_user f\<rparr>)"

definition ServerEditForm :: "env \<Rightarrow> string \<Rightarrow> form option \<Rightarrow> server_reply prog" where
  "ServerEditForm E param input = do {
     s \<leftarrow> db_get (Srv_Get (url_id param));
     case s of
       None \<Rightarrow> ret (404, SPage ''error.html'' ''server not found'')
     | Some svr \<Rightarrow>
         (case input of
            None \<Rightarrow> ret (400, SPage ''servers_edit.html'' ''invalid form data'')
          | Some f \<Rightarrow>
              if trimmed_value f ''name'' = [] \<or> trimmed_value f ''host'' = []
              then ret (400, SPage ''servers_edit.html'' ''name and host are required'')
              else do {
                r \<leftarrow> save_server E (edit_fields f svr) (trimmed_value f ''ssh_key'')
                  (trimmed_value f ''registry_host'') (trimmed_value f ''registry_user'') (trimmed_value f ''registry_token'')
                  (FormValue f ''registry_clear'' \<noteq> []);
                case r of
                  Inl e \<Rightarrow> ret (fst (edit_failure e), SPage ''servers_edit.html'' (snd (edit_failure e)))
                | Inr svr' \<Rightarrow> do {
                    go_task (TaskTestConnection (url_id param));
                    ret (303, SRedirect (server_path (url_id param)))
                  }
              })
   }"

section \<open>The other operations\<close>

definition ServerHandler_List :: "server_reply prog" where
  "ServerHandler_List = do { found \<leftarrow> db_get Srv_List; ret (200, SServers found) }"

definition with_server :: "string \<Rightarrow> (Server \<Rightarrow> server_reply prog) \<Rightarrow> server_reply prog" where
  "with_server param body = do {
     s \<leftarrow> db_get (Srv_Get (url_id param));
     case s of None \<Rightarrow> ret (404, SError ''server not found'') | Some svr \<Rightarrow> body svr
   }"

definition ServerHandler_Get :: "env \<Rightarrow> server_env \<Rightarrow> string \<Rightarrow> server_reply prog" where
  "ServerHandler_Get E V param = with_server param (\<lambda>svr. do {
     pub \<leftarrow> PublicKey E V (srv_SSHKey svr);
     ret (200, SWithKey svr pub)
   })"

definition ServerHandler_Refresh :: "string \<Rightarrow> server_reply prog" where
  "ServerHandler_Refresh param = with_server param (\<lambda>_. do {
     go_task (TaskRefreshResources (url_id param));
     ret (202, SMessage ''refresh started'')
   })"

definition ServerHandler_Init :: "string \<Rightarrow> server_reply prog" where
  "ServerHandler_Init param = with_server param (\<lambda>_. do {
     go_task (TaskInitWorker (url_id param));
     ret (202, SMessage ''initialization started'')
   })"

definition deleteStatus :: "delete_error \<Rightarrow> int" where
  "deleteStatus e = (case e of ErrServerHasApps _ \<Rightarrow> 409 | DeleteFailed _ \<Rightarrow> 500)"

definition ServerHandler_Delete :: "env \<Rightarrow> string \<Rightarrow> server_reply prog" where
  "ServerHandler_Delete E param = do {
     r \<leftarrow> Svc_Delete (url_id param);
     case r of
       Some e \<Rightarrow> ret (deleteStatus e, SError (delete_message e))
     | None \<Rightarrow> do { removeKeyFiles E (url_id param); ret (200, SMessage ''deleted'') }
   }"

definition ServerDeleteWeb :: "env \<Rightarrow> string \<Rightarrow> server_reply prog" where
  "ServerDeleteWeb E param = do {
     r \<leftarrow> Svc_Delete (url_id param);
     case r of
       Some e \<Rightarrow> ret (deleteStatus e, SPage ''error.html'' (delete_message e))
     | None \<Rightarrow> do { removeKeyFiles E (url_id param); ret (303, SRedirect ''/servers'') }
   }"

definition ServerHandler_Prune :: "env \<Rightarrow> string \<Rightarrow> bool \<Rightarrow> bool \<Rightarrow> server_reply prog" where
  "ServerHandler_Prune E param all volumes = do {
     r \<leftarrow> PruneWorker E (url_id param) all volumes;
     ret (case r of
            (out, Some err) \<Rightarrow> (500, SOutput err out)
          | (out, None) \<Rightarrow> (200, SOutput ''prune completed'' out))
   }"

definition prune_message :: "string \<times> error option \<Rightarrow> string" where
  "prune_message r = (case r of
     (_, Some err) \<Rightarrow> ''Prune error: '' @ err
   | (out, None) \<Rightarrow>
       if TrimSpace out \<noteq> [] then ''Prune finished: '' @ last (Split1 (CHR 0x0A) (TrimSpace out))
       else ''Worker disk prune completed successfully.'')"

definition ServerPrune :: "env \<Rightarrow> string \<Rightarrow> form \<Rightarrow> server_reply prog" where
  "ServerPrune E param f = do {
     r \<leftarrow> PruneWorker E (url_id param) (checked f ''all'') (checked f ''volumes'');
     ret (303, SRedirect (server_path (url_id param) @ ''?msg='' @ QueryEscape (prune_message r)))
   }"

definition ServerInit :: "string \<Rightarrow> server_reply prog" where
  "ServerInit param = do {
     go_task (TaskInitWorker (url_id param));
     ret (303, SRedirect (server_path (url_id param)))
   }"

definition ServerRefreshWeb :: "env \<Rightarrow> server_env \<Rightarrow> string \<Rightarrow> server_reply prog" where
  "ServerRefreshWeb E V param = do {
     r \<leftarrow> RefreshResources E V (url_id param);
     ret (303, SRedirect (server_path (url_id param)))
   }"

definition ServerResourcesCard :: "env \<Rightarrow> server_env \<Rightarrow> string \<Rightarrow> server_reply prog" where
  "ServerResourcesCard E V param = do {
     r \<leftarrow> RefreshResources E V (url_id param);
     s \<leftarrow> db_get (Srv_Get (url_id param));
     ret (case s of None \<Rightarrow> (500, SPage ''error.html'' ''server not found'') | Some svr \<Rightarrow> (200, SServer svr))
   }"

section \<open>Credentials are complete\<close>

definition cred_ok :: "Server \<Rightarrow> bool" where
  "cred_ok s \<longleftrightarrow> (srv_RegistryUser s = [] \<longleftrightarrow> srv_RegistryToken s = [])"

definition complete_credentials :: "db \<Rightarrow> bool" where
  "complete_credentials d \<longleftrightarrow> (\<forall>s \<in> set (servers d). cred_ok s)"

lemma clean_fold_nonempty: "(\<forall>e \<in> set out. e \<noteq> []) \<Longrightarrow> \<forall>e \<in> set (foldl (clean_step r) out es). e \<noteq> []"
proof (induction es arbitrary: out)
  case (Cons e es)
  have "\<forall>x \<in> set (clean_step r out e). x \<noteq> []"
    using Cons.prems by (cases out) (auto simp: clean_step_def)
  then show ?case
    using Cons.IH by simp
qed simp

lemma Clean_nonempty: "Clean p \<noteq> []"
proof -
  have "Join xs ''/'' \<noteq> []" if "xs \<noteq> []" "\<forall>e \<in> set xs. e \<noteq> []" for xs
    using that by (cases xs rule: remdups_adj.cases) auto
  then show ?thesis
    using clean_fold_nonempty [of "[]"] unfolding Clean_def Let_def by (auto simp: not_le)
qed

lemma token_path_nonempty: "token_path E i \<noteq> []"
  by (simp add: token_path_def path_join_def Clean_nonempty)

lemma Srv_Get_cred: "complete_credentials d \<Longrightarrow> Srv_Get i d = Some s \<Longrightarrow> cred_ok s"
  unfolding complete_credentials_def Srv_Get_def by (meson find_SomeD)

lemma complete_update: "complete_credentials d \<Longrightarrow> cred_ok s \<Longrightarrow> complete_credentials (snd (Srv_Update now s d))"
  by (auto simp: complete_credentials_def Srv_Update_def map_server_def cred_ok_def)

lemma complete_create: "complete_credentials d \<Longrightarrow> cred_ok s \<Longrightarrow> complete_credentials (snd (Srv_Create now s d))"
  by (auto simp: complete_credentials_def Srv_Create_def Let_def bump_def cred_ok_def)

lemma complete_delete: "complete_credentials d \<Longrightarrow> complete_credentials (snd (Srv_Delete i d))"
  by (auto simp: complete_credentials_def Srv_Delete_def)

lemma wp_applyRegistry:
  assumes "cred_ok s"
  shows "wp (applyRegistry E s host user token clear)
    (\<lambda>r v. w_db v = w_db w \<and> (case r of Inl _ \<Rightarrow> True | Inr (s', _) \<Rightarrow> cred_ok s')) w"
proof -
  have save: "wp (SaveFile E p c) Q w" if "\<And>x v. w_db v = w_db w \<Longrightarrow> Q x v" for p c Q
    using that keepsD [OF keeps_SaveFile(1)] by (simp add: wp_exec_result)
  show ?thesis
    using assms unfolding applyRegistry_def saveRegistryTokenFile_def
    by (auto simp: wp_simps Let_def cred_ok_def token_path_nonempty intro!: save split: option.splits)
qed

text \<open>A program keeps the credentials complete, with any result.\<close>

abbreviation complete :: "'a \<Rightarrow> world \<Rightarrow> bool" where
  "complete \<equiv> \<lambda>_ w. complete_credentials (w_db w)"

lemma wp_complete_keeps: "keeps w_db m \<Longrightarrow> complete_credentials (w_db w) \<Longrightarrow> wp m complete w"
  by (erule wp_keeps) simp

lemma wp_complete_then: "wp m complete w \<Longrightarrow> (\<And>x v. complete_credentials (w_db v) \<Longrightarrow> wp (g x) complete v) \<Longrightarrow>
   wp (State_Monad.bind m g) complete w"
  unfolding wp_bind by (erule wp_mono)

lemma wp_complete_registry:
  assumes "cred_ok s" and "complete_credentials (w_db w)"
    and "\<And>e v. complete_credentials (w_db v) \<Longrightarrow> wp (g (Inl e)) complete v"
    and "\<And>s' old v. cred_ok s' \<Longrightarrow> complete_credentials (w_db v) \<Longrightarrow> wp (g (Inr (s', old))) complete v"
  shows "wp (State_Monad.bind (applyRegistry E s host user token clear) g) complete w"
  unfolding wp_bind by (rule wp_mono [OF wp_applyRegistry [OF assms(1)]]) (use assms in \<open>auto split: sum.splits prod.splits\<close>)

lemma wp_complete_update: "cred_ok s \<Longrightarrow> complete_credentials (w_db w) \<Longrightarrow> wp (Svc_Update s) complete w"
  by (simp add: Svc_Update_def wp_simps split: prod.split) (metis complete_update snd_conv)

lemma wp_complete_ret: "complete_credentials (w_db w) \<Longrightarrow> wp (ret x) complete w"
  by (simp add: wp_simps)

lemma keeps_key_file [frame]: "keeps w_db (saveKeyFile E i c)" "keeps w_db (removeTokenFile E f)" "keeps w_db (removeKeyFiles E i)"
    "keeps w_db (PublicKey E V f)" "keeps w_db (key_or_new E key)" "keeps w_db (go_task t)"
  unfolding saveKeyFile_def removeTokenFile_def removeKeyFiles_def PublicKey_def key_or_new_def
  by (intro frame)+ (simp add: go_task_def keeps_def exec_def)

lemmas wp_complete = wp_complete_ret wp_complete_update wp_complete_keeps [OF keeps_key_file(1)]
  wp_complete_keeps [OF keeps_key_file(2)] wp_complete_keeps [OF keeps_key_file(3)] wp_complete_keeps [OF keeps_key_file(4)]
  wp_complete_keeps [OF keeps_key_file(5)] wp_complete_keeps [OF keeps_key_file(6)]

text \<open>Sequences that begin with one of these.\<close>

lemmas wp_complete_bind = wp_complete_then [OF wp_complete_update]
  wp_complete_then [OF wp_complete_keeps [OF keeps_key_file(1)]] wp_complete_then [OF wp_complete_keeps [OF keeps_key_file(2)]]
  wp_complete_then [OF wp_complete_keeps [OF keeps_key_file(3)]] wp_complete_then [OF wp_complete_keeps [OF keeps_key_file(4)]]
  wp_complete_then [OF wp_complete_keeps [OF keeps_key_file(5)]] wp_complete_then [OF wp_complete_keeps [OF keeps_key_file(6)]]

lemma wp_complete_if:
  "(c \<Longrightarrow> wp a complete w) \<Longrightarrow> (\<not> c \<Longrightarrow> wp b complete w) \<Longrightarrow> wp (if c then a else b) complete w"
  by simp

lemma wp_complete_get:
  assumes "complete_credentials (w_db w)" and "wp (g None) complete w" and "\<And>s. cred_ok s \<Longrightarrow> wp (g (Some s)) complete w"
  shows "wp (State_Monad.bind (db_get (Srv_Get i)) g) complete w"
  using assms(2,3) Srv_Get_cred [OF assms(1)] by (cases "Srv_Get i (w_db w)") (simp_all add: wp_simps)

lemma wp_complete_started:
  "complete_credentials (w_db w) \<Longrightarrow> (\<And>v. complete_credentials (w_db v) \<Longrightarrow> wp (g ()) complete v) \<Longrightarrow>
   wp (State_Monad.bind (if c then ret () else go_task t) g) complete w"
  by (rule wp_complete_then) (auto intro: wp_complete)

lemma complete_save_server:
  assumes "cred_ok s" and "complete_credentials (w_db w)"
  shows "wp (save_server E s key host user token clear) complete w"
proof -
  have s: "cred_ok (s\<lparr>srv_SSHKey := p\<rparr>)" for p
    using assms(1) by (simp add: cred_ok_def)
  have k: "keeps w_db (if key = [] then ret (Inr (srv_SSHKey s)) else saveKeyFile E (srv_ID s) key)"
    by (simp add: frame)
  show ?thesis
    unfolding save_server_def
    by (rule wp_complete_then [OF wp_complete_keeps [OF k assms(2)]])
      (auto split: sum.split intro!: wp_complete_registry s wp_complete_bind wp_complete_started wp_complete)
qed

lemma complete_register:
  assumes "cred_ok s" and "complete_credentials (w_db w)"
  shows "wp (register_server E s key gen host user token) complete w"
proof -
  have s: "cred_ok ((server_defaults s)\<lparr>srv_ID := i, srv_SSHKey := p\<rparr>)" "cred_ok (server_defaults s)" for p i
    using assms(1) by (auto simp: cred_ok_def server_defaults_def Let_def)
  have create: "wp (Svc_Create s) (\<lambda>r v. complete_credentials (w_db v) \<and>
      (case r of Inl _ \<Rightarrow> True | Inr svr \<Rightarrow> \<exists>i. svr = (server_defaults s)\<lparr>srv_ID := i\<rparr>)) w"
    using complete_create [OF assms(2) s(2), of "now_s w"]
    by (auto simp: Svc_Create_def wp_simps split: prod.split sum.split)
  show ?thesis
    unfolding register_server_def wp_bind [of "Svc_Create s"]
    by (rule wp_mono [OF create])
      (auto split: sum.split intro!: wp_complete_registry s wp_complete_bind wp_complete_started wp_complete)
qed

lemma complete_Svc_Delete: "complete_credentials (w_db w) \<Longrightarrow> wp (Svc_Delete i) complete w"
  using complete_delete [of "w_db w" i] by (auto simp: Svc_Delete_def wp_simps split: prod.split)

section \<open>Properties\<close>

text \<open>C38. A registry credential is never half set: registering, editing and deleting servers, from the API
  or the forms, keeps every server with either a registry user and a token file or neither.
\<close>

theorem server_credentials_complete:
  assumes "complete_credentials (w_db w)"
  shows "complete_credentials (w_db (exec (ServerHandler_Create E V input) w)) \<and>
    complete_credentials (w_db (exec (ServerAddForm E form) w)) \<and>
    complete_credentials (w_db (exec (ServerHandler_Update E param input) w)) \<and>
    complete_credentials (w_db (exec (ServerEditForm E param form) w)) \<and>
    complete_credentials (w_db (exec (ServerHandler_Delete E param) w))"
proof -
  have new: "cred_ok (new_server n h p u)" for n h p u
    by (simp add: cred_ok_def new_server_def)
  have upd: "cred_ok (update_fields n s) = cred_ok s" "cred_ok (edit_fields f s) = cred_ok s" for n f s
    by (simp_all add: cred_ok_def update_fields_def edit_fields_def Let_def)
  note c = wp_complete_bind wp_complete wp_complete_then [OF complete_register] wp_complete_then [OF complete_save_server]
  have "wp (ServerHandler_Create E V input) complete w" "wp (ServerAddForm E form) complete w"
    unfolding ServerHandler_Create_def ServerAddForm_def
    by (auto split: option.split sum.split simp: assms intro!: c new)
  moreover have "wp (ServerHandler_Update E param input) complete w" "wp (ServerEditForm E param form) complete w"
    unfolding ServerHandler_Update_def ServerEditForm_def
    by (auto split: option.split sum.split simp: assms upd intro!: wp_complete_get c)
  moreover have "wp (ServerHandler_Delete E param) complete w"
    unfolding ServerHandler_Delete_def
    by (auto split: option.split simp: assms intro!: c wp_complete_then [OF complete_Svc_Delete])
  ultimately show ?thesis
    by (simp add: wp_exec)
qed

theorem server_credentials_complete_witness:
  "complete_credentials (w_db (exec (ServerHandler_Create sample_env \<lparr> sv_inspect = (\<lambda>_. None), sv_float = (\<lambda>_. 0),
      sv_public = Inr \<rparr> (Some \<lparr> sn_Name = ''n'', sn_Host = ''h2'', sn_Port = 0, sn_User = [], sn_SSHKey = ''key'',
      sn_RegistryHost = [], sn_RegistryUser = ''bot'', sn_RegistryToken = ''tok'', sn_RegistryClear = False,
      sn_HostKeyClear = False \<rparr>)) sample_world))"
proof -
  have "complete_credentials (w_db sample_world)"
    by (simp add: complete_credentials_def cred_ok_def sample_world_def sample_db_def sample_server_def)
  then show ?thesis
    by (rule conjunct1 [OF server_credentials_complete])
qed

text \<open>A refused change of a server is not without effect: a \<open>PATCH\<close> with a new SSH key and an
  incomplete registry credential is answered with 400 and leaves the row as it is, but the key
  file of the server has already been replaced.
\<close>

theorem ServerHandler_Update_key_lost:
  assumes "Srv_Get (url_id param) (w_db w) = Some svr" and "sn_SSHKey n \<noteq> []"
    and "srv_RegistryUser svr = []" and "srv_RegistryToken svr = []"
    and "sn_RegistryUser n \<noteq> []" and "sn_RegistryToken n = []" and "\<not> sn_RegistryClear n"
    and "e_savefile E (w_trace w) (key_path E (url_id param)) (sn_SSHKey n) = None"
  shows "result (ServerHandler_Update E param (Some n)) w = (400, SError errRegistryPair) \<and>
    w_db (exec (ServerHandler_Update E param (Some n)) w) = w_db w \<and>
    EvSaveFile (key_path E (url_id param)) (sn_SSHKey n) \<in> set (w_trace (exec (ServerHandler_Update E param (Some n)) w))"
proof -
  have i: "srv_ID svr = url_id param"
    using assms(1) by (auto simp: Srv_Get_def dest: find_SomeD)
  let ?w = "exec (SaveFile E (key_path E (url_id param)) (sn_SSHKey n)) w"
  have save: "result (SaveFile E (key_path E (url_id param)) (sn_SSHKey n)) w = None" "w_db ?w = w_db w"
      "w_trace ?w = w_trace w @ [EvSaveFile (key_path E (url_id param)) (sn_SSHKey n)]"
    using assms(8) keepsD [OF keeps_SaveFile(1)]
    by (simp_all add: SaveFile_def result_def exec_def trace_def gets_def emit_def modify_def)
  have upd: "srv_ID (update_fields n svr) = url_id param" "srv_RegistryToken (update_fields n svr) = []"
    using i assms(4) by (simp_all add: update_fields_def Let_def)
  have run: "exec (ServerHandler_Update E param (Some n)) w = ?w"
      "result (ServerHandler_Update E param (Some n)) w = (400, SError errRegistryPair)"
    unfolding ServerHandler_Update_def exec_get_bind result_get_bind assms(1)
    using assms(2-7) upd save(1)
    by (simp_all add: save_server_def saveKeyFile_def applyRegistry_def exec_bind result_bind edit_failure_def)
  show ?thesis
    by (simp add: run save)
qed

theorem ServerHandler_Update_key_lost_witness:
  "let n = \<lparr> sn_Name = [], sn_Host = [], sn_Port = 0, sn_User = [], sn_SSHKey = ''key'', sn_RegistryHost = [],
      sn_RegistryUser = ''bot'', sn_RegistryToken = [], sn_RegistryClear = False, sn_HostKeyClear = False \<rparr>
   in result (ServerHandler_Update sample_env ''1'' (Some n)) sample_world = (400, SError errRegistryPair) \<and>
      w_db (exec (ServerHandler_Update sample_env ''1'' (Some n)) sample_world) = w_db sample_world \<and>
      EvSaveFile (key_path sample_env (url_id ''1'')) (sn_SSHKey n)
        \<in> set (w_trace (exec (ServerHandler_Update sample_env ''1'' (Some n)) sample_world))"
  unfolding Let_def
proof (rule ServerHandler_Update_key_lost [where svr = "sample_server"])
  show "Srv_Get (url_id ''1'') (w_db sample_world) = Some (sample_server)"
    by code_simp
qed (simp_all add: sample_server_def sample_env_def)

end
