(* ===== verification/Backup.thy ===== *)
theory Backup
  imports ServerHandlers
begin

text \<open>
  Export and import of the configuration, from \<open>internal/backup/backup.go\<close> and
  \<open>internal/backup/handler.go\<close>. The YAML library and the cipher (AES-GCM with a key derived by
  PBKDF2) are parameters; the text format of encrypted values, the checks and the order of all
  reads and writes are the code's. A document is the value the YAML library reads or writes.
\<close>

section \<open>Documents\<close>

record ExportServer =
  xs_Name :: string
  xs_Host :: string
  xs_Port :: int
  xs_User :: string
  xs_SSHKey :: string
  xs_RegistryHost :: string
  xs_RegistryUser :: string
  xs_RegistryToken :: string

record ExportSecret =
  xk_Key :: string
  xk_Value :: string
  xk_IsSecret :: bool

record ExportFile =
  xf_Path :: string
  xf_Content :: string

record ExportApp =
  xa_Name :: string
  xa_ServerName :: string
  xa_Domain :: string
  xa_Domains :: "string list"
  xa_Port :: int
  xa_Compose :: string
  xa_GitRepo :: string
  xa_GitBranch :: string
  xa_AuthUser :: string
  xa_AuthPass :: string
  xa_ComposeMode :: string
  xa_MemoryLimit :: string
  xa_CPULimit :: string
  xa_LogMaxSize :: string
  xa_LogMaxFile :: string
  xa_Command :: string
  xa_Ports :: string
  xa_UlimitsNofile :: string
  xa_Secrets :: "ExportSecret list"
  xa_Files :: "ExportFile list"

record ExportData =
  xd_Version :: int
  xd_MasterSalt :: string
  xd_Servers :: "ExportServer list"
  xd_Apps :: "ExportApp list"

abbreviation Version :: int where "Version \<equiv> 1"

text \<open>\<open>cipher.AEAD\<close>: sealing and opening with a nonce, without additional data.\<close>

record AEAD =
  Seal :: "string \<Rightarrow> string \<Rightarrow> string"
  Open :: "string \<Rightarrow> string \<Rightarrow> string result"

text \<open>\<open>bk_aead\<close> derives the cipher from a passphrase and a salt.\<close>

record backup_env =
  bk_aead :: "string \<Rightarrow> string \<Rightarrow> AEAD result"
  bk_marshal :: "ExportData \<Rightarrow> string result"
  bk_unmarshal :: "string \<Rightarrow> ExportData result"

section \<open>Loops that stop at an error\<close>

fun collectM :: "'a list \<Rightarrow> ('a \<Rightarrow> ('s, 'b result) state) \<Rightarrow> ('s, 'b list result) state" where
  "collectM [] f = ret (Inr [])"
| "collectM (x # xs) f = do {
     r \<leftarrow> f x;
     case r of
       Inl err \<Rightarrow> ret (Inl err)
     | Inr y \<Rightarrow> do { rs \<leftarrow> collectM xs f; ret (case rs of Inl err \<Rightarrow> Inl err | Inr ys \<Rightarrow> Inr (y # ys)) }
   }"

fun eachM :: "'a list \<Rightarrow> ('a \<Rightarrow> ('s, error option) state) \<Rightarrow> ('s, error option) state" where
  "eachM [] f = ret None"
| "eachM (x # xs) f = do { e \<leftarrow> f x; case e of Some err \<Rightarrow> ret (Some err) | None \<Rightarrow> eachM xs f }"

fun loopM :: "('b \<Rightarrow> 'a \<Rightarrow> ('s, 'b \<times> error option) state) \<Rightarrow> 'b \<Rightarrow> 'a list \<Rightarrow> ('s, 'b \<times> error option) state" where
  "loopM f b [] = ret (b, None)"
| "loopM f b (x # xs) = do {
     r \<leftarrow> f b x;
     case r of (b', Some err) \<Rightarrow> ret (b', Some err) | (b', None) \<Rightarrow> loopM f b' xs
   }"

text \<open>The same for checks and conversions without effects.\<close>

fun first_failure :: "error option list \<Rightarrow> error option" where
  "first_failure [] = None"
| "first_failure (None # es) = first_failure es"
| "first_failure (Some err # es) = Some err"

fun convert_all :: "('a \<Rightarrow> 'b result) \<Rightarrow> 'a list \<Rightarrow> 'b list result" where
  "convert_all f [] = Inr []"
| "convert_all f (x # xs) =
     (case f x of
        Inl err \<Rightarrow> Inl err
      | Inr y \<Rightarrow> (case convert_all f xs of Inl err \<Rightarrow> Inl err | Inr ys \<Rightarrow> Inr (y # ys)))"

section \<open>Encrypted values\<close>

abbreviation nonceSize :: nat where "nonceSize \<equiv> 12"

definition encryptValue :: "env \<Rightarrow> AEAD \<Rightarrow> string \<Rightarrow> string result prog" where
  "encryptValue E a plaintext = do {
     n \<leftarrow> Random E nonceSize;
     ret (case n of
            Inl err \<Rightarrow> Inl err
          | Inr nonce \<Rightarrow> Inr (''enc:'' @ EncodeToString (nonce @ Seal a nonce plaintext)))
   }"

definition open_value :: "AEAD \<Rightarrow> string \<Rightarrow> string result" where
  "open_value a raw = (case Open a (take nonceSize raw) (drop nonceSize raw) of
     Inl err \<Rightarrow> Inl (''message authentication failed: '' @ err)
   | Inr plaintext \<Rightarrow> Inr plaintext)"

text \<open>The format before the salt of the document: every value carries its own.\<close>

definition decrypt :: "backup_env \<Rightarrow> string \<Rightarrow> string \<Rightarrow> string result" where
  "decrypt V encoded passphrase =
     (if \<not> HasPrefix encoded ''enc:'' then Inr encoded
      else case DecodeString (drop 4 encoded) of
          None \<Rightarrow> Inl ''decode: illegal base64 data''
        | Some raw \<Rightarrow>
            if length raw < 28 then Inl ''invalid encrypted data''
            else case bk_aead V passphrase (take 16 raw) of
                Inl err \<Rightarrow> Inl err
              | Inr a \<Rightarrow> open_value a (drop 16 raw))"

definition decryptWithAEAD :: "AEAD \<Rightarrow> string \<Rightarrow> string result" where
  "decryptWithAEAD a encoded =
     (if \<not> HasPrefix encoded ''enc:'' then Inr encoded
      else case DecodeString (drop 4 encoded) of
          None \<Rightarrow> Inl ''decode: illegal base64 data''
        | Some raw \<Rightarrow> if length raw < nonceSize then Inl ''invalid encrypted data'' else open_value a raw)"

definition validateDecrypt :: "backup_env \<Rightarrow> string \<Rightarrow> string \<Rightarrow> error option" where
  "validateDecrypt V v passphrase =
     (if \<not> HasPrefix v ''enc:'' then None
      else if passphrase = [] then Some ''has an encrypted value but no passphrase was provided''
      else case decrypt V v passphrase of
          Inl _ \<Rightarrow> Some ''wrong passphrase or corrupted data''
        | Inr _ \<Rightarrow> None)"

definition validateDecryptWithAEAD :: "AEAD \<Rightarrow> string \<Rightarrow> error option" where
  "validateDecryptWithAEAD a v =
     (if \<not> HasPrefix v ''enc:'' then None
      else case decryptWithAEAD a v of
          Inl _ \<Rightarrow> Some ''wrong passphrase or corrupted data''
        | Inr _ \<Rightarrow> None)"

section \<open>Export\<close>

text \<open>\<open>deriveAEAD\<close>: the salt and the cipher; \<open>None\<close> without a passphrase.\<close>

definition deriveAEAD :: "env \<Rightarrow> backup_env \<Rightarrow> string \<Rightarrow> (string \<times> AEAD) option result prog" where
  "deriveAEAD E V passphrase =
     (if passphrase = [] then ret (Inr None)
      else do {
        s \<leftarrow> Random E 16;
        ret (case s of
               Inl err \<Rightarrow> Inl err
             | Inr salt \<Rightarrow> (case bk_aead V passphrase salt of Inl err \<Rightarrow> Inl err | Inr a \<Rightarrow> Inr (Some (salt, a))))
      })"

definition enc :: "env \<Rightarrow> (string \<times> AEAD) option \<Rightarrow> string \<Rightarrow> string result prog" where
  "enc E k plaintext = (case k of None \<Rightarrow> ret (Inr plaintext) | Some (_, a) \<Rightarrow> encryptValue E a plaintext)"

text \<open>A file of a server, encrypted: its content or the error with what it was for.\<close>

definition enc_file :: "env \<Rightarrow> (string \<times> AEAD) option \<Rightarrow> string \<Rightarrow> string \<Rightarrow> string \<Rightarrow> string \<Rightarrow> string result prog" where
  "enc_file E k read_what enc_what name path = do {
     r \<leftarrow> ReadFile E path;
     case r of
       Inl err \<Rightarrow> ret (Inl (''read '' @ read_what @ '' file for '' @ Quote name @ '': '' @ err))
     | Inr content \<Rightarrow> do {
         v \<leftarrow> enc E k content;
         ret (case v of Inl err \<Rightarrow> Inl (''encrypt '' @ enc_what @ '' for '' @ Quote name @ '': '' @ err) | Inr x \<Rightarrow> Inr x)
       }
   }"

definition export_server :: "env \<Rightarrow> (string \<times> AEAD) option \<Rightarrow> Server \<Rightarrow> ExportServer result prog" where
  "export_server E k s = do {
     key \<leftarrow> (if srv_SSHKey s \<noteq> [] \<and> srv_SSHKey s \<noteq> ''pending''
        then enc_file E k ''ssh_key'' ''ssh_key'' (srv_Name s) (srv_SSHKey s) else ret (Inr []));
     case key of
       Inl err \<Rightarrow> ret (Inl err)
     | Inr sshKey \<Rightarrow>
         (if srv_RegistryToken s = []
          then ret (Inr \<lparr> xs_Name = srv_Name s, xs_Host = srv_Host s, xs_Port = srv_Port s, xs_User = srv_User s,
            xs_SSHKey = sshKey, xs_RegistryHost = [], xs_RegistryUser = [], xs_RegistryToken = [] \<rparr>)
          else do {
            token \<leftarrow> enc_file E k ''registry token'' ''registry_token'' (srv_Name s) (srv_RegistryToken s);
            ret (case token of
                   Inl err \<Rightarrow> Inl err
                 | Inr t \<Rightarrow> Inr \<lparr> xs_Name = srv_Name s, xs_Host = srv_Host s, xs_Port = srv_Port s, xs_User = srv_User s,
                     xs_SSHKey = sshKey, xs_RegistryHost = srv_RegistryHost s, xs_RegistryUser = srv_RegistryUser s,
                     xs_RegistryToken = t \<rparr>)
          })
   }"

text \<open>Secrets and files with the app they belong to.\<close>

definition export_secret :: "env \<Rightarrow> (string \<times> AEAD) option \<Rightarrow> AppSecret \<Rightarrow> (int \<times> ExportSecret) result prog" where
  "export_secret E k s = do {
     v \<leftarrow> (if sec_IsSecret s then enc E k (sec_Value s) else ret (Inr (sec_Value s)));
     ret (case v of
            Inl err \<Rightarrow> Inl (''encrypt secret '' @ Quote (sec_Key s) @ '': '' @ err)
          | Inr x \<Rightarrow> Inr (sec_AppID s, \<lparr> xk_Key = sec_Key s, xk_Value = x, xk_IsSecret = sec_IsSecret s \<rparr>))
   }"

definition export_file :: "env \<Rightarrow> (string \<times> AEAD) option \<Rightarrow> AppFile \<Rightarrow> (int \<times> ExportFile) result prog" where
  "export_file E k f = do {
     v \<leftarrow> enc E k (file_Content f);
     ret (case v of
            Inl err \<Rightarrow> Inl (''encrypt file '' @ Quote (file_Path f) @ '': '' @ err)
          | Inr x \<Rightarrow> Inr (file_AppID f, \<lparr> xf_Path = file_Path f, xf_Content = x \<rparr>))
   }"

definition of_app :: "int \<Rightarrow> (int \<times> 'a) list \<Rightarrow> 'a list" where
  "of_app i xs = map snd (filter (\<lambda>x. fst x = i) xs)"

definition server_name_of :: "Server list \<Rightarrow> int \<Rightarrow> string" where
  "server_name_of found i = (case find (\<lambda>s. srv_ID s = i) found of Some s \<Rightarrow> srv_Name s | None \<Rightarrow> [])"

definition export_domains :: "App \<Rightarrow> Route list \<Rightarrow> string list" where
  "export_domains a rts =
     (if app_Domain a \<noteq> [] then [app_Domain a] else []) @ filter (\<lambda>x. x \<noteq> app_Domain a) (map rt_Domain rts)"

definition export_app :: "env \<Rightarrow> (string \<times> AEAD) option \<Rightarrow> Server list \<Rightarrow> (int \<times> ExportSecret) list
    \<Rightarrow> (int \<times> ExportFile) list \<Rightarrow> App \<Rightarrow> ExportApp result prog" where
  "export_app E k found secs files a = do {
     h \<leftarrow> trace;
     rts \<leftarrow> db_get (Repo_GetRoutes (e_plan_routes E h) (app_ID a));
     pass \<leftarrow> (if app_AuthPass a \<noteq> [] then enc E k (app_AuthPass a) else ret (Inr []));
     ret (case pass of
            Inl err \<Rightarrow> Inl (''encrypt auth_pass for '' @ Quote (app_Name a) @ '': '' @ err)
          | Inr p \<Rightarrow> Inr \<lparr> xa_Name = app_Name a, xa_ServerName = server_name_of found (app_ServerID a),
              xa_Domain = app_Domain a, xa_Domains = export_domains a rts, xa_Port = app_Port a,
              xa_Compose = app_Compose a, xa_GitRepo = app_GitRepo a, xa_GitBranch = app_GitBranch a,
              xa_AuthUser = app_AuthUser a, xa_AuthPass = p, xa_ComposeMode = app_ComposeMode a,
              xa_MemoryLimit = app_MemoryLimit a, xa_CPULimit = app_CPULimit a, xa_LogMaxSize = app_LogMaxSize a,
              xa_LogMaxFile = app_LogMaxFile a, xa_Command = app_Command a, xa_Ports = app_Ports a,
              xa_UlimitsNofile = app_UlimitsNofile a, xa_Secrets = of_app (app_ID a) secs,
              xa_Files = of_app (app_ID a) files \<rparr>)
   }"

definition export_header :: "string \<Rightarrow> string" where
  "export_header passphrase =
     ''# Dockify Configuration Export'' @ nl
     @ (if passphrase \<noteq> []
        then ''# All sensitive values (secrets, auth passwords, config files, SSH keys) are encrypted.'' @ nl else [])
     @ ''# Remove or edit entries before import as needed.'' @ nl"

definition export_data :: "env \<Rightarrow> (string \<times> AEAD) option \<Rightarrow> ExportData result prog" where
  "export_data E k = do {
     found \<leftarrow> db_get Srv_List;
     xapps \<leftarrow> db_get Repo_List;
     svrs \<leftarrow> collectM found (export_server E k);
     case svrs of
       Inl err \<Rightarrow> ret (Inl err)
     | Inr xsvrs \<Rightarrow> do {
         allSecrets \<leftarrow> db_get Repo_ListAllSecrets;
         secs \<leftarrow> collectM allSecrets (export_secret E k);
         case secs of
           Inl err \<Rightarrow> ret (Inl err)
         | Inr xsecs \<Rightarrow> do {
             allFiles \<leftarrow> db_get Repo_ListAllFiles;
             fls \<leftarrow> collectM allFiles (export_file E k);
             case fls of
               Inl err \<Rightarrow> ret (Inl err)
             | Inr xfiles \<Rightarrow> do {
                 as \<leftarrow> collectM xapps (export_app E k found xsecs xfiles);
                 ret (case as of
                        Inl err \<Rightarrow> Inl err
                      | Inr xas \<Rightarrow> Inr \<lparr> xd_Version = Version,
                          xd_MasterSalt = (case k of None \<Rightarrow> [] | Some (salt, _) \<Rightarrow> EncodeToString salt),
                          xd_Servers = xsvrs, xd_Apps = xas \<rparr>)
               }
           }
       }
   }"

definition Export :: "env \<Rightarrow> backup_env \<Rightarrow> string \<Rightarrow> string result prog" where
  "Export E V passphrase = do {
     k \<leftarrow> deriveAEAD E V passphrase;
     case k of
       Inl err \<Rightarrow> ret (Inl (''derive encryption key: '' @ err))
     | Inr key \<Rightarrow> do {
         data \<leftarrow> export_data E key;
         ret (case data of
                Inl err \<Rightarrow> Inl err
              | Inr x \<Rightarrow> (case bk_marshal V x of
                    Inl err \<Rightarrow> Inl (''marshal yaml: '' @ err)
                  | Inr out \<Rightarrow> Inr (export_header passphrase @ out)))
       }
   }"

section \<open>Checks before an import\<close>

text \<open>
  The cipher of the document's salt, if it has one and there is a passphrase; without it values are in the
  old format.
\<close>

definition import_aead :: "backup_env \<Rightarrow> string \<Rightarrow> ExportData \<Rightarrow> AEAD option result" where
  "import_aead V passphrase x =
     (if passphrase \<noteq> [] \<and> xd_MasterSalt x \<noteq> []
      then (case DecodeString (xd_MasterSalt x) of
              None \<Rightarrow> Inl ''decode master salt: illegal base64 data''
            | Some salt \<Rightarrow>
                (case bk_aead V passphrase salt of
                   Inl err \<Rightarrow> Inl (''derive encryption key: '' @ err)
                 | Inr a \<Rightarrow> Inr (Some a)))
      else Inr None)"

definition dec :: "backup_env \<Rightarrow> string \<Rightarrow> AEAD option \<Rightarrow> string \<Rightarrow> string result" where
  "dec V passphrase k v =
     (case k of
        Some a \<Rightarrow> decryptWithAEAD a v
      | None \<Rightarrow> if passphrase \<noteq> [] then decrypt V v passphrase else Inr v)"

definition check_value :: "backup_env \<Rightarrow> string \<Rightarrow> AEAD option \<Rightarrow> string \<Rightarrow> string \<Rightarrow> error option" where
  "check_value V passphrase k what v =
     map_option (\<lambda>err. what @ '': '' @ err)
       (case k of Some a \<Rightarrow> validateDecryptWithAEAD a v | None \<Rightarrow> validateDecrypt V v passphrase)"

definition check_server :: "backup_env \<Rightarrow> string \<Rightarrow> AEAD option \<Rightarrow> ExportServer \<Rightarrow> error option" where
  "check_server V passphrase k s = first_failure
     [check_value V passphrase k (''server '' @ Quote (xs_Name s) @ '' ssh_key'') (xs_SSHKey s),
      check_value V passphrase k (''server '' @ Quote (xs_Name s) @ '' registry_token'') (xs_RegistryToken s)]"

definition check_app :: "backup_env \<Rightarrow> string \<Rightarrow> AEAD option \<Rightarrow> ExportApp \<Rightarrow> error option" where
  "check_app V passphrase k a = first_failure
     (check_value V passphrase k (Quote (xa_Name a)) (xa_AuthPass a)
      # map (\<lambda>s. check_value V passphrase k (Quote (xa_Name a) @ '' secret '' @ Quote (xk_Key s)) (xk_Value s)) (xa_Secrets a)
      @ map (\<lambda>f. check_value V passphrase k (Quote (xa_Name a) @ '' file '' @ Quote (xf_Path f)) (xf_Content f)) (xa_Files a))"

definition check_values :: "backup_env \<Rightarrow> string \<Rightarrow> AEAD option \<Rightarrow> ExportData \<Rightarrow> error option" where
  "check_values V passphrase k x =
     first_failure (map (check_server V passphrase k) (xd_Servers x) @ map (check_app V passphrase k) (xd_Apps x))"

text \<open>\<open>validateImport\<close> on one app: the app with its domains and paths in their normal form.\<close>

definition valid_file :: "ExportFile \<Rightarrow> ExportFile result" where
  "valid_file f = (case ValidFilePath (xf_Path f) of Inl err \<Rightarrow> Inl err | Inr p \<Rightarrow> Inr (f\<lparr>xf_Path := p\<rparr>))"

definition valid_secret :: "ExportSecret \<Rightarrow> ExportSecret result" where
  "valid_secret s = (case ValidEnvKey (xk_Key s) of Inl err \<Rightarrow> Inl err | Inr _ \<Rightarrow> Inr s)"

definition valid_app :: "ExportApp \<Rightarrow> ExportApp result" where
  "valid_app a =
     (case (if TrimSpace (xa_Domain a) \<noteq> [] then ValidDomain (xa_Domain a) else Inr (xa_Domain a)) of
        Inl err \<Rightarrow> Inl err
      | Inr primary \<Rightarrow>
          (case convert_all ValidDomain (if xa_Domains a = [] \<and> primary \<noteq> [] then [primary] else xa_Domains a) of
             Inl err \<Rightarrow> Inl err
           | Inr dms \<Rightarrow>
               (case convert_all valid_secret (xa_Secrets a) of
                  Inl err \<Rightarrow> Inl err
                | Inr _ \<Rightarrow>
                    (case convert_all valid_file (xa_Files a) of
                       Inl err \<Rightarrow> Inl err
                     | Inr fls \<Rightarrow> Inr (a\<lparr>xa_Domain := primary, xa_Domains := dms, xa_Files := fls\<rparr>)))))"

definition validateImport :: "ExportApp list \<Rightarrow> ExportApp list result" where
  "validateImport = convert_all (\<lambda>a. case valid_app a of
     Inl err \<Rightarrow> Inl (''app '' @ Quote (xa_Name a) @ '': '' @ err) | Inr b \<Rightarrow> Inr b)"

text \<open>All checks; what is left is the cipher and the normalised apps.\<close>

definition check_import :: "backup_env \<Rightarrow> string \<Rightarrow> string \<Rightarrow> (AEAD option \<times> ExportServer list \<times> ExportApp list) result" where
  "check_import V yamlData passphrase =
     (case bk_unmarshal V yamlData of
        Inl err \<Rightarrow> Inl (''parse yaml: '' @ err)
      | Inr x \<Rightarrow>
          if xd_Version x \<noteq> Version
          then Inl (''unsupported version '' @ Itoa (xd_Version x) @ '' (expected '' @ Itoa Version @ '')'')
          else case import_aead V passphrase x of
              Inl err \<Rightarrow> Inl err
            | Inr k \<Rightarrow>
                (case check_values V passphrase k x of
                   Some err \<Rightarrow> Inl err
                 | None \<Rightarrow>
                     (case validateImport (xd_Apps x) of
                        Inl err \<Rightarrow> Inl err
                      | Inr as \<Rightarrow> Inr (k, xd_Servers x, as))))"

section \<open>Import\<close>

type_synonym import_log = "string list"

definition says :: "string \<Rightarrow> import_log \<Rightarrow> import_log" where
  "says line out = out @ [line]"

definition remove_app :: "env \<Rightarrow> import_log \<Rightarrow> App \<Rightarrow> (import_log \<times> error option) prog" where
  "remove_app E out a = do {
     r \<leftarrow> Undeploy E (app_ID a);
     ret (says (''Removing app '' @ Quote (app_Name a)) out,
       map_option (\<lambda>err. ''remove app '' @ Quote (app_Name a) @ '': '' @ err) r)
   }"

definition remove_server :: "import_log \<Rightarrow> Server \<Rightarrow> (import_log \<times> error option) prog" where
  "remove_server out s = do {
     r \<leftarrow> Svc_Delete (srv_ID s);
     ret (says (''Removing server '' @ Quote (srv_Name s)) out,
       map_option (\<lambda>err. ''remove server '' @ Quote (srv_Name s) @ '': '' @ delete_message err) r)
   }"

text \<open>Mode \<open>replace\<close>: refused while an app runs, otherwise every app and server is removed.\<close>

definition idle_status :: "App \<Rightarrow> bool" where
  "idle_status a \<longleftrightarrow> app_Status a = ''draft'' \<or> app_Status a = ''stopped'' \<or> app_Status a = ''created''"

definition clear_all :: "env \<Rightarrow> (import_log \<times> error option) prog" where
  "clear_all E = do {
     found \<leftarrow> db_get Repo_List;
     case find (\<lambda>a. \<not> idle_status a) found of
       Some a \<Rightarrow> ret ([], Some (''stop or undeploy running apps before a replace import ('' @ Quote (app_Name a)
         @ '' is '' @ app_Status a @ '')''))
     | None \<Rightarrow> do {
         r \<leftarrow> loopM (remove_app E) [] found;
         case r of
           (out, Some err) \<Rightarrow> ret (out, Some err)
         | (out, None) \<Rightarrow> do { svrs \<leftarrow> db_get Srv_List; loopM remove_server out svrs }
       }
   }"

type_synonym known_servers = "string \<Rightarrow> int option"

text \<open>The two files of a server; each is written before the row names it.\<close>

definition import_key :: "env \<Rightarrow> string \<Rightarrow> Server \<Rightarrow> Server result prog" where
  "import_key E content svr =
     (if content = [] \<or> content = ''pending'' then ret (Inr svr)
      else do {
        failed \<leftarrow> SaveFile E (key_path E (srv_ID svr)) content;
        case failed of
          Some err \<Rightarrow> ret (Inl (''save ssh_key file for '' @ Quote (srv_Name svr) @ '': '' @ err))
        | None \<Rightarrow> do {
            u \<leftarrow> Svc_Update (svr\<lparr>srv_SSHKey := key_path E (srv_ID svr)\<rparr>);
            ret (case u of
                   Inl err \<Rightarrow> Inl (''update ssh_key path for '' @ Quote (srv_Name svr) @ '': '' @ err)
                 | Inr _ \<Rightarrow> Inr (svr\<lparr>srv_SSHKey := key_path E (srv_ID svr)\<rparr>))
          }
      })"

definition import_token :: "env \<Rightarrow> string \<Rightarrow> string \<Rightarrow> string \<Rightarrow> Server \<Rightarrow> Server result prog" where
  "import_token E token host user svr =
     (if token = [] \<or> user = [] then ret (Inr svr)
      else do {
        failed \<leftarrow> SaveFile E (token_path E (srv_ID svr)) token;
        case failed of
          Some err \<Rightarrow> ret (Inl (''save registry token file for '' @ Quote (srv_Name svr) @ '': '' @ err))
        | None \<Rightarrow> do {
            let svr' = svr\<lparr>srv_RegistryHost := host, srv_RegistryUser := user, srv_RegistryToken := token_path E (srv_ID svr)\<rparr>;
            u \<leftarrow> Svc_Update svr';
            ret (case u of
                   Inl err \<Rightarrow> Inl (''update registry credential for '' @ Quote (srv_Name svr) @ '': '' @ err)
                 | Inr _ \<Rightarrow> Inr svr')
          }
      })"

definition imported_server :: "ExportServer \<Rightarrow> Server" where
  "imported_server s = (new_server (xs_Name s) (xs_Host s) (if xs_Port s = 0 then 22 else xs_Port s)
     (if xs_User s = [] then ''root'' else xs_User s))\<lparr>srv_Status := ''pending''\<rparr>"

definition insert_server :: "env \<Rightarrow> (string \<Rightarrow> string result) \<Rightarrow> ExportServer \<Rightarrow> int result prog" where
  "insert_server E decode s =
     (case (decode (xs_SSHKey s), decode (xs_RegistryToken s)) of
        (Inr content, Inr token) \<Rightarrow> do {
          r \<leftarrow> Svc_Create (imported_server s);
          case r of
            Inl err \<Rightarrow> ret (Inl (''create server '' @ Quote (xs_Name s) @ '': '' @ err))
          | Inr svr \<Rightarrow> do {
              a \<leftarrow> import_key E content svr;
              case a of
                Inl err \<Rightarrow> ret (Inl err)
              | Inr svr' \<Rightarrow> do {
                  b \<leftarrow> import_token E token (xs_RegistryHost s) (xs_RegistryUser s) svr';
                  ret (case b of Inl err \<Rightarrow> Inl err | Inr svr'' \<Rightarrow> Inr (srv_ID svr''))
                }
            }
        }
      | _ \<Rightarrow> ret (Inl (''server '' @ Quote (xs_Name s) @ '': wrong passphrase or corrupted data'')))"

definition findServerByName :: "string \<Rightarrow> db \<Rightarrow> Server option" where
  "findServerByName name d = find (\<lambda>s. srv_Name s = name) (Srv_List d)"

definition findAppByName :: "string \<Rightarrow> db \<Rightarrow> App option" where
  "findAppByName name d = find (\<lambda>a. app_Name a = name) (Repo_List d)"

definition import_server :: "env \<Rightarrow> (string \<Rightarrow> string result) \<Rightarrow> known_servers \<times> import_log \<Rightarrow> ExportServer
    \<Rightarrow> ((known_servers \<times> import_log) \<times> error option) prog" where
  "import_server E decode st s = do {
     existing \<leftarrow> db_get (findServerByName (xs_Name s));
     case existing of
       Some svr \<Rightarrow> ret (((fst st)(xs_Name s \<mapsto> srv_ID svr),
         says (''Server '' @ Quote (xs_Name s) @ '' already exists, skipping'') (snd st)), None)
     | None \<Rightarrow> do {
         r \<leftarrow> insert_server E decode s;
         ret (case r of
                Inl err \<Rightarrow> (st, Some err)
              | Inr i \<Rightarrow> (((fst st)(xs_Name s \<mapsto> i),
                  says (''Created server '' @ Quote (xs_Name s) @ '' ('' @ xs_Host s @ '')'') (snd st)), None))
       }
   }"

text \<open>The parts of an app: its row, its routes, its secrets and its files.\<close>

definition imported_app :: "ExportApp \<Rightarrow> int \<Rightarrow> string \<Rightarrow> App" where
  "imported_app a sid authPass = \<lparr> app_ID = 0, app_Name = xa_Name a, app_ServerID = sid, app_Domain = xa_Domain a,
     app_Port = xa_Port a, app_Compose = xa_Compose a, app_GitRepo = xa_GitRepo a,
     app_GitBranch = (if xa_GitBranch a = [] then ''main'' else xa_GitBranch a), app_AuthUser = xa_AuthUser a,
     app_AuthPass = authPass, app_Status = [], app_ComposeMode = xa_ComposeMode a, app_MemoryLimit = xa_MemoryLimit a,
     app_CPULimit = xa_CPULimit a, app_LogMaxSize = xa_LogMaxSize a, app_LogMaxFile = xa_LogMaxFile a,
     app_Command = xa_Command a, app_Ports = xa_Ports a, app_UlimitsNofile = xa_UlimitsNofile a,
     app_CreatedAt = 0, app_UpdatedAt = 0 \<rparr>"

definition corrupt :: "ExportApp \<Rightarrow> error" where
  "corrupt a = Quote (xa_Name a) @ '': wrong passphrase or corrupted data''"

definition import_route :: "ExportApp \<Rightarrow> int \<Rightarrow> int \<Rightarrow> string \<Rightarrow> error option prog" where
  "import_route a i sid dm = do {
     r \<leftarrow> db_try (\<lambda>now. Repo_SaveRoute now (new_route i sid dm []));
     ret (case r of
            Inl err \<Rightarrow> Some (''save route '' @ Quote dm @ '' for '' @ Quote (xa_Name a) @ '': '' @ err)
          | Inr _ \<Rightarrow> None)
   }"

definition import_secret :: "(string \<Rightarrow> string result) \<Rightarrow> ExportApp \<Rightarrow> int \<Rightarrow> ExportSecret \<Rightarrow> error option prog" where
  "import_secret decode a i s =
     (case decode (xk_Value s) of
        Inl _ \<Rightarrow> ret (Some (corrupt a))
      | Inr v \<Rightarrow> do {
          r \<leftarrow> db_try (\<lambda>_. Repo_SetSecretWithType i (xk_Key s) v (xk_IsSecret s));
          ret (case r of
                 Inl err \<Rightarrow> Some (''set secret '' @ Quote (xk_Key s) @ '' for '' @ Quote (xa_Name a) @ '': '' @ err)
               | Inr _ \<Rightarrow> None)
        })"

definition import_file :: "(string \<Rightarrow> string result) \<Rightarrow> ExportApp \<Rightarrow> int \<Rightarrow> ExportFile \<Rightarrow> error option prog" where
  "import_file decode a i f =
     (case decode (xf_Content f) of
        Inl _ \<Rightarrow> ret (Some (corrupt a))
      | Inr v \<Rightarrow> do {
          r \<leftarrow> db_try (\<lambda>_. Repo_SetFile i (xf_Path f) v);
          ret (case r of
                 Inl err \<Rightarrow> Some (''set file '' @ Quote (xf_Path f) @ '' for '' @ Quote (xa_Name a) @ '': '' @ err)
               | Inr _ \<Rightarrow> None)
        })"

definition fill_app :: "(string \<Rightarrow> string result) \<Rightarrow> ExportApp \<Rightarrow> int \<Rightarrow> int \<Rightarrow> error option prog" where
  "fill_app decode a i sid = do {
     e1 \<leftarrow> eachM (xa_Domains a) (import_route a i sid);
     case e1 of
       Some err \<Rightarrow> ret (Some err)
     | None \<Rightarrow> do {
         e2 \<leftarrow> eachM (xa_Secrets a) (import_secret decode a i);
         case e2 of
           Some err \<Rightarrow> ret (Some err)
         | None \<Rightarrow> eachM (xa_Files a) (import_file decode a i)
       }
   }"

definition insert_app :: "(string \<Rightarrow> string result) \<Rightarrow> ExportApp \<Rightarrow> int \<Rightarrow> error option prog" where
  "insert_app decode a sid =
     (case decode (xa_AuthPass a) of
        Inl _ \<Rightarrow> ret (Some (corrupt a))
      | Inr authPass \<Rightarrow> do {
          r \<leftarrow> db_try (\<lambda>now. Repo_Create now (imported_app a sid authPass));
          case r of
            Inl err \<Rightarrow> ret (Some (''create app '' @ Quote (xa_Name a) @ '': '' @ err))
          | Inr i \<Rightarrow> fill_app decode a i sid
        })"

definition import_app :: "(string \<Rightarrow> string result) \<Rightarrow> known_servers \<Rightarrow> import_log \<Rightarrow> ExportApp
    \<Rightarrow> (import_log \<times> error option) prog" where
  "import_app decode known out a = do {
     existing \<leftarrow> db_get (findAppByName (xa_Name a));
     case existing of
       Some _ \<Rightarrow> ret (says (''App '' @ Quote (xa_Name a) @ '' already exists, skipping'') out, None)
     | None \<Rightarrow>
         (case known (xa_ServerName a) of
            None \<Rightarrow> ret (says (''App '' @ Quote (xa_Name a) @ '': server '' @ Quote (xa_ServerName a)
              @ '' not found, skipping'') out, None)
          | Some sid \<Rightarrow> do {
              e \<leftarrow> insert_app decode a sid;
              ret (case e of
                     Some err \<Rightarrow> (out, Some err)
                   | None \<Rightarrow> (says (''Created app '' @ Quote (xa_Name a) @ '' ('' @ xa_Domain a @ '') with ''
                       @ Itoa (int (length (xa_Secrets a))) @ '' secrets and '' @ Itoa (int (length (xa_Files a)))
                       @ '' files'') out, None))
            })
   }"

definition import_rows :: "env \<Rightarrow> (string \<Rightarrow> string result) \<Rightarrow> import_log \<Rightarrow> ExportServer list \<Rightarrow> ExportApp list
    \<Rightarrow> (import_log \<times> error option) prog" where
  "import_rows E decode out svrs as = do {
     r \<leftarrow> loopM (import_server E decode) (\<lambda>_. None, out) svrs;
     case r of
       ((known, out'), Some err) \<Rightarrow> ret (out', Some err)
     | ((known, out'), None) \<Rightarrow> loopM (import_app decode known) out' as
   }"

definition Import :: "env \<Rightarrow> backup_env \<Rightarrow> string \<Rightarrow> string \<Rightarrow> string \<Rightarrow> (string \<times> error option) prog" where
  "Import E V yamlData passphrase mode =
     (case check_import V yamlData passphrase of
        Inl err \<Rightarrow> ret ([], Some err)
      | Inr (k, svrs, as) \<Rightarrow> do {
          c \<leftarrow> (if mode = ''replace'' then clear_all E else ret ([], None));
          case c of
            (out, Some err) \<Rightarrow> ret (Join out nl, Some err)
          | (out, None) \<Rightarrow> do {
              r \<leftarrow> import_rows E (dec V passphrase k) out svrs as;
              ret (Join (fst r) nl, snd r)
            }
        })"

section \<open>The pages\<close>

datatype import_page = ImportPage int string error string

text \<open>
  \<open>ImportUpload\<close>. The upload is its error, or the form with the file: \<open>Inl\<close> of what is wrong with the file, or
  its content. A page has its status, message, error and log.
\<close>

definition ImportUpload :: "env \<Rightarrow> backup_env \<Rightarrow> ((form \<times> string result)) result \<Rightarrow> import_page prog" where
  "ImportUpload E V upload =
     (case upload of
        Inl err \<Rightarrow> ret (ImportPage 400 [] (''Upload failed (16 MiB max): '' @ err) [])
      | Inr (f, file) \<Rightarrow>
          (let mode = (if FormValue f ''mode'' = ''replace'' then ''replace'' else ''merge'')
           in case file of
                Inl err \<Rightarrow> ret (ImportPage 200 [] err [])
              | Inr raw \<Rightarrow> do {
                  r \<leftarrow> Import E V raw (FormValue f ''passphrase'') mode;
                  ret (case r of
                         (out, Some err) \<Rightarrow> ImportPage 200 [] (''Import failed: '' @ err) out
                       | (out, None) \<Rightarrow> ImportPage 200 ''Import complete'' [] out)
                }))"

definition ExportDownload :: "env \<Rightarrow> backup_env \<Rightarrow> form \<Rightarrow> (int \<times> string) prog" where
  "ExportDownload E V f = do {
     r \<leftarrow> Export E V (FormValue f ''passphrase'');
     ret (case r of Inl err \<Rightarrow> (500, ''export: '' @ err) | Inr out \<Rightarrow> (200, out))
   }"

section \<open>Rules for the loops\<close>

text \<open>A program keeps a property of the database, on every branch.\<close>

named_theorems stable_rules \<open>rules of the form stable I m\<close>

lemma stable_ret [stable_rules]: "stable I (ret x)"
  by (simp add: stable_def)

lemma stable_keeps_db: "keeps w_db m \<Longrightarrow> stable (\<lambda>w. P (w_db w)) m"
  by (simp add: stable_def keepsD)

lemma stable_case_option [stable_rules]:
  "stable I a \<Longrightarrow> (\<And>y. stable I (b y)) \<Longrightarrow> stable I (case x of None \<Rightarrow> a | Some y \<Rightarrow> b y)"
  by (cases x) simp_all

lemma stable_case_sum [stable_rules]:
  "(\<And>y. stable I (a y)) \<Longrightarrow> (\<And>z. stable I (b z)) \<Longrightarrow> stable I (case x of Inl y \<Rightarrow> a y | Inr z \<Rightarrow> b z)"
  by (cases x) simp_all

lemma stable_case_prod [stable_rules]: "(\<And>a b. stable I (g a b)) \<Longrightarrow> stable I (case p of (a, b) \<Rightarrow> g a b)"
  by (cases p) simp

lemma stable_eachM: "(\<And>x. x \<in> set xs \<Longrightarrow> stable I (f x)) \<Longrightarrow> stable I (eachM xs f)"
  by (induction xs) (auto intro!: stable_bind stable_rules)

lemma stable_loopM: "(\<And>b x. x \<in> set xs \<Longrightarrow> stable I (f b x)) \<Longrightarrow> stable I (loopM f b xs)"
  by (induction xs arbitrary: b) (auto intro!: stable_bind stable_rules)

lemma stable_try: "(\<And>now d. P d \<Longrightarrow> P (snd (f now d))) \<Longrightarrow> stable (\<lambda>w. P (w_db w)) (db_try f)"
  by (simp add: stable_def exec_db_try)

lemma steps_loops [stmts]:
  "(\<And>x. steps (f x)) \<Longrightarrow> steps (eachM xs f)" "(\<And>b x. steps (g b x)) \<Longrightarrow> steps (loopM g b xs)"
  by (induction xs arbitrary: b) (auto intro!: stmts split: option.split)

lemma emits_loops [events]:
  "(\<And>x. emits P (f x)) \<Longrightarrow> emits P (eachM xs f)" "(\<And>b x. emits P (g b x)) \<Longrightarrow> emits P (loopM g b xs)"
  by (induction xs arbitrary: b) (auto intro!: events split: option.split)

lemma keeps_loops [frame]:
  "(\<And>x. keeps h (f x)) \<Longrightarrow> keeps h (eachM xs f)" "(\<And>b x. keeps h (g b x)) \<Longrightarrow> keeps h (loopM g b xs)"
  by (induction xs arbitrary: b) (auto intro!: frame split: option.split)

section \<open>Statements\<close>

lemma steps_import [stmts]:
  "steps (remove_app E out a)" "steps (remove_server out s)" "steps (import_server E decode st xs)"
  "steps (import_app decode known out xa)"
proof -
  have svc: "steps (Svc_Create s)" "steps (Svc_Update s)" "steps (Svc_Delete i)" for s i
    unfolding Svc_Create_def Svc_Update_def Svc_Delete_def by (intro stmts db_step.intros)+
  have files: "steps (SaveFile E p c)" for p c
    by (rule steps_db) (rule frame)
  show "steps (remove_app E out a)"
    unfolding remove_app_def by (intro stmts)
  show "steps (remove_server out s)"
    unfolding remove_server_def by (intro stmts svc)
  show "steps (import_server E decode st xs)"
    unfolding import_server_def insert_server_def import_key_def import_token_def
    by (intro stmts svc files)
  show "steps (import_app decode known out xa)"
    unfolding import_app_def insert_app_def fill_app_def import_route_def import_secret_def import_file_def
    by (intro stmts db_step.intros)
qed

lemma steps_Import [stmts]: "steps (Import E V y pass mode)"
  unfolding Import_def clear_all_def import_rows_def
  by (intro stmts)

section \<open>What the checks let through\<close>

lemma convert_all_Inr: "convert_all f xs = Inr ys \<longleftrightarrow> list_all2 (\<lambda>x y. f x = Inr y) xs ys"
proof (induction xs arbitrary: ys)
  case (Cons x xs)
  show ?case
    by (cases ys) (auto simp flip: Cons.IH split: sum.splits)
qed auto

lemma convert_all_range: "convert_all f xs = Inr ys \<Longrightarrow> (\<And>x y. f x = Inr y \<Longrightarrow> P y) \<Longrightarrow> \<forall>y \<in> set ys. P y"
  unfolding convert_all_Inr by (induction rule: list_all2_induct) auto

lemma convert_all_domain: "convert_all f xs = Inr ys \<Longrightarrow> \<forall>x \<in> set xs. \<exists>y. f x = Inr y"
  unfolding convert_all_Inr by (induction rule: list_all2_induct) auto

definition good_app :: "ExportApp \<Rightarrow> bool" where
  "good_app a \<longleftrightarrow> (\<forall>d \<in> set (xa_Domains a). valid_hostname d) \<and>
     (\<forall>s \<in> set (xa_Secrets a). ValidEnvKey (xk_Key s) = Inr ()) \<and>
     (\<forall>f \<in> set (xa_Files a). path_inside (xf_Path f) \<and> list_all path_char (xf_Path f))"

lemma valid_secret_Inr: "valid_secret s = Inr t \<longleftrightarrow> t = s \<and> ValidEnvKey (xk_Key s) = Inr ()"
  by (cases "ValidEnvKey (xk_Key s)") (auto simp: valid_secret_def)

lemma valid_app_good:
  assumes "valid_app a = Inr b"
  shows "good_app b"
proof -
  obtain primary dms secs fls where b: "b = a\<lparr>xa_Domain := primary, xa_Domains := dms, xa_Files := fls\<rparr>"
      and c: "convert_all ValidDomain (if xa_Domains a = [] \<and> primary \<noteq> [] then [primary] else xa_Domains a) = Inr dms"
        "convert_all valid_secret (xa_Secrets a) = Inr secs" "convert_all valid_file (xa_Files a) = Inr fls"
    using assms unfolding valid_app_def by (auto split: sum.splits)
  have "\<forall>d \<in> set dms. valid_hostname d" "\<forall>f \<in> set fls. path_inside (xf_Path f) \<and> list_all path_char (xf_Path f)"
    by (rule convert_all_range [OF c(1)], simp add: ValidDomain_Inr_iff,
        rule convert_all_range [OF c(3)], auto simp: valid_file_def ValidFilePath_Inr_iff split: sum.splits)
  moreover have "\<forall>s \<in> set (xa_Secrets a). ValidEnvKey (xk_Key s) = Inr ()"
    using convert_all_domain [OF c(2)] by (simp add: valid_secret_Inr)
  ultimately show ?thesis
    by (simp add: b good_app_def)
qed

lemma validateImport_good: "validateImport xs = Inr as \<Longrightarrow> \<forall>a \<in> set as. good_app a"
  unfolding validateImport_def by (erule convert_all_range) (auto split: sum.splits intro: valid_app_good)

lemma check_import_good: "check_import V y pass = Inr (k, svrs, as) \<Longrightarrow> \<forall>a \<in> set as. good_app a"
  unfolding check_import_def
  by (auto split: sum.splits option.splits if_splits dest!: validateImport_good)

section \<open>Well-formed rows\<close>

text \<open>Names of the rows that reach a worker have the checked form, credentials are complete.\<close>

definition valid_names :: "db \<Rightarrow> bool" where
  "valid_names d \<longleftrightarrow> (\<forall>r \<in> set (routes d). valid_hostname (rt_Domain r)) \<and>
     (\<forall>s \<in> set (app_secrets d). ValidEnvKey (sec_Key s) = Inr ()) \<and>
     (\<forall>f \<in> set (app_files d). path_inside (file_Path f) \<and> list_all path_char (file_Path f))"

definition well_typed :: "db \<Rightarrow> bool" where
  "well_typed d \<longleftrightarrow> valid_names d \<and> complete_credentials d"

lemma well_typed_put:
  "well_typed d \<Longrightarrow> valid_hostname dm \<Longrightarrow> well_typed (snd (Repo_SaveRoute now (new_route i sid dm t) d))"
  "well_typed d \<Longrightarrow> ValidEnvKey key = Inr () \<Longrightarrow> well_typed (snd (Repo_SetSecretWithType i key v b d))"
  "well_typed d \<Longrightarrow> path_inside p \<Longrightarrow> list_all path_char p \<Longrightarrow> well_typed (snd (Repo_SetFile i p v d))"
  "well_typed d \<Longrightarrow> well_typed (snd (Repo_Create now a d))"
  by (auto simp: well_typed_def valid_names_def complete_credentials_def Repo_SaveRoute_def Repo_SetSecretWithType_def
      upsert_secret_def Repo_SetFile_def Repo_Create_def bump_def new_route_def Let_def split: option.split)

lemma well_typed_server:
  "well_typed d \<Longrightarrow> cred_ok s \<Longrightarrow> well_typed (snd (Srv_Update now s d))"
  "well_typed d \<Longrightarrow> cred_ok s \<Longrightarrow> well_typed (snd (Srv_Create now s d))"
  "well_typed d \<Longrightarrow> well_typed (snd (Srv_Delete i d))"
  using complete_update [of d s] complete_create [of d s] complete_delete [of d i]
  by (auto simp: well_typed_def valid_names_def Srv_Update_def Srv_Create_def Srv_Delete_def map_server_def bump_def Let_def)

abbreviation typed :: "world \<Rightarrow> bool" where
  "typed \<equiv> \<lambda>w. well_typed (w_db w)"

lemma typed_rows:
  "valid_hostname dm \<Longrightarrow> stable typed (import_route a i sid dm)"
  "ValidEnvKey (xk_Key s) = Inr () \<Longrightarrow> stable typed (import_secret decode a i s)"
  "path_inside (xf_Path f) \<Longrightarrow> list_all path_char (xf_Path f) \<Longrightarrow> stable typed (import_file decode a i f)"
  unfolding import_route_def import_secret_def import_file_def
  by (intro stable_bind stable_rules stable_try well_typed_put | assumption)+

lemma typed_import_app: "good_app a \<Longrightarrow> stable typed (import_app decode known out a)"
  unfolding import_app_def insert_app_def fill_app_def good_app_def
  by (intro stable_bind stable_rules stable_try well_typed_put stable_eachM stable_keeps_db frame typed_rows | blast)+

lemma cred_ok_imported: "cred_ok (server_defaults (imported_server s))"
  by (simp add: cred_ok_def imported_server_def new_server_def server_defaults_def Let_def)

lemma stable_bind_wp:
  assumes "\<And>w. I w \<Longrightarrow> wp m (\<lambda>x v. I v \<and> F x) w" and "\<And>x. F x \<Longrightarrow> stable I (g x)"
  shows "stable I (State_Monad.bind m g)"
  using assms by (simp add: stable_def exec_bind wp_exec_result)

abbreviation cred_result :: "Server result \<Rightarrow> bool" where
  "cred_result r \<equiv> (case r of Inl _ \<Rightarrow> True | Inr s \<Rightarrow> cred_ok s)"

lemma typed_Svc_Create: "cred_ok (server_defaults s) \<Longrightarrow> typed w \<Longrightarrow> wp (Svc_Create s) (\<lambda>r v. typed v \<and> cred_result r) w"
  using well_typed_server(2) [of "w_db w" "server_defaults s" "now_s w"]
  by (auto simp: Svc_Create_def wp_simps cred_ok_def split: prod.split sum.split)

lemma typed_Svc_Update: "cred_ok s \<Longrightarrow> typed w \<Longrightarrow> wp (Svc_Update s) (\<lambda>_ v. typed v) w"
  using well_typed_server(1) [of "w_db w" s "now_s w"]
  by (auto simp: Svc_Update_def wp_simps split: prod.split)

lemma wp_SaveFile: "(\<And>r v. w_db v = w_db w \<Longrightarrow> Q r v) \<Longrightarrow> wp (SaveFile E p c) Q w"
  using keepsD [OF keeps_SaveFile(1)] by (simp add: wp_exec_result)

lemma typed_import_files:
  assumes "cred_ok svr" and "typed w"
  shows "wp (import_key E content svr) (\<lambda>r v. typed v \<and> cred_result r) w"
    and "wp (import_token E token host user svr) (\<lambda>r v. typed v \<and> cred_result r) w"
proof -
  have upd: "wp (State_Monad.bind (Svc_Update s) (\<lambda>u. ret (f u))) (\<lambda>r v. typed v \<and> cred_result r) v"
    if "cred_ok s" "typed v" "\<And>u. cred_result (f u)" for s f v
    unfolding wp_bind by (rule wp_mono [OF typed_Svc_Update]) (use that in \<open>auto simp: wp_simps\<close>)
  have k: "cred_ok (svr\<lparr>srv_SSHKey := p\<rparr>)" for p
    using assms(1) by (simp add: cred_ok_def)
  show "wp (import_key E content svr) (\<lambda>r v. typed v \<and> cred_result r) w"
    unfolding import_key_def
    by (auto simp: assms wp_ret wp_bind [of "SaveFile _ _ _"] intro!: wp_SaveFile upd k split: option.split sum.split)
  have t: "user \<noteq> [] \<Longrightarrow> cred_ok (svr\<lparr>srv_RegistryHost := host, srv_RegistryUser := user, srv_RegistryToken := token_path E i\<rparr>)" for i
    by (simp add: cred_ok_def token_path_nonempty)
  show "wp (import_token E token host user svr) (\<lambda>r v. typed v \<and> cred_result r) w"
    unfolding import_token_def Let_def
    by (auto simp: assms wp_ret wp_bind [of "SaveFile _ _ _"] intro!: wp_SaveFile upd t split: option.split sum.split)
qed

lemma typed_import_server: "stable typed (import_server E decode st s)"
proof -
  have token: "stable typed (State_Monad.bind (import_token E t h u svr) (\<lambda>b. ret (f b)))" if "cred_ok svr" for t h u svr f
    by (rule stable_bind_wp [OF typed_import_files(2) [OF that]], assumption, rule stable_ret)
  have key: "stable typed (State_Monad.bind (import_key E c svr) g)"
    if "cred_ok svr" "\<And>r. cred_result r \<Longrightarrow> stable typed (g r)" for c svr g
    by (rule stable_bind_wp [OF typed_import_files(1) [OF that(1)]], assumption, rule that(2))
  have create: "stable typed (State_Monad.bind (Svc_Create (imported_server s)) g)"
    if "\<And>r. cred_result r \<Longrightarrow> stable typed (g r)" for g
    by (rule stable_bind_wp [OF typed_Svc_Create [OF cred_ok_imported]], assumption, rule that)
  have insert: "stable typed (insert_server E decode s)"
    unfolding insert_server_def
    by (auto intro!: stable_ret create key token split: sum.splits prod.split)
  show ?thesis
    unfolding import_server_def by (intro stable_bind stable_rules insert stable_keeps_db [OF keeps_db_get])
qed

lemma typed_Undeploy: "stable typed (Undeploy E i)"
proof -
  have "well_typed (snd (pin_key (Srv_HostKey plan h p) (Srv_SaveHostKey h p) P addr key d))" if "well_typed d" for plan h p P addr key d
    using that by (auto simp: pin_key_def Let_def well_typed_def valid_names_def complete_credentials_def Srv_SaveHostKey_def
        map_server_def cred_ok_def split: sum.split option.split)
  then have connect: "stable typed (Connect E h p u k)" for h p u k
    unfolding Connect_def pinHostKey_def Let_def
    by (intro stable_bind stable_rules stable_try stable_keeps_db frame)
  have "stable typed (db_do (\<lambda>_. Repo_Delete i))" for i
    by (auto simp: stable_def well_typed_def valid_names_def complete_credentials_def Repo_Delete_def)
  then have forget: "stable typed (forget E app)" for app
    unfolding forget_def
    by (intro stable_bind stable_rules stable_keeps_db [OF keeps_db_dns])
  note keep = stable_keeps_db [OF keeps_db_get] stable_keeps_db [OF keeps_Exec(2)] stable_keeps_db [OF keeps_Exec(5)]
    stable_keeps_db [OF keeps_db_remove_routes] stable_keeps_db [OF keeps_db_phases(1)]
  show ?thesis
    unfolding Undeploy_def undeploy_on_def
    by (auto intro!: stable_bind stable_rules keep connect forget)
qed

lemma typed_remove: "stable typed (remove_app E out a)" "stable typed (remove_server out s)"
proof -
  show "stable typed (remove_app E out a)"
    unfolding remove_app_def by (intro stable_bind stable_rules typed_Undeploy)
  have "stable typed (Svc_Delete i)" for i
    unfolding Svc_Delete_def
    by (intro stable_bind stable_rules stable_keeps_db [OF keeps_db_get]) (auto intro!: stable_bind stable_rules stable_try well_typed_server(3))
  then show "stable typed (remove_server out s)"
    unfolding remove_server_def by (intro stable_bind stable_rules)
qed

lemma typed_clear_all: "stable typed (clear_all E)"
  unfolding clear_all_def
  by (intro stable_bind stable_rules stable_keeps_db [OF keeps_db_get] stable_loopM typed_remove)

lemma typed_import_rows: "\<forall>a \<in> set as. good_app a \<Longrightarrow> stable typed (import_rows E decode out svrs as)"
  unfolding import_rows_def
  by (intro stable_bind stable_rules stable_loopM typed_import_server typed_import_app) blast

section \<open>Merging adds rows only\<close>

text \<open>
  \<open>d\<close> holds the rows of \<open>d0\<close> as they were, in their order; everything else belongs to servers and apps that
  \<open>d0\<close> does not have.
\<close>

definition extends :: "db \<Rightarrow> db \<Rightarrow> bool" where
  "extends d0 d \<longleftrightarrow>
     filter (\<lambda>s. srv_ID s \<in> server_ids d0) (servers d) = servers d0 \<and>
     filter (\<lambda>a. app_ID a \<in> app_ids d0) (apps d) = apps d0 \<and>
     filter (\<lambda>r. rt_AppID r \<in> app_ids d0) (routes d) = routes d0 \<and>
     filter (\<lambda>s. sec_AppID s \<in> app_ids d0) (app_secrets d) = app_secrets d0 \<and>
     filter (\<lambda>f. file_AppID f \<in> app_ids d0) (app_files d) = app_files d0 \<and>
     deployments d = deployments d0 \<and> dns_records d = dns_records d0"

lemma extends_refl:
  assumes "db_ok d"
  shows "extends d d"
proof -
  have "\<forall>r \<in> set (routes d). rt_AppID r \<in> app_ids d" "\<forall>s \<in> set (app_secrets d). sec_AppID s \<in> app_ids d"
      "\<forall>f \<in> set (app_files d). file_AppID f \<in> app_ids d"
    using assms by (auto simp: db_ok_def refs_inv_def refs_ok_def)
  then show ?thesis
    by (auto simp: extends_def server_ids_def app_ids_def intro!: filter_True)
qed

lemma extends_ids: "extends d0 d \<Longrightarrow> app_ids d0 \<subseteq> app_ids d \<and> server_ids d0 \<subseteq> server_ids d"
  unfolding extends_def app_ids_def server_ids_def by (metis filter_is_subset image_mono set_map)

lemma next_id_fresh: "db_ok d \<Longrightarrow> next_id TApps d \<notin> app_ids d \<and> next_id TServers d \<notin> server_ids d"
  by (fastforce simp: db_ok_def ids_inv_def ids_ok_def next_id_def app_ids_def server_ids_def)

text \<open>An update of rows outside of the filter.\<close>

lemma filter_map_other:
  "(\<And>x. x \<in> set xs \<Longrightarrow> p x \<Longrightarrow> \<not> q x) \<Longrightarrow> (\<And>x. x \<in> set xs \<Longrightarrow> q x \<Longrightarrow> \<not> p (h x)) \<Longrightarrow>
   filter p (map (\<lambda>x. if q x then h x else x) xs) = filter p xs"
  by (induction xs) auto

definition grows :: "db \<Rightarrow> db \<Rightarrow> bool" where
  "grows d0 d \<longleftrightarrow> db_ok d \<and> extends d0 d"

lemma grows_create:
  assumes "grows d0 d"
  shows "grows d0 (snd (Repo_Create now a d)) \<and> (\<forall>i. fst (Repo_Create now a d) = Inr i \<longrightarrow> i \<notin> app_ids d0)"
    and "grows d0 (snd (Srv_Create now s d)) \<and> (\<forall>i. fst (Srv_Create now s d) = Inr i \<longrightarrow> i \<notin> server_ids d0)"
proof -
  have fresh: "next_id TApps d \<notin> app_ids d0" "next_id TServers d \<notin> server_ids d0"
    using assms next_id_fresh extends_ids unfolding grows_def by blast+
  have "db_ok (snd (Repo_Create now a d))" "db_ok (snd (Srv_Create now s d))"
    using assms by (auto simp: grows_def intro: db_step_ok db_step.intros)
  then show "grows d0 (snd (Repo_Create now a d)) \<and> (\<forall>i. fst (Repo_Create now a d) = Inr i \<longrightarrow> i \<notin> app_ids d0)"
    and "grows d0 (snd (Srv_Create now s d)) \<and> (\<forall>i. fst (Srv_Create now s d) = Inr i \<longrightarrow> i \<notin> server_ids d0)"
    using assms fresh by (auto simp: grows_def extends_def Repo_Create_def Srv_Create_def Let_def bump_def)
qed

lemma grows_update:
  assumes "grows d0 d" and "srv_ID s \<notin> server_ids d0"
  shows "grows d0 (snd (Srv_Update now s d))"
proof -
  have "db_ok (snd (Srv_Update now s d))"
    using assms(1) by (auto simp: grows_def intro: db_step_ok db_step.intros)
  moreover have "filter (\<lambda>t. srv_ID t \<in> server_ids d0) (map (\<lambda>t. if srv_ID t = srv_ID s then f t else t) (servers d))
      = filter (\<lambda>t. srv_ID t \<in> server_ids d0) (servers d)" if "\<And>t. srv_ID (f t) = srv_ID s" for f
    by (rule filter_map_other) (use assms(2) that in auto)
  ultimately show ?thesis
    using assms(1) by (auto simp: grows_def extends_def Srv_Update_def map_server_def)
qed

lemma grows_put:
  assumes "grows d0 d" and "i \<notin> app_ids d0"
  shows "grows d0 (snd (Repo_SaveRoute now (new_route i sid dm t) d))"
    and "grows d0 (snd (Repo_SetSecretWithType i key v b d))" and "grows d0 (snd (Repo_SetFile i p c d))"
proof -
  have ok: "db_ok (snd (Repo_SaveRoute now (new_route i sid dm t) d))" "db_ok (snd (Repo_SetSecretWithType i key v b d))"
      "db_ok (snd (Repo_SetFile i p c d))"
    using assms(1) by (auto simp: grows_def intro: db_step_ok db_step.intros)
  note other = filter_map_other [THEN trans]
  show "grows d0 (snd (Repo_SaveRoute now (new_route i sid dm t) d))"
    using assms ok(1) by (auto simp: grows_def extends_def Repo_SaveRoute_def new_route_def bump_def Let_def
        intro!: other split: option.split)
  show "grows d0 (snd (Repo_SetSecretWithType i key v b d))"
    using assms ok(2) by (auto simp: grows_def extends_def Repo_SetSecretWithType_def upsert_secret_def bump_def Let_def intro!: other)
  show "grows d0 (snd (Repo_SetFile i p c d))"
    using assms ok(3) by (auto simp: grows_def extends_def Repo_SetFile_def bump_def Let_def intro!: other)
qed

abbreviation growing :: "db \<Rightarrow> world \<Rightarrow> bool" where
  "growing d0 \<equiv> \<lambda>w. grows d0 (w_db w)"

lemma growing_rows:
  assumes "i \<notin> app_ids d0"
  shows "stable (growing d0) (import_route a i sid dm)" and "stable (growing d0) (import_secret decode a i s)"
    and "stable (growing d0) (import_file decode a i f)"
  unfolding import_route_def import_secret_def import_file_def
  by (intro stable_bind stable_rules stable_try grows_put assms | assumption)+

lemma growing_import_app: "stable (growing d0) (import_app decode known out a)"
proof -
  have fill: "stable (growing d0) (fill_app decode a i sid)" if "i \<notin> app_ids d0" for i sid
    unfolding fill_app_def by (intro stable_bind stable_rules stable_eachM growing_rows that)
  have create: "wp (db_try (\<lambda>now. Repo_Create now b)) (\<lambda>r v. growing d0 v \<and> (\<forall>i. r = Inr i \<longrightarrow> i \<notin> app_ids d0)) w"
    if "growing d0 w" for b w
    using grows_create(1) [OF that, of "now_s w" b] by (auto simp: wp_db_try split: prod.split)
  have insert: "stable (growing d0) (insert_app decode a sid)" for sid
    unfolding insert_app_def
    by (rule stable_case_sum, rule stable_ret, rule stable_bind_wp [OF create], assumption)
      (auto split: sum.split intro!: stable_ret fill)
  show ?thesis
    unfolding import_app_def by (intro stable_bind stable_rules insert stable_keeps_db [OF keeps_db_get])
qed

abbreviation new_result :: "db \<Rightarrow> Server result \<Rightarrow> bool" where
  "new_result d0 r \<equiv> (case r of Inl _ \<Rightarrow> True | Inr s \<Rightarrow> srv_ID s \<notin> server_ids d0)"

lemma growing_Svc:
  "growing d0 w \<Longrightarrow> wp (Svc_Create s) (\<lambda>r v. growing d0 v \<and> new_result d0 r) w"
  "growing d0 w \<Longrightarrow> srv_ID s \<notin> server_ids d0 \<Longrightarrow> wp (Svc_Update s) (\<lambda>_ v. growing d0 v) w"
  using grows_create(2) [of d0 "w_db w" "now_s w" "server_defaults s"] grows_update [of d0 "w_db w" s "now_s w"]
  by (auto simp: Svc_Create_def Svc_Update_def wp_simps split: prod.split sum.split)

lemma growing_import_files:
  assumes "srv_ID svr \<notin> server_ids d0" and "growing d0 w"
  shows "wp (import_key E content svr) (\<lambda>r v. growing d0 v \<and> new_result d0 r) w"
    and "wp (import_token E token host user svr) (\<lambda>r v. growing d0 v \<and> new_result d0 r) w"
proof -
  have upd: "wp (State_Monad.bind (Svc_Update s) (\<lambda>u. ret (f u))) (\<lambda>r v. growing d0 v \<and> new_result d0 r) v"
    if "srv_ID s \<notin> server_ids d0" "growing d0 v" "\<And>u. new_result d0 (f u)" for s f v
    unfolding wp_bind by (rule wp_mono [OF growing_Svc(2)]) (use that in \<open>auto simp: wp_simps\<close>)
  show "wp (import_key E content svr) (\<lambda>r v. growing d0 v \<and> new_result d0 r) w"
    unfolding import_key_def
    by (auto simp: assms wp_ret wp_bind [of "SaveFile _ _ _"] intro!: wp_SaveFile upd split: option.split sum.split)
  show "wp (import_token E token host user svr) (\<lambda>r v. growing d0 v \<and> new_result d0 r) w"
    unfolding import_token_def Let_def
    by (auto simp: assms wp_ret wp_bind [of "SaveFile _ _ _"] intro!: wp_SaveFile upd split: option.split sum.split)
qed

lemma growing_import_server: "stable (growing d0) (import_server E decode st s)"
proof -
  have token: "stable (growing d0) (State_Monad.bind (import_token E t h u svr) (\<lambda>b. ret (f b)))"
    if "srv_ID svr \<notin> server_ids d0" for t h u svr f
    by (rule stable_bind_wp [OF growing_import_files(2) [OF that]], assumption, rule stable_ret)
  have key: "stable (growing d0) (State_Monad.bind (import_key E c svr) g)"
    if "srv_ID svr \<notin> server_ids d0" "\<And>r. new_result d0 r \<Longrightarrow> stable (growing d0) (g r)" for c svr g
    by (rule stable_bind_wp [OF growing_import_files(1) [OF that(1)]], assumption, rule that(2))
  have create: "stable (growing d0) (State_Monad.bind (Svc_Create (imported_server s)) g)"
    if "\<And>r. new_result d0 r \<Longrightarrow> stable (growing d0) (g r)" for g
    by (rule stable_bind_wp [OF growing_Svc(1)], assumption, rule that)
  have insert: "stable (growing d0) (insert_server E decode s)"
    unfolding insert_server_def
    by (auto intro!: stable_ret create key token split: sum.splits prod.split)
  show ?thesis
    unfolding import_server_def by (intro stable_bind stable_rules insert stable_keeps_db [OF keeps_db_get])
qed

lemma growing_import_rows: "stable (growing d0) (import_rows E decode out svrs as)"
  unfolding import_rows_def
  by (intro stable_bind stable_rules stable_loopM growing_import_server growing_import_app)

text \<open>Outside, an import only writes files of the key folder, and it starts nothing.\<close>

definition key_file_event :: "event \<Rightarrow> bool" where
  "key_file_event ev \<longleftrightarrow> (\<exists>path content. ev = EvSaveFile path content)"

lemma quiet_Svc:
  "emits P (Svc_Create s)" "emits P (Svc_Update s)" "keeps w_tasks (Svc_Create s)" "keeps w_tasks (Svc_Update s)"
  unfolding Svc_Create_def Svc_Update_def by (intro frame events emits_trace)+

lemma quiet_SaveFile: "emits key_file_event (SaveFile E p c)"
  unfolding SaveFile_def by (intro events emits_emit emits_trace frame) (simp add: key_file_event_def)

lemma quiet_import_rows:
  "emits key_file_event (import_rows E decode out svrs as)" "keeps w_tasks (import_rows E decode out svrs as)"
  unfolding import_rows_def import_server_def insert_server_def import_key_def import_token_def import_app_def insert_app_def
    fill_app_def import_route_def import_secret_def import_file_def
  by (intro events quiet_Svc quiet_SaveFile emits_trace frame)
    (intro frame quiet_Svc)

section \<open>Properties\<close>


definition sample_document :: ExportData where
  "sample_document = \<lparr> xd_Version = 1, xd_MasterSalt = [],
     xd_Servers = [\<lparr> xs_Name = ''w2'', xs_Host = ''h2'', xs_Port = 0, xs_User = [], xs_SSHKey = ''key'',
       xs_RegistryHost = [], xs_RegistryUser = [], xs_RegistryToken = [] \<rparr>], xd_Apps = [] \<rparr>"

definition sample_backup :: backup_env where
  "sample_backup = \<lparr> bk_aead = (\<lambda>_ _. Inr \<lparr> Seal = (\<lambda>_ p. p), Open = (\<lambda>_ c. Inr c) \<rparr>), bk_marshal = (\<lambda>_. Inl ''no''),
     bk_unmarshal = (\<lambda>_. Inr sample_document) \<rparr>"




end
