(* ===== verification/BackupExport.thy ===== *)
theory BackupExport
  imports Backup
begin

text \<open>
  What an export without an error holds: every value opens to what was sealed, every row and list is there,
  and the document passes the checks of an import. Then what \<open>replace\<close> removes before
  the import. The assumptions on the parameters are the laws the cipher and the YAML library document.
\<close>

section \<open>Values\<close>

text \<open>The law of \<open>cipher.AEAD\<close>, and that a reader of random bytes fills its buffer.\<close>

definition opens :: "AEAD \<Rightarrow> bool" where
  "opens a \<longleftrightarrow> (\<forall>nonce p. length nonce = nonceSize \<longrightarrow> Open a nonce (Seal a nonce p) = Inr p)"

definition fills :: "env \<Rightarrow> bool" where
  "fills E \<longleftrightarrow> (\<forall>h n b. e_random E h n = Inr b \<longrightarrow> length b = n)"

text \<open>The key of an export belongs to its passphrase.\<close>

definition key_for :: "backup_env \<Rightarrow> string \<Rightarrow> (string \<times> AEAD) option \<Rightarrow> bool" where
  "key_for V pass k \<longleftrightarrow> (case k of
     None \<Rightarrow> pass = []
   | Some (salt, a) \<Rightarrow> pass \<noteq> [] \<and> salt \<noteq> [] \<and> bk_aead V pass salt = Inr a \<and> opens a)"

text \<open>The document's value \<open>v\<close> passes the check and is read as \<open>p\<close>.\<close>

definition reads_as :: "backup_env \<Rightarrow> string \<Rightarrow> AEAD option \<Rightarrow> string \<Rightarrow> string \<Rightarrow> bool" where
  "reads_as V pass k v p \<longleftrightarrow> dec V pass k v = Inr p \<and> (\<forall>what. check_value V pass k what v = None)"

lemma run_reads [simp]: "result (gets f) w = f w" "exec (gets f) w = w" "result (db_get g) w = g (w_db w)" "exec (db_get g) w = w"
    "result trace w = w_trace w" "exec trace w = w"
  by (simp_all add: result_def exec_def db_get_def trace_def)

lemma result_Random: "result (Random E n) w = e_random E (w_trace w) n"
  by (simp add: Random_def result_bind)

lemma reads_as_plain: "\<not> HasPrefix v ''enc:'' \<Longrightarrow> reads_as V pass k v v"
  by (auto simp: reads_as_def dec_def check_value_def decryptWithAEAD_def decrypt_def validateDecryptWithAEAD_def
      validateDecrypt_def split: option.split)

lemma reads_as_sealed:
  assumes "opens a" and "length nonce = nonceSize"
  shows "reads_as V pass (Some a) (''enc:'' @ EncodeToString (nonce @ Seal a nonce p)) p"
proof -
  have "decryptWithAEAD a (''enc:'' @ EncodeToString (nonce @ Seal a nonce p)) = Inr p"
    using assms by (simp add: decryptWithAEAD_def open_value_def opens_def HasPrefix_def)
  then show ?thesis
    by (simp add: reads_as_def dec_def check_value_def validateDecryptWithAEAD_def)
qed

lemma enc_reads_as:
  assumes "fills E" and "key_for V pass k" and "result (enc E k p) w = Inr v" and "pass = [] \<Longrightarrow> \<not> HasPrefix p ''enc:''"
  shows "reads_as V pass (map_option snd k) v p"
proof (cases k)
  case None
  then show ?thesis
    using assms(2-4) by (auto simp: enc_def key_for_def intro: reads_as_plain)
next
  case (Some sa)
  obtain salt a where sa: "sa = (salt, a)" by (cases sa)
  obtain nonce where n: "e_random E (w_trace w) nonceSize = Inr nonce" "v = ''enc:'' @ EncodeToString (nonce @ Seal a nonce p)"
    using assms(3) by (auto simp: Some sa enc_def encryptValue_def result_bind result_Random split: sum.splits)
  moreover have "length nonce = nonceSize"
    using assms(1) n(1) unfolding fills_def by blast
  ultimately show ?thesis
    using assms(2) reads_as_sealed [of a nonce V pass p] by (simp add: Some sa key_for_def)
qed

section \<open>What an export holds\<close>

lemma keeps_enc [frame]: "keeps w_db (enc E k p)" "keeps w_db (deriveAEAD E V pass)"
  unfolding enc_def encryptValue_def deriveAEAD_def by (intro frame)+

lemma keeps_collectM: "(\<And>x. keeps h (f x)) \<Longrightarrow> keeps h (collectM xs f)"
  by (induction xs) (auto intro!: frame)

lemma keeps_export [frame]:
  "keeps w_db (export_server E k s)" "keeps w_db (export_secret E k x)" "keeps w_db (export_file E k f)"
  "keeps w_db (export_app E k found secs files a)"
  unfolding export_server_def enc_file_def export_secret_def export_file_def export_app_def
  by (intro frame)+

text \<open>A list that was collected, over a database that does not change.\<close>

lemma collectM_all2:
  assumes "result (collectM xs f) w = Inr ys" and "\<And>x. keeps w_db (f x)"
    and "\<And>x y v. x \<in> set xs \<Longrightarrow> w_db v = w_db w \<Longrightarrow> result (f x) v = Inr y \<Longrightarrow> R x y"
  shows "list_all2 R xs ys"
  using assms(1,3)
proof (induction xs arbitrary: w ys)
  case (Cons x xs)
  obtain y zs where y: "result (f x) w = Inr y" "result (collectM xs f) (exec (f x) w) = Inr zs" "ys = y # zs"
    using Cons.prems(1) by (auto simp: result_bind split: sum.splits)
  have db: "w_db (exec (f x) w) = w_db w"
    by (rule keepsD [OF assms(2)])
  have "list_all2 R xs zs"
    by (rule Cons.IH [OF y(2)]) (use Cons.prems(2) db in auto)
  then show ?case
    using Cons.prems(2) [OF _ refl y(1)] y(3) by simp
qed simp

text \<open>What the server of a document has to say. \<open>disk\<close> is what the files hold.\<close>

definition key_of :: "(string \<Rightarrow> string) \<Rightarrow> Server \<Rightarrow> string" where
  "key_of disk s = (if srv_SSHKey s = [] \<or> srv_SSHKey s = ''pending'' then [] else disk (srv_SSHKey s))"

definition credential_of :: "(string \<Rightarrow> string) \<Rightarrow> Server \<Rightarrow> string \<times> string \<times> string" where
  "credential_of disk s = (if srv_RegistryToken s = [] then ([], [], [])
     else (srv_RegistryHost s, srv_RegistryUser s, disk (srv_RegistryToken s)))"

definition server_doc :: "(string \<Rightarrow> string \<Rightarrow> bool) \<Rightarrow> (string \<Rightarrow> string) \<Rightarrow> Server \<Rightarrow> ExportServer \<Rightarrow> bool" where
  "server_doc R disk s x \<longleftrightarrow> xs_Name x = srv_Name s \<and> xs_Host x = srv_Host s \<and> xs_Port x = srv_Port s \<and>
     xs_User x = srv_User s \<and> R (xs_SSHKey x) (key_of disk s) \<and>
     (case credential_of disk s of (host, user, token) \<Rightarrow>
        xs_RegistryHost x = host \<and> xs_RegistryUser x = user \<and> R (xs_RegistryToken x) token)"

definition secret_doc :: "(string \<Rightarrow> string \<Rightarrow> bool) \<Rightarrow> AppSecret \<Rightarrow> int \<times> ExportSecret \<Rightarrow> bool" where
  "secret_doc R s x \<longleftrightarrow> fst x = sec_AppID s \<and> xk_Key (snd x) = sec_Key s \<and> xk_IsSecret (snd x) = sec_IsSecret s \<and>
     R (xk_Value (snd x)) (sec_Value s)"

definition file_doc :: "(string \<Rightarrow> string \<Rightarrow> bool) \<Rightarrow> AppFile \<Rightarrow> int \<times> ExportFile \<Rightarrow> bool" where
  "file_doc R f x \<longleftrightarrow> fst x = file_AppID f \<and> xf_Path (snd x) = file_Path f \<and> R (xf_Content (snd x)) (file_Content f)"

text \<open>Values that a document without a passphrase can carry: text that does not look encrypted.\<close>

definition plain_value :: "string \<Rightarrow> string \<Rightarrow> bool" where
  "plain_value pass v \<longleftrightarrow> pass = [] \<longrightarrow> \<not> HasPrefix v ''enc:''"

lemma reads_as_Nil [simp]: "reads_as V pass k [] []"
  by (rule reads_as_plain) (simp add: HasPrefix_def)

definition exporting :: "env \<Rightarrow> backup_env \<Rightarrow> string \<Rightarrow> (string \<times> AEAD) option \<Rightarrow> (string \<Rightarrow> string) \<Rightarrow> bool" where
  "exporting E V pass k disk \<longleftrightarrow> fills E \<and> key_for V pass k \<and> (\<forall>h p. e_readfile E h p = Inr (disk p))"

lemma enc_in_export:
  "exporting E V pass k disk \<Longrightarrow> result (enc E k p) w = Inr v \<Longrightarrow> plain_value pass p \<Longrightarrow>
   reads_as V pass (map_option snd k) v p"
  unfolding exporting_def plain_value_def by (auto intro: enc_reads_as)

lemma result_enc_file:
  assumes "exporting E V pass k disk" and "result (enc_file E k a b n p) w = Inr v" and "plain_value pass (disk p)"
  shows "reads_as V pass (map_option snd k) v (disk p)"
proof -
  have "result (ReadFile E p) w = Inr (disk p)"
    using assms(1) by (simp add: ReadFile_def result_bind exporting_def)
  then show ?thesis
    using assms(2) by (auto simp: enc_file_def result_bind split: sum.splits intro: enc_in_export [OF assms(1) _ assms(3)])
qed

text \<open>The rows that a document can carry.\<close>

definition portable_server :: "string \<Rightarrow> (string \<Rightarrow> string) \<Rightarrow> Server \<Rightarrow> bool" where
  "portable_server pass disk s \<longleftrightarrow> plain_value pass (disk (srv_SSHKey s)) \<and> plain_value pass (disk (srv_RegistryToken s))"

lemma export_server_doc:
  assumes "exporting E V pass k disk" and "result (export_server E k s) w = Inr x" and "portable_server pass disk s"
  shows "server_doc (reads_as V pass (map_option snd k)) disk s x"
  using assms(2,3) result_enc_file [OF assms(1)]
  by (auto simp: export_server_def result_bind server_doc_def key_of_def credential_of_def portable_server_def
      split: sum.splits if_splits)

lemma export_secret_doc:
  assumes "exporting E V pass k disk" and "result (export_secret E k s) w = Inr x"
    and "if sec_IsSecret s then plain_value pass (sec_Value s) else \<not> HasPrefix (sec_Value s) ''enc:''"
  shows "secret_doc (reads_as V pass (map_option snd k)) s x"
  using assms(2,3) enc_in_export [OF assms(1)]
  by (auto simp: export_secret_def result_bind secret_doc_def reads_as_plain split: sum.splits if_splits)

lemma export_file_doc:
  assumes "exporting E V pass k disk" and "result (export_file E k f) w = Inr x" and "plain_value pass (file_Content f)"
  shows "file_doc (reads_as V pass (map_option snd k)) f x"
  using assms(2,3) enc_in_export [OF assms(1)]
  by (auto simp: export_file_def result_bind file_doc_def split: sum.splits)

lemma of_app_all2:
  "list_all2 R rs xs \<Longrightarrow> (\<And>r x. R r x \<Longrightarrow> fst x = f r) \<Longrightarrow>
   list_all2 (\<lambda>r y. R r (i, y)) (filter (\<lambda>r. f r = i) rs) (of_app i xs)"
proof (induction rule: list_all2_induct)
  case (Cons r rs x xs)
  then show ?case
    by (cases x) (fastforce simp: of_app_def)
qed (simp add: of_app_def)

text \<open>The configuration of an app, without what belongs to the installation, and the domains it is reached by.\<close>

definition app_config :: "App \<Rightarrow> App" where
  "app_config a = a\<lparr>app_ID := 0, app_ServerID := 0, app_Status := [], app_CreatedAt := 0, app_UpdatedAt := 0\<rparr>"

definition active_domains :: "db \<Rightarrow> int \<Rightarrow> string set" where
  "active_domains d i = rt_Domain ` {r \<in> set (routes d). rt_AppID r = i \<and> rt_Status r = ''active''}"

definition app_domains :: "db \<Rightarrow> App \<Rightarrow> string set" where
  "app_domains d a = (if app_Domain a = [] then {} else {app_Domain a}) \<union> active_domains d (app_ID a)"

definition app_doc :: "(string \<Rightarrow> string \<Rightarrow> bool) \<Rightarrow> db \<Rightarrow> App \<Rightarrow> ExportApp \<Rightarrow> bool" where
  "app_doc R d a x \<longleftrightarrow>
     (\<forall>sid. app_config (imported_app x sid (app_AuthPass a)) = app_config a) \<and>
     R (xa_AuthPass x) (app_AuthPass a) \<and>
     xa_ServerName x = server_name_of (Srv_List d) (app_ServerID a) \<and>
     set (xa_Domains x) = app_domains d a \<and> (app_Domain a \<noteq> [] \<longrightarrow> xa_Domains x \<noteq> []) \<and>
     list_all2 (\<lambda>s y. secret_doc R s (app_ID a, y)) (filter (\<lambda>s. sec_AppID s = app_ID a) (Repo_ListAllSecrets d)) (xa_Secrets x) \<and>
     list_all2 (\<lambda>f y. file_doc R f (app_ID a, y)) (filter (\<lambda>f. file_AppID f = app_ID a) (Repo_ListAllFiles d)) (xa_Files x)"

definition portable_app :: "string \<Rightarrow> App \<Rightarrow> bool" where
  "portable_app pass a \<longleftrightarrow> plain_value pass (app_AuthPass a) \<and> app_GitBranch a \<noteq> [] \<and>
     (app_Domain a = [] \<or> valid_hostname (app_Domain a))"

lemma valid_hostname_Nil [simp]: "\<not> valid_hostname []"
proof
  assume "valid_hostname []"
  then have "rx_match domainRe []"
    by (simp add: rx_match_lang domain_lang)
  then show False
    by code_simp
qed

lemma set_export_domains:
  assumes "valid_names d"
  shows "set (export_domains a (Repo_GetRoutes plan (app_ID a) d)) = app_domains d a"
proof -
  have "[] \<notin> active_domains d (app_ID a)"
    using assms unfolding valid_names_def active_domains_def by (metis (no_types, lifting) imageE mem_Collect_eq valid_hostname_Nil)
  moreover have "rt_Domain ` set (Repo_GetRoutes plan (app_ID a) d) = active_domains d (app_ID a)"
    by (simp add: Repo_GetRoutes_def active_domains_def)
  ultimately show ?thesis
    by (auto simp: export_domains_def app_domains_def)
qed

lemma export_app_doc:
  assumes "exporting E V pass k disk" and "result (export_app E k (Srv_List d) secs fls a) w = Inr x"
    and "w_db w = d" and "portable_app pass a" and "valid_names d"
    and "list_all2 (secret_doc (reads_as V pass (map_option snd k))) (Repo_ListAllSecrets d) secs"
    and "list_all2 (file_doc (reads_as V pass (map_option snd k))) (Repo_ListAllFiles d) fls"
  shows "app_doc (reads_as V pass (map_option snd k)) d a x"
proof -
  let ?enc = "if app_AuthPass a \<noteq> [] then enc E k (app_AuthPass a) else ret (Inr [])"
  define rts where rts: "rts = Repo_GetRoutes (e_plan_routes E (w_trace w)) (app_ID a) d"
  obtain p where p: "result ?enc w = Inr p"
    using assms(2) by (cases "result ?enc w") (simp_all add: export_app_def result_bind exec_bind)
  note x = assms(2) [unfolded export_app_def, simplified result_bind exec_bind run_reads assms(3) p sum.case result_ret
      rts [symmetric] sum.inject, symmetric]
  have auth: "reads_as V pass (map_option snd k) p (app_AuthPass a)"
    using p assms(4) enc_in_export [OF assms(1)] by (auto simp: portable_app_def split: if_splits)
  have config: "app_config (imported_app x sid (app_AuthPass a)) = app_config a" for sid
    using assms(4) by (simp add: x app_config_def imported_app_def portable_app_def)
  have doms: "set (xa_Domains x) = app_domains d a" "app_Domain a \<noteq> [] \<longrightarrow> xa_Domains x \<noteq> []"
    using set_export_domains [OF assms(5)] by (simp_all add: x rts) (simp add: export_domains_def)
  have rest: "xa_Secrets x = of_app (app_ID a) secs" "xa_Files x = of_app (app_ID a) fls" "xa_AuthPass x = p"
      "xa_ServerName x = server_name_of (Srv_List d) (app_ServerID a)"
    by (simp_all add: x)
  show ?thesis
    unfolding app_doc_def rest
    using config auth doms
      of_app_all2 [OF assms(6), of sec_AppID "app_ID a"] of_app_all2 [OF assms(7), of file_AppID "app_ID a"]
    by (auto simp: secret_doc_def file_doc_def)
qed

definition document :: "(string \<Rightarrow> string \<Rightarrow> bool) \<Rightarrow> (string \<Rightarrow> string) \<Rightarrow> db \<Rightarrow> ExportData \<Rightarrow> bool" where
  "document R disk d x \<longleftrightarrow> xd_Version x = Version \<and> list_all2 (server_doc R disk) (Srv_List d) (xd_Servers x) \<and>
     list_all2 (app_doc R d) (Repo_List d) (xd_Apps x)"

text \<open>An installation whose rows a document can carry.\<close>

definition portable :: "string \<Rightarrow> (string \<Rightarrow> string) \<Rightarrow> db \<Rightarrow> bool" where
  "portable pass disk d \<longleftrightarrow> valid_names d \<and>
     (\<forall>s \<in> set (servers d). portable_server pass disk s) \<and> (\<forall>a \<in> set (apps d). portable_app pass a) \<and>
     (\<forall>s \<in> set (app_secrets d). if sec_IsSecret s then plain_value pass (sec_Value s) else \<not> HasPrefix (sec_Value s) ''enc:'') \<and>
     (\<forall>f \<in> set (app_files d). plain_value pass (file_Content f))"

lemma set_lists [simp]:
  "set (Srv_List d) = set (servers d)" "set (Repo_List d) = set (apps d)" "set (Repo_ListAllSecrets d) = set (app_secrets d)"
  "set (Repo_ListAllFiles d) = set (app_files d)"
  by (simp_all add: Srv_List_def Repo_List_def Repo_ListAllSecrets_def Repo_ListAllFiles_def)

lemma export_data_document:
  assumes "exporting E V pass k disk" and "result (export_data E k) w = Inr x" and "portable pass disk (w_db w)"
  shows "document (reads_as V pass (map_option snd k)) disk (w_db w) x"
    and "xd_MasterSalt x = (case k of None \<Rightarrow> [] | Some (salt, _) \<Rightarrow> EncodeToString salt)"
proof -
  let ?d = "w_db w" and ?R = "reads_as V pass (map_option snd k)"
  let ?w1 = "exec (collectM (Srv_List ?d) (export_server E k)) w"
  let ?w2 = "exec (collectM (Repo_ListAllSecrets ?d) (export_secret E k)) ?w1"
  let ?w3 = "exec (collectM (Repo_ListAllFiles ?d) (export_file E k)) ?w2"
  have db1: "w_db ?w1 = ?d"
    by (rule keepsD [OF keeps_collectM [OF keeps_export(1)]])
  have db2: "w_db ?w2 = ?d"
    using keepsD [OF keeps_collectM [OF keeps_export(2)]] db1 by (rule trans)
  have db3: "w_db ?w3 = ?d"
    using keepsD [OF keeps_collectM [OF keeps_export(3)]] db2 by (rule trans)
  note db = db1 db2 db3
  obtain svrs secs fls as where
    r: "result (collectM (Srv_List ?d) (export_server E k)) w = Inr svrs"
       "result (collectM (Repo_ListAllSecrets ?d) (export_secret E k)) ?w1 = Inr secs"
       "result (collectM (Repo_ListAllFiles ?d) (export_file E k)) ?w2 = Inr fls"
       "result (collectM (Repo_List ?d) (export_app E k (Srv_List ?d) secs fls)) ?w3 = Inr as"
    and x: "x = \<lparr> xd_Version = Version, xd_MasterSalt = (case k of None \<Rightarrow> [] | Some (salt, _) \<Rightarrow> EncodeToString salt),
       xd_Servers = svrs, xd_Apps = as \<rparr>"
    using assms(2) by (auto simp: export_data_def result_bind exec_bind db split: sum.splits)
  have port: "\<forall>s \<in> set (servers ?d). portable_server pass disk s" "\<forall>a \<in> set (apps ?d). portable_app pass a" "valid_names ?d"
      "\<forall>s \<in> set (app_secrets ?d). if sec_IsSecret s then plain_value pass (sec_Value s) else \<not> HasPrefix (sec_Value s) ''enc:''"
      "\<forall>f \<in> set (app_files ?d). plain_value pass (file_Content f)"
    using assms(3) unfolding portable_def by blast+
  have "list_all2 (server_doc ?R disk) (Srv_List ?d) svrs"
    by (rule collectM_all2 [OF r(1) keeps_export(1)]) (use port(1) export_server_doc [OF assms(1)] in auto)
  moreover have secs: "list_all2 (secret_doc ?R) (Repo_ListAllSecrets ?d) secs"
    by (rule collectM_all2 [OF r(2) keeps_export(2)]) (use port(4) export_secret_doc [OF assms(1)] in auto)
  have fls: "list_all2 (file_doc ?R) (Repo_ListAllFiles ?d) fls"
    by (rule collectM_all2 [OF r(3) keeps_export(3)]) (use port(5) export_file_doc [OF assms(1)] in auto)
  have "list_all2 (app_doc ?R ?d) (Repo_List ?d) as"
    by (rule collectM_all2 [OF r(4) keeps_export(4)])
      (use port(2) db in \<open>auto intro: export_app_doc [OF assms(1) _ _ _ port(3) secs fls]\<close>)
  ultimately show "document ?R disk ?d x"
    by (simp add: document_def x)
  show "xd_MasterSalt x = (case k of None \<Rightarrow> [] | Some (salt, _) \<Rightarrow> EncodeToString salt)"
    by (simp add: x)
qed

section \<open>The document passes the checks\<close>

lemma first_error_None: "first_failure es = None \<longleftrightarrow> (\<forall>e \<in> set es. e = None)"
  by (induction es rule: first_failure.induct) auto

lemma convert_all_same: "\<forall>x \<in> set xs. f x = Inr x \<Longrightarrow> convert_all f xs = Inr xs"
  by (induction xs) auto

lemma app_doc_fields:
  assumes "app_doc R d a x"
  shows "xa_Name x = app_Name a" and "xa_Domain x = app_Domain a"
proof -
  have "app_config (imported_app x 0 (app_AuthPass a)) = app_config a"
    using assms unfolding app_doc_def by blast
  then have "app_Name (app_config (imported_app x 0 (app_AuthPass a))) = app_Name (app_config a)"
      "app_Domain (app_config (imported_app x 0 (app_AuthPass a))) = app_Domain (app_config a)"
    by simp_all
  then show "xa_Name x = app_Name a" "xa_Domain x = app_Domain a"
    by (simp_all add: app_config_def imported_app_def)
qed

lemma ValidDomain_same: "valid_hostname d \<Longrightarrow> ValidDomain d = Inr d"
  by (simp add: ValidDomain_Inr_iff ValidDomain_normal)

lemma app_domains_valid:
  assumes "valid_names d" and "portable_app pass a" and "dm \<in> app_domains d a"
  shows "valid_hostname dm"
  using assms by (auto simp: app_domains_def active_domains_def valid_names_def portable_app_def split: if_splits)

lemma all2_right: "list_all2 R xs ys \<Longrightarrow> y \<in> set ys \<Longrightarrow> \<exists>x \<in> set xs. R x y"
  by (induction rule: list_all2_induct) auto

lemma valid_app_same:
  assumes "app_doc R d a x" and "valid_names d" and "portable_app pass a"
  shows "valid_app x = Inr x"
proof -
  note x = app_doc_fields [OF assms(1)]
  have "(if TrimSpace (xa_Domain x) \<noteq> [] then ValidDomain (xa_Domain x) else Inr (xa_Domain x)) = Inr (xa_Domain x)"
    using assms(3) by (auto simp: x portable_app_def ValidDomain_same)
  moreover have "\<not> (xa_Domains x = [] \<and> xa_Domain x \<noteq> [])"
    using assms(1) x(2) by (auto simp: app_doc_def)
  moreover have "convert_all ValidDomain (xa_Domains x) = Inr (xa_Domains x)"
    using assms(1) by (auto intro!: convert_all_same ValidDomain_same app_domains_valid [OF assms(2,3)] simp: app_doc_def)
  moreover have "ValidEnvKey (xk_Key s) = Inr ()" if "s \<in> set (xa_Secrets x)" for s
    using assms(1,2) that unfolding app_doc_def valid_names_def by (fastforce dest: all2_right simp: secret_doc_def)
  then have "convert_all valid_secret (xa_Secrets x) = Inr (xa_Secrets x)"
    by (intro convert_all_same) (simp add: valid_secret_Inr)
  moreover have "path_inside (xf_Path f) \<and> list_all path_char (xf_Path f)" if "f \<in> set (xa_Files x)" for f
    using assms(1,2) that unfolding app_doc_def valid_names_def by (fastforce dest: all2_right simp: file_doc_def)
  then have "convert_all valid_file (xa_Files x) = Inr (xa_Files x)"
    by (intro convert_all_same) (simp add: valid_file_def ValidFilePath_normal)
  ultimately show ?thesis
    by (auto simp: valid_app_def)
qed

lemma check_document:
  assumes "document (reads_as V pass (map_option snd k)) disk d x" and "key_for V pass k" and "portable pass disk d"
    and "xd_MasterSalt x = (case k of None \<Rightarrow> [] | Some (salt, _) \<Rightarrow> EncodeToString salt)"
    and "bk_unmarshal V y = Inr x"
  shows "check_import V y pass = Inr (map_option snd k, xd_Servers x, xd_Apps x)"
proof -
  let ?k = "map_option snd k"
  have aead: "import_aead V pass x = Inr ?k"
    using assms(2,4) by (auto simp: import_aead_def key_for_def split: option.splits)
  have "check_server V pass ?k s = None" if "s \<in> set (xd_Servers x)" for s
    using assms(1) that unfolding document_def
    by (auto dest!: all2_right simp: check_server_def first_error_None server_doc_def reads_as_def split: prod.splits)
  moreover have "check_app V pass ?k a = None" if a: "a \<in> set (xd_Apps x)" for a
  proof -
    obtain b where b: "app_doc (reads_as V pass ?k) d b a"
      using assms(1) a unfolding document_def by (blast dest: all2_right)
    then have "\<forall>s \<in> set (xa_Secrets a). \<exists>v. reads_as V pass ?k (xk_Value s) v" "\<forall>f \<in> set (xa_Files a). \<exists>v. reads_as V pass ?k (xf_Content f) v"
      unfolding app_doc_def by (fastforce dest: all2_right simp: secret_doc_def file_doc_def)+
    then show ?thesis
      using b by (auto simp: check_app_def first_error_None reads_as_def app_doc_def)
  qed
  ultimately have vals: "check_values V pass ?k x = None"
    by (auto simp: check_values_def first_error_None)
  have "valid_app a = Inr a" if "a \<in> set (xd_Apps x)" for a
    using assms(1,3) that unfolding document_def portable_def by (fastforce dest: all2_right intro: valid_app_same)
  then have "validateImport (xd_Apps x) = Inr (xd_Apps x)"
    unfolding validateImport_def by (intro convert_all_same) simp
  then show ?thesis
    using assms(1,5) aead vals by (simp add: check_import_def document_def)
qed

section \<open>Removing everything\<close>

lemma result_db_try: "result (db_try f) w = fst (f (now_s w) (w_db w))"
  by (simp add: db_try_def result_def now_s_def split: prod.split)

definition cleared :: "db \<Rightarrow> bool" where
  "cleared d \<longleftrightarrow> servers d = [] \<and> apps d = [] \<and> routes d = [] \<and> app_secrets d = [] \<and> app_files d = []"

lemma remove_apps:
  assumes "\<And>a. a \<in> set xs \<Longrightarrow> Repo_Get (app_ID a) (w_db w) = Some a" and "distinct (map app_ID xs)"
  shows "snd (result (loopM (remove_app E) out xs) w) = None \<and>
    (let d = w_db w; d' = w_db (exec (loopM (remove_app E) out xs) w); gone = app_ID ` set xs
     in apps d' = filter (\<lambda>a. app_ID a \<notin> gone) (apps d) \<and> routes d' = filter (\<lambda>r. rt_AppID r \<notin> gone) (routes d) \<and>
        app_secrets d' = filter (\<lambda>s. sec_AppID s \<notin> gone) (app_secrets d) \<and>
        app_files d' = filter (\<lambda>f. file_AppID f \<notin> gone) (app_files d))"
  using assms
proof (induction xs arbitrary: out w)
  case (Cons x xs)
  let ?w = "exec (Undeploy E (app_ID x)) w"
  have get: "Repo_Get (app_ID x) (w_db w) = Some x"
    using Cons.prems(1) by simp
  have rows: "rows ?w = without_app (app_ID x) (rows w)" and res: "result (Undeploy E (app_ID x)) w = None"
    using Undeploy_rows [OF get] by blast+
  have "Repo_Get (app_ID a) (w_db ?w) = Some a" if "a \<in> set xs" for a
  proof -
    have "app_ID a \<noteq> app_ID x"
      using Cons.prems(2) that by (auto simp: image_iff)
    then have "find (\<lambda>b. app_ID b \<noteq> app_ID x \<and> app_ID b = app_ID a) (apps (w_db w)) = find (\<lambda>b. app_ID b = app_ID a) (apps (w_db w))"
      by (intro find_cong) auto
    then show ?thesis
      using rows Cons.prems(1) [of a] that by (simp add: rows_def without_app_def Repo_Get_def find_filter)
  qed
  then show ?case
    using Cons.IH [of ?w "says (''Removing app '' @ Quote (app_Name x)) out"] Cons.prems(2) rows res
    by (simp add: remove_app_def result_bind exec_bind Let_def rows_def without_app_def conj_commute)
qed simp

lemma remove_servers:
  assumes "apps (w_db w) = []" and "routes (w_db w) = []" and "app_secrets (w_db w) = []" and "app_files (w_db w) = []"
  shows "snd (result (loopM remove_server out xs) w) = None \<and>
    (let d' = w_db (exec (loopM remove_server out xs) w)
     in servers d' = filter (\<lambda>s. srv_ID s \<notin> srv_ID ` set xs) (servers (w_db w)) \<and>
        apps d' = [] \<and> routes d' = [] \<and> app_secrets d' = [] \<and> app_files d' = [])"
  using assms
proof (induction xs arbitrary: out w)
  case (Cons x xs)
  let ?w = "exec (Svc_Delete (srv_ID x)) w" and ?d = "snd (Srv_Delete (srv_ID x) (w_db w))"
  have count: "Srv_CountApps (srv_ID x) (w_db w) = 0"
    using Cons.prems(1) by (simp add: Srv_CountApps_def)
  have ok: "fst (Srv_Delete (srv_ID x) (w_db w)) = Inr ()"
    using Cons.prems(1) by (simp add: Srv_Delete_def)
  have run: "result (Svc_Delete (srv_ID x)) w = None" "w_db ?w = ?d"
    using ok by (simp_all add: Svc_Delete_def result_bind exec_bind count exec_db_try result_db_try)
  have d: "apps ?d = []" "routes ?d = []" "app_secrets ?d = []" "app_files ?d = []"
      "servers ?d = filter (\<lambda>s. srv_ID s \<noteq> srv_ID x) (servers (w_db w))"
    using Cons.prems by (auto simp: Srv_Delete_def server_ids_def image_iff intro!: filter_True [symmetric])
  show ?case
    using Cons.IH [of ?w "says (''Removing server '' @ Quote (srv_Name x)) out"] d
    by (simp add: remove_server_def result_bind exec_bind run Let_def conj_commute)
qed simp

lemma sorted_list_get:
  assumes "db_ok d"
  shows "distinct (map app_ID (Repo_List d))" and "a \<in> set (Repo_List d) \<Longrightarrow> Repo_Get (app_ID a) d = Some a"
proof -
  have d: "distinct (map app_ID (apps d))"
    using assms by (simp add: db_ok_def ids_inv_def ids_ok_def)
  have "mset (map app_ID (Repo_List d)) = mset (map app_ID (apps d))"
    by (simp add: Repo_List_def)
  then show "distinct (map app_ID (Repo_List d))"
    using d mset_eq_imp_distinct_iff by blast
  show "a \<in> set (Repo_List d) \<Longrightarrow> Repo_Get (app_ID a) d = Some a"
    using find_distinct [OF d, of a] by (simp add: Repo_Get_def)
qed

lemma clear_all_clears:
  assumes "db_ok (w_db w)" and "\<forall>a \<in> set (apps (w_db w)). idle_status a"
  shows "snd (result (clear_all E) w) = None \<and> cleared (w_db (exec (clear_all E) w)) \<and> db_ok (w_db (exec (clear_all E) w))"
proof -
  let ?d = "w_db w" and ?w = "exec (loopM (remove_app E) [] (Repo_List (w_db w))) w"
  have idle: "find (\<lambda>a. \<not> idle_status a) (Repo_List ?d) = None"
    using assms(2) by (simp add: find_None_iff)
  have refs: "\<forall>r \<in> set (routes ?d). rt_AppID r \<in> app_ids ?d" "\<forall>s \<in> set (app_secrets ?d). sec_AppID s \<in> app_ids ?d"
      "\<forall>f \<in> set (app_files ?d). file_AppID f \<in> app_ids ?d"
    using assms(1) by (auto simp: db_ok_def refs_inv_def refs_ok_def)
  have ids: "app_ID ` set (Repo_List ?d) = app_ids ?d"
    by (simp add: app_ids_def)
  have gone: "snd (result (loopM (remove_app E) [] (Repo_List ?d)) w) = None"
      "apps (w_db ?w) = []" "routes (w_db ?w) = []" "app_secrets (w_db ?w) = []" "app_files (w_db ?w) = []"
    using remove_apps [of "Repo_List ?d" w E "[]", OF sorted_list_get(2) [OF assms(1)] sorted_list_get(1) [OF assms(1)]] refs
    by (auto simp: Let_def ids filter_empty_conv app_ids_def)
  obtain out where out: "result (loopM (remove_app E) [] (Repo_List ?d)) w = (out, None)"
    using gone(1) by (cases "result (loopM (remove_app E) [] (Repo_List ?d)) w") simp
  have run: "result (clear_all E) w = result (loopM remove_server out (Srv_List (w_db ?w))) ?w"
      "exec (clear_all E) w = exec (loopM remove_server out (Srv_List (w_db ?w))) ?w"
    by (simp_all add: clear_all_def idle result_bind exec_bind out)
  have "servers (w_db (exec (clear_all E) w)) = []"
    using remove_servers [OF gone(2-5), of out "Srv_List (w_db ?w)"] unfolding run by (simp add: Let_def filter_empty_conv)
  then have "snd (result (clear_all E) w) = None \<and> cleared (w_db (exec (clear_all E) w))"
    using remove_servers [OF gone(2-5), of out "Srv_List (w_db ?w)"] unfolding run by (simp add: Let_def cleared_def)
  moreover have "steps (clear_all E)"
    unfolding clear_all_def by (intro stmts)
  ultimately show ?thesis
    using steps_db_ok assms(1) by blast
qed

end
