(* ===== verification/BackupRoundtrip.thy ===== *)
theory BackupRoundtrip
  imports BackupExport
begin

text \<open>
  Importing what was exported, statement by statement: the servers with their key files, then the apps with
  their routes, variables and files. Rows are compared by what belongs to the configuration;
  ids, times and states are the installation's own.
\<close>

section \<open>The key files\<close>

text \<open>What the files hold after a trace.\<close>

fun write_event :: "event \<Rightarrow> (string \<Rightarrow> string) \<Rightarrow> (string \<Rightarrow> string)" where
  "write_event (EvSaveFile path content) disk = disk(path := content)"
| "write_event (EvRemoveFile path) disk = disk(path := [])"
| "write_event _ disk = disk"

definition files_after :: "event list \<Rightarrow> (string \<Rightarrow> string) \<Rightarrow> (string \<Rightarrow> string)" where
  "files_after tr = fold write_event tr"

lemma files_after_append [simp]: "files_after (tr @ evs) disk = files_after evs (files_after tr disk)"
  by (simp add: files_after_def)

lemma Split1_append: "Split1 c (s @ c # t) = Split1 c s @ Split1 c t"
  by (induction s) (auto split: list.split simp: Split1_nonempty)

lemma Join_snoc: "Join (xs @ [x]) [c] = (if xs = [] then x else Join xs [c] @ c # x)"
  by (induction xs rule: induct_list012) (auto simp: Join_Cons)

text \<open>The files of one directory: their paths differ as their names do.\<close>

lemma path_join_simple: "\<exists>pre. \<forall>name. name_elem name \<longrightarrow> path_join dir name = pre @ name"
proof (cases "dir = []")
  case True
  have "path_join dir name = [] @ name" if "name_elem name" for name
  proof -
    have "path_inside name"
      using that by (simp add: path_inside_names Split1_no_sep name_elem_def)
    then show ?thesis
      by (simp add: path_join_def True Clean_inside)
  qed
  then show ?thesis by blast
next
  case False
  let ?r = "hd dir = CHR ''/''"
  let ?out = "rev (foldl (clean_step ?r) [] (Split1 CHR ''/'' dir))"
  let ?pre = "(if ?r then ''/'' else []) @ (if ?out = [] then [] else Join ?out ''/'' @ ''/'')"
  have "path_join dir name = ?pre @ name" if name: "name_elem name" for name
  proof -
    have "Split1 CHR ''/'' (dir @ CHR ''/'' # name) = Split1 CHR ''/'' dir @ [name]"
      using name by (simp add: Split1_append Split1_no_sep name_elem_def)
    moreover have "clean_step ?r out name = name # out" for out
      using name by (simp add: clean_step_def name_elem_def)
    ultimately have "rev (foldl (clean_step ?r) [] (Split1 CHR ''/'' (dir @ CHR ''/'' # name))) = ?out @ [name]"
      by simp
    then show ?thesis
      using False by (cases ?r) (simp_all add: path_join_def Clean_def Let_def Join_snoc)
  qed
  then show ?thesis by blast
qed

lemma Itoa_no_slash: "CHR ''/'' \<notin> set (Itoa i)"
proof -
  have "\<forall>c \<in> set (nat_str n). is_digit c" for n
    using nat_str_digits by (simp add: list_all_iff)
  moreover have "\<not> is_digit CHR ''/''"
    by (simp add: is_digit_def less_eq_char_def)
  ultimately show ?thesis
    by (auto simp: Itoa_def)
qed

lemma key_files:
  "key_path E i = key_path E j \<longleftrightarrow> i = j" "token_path E i = token_path E j \<longleftrightarrow> i = j" "key_path E i \<noteq> token_path E j"
  "token_path E i \<noteq> key_path E j" "key_path E i \<noteq> []" "key_path E i \<noteq> ''pending''"
proof -
  obtain pre where pre: "\<forall>name. name_elem name \<longrightarrow> path_join (e_keyDir E) name = pre @ name"
    using path_join_simple by blast
  have elem: "name_elem (Itoa i @ ''.pem'')" "name_elem (Itoa i @ ''.registry-token'')" for i
    using Itoa_no_slash [of i] by (cases "Itoa i"; simp add: name_elem_def)+
  have p: "key_path E i = pre @ Itoa i @ ''.pem''" "token_path E i = pre @ Itoa i @ ''.registry-token''" for i
    using pre elem by (simp_all add: key_path_def token_path_def)
  have last: "last (key_path E i) = CHR ''m''" "last (token_path E i) = CHR ''n''" "key_path E i \<noteq> []" for i
    by (simp_all add: p)
  show "key_path E i = key_path E j \<longleftrightarrow> i = j" "token_path E i = token_path E j \<longleftrightarrow> i = j"
    unfolding p same_append_eq append_same_eq by (auto dest: Itoa_inj)
  have differ: "key_path E i \<noteq> token_path E j" for i j
  proof
    assume "key_path E i = token_path E j"
    then have "last (key_path E i) = last (token_path E j)"
      by (rule arg_cong)
    then show False
      unfolding last by simp
  qed
  show "key_path E i \<noteq> token_path E j" "token_path E i \<noteq> key_path E j"
    by (rule differ) (rule not_sym [OF differ])
  have "last (key_path E i) \<noteq> last ''pending''"
    unfolding last by simp
  then show "key_path E i \<noteq> []" "key_path E i \<noteq> ''pending''"
    using last(3) by auto
qed

section \<open>One server\<close>

text \<open>What belongs to the configuration, and the parts of a row that the import decides.\<close>

definition server_view :: "(string \<Rightarrow> string) \<Rightarrow> Server \<Rightarrow> string \<times> string \<times> int \<times> string \<times> string \<times> string \<times> string \<times> string" where
  "server_view disk s = (srv_Name s, srv_Host s, srv_Port s, srv_User s, key_of disk s, credential_of disk s)"

definition decided :: "Server \<Rightarrow> int \<times> string \<times> string \<times> int \<times> string \<times> string \<times> string \<times> string \<times> string" where
  "decided s = (srv_ID s, srv_Name s, srv_Host s, srv_Port s, srv_User s, srv_SSHKey s, srv_RegistryHost s,
     srv_RegistryUser s, srv_RegistryToken s)"

abbreviation tables_of_apps :: "db \<Rightarrow> App list \<times> Route list \<times> AppSecret list \<times> AppFile list" where
  "tables_of_apps d \<equiv> (apps d, routes d, app_secrets d, app_files d)"

definition saves :: "env \<Rightarrow> bool" where
  "saves E \<longleftrightarrow> (\<forall>h p c. e_savefile E h p c = None)"

text \<open>The last row is the one of \<open>svr\<close>, with the files \<open>evs\<close> written since \<open>w\<close>.\<close>

definition last_row :: "world \<Rightarrow> Server \<Rightarrow> event list \<Rightarrow> world \<Rightarrow> bool" where
  "last_row w svr evs v \<longleftrightarrow> (\<exists>t. servers (w_db v) = servers (w_db w) @ [t] \<and> decided t = decided svr) \<and>
     tables_of_apps (w_db v) = tables_of_apps (w_db w) \<and> w_trace v = w_trace w @ evs"

lemma wp_SaveFile_ok:
  "saves E \<Longrightarrow> wp (SaveFile E p c) (\<lambda>r v. r = None \<and> w_db v = w_db w \<and> w_trace v = w_trace w @ [EvSaveFile p c]) w"
  by (simp add: SaveFile_def emit_def trace_def saves_def wp_simps)

lemma wp_Svc_Create_row:
  assumes "srv_Name s \<notin> srv_Name ` set (servers (w_db w))"
  shows "wp (Svc_Create s) (\<lambda>r v. \<exists>svr. r = Inr svr \<and> svr = (server_defaults s)\<lparr>srv_ID := next_id TServers (w_db w)\<rparr> \<and>
    last_row w svr [] v) w"
proof -
  have "srv_Name (server_defaults s) = srv_Name s"
    by (simp add: server_defaults_def Let_def)
  then show ?thesis
    using assms by (simp add: Svc_Create_def wp_simps Srv_Create_def Let_def last_row_def decided_def bump_def)
qed

lemma wp_Svc_Update_row:
  assumes "last_row w svr evs v" and "srv_ID svr \<notin> server_ids (w_db w)" and "srv_Name svr \<notin> srv_Name ` set (servers (w_db w))"
    and "srv_ID svr' = srv_ID svr" and "srv_Name svr' = srv_Name svr"
  shows "wp (Svc_Update svr') (\<lambda>r v'. r = Inr () \<and> last_row w svr' evs v') v"
proof -
  obtain t where t: "servers (w_db v) = servers (w_db w) @ [t]" "srv_ID t = srv_ID svr"
    using assms(1) by (auto simp: last_row_def decided_def)
  have "map (\<lambda>s. if srv_ID s = srv_ID svr then f s else s) (servers (w_db w)) = servers (w_db w)" for f
    using assms(2) by (intro map_idI) (auto simp: server_ids_def image_iff)
  moreover have "\<not> (\<exists>s \<in> set (servers (w_db v)). srv_ID s \<noteq> srv_ID svr \<and> srv_Name s = srv_Name svr)"
    using assms(3) t by (auto simp: image_iff)
  ultimately show ?thesis
    using assms(1) t by (simp add: Svc_Update_def wp_simps Srv_Update_def map_server_def last_row_def decided_def assms(4,5)
        server_ids_def)
qed

lemma wp_import_key:
  assumes "saves E" and "last_row w svr evs v" and "srv_ID svr \<notin> server_ids (w_db w)"
    and "srv_Name svr \<notin> srv_Name ` set (servers (w_db w))"
  shows "wp (import_key E content svr) (\<lambda>r v'. if content = [] \<or> content = ''pending'' then r = Inr svr \<and> last_row w svr evs v'
     else let svr' = svr\<lparr>srv_SSHKey := key_path E (srv_ID svr)\<rparr>
       in r = Inr svr' \<and> last_row w svr' (evs @ [EvSaveFile (key_path E (srv_ID svr)) content]) v') v"
proof (cases "content = [] \<or> content = ''pending''")
  case False
  let ?svr = "svr\<lparr>srv_SSHKey := key_path E (srv_ID svr)\<rparr>" and ?evs = "evs @ [EvSaveFile (key_path E (srv_ID svr)) content]"
  have upd: "wp (Svc_Update ?svr) (\<lambda>r v'. r = Inr () \<and> last_row w ?svr ?evs v') v1" if "last_row w svr ?evs v1" for v1
    by (rule wp_Svc_Update_row [OF that assms(3,4)]) simp_all
  have "wp (SaveFile E (key_path E (srv_ID svr)) content) (\<lambda>r v1. r = None \<and> last_row w svr ?evs v1) v"
    by (rule wp_mono [OF wp_SaveFile_ok [OF assms(1)]]) (use assms(2) in \<open>auto simp: last_row_def\<close>)
  then show ?thesis
    using False unfolding import_key_def Let_def
    by (auto simp: wp_simps elim!: wp_mono intro!: wp_mono [OF upd])
qed (use assms(2) in \<open>simp add: import_key_def wp_simps\<close>)

lemma wp_import_token:
  assumes "saves E" and "last_row w svr evs v" and "srv_ID svr \<notin> server_ids (w_db w)"
    and "srv_Name svr \<notin> srv_Name ` set (servers (w_db w))"
  shows "wp (import_token E token host user svr) (\<lambda>r v'. if token = [] \<or> user = [] then r = Inr svr \<and> last_row w svr evs v'
     else let svr' = svr\<lparr>srv_RegistryHost := host, srv_RegistryUser := user, srv_RegistryToken := token_path E (srv_ID svr)\<rparr>
       in r = Inr svr' \<and> last_row w svr' (evs @ [EvSaveFile (token_path E (srv_ID svr)) token]) v') v"
proof (cases "token = [] \<or> user = []")
  case False
  let ?svr = "svr\<lparr>srv_RegistryHost := host, srv_RegistryUser := user, srv_RegistryToken := token_path E (srv_ID svr)\<rparr>"
  let ?evs = "evs @ [EvSaveFile (token_path E (srv_ID svr)) token]"
  have upd: "wp (Svc_Update ?svr) (\<lambda>r v'. r = Inr () \<and> last_row w ?svr ?evs v') v1" if "last_row w svr ?evs v1" for v1
    by (rule wp_Svc_Update_row [OF that assms(3,4)]) simp_all
  have "wp (SaveFile E (token_path E (srv_ID svr)) token) (\<lambda>r v1. r = None \<and> last_row w svr ?evs v1) v"
    by (rule wp_mono [OF wp_SaveFile_ok [OF assms(1)]]) (use assms(2) in \<open>auto simp: last_row_def\<close>)
  then show ?thesis
    using False unfolding import_token_def Let_def
    by (auto simp: wp_simps elim!: wp_mono intro!: wp_mono [OF upd])
qed (use assms(2) in \<open>simp add: import_token_def wp_simps\<close>)

text \<open>What a server must have to be found again.\<close>

definition restorable_server :: "(string \<Rightarrow> string) \<Rightarrow> Server \<Rightarrow> bool" where
  "restorable_server disk s \<longleftrightarrow> srv_Port s \<noteq> 0 \<and> srv_User s \<noteq> [] \<and> key_of disk s \<noteq> ''pending'' \<and>
     (srv_RegistryToken s \<noteq> [] \<longrightarrow> srv_RegistryUser s \<noteq> [] \<and> disk (srv_RegistryToken s) \<noteq> [])"

definition own_files :: "env \<Rightarrow> Server \<Rightarrow> bool" where
  "own_files E t \<longleftrightarrow> srv_SSHKey t \<in> {''pending'', key_path E (srv_ID t)} \<and> srv_RegistryToken t \<in> {[], token_path E (srv_ID t)}"

definition restored :: "env \<Rightarrow> (string \<Rightarrow> string) \<Rightarrow> Server \<Rightarrow> world \<Rightarrow> Server \<Rightarrow> world \<Rightarrow> bool" where
  "restored E disk s w t v \<longleftrightarrow> servers (w_db v) = servers (w_db w) @ [t] \<and> srv_ID t = next_id TServers (w_db w) \<and>
     tables_of_apps (w_db v) = tables_of_apps (w_db w) \<and> own_files E t \<and>
     (\<exists>evs. w_trace v = w_trace w @ evs \<and> (\<forall>D. server_view (files_after evs D) t = server_view disk s) \<and>
       (\<forall>D p. p \<noteq> key_path E (srv_ID t) \<and> p \<noteq> token_path E (srv_ID t) \<longrightarrow> files_after evs D p = D p))"

lemma wp_insert_server:
  assumes "saves E" and "server_doc (reads_as V pass k) disk s x" and "restorable_server disk s" and "db_ok (w_db w)"
    and "srv_Name s \<notin> srv_Name ` set (servers (w_db w))"
  shows "wp (insert_server E (dec V pass k) x) (\<lambda>r v. \<exists>t. r = Inr (srv_ID t) \<and> restored E disk s w t v) w"
proof -
  obtain host user token where c: "credential_of disk s = (host, user, token)" by (cases "credential_of disk s")
  let ?i = "next_id TServers (w_db w)" and ?content = "key_of disk s"
  have x: "xs_Name x = srv_Name s" "xs_Host x = srv_Host s" "xs_Port x = srv_Port s" "xs_User x = srv_User s"
      "dec V pass k (xs_SSHKey x) = Inr ?content" "dec V pass k (xs_RegistryToken x) = Inr token"
      "xs_RegistryHost x = host" "xs_RegistryUser x = user"
    using assms(2) by (simp_all add: server_doc_def reads_as_def c)
  have s: "srv_Port s \<noteq> 0" "srv_User s \<noteq> []" "?content \<noteq> ''pending''"
      "(token = [] \<or> user = []) = (srv_RegistryToken s = [])"
    using assms(3) c by (auto simp: restorable_server_def credential_of_def split: if_splits)
  define svr where "svr = (server_defaults (imported_server x))\<lparr>srv_ID := ?i\<rparr>"
  have svr: "decided svr = (?i, srv_Name s, srv_Host s, srv_Port s, srv_User s, ''pending'', [], [], [])"
    using s(1,2) by (simp add: svr_def decided_def server_defaults_def imported_server_def new_server_def Let_def x)
  have fresh: "?i \<notin> server_ids (w_db w)"
    using next_id_fresh [OF assms(4)] by blast
  have none: "credential_of disk s = ([], [], [])" if "srv_RegistryToken s = []"
    using that by (simp add: credential_of_def)
  have create: "wp (Svc_Create (imported_server x)) (\<lambda>r v. r = Inr svr \<and> last_row w svr [] v) w"
    by (rule wp_mono [OF wp_Svc_Create_row]) (use assms(5) in \<open>auto simp: svr_def imported_server_def new_server_def x\<close>)
  define svr1 where "svr1 = (if ?content = [] then svr else svr\<lparr>srv_SSHKey := key_path E ?i\<rparr>)"
  define evs1 where "evs1 = (if ?content = [] then [] else [EvSaveFile (key_path E ?i) ?content])"
  define svr2 where "svr2 = (if srv_RegistryToken s = [] then svr1 else svr1\<lparr>srv_RegistryHost := host, srv_RegistryUser := user,
    srv_RegistryToken := token_path E ?i\<rparr>)"
  define evs2 where "evs2 = evs1 @ (if srv_RegistryToken s = [] then [] else [EvSaveFile (token_path E ?i) token])"
  have ids: "srv_ID svr = ?i" "srv_Name svr = srv_Name s" "srv_ID svr1 = ?i" "srv_Name svr1 = srv_Name s" "srv_ID svr2 = ?i"
    using svr by (simp_all add: decided_def svr1_def svr2_def)
  have key: "wp (import_key E ?content svr) (\<lambda>r v'. r = Inr svr1 \<and> last_row w svr1 evs1 v') v" if "last_row w svr [] v" for v
    by (rule wp_mono [OF wp_import_key [OF assms(1) that]])
      (use s(3) fresh assms(5) in \<open>auto simp: ids svr1_def evs1_def Let_def split: if_splits\<close>)
  have token: "wp (import_token E token host user svr1) (\<lambda>r v'. r = Inr svr2 \<and> last_row w svr2 evs2 v') v"
    if "last_row w svr1 evs1 v" for v
    by (rule wp_mono [OF wp_import_token [OF assms(1) that]])
      (use fresh assms(5) in \<open>auto simp: s(4) ids svr2_def evs2_def Let_def split: if_splits\<close>)
  have fin: "\<exists>t. srv_ID svr2 = srv_ID t \<and> restored E disk s w t v" if last: "last_row w svr2 evs2 v" for v
  proof -
    obtain t where t: "servers (w_db v) = servers (w_db w) @ [t]" "decided t = decided svr2"
      using last by (auto simp: last_row_def)
    have "server_view (files_after evs2 D) t = server_view disk s" for D
      using t(2) svr c none by (auto simp: server_view_def decided_def svr1_def svr2_def evs1_def evs2_def key_of_def [of _ t]
          credential_of_def [of _ t] files_after_def key_files token_path_nonempty split: if_splits)
    moreover have "own_files E t"
      using t(2) svr ids(5) by (auto simp: own_files_def decided_def svr1_def svr2_def)
    moreover have "srv_ID t = ?i"
      using t(2) ids(5) by (simp add: decided_def)
    moreover have "p \<noteq> key_path E ?i \<and> p \<noteq> token_path E ?i \<longrightarrow> files_after evs2 D p = D p" for D p
      by (auto simp: evs1_def evs2_def files_after_def)
    ultimately show ?thesis
      using last t(1) ids(5) by (auto simp: restored_def last_row_def)
  qed
  show ?thesis
    unfolding insert_server_def x sum.case prod.case wp_bind
    by (rule wp_mono [OF create]) (auto simp: wp_simps x intro!: fin wp_mono [OF key] wp_mono [OF token])
qed

text \<open>All servers of the document, one after the other.\<close>

definition server_loop :: "env \<Rightarrow> (string \<Rightarrow> string) \<Rightarrow> (string \<Rightarrow> string) \<Rightarrow> Server list \<Rightarrow> known_servers \<Rightarrow> world \<Rightarrow> bool" where
  "server_loop E D disk ss known w \<longleftrightarrow> db_ok (w_db w) \<and> (\<forall>t \<in> set (servers (w_db w)). own_files E t) \<and>
     map (server_view (files_after (w_trace w) D)) (servers (w_db w)) = map (server_view disk) ss \<and>
     (\<forall>t \<in> set (servers (w_db w)). known (srv_Name t) = Some (srv_ID t))"

lemma server_loop_names:
  assumes "server_loop E D disk ss known w"
  shows "srv_Name ` set (servers (w_db w)) = srv_Name ` set ss"
proof -
  have "map (server_view (files_after (w_trace w) D)) (servers (w_db w)) = map (server_view disk) ss"
    using assms by (simp add: server_loop_def)
  then have "map fst (map (server_view (files_after (w_trace w) D)) (servers (w_db w))) = map fst (map (server_view disk) ss)"
    by simp
  then have "map srv_Name (servers (w_db w)) = map srv_Name ss"
    by (simp add: server_view_def comp_def)
  then show ?thesis
    by (metis set_map)
qed

lemma server_loop_restored:
  assumes "server_loop E D disk ss known w" and "restored E disk s w t v" and "db_ok (w_db v)" and "srv_Name s \<notin> srv_Name ` set ss"
  shows "server_loop E D disk (ss @ [s]) (known(srv_Name s \<mapsto> srv_ID t)) v"
proof -
  obtain evs where evs: "w_trace v = w_trace w @ evs" "\<And>D. server_view (files_after evs D) t = server_view disk s"
      "\<And>D p. p \<noteq> key_path E (srv_ID t) \<Longrightarrow> p \<noteq> token_path E (srv_ID t) \<Longrightarrow> files_after evs D p = D p"
    using assms(2) by (auto simp: restored_def)
  have d: "servers (w_db v) = servers (w_db w) @ [t]"
    using assms(2) by (simp add: restored_def)
  have ids: "srv_ID u \<noteq> srv_ID t" if "u \<in> set (servers (w_db w))" for u
    using assms(3) that by (auto simp: d db_ok_def ids_inv_def ids_ok_def image_iff)
  have view: "server_view (files_after (w_trace v) D) u = server_view (files_after (w_trace w) D) u" if u: "u \<in> set (servers (w_db w))" for u
  proof -
    have "own_files E u"
      using assms(1) u by (simp add: server_loop_def)
    then show ?thesis
      using ids [OF u] by (auto simp: own_files_def server_view_def key_of_def credential_of_def evs(1) evs(3) key_files)
  qed
  have "map (server_view (files_after (w_trace w) D)) (servers (w_db w)) = map (server_view disk) ss"
    using assms(1) by (simp only: server_loop_def)
  with map_cong [OF refl view] have "map (server_view (files_after (w_trace v) D)) (servers (w_db w)) = map (server_view disk) ss"
    by (rule trans)
  moreover have "srv_Name u \<noteq> srv_Name s" if "u \<in> set (servers (w_db w))" for u
    using server_loop_names [OF assms(1)] assms(4) that by (metis image_eqI)
  moreover have "srv_Name t = srv_Name s"
    using evs(2) [of "\<lambda>_. []"] by (simp add: server_view_def)
  ultimately show ?thesis
    using assms(1-3) evs(1,2) by (auto simp: server_loop_def restored_def d)
qed

lemma steps_insert_server [stmts]: "steps (insert_server E decode x)"
proof -
  have "steps (Svc_Create s)" "steps (Svc_Update s)" "steps (SaveFile E p c)" for s p c
    unfolding Svc_Create_def Svc_Update_def by (intro stmts db_step.intros steps_db frame)+
  then show ?thesis
    unfolding insert_server_def import_key_def import_token_def by (intro stmts)
qed

lemma wp_result: "wp m Q w \<longleftrightarrow> Q (result m w) (exec m w)"
  by (simp add: wp_def run_state_exec_result)

lemma import_servers:
  assumes "saves E" and "list_all2 (server_doc (reads_as V pass k) disk) rest xs"
    and "distinct (map srv_Name (ss @ rest))" and "\<forall>s \<in> set rest. restorable_server disk s"
    and "server_loop E D disk ss known w"
  shows "\<exists>known' out'. result (loopM (import_server E (dec V pass k)) (known, out) xs) w = ((known', out'), None) \<and>
    server_loop E D disk (ss @ rest) known' (exec (loopM (import_server E (dec V pass k)) (known, out) xs) w) \<and>
    tables_of_apps (w_db (exec (loopM (import_server E (dec V pass k)) (known, out) xs) w)) = tables_of_apps (w_db w)"
  using assms(2-5)
proof (induction rest xs arbitrary: ss known out w rule: list_all2_induct)
  case (Cons s rest x xs)
  let ?m = "insert_server E (dec V pass k) x" and ?d = "w_db w"
  have names: "srv_Name ` set (servers ?d) = srv_Name ` set ss"
    using server_loop_names [OF Cons.prems(3)] .
  have new: "srv_Name s \<notin> srv_Name ` set (servers ?d)" "srv_Name s \<notin> srv_Name ` set ss"
    using Cons.prems(1) names by auto
  have ok: "db_ok ?d"
    using Cons.prems(3) by (simp add: server_loop_def)
  have x: "xs_Name x = srv_Name s"
    using Cons.hyps(1) by (simp add: server_doc_def)
  have "findServerByName (xs_Name x) ?d = None"
    using new(1) by (auto simp: findServerByName_def find_None_iff x image_iff)
  moreover obtain t where t: "result ?m w = Inr (srv_ID t)" "restored E disk s w t (exec ?m w)"
    using wp_insert_server [OF assms(1) Cons.hyps(1) _ ok new(1)] Cons.prems(2) by (auto simp: wp_result)
  ultimately obtain out' where run:
      "result (import_server E (dec V pass k) (known, out) x) w = ((known(srv_Name s \<mapsto> srv_ID t), out'), None)"
      "exec (import_server E (dec V pass k) (known, out) x) w = exec ?m w"
    by (simp add: import_server_def result_bind exec_bind x)
  have "server_loop E D disk (ss @ [s]) (known(srv_Name s \<mapsto> srv_ID t)) (exec ?m w)"
    by (rule server_loop_restored [OF Cons.prems(3) t(2) steps_db_ok [OF steps_insert_server ok] new(2)])
  from Cons.IH [OF _ _ this, of out'] show ?case
    using Cons.prems(1,2) t(2) by (simp add: result_bind exec_bind run restored_def del: fun_upd_apply)
qed simp

section \<open>One app\<close>

text \<open>A loop of steps that all succeed, with what holds after each.\<close>

lemma eachM_steps:
  assumes "\<And>seen x rest v. xs = seen @ x # rest \<Longrightarrow> P seen v \<Longrightarrow> wp (f x) (\<lambda>r v'. r = None \<and> P (seen @ [x]) v') v"
    and "P [] w"
  shows "wp (eachM xs f) (\<lambda>r v. r = None \<and> P xs v) w"
proof -
  have "wp (eachM rest f) (\<lambda>r v. r = None \<and> P xs v) v" if "xs = seen @ rest" "P seen v" for seen rest v
    using that
  proof (induction rest arbitrary: seen v)
    case (Cons x rest)
    then show ?case
      unfolding eachM.simps wp_bind by (intro wp_mono [OF assms(1) [OF Cons.prems]]) auto
  qed (simp add: wp_simps)
  from this [of "[]" xs w] show ?thesis
    using assms(2) by simp
qed

text \<open>Loops of upserts, in any keyed table of the database.\<close>

context keyed_store
begin

lemma puts_in_loop:
  fixes get :: "world \<Rightarrow> 'd"
  assumes "\<And>x v. x \<in> set xs \<Longrightarrow> allowed (get v) i (val x) \<Longrightarrow> K v \<Longrightarrow>
      wp (f x) (\<lambda>r v'. r = None \<and> get v' = snd (put i (key x) (val x) (get v)) \<and> K v') v"
    and "\<And>x. x \<in> set xs \<Longrightarrow> allowed (get w) i (val x)" and "K w" and "distinct (map key xs)"
  shows "wp (eachM xs f) (\<lambda>r v. r = None \<and> K v \<and> (\<forall>j l. lookup (get v) j l =
    (if j = i then (case map_of (map (\<lambda>x. (key x, val x)) xs) l of Some y \<Rightarrow> Some y | None \<Rightarrow> lookup (get w) i l)
     else lookup (get w) j l))) w"
proof -
  let ?P = "\<lambda>seen v. K v \<and> (\<forall>j y. allowed (get v) j y = allowed (get w) j y) \<and> (\<forall>j l. lookup (get v) j l =
    (if j = i then (case map_of (map (\<lambda>x. (key x, val x)) seen) l of Some y \<Rightarrow> Some y | None \<Rightarrow> lookup (get w) i l)
     else lookup (get w) j l))"
  have "wp (eachM xs f) (\<lambda>r v. r = None \<and> ?P xs v) w"
  proof (rule eachM_steps)
    fix seen x rest v
    assume xs: "xs = seen @ x # rest" and P: "?P seen v"
    have "key x \<notin> key ` set seen"
      using assms(4) by (auto simp: xs)
    then have "map_of (map (\<lambda>x. (key x, val x)) seen) (key x) = None"
      by (simp add: map_of_eq_None_iff image_image)
    moreover have ok: "allowed (get v) i (val x)"
      using P assms(2) by (simp add: xs)
    ultimately show "wp (f x) (\<lambda>r v'. r = None \<and> ?P (seen @ [x]) v') v"
      using P by (intro wp_mono [OF assms(1)]) (auto simp: xs lookup_put allowed_put map_add_def split: option.splits)
  qed (simp add: assms(3))
  then show ?thesis
    by (rule wp_mono) auto
qed

end

text \<open>The rows of one app in a table with unique keys, in any order.\<close>

lemma map_of_rows:
  assumes "distinct (map (\<lambda>r. (own r, key r)) rws)" and "mset xs = mset rws"
  shows "map_of (map (\<lambda>r. (key r, val r)) (filter (\<lambda>r. own r = i) xs)) l
    = map_option val (find (\<lambda>r. own r = i \<and> key r = l) rws)"
    and "distinct (map key (filter (\<lambda>r. own r = i) xs))"
proof -
  let ?ys = "filter (\<lambda>r. own r = i) xs"
  have set: "set xs = set rws"
    using assms(2) mset_eq_setD by blast
  have "distinct (map (\<lambda>r. (own r, key r)) xs)"
    using assms mset_eq_imp_distinct_iff by (metis mset_map)
  then show d: "distinct (map key ?ys)"
    by (induction xs) (auto simp: image_iff)
  show "map_of (map (\<lambda>r. (key r, val r)) ?ys) l = map_option val (find (\<lambda>r. own r = i \<and> key r = l) rws)"
  proof (cases "find (\<lambda>r. own r = i \<and> key r = l) rws")
    case None
    then have "map_of (map (\<lambda>r. (key r, val r)) ?ys) l = None"
      by (auto simp: find_None_iff map_of_eq_None_iff set)
    then show ?thesis
      by (simp add: None)
  next
    case (Some r)
    then have "r \<in> set ?ys" "key r = l"
      using set by (auto dest: find_SomeD)
    then show ?thesis
      using d by (auto simp: Some comp_def intro!: map_of_is_SomeI)
  qed
qed

lemma listed_secrets:
  assumes "db_ok d"
  shows "map_of (map (\<lambda>s. (sec_Key s, sec_Value s, sec_IsSecret s)) (filter (\<lambda>s. sec_AppID s = i) (Repo_ListAllSecrets d))) l
      = secret_of d i l"
    and "distinct (map sec_Key (filter (\<lambda>s. sec_AppID s = i) (Repo_ListAllSecrets d)))"
    and "map_of (map (\<lambda>f. (file_Path f, file_Content f)) (filter (\<lambda>f. file_AppID f = i) (Repo_ListAllFiles d))) l = file_of d i l"
    and "distinct (map file_Path (filter (\<lambda>f. file_AppID f = i) (Repo_ListAllFiles d)))"
proof -
  have keys: "distinct (map (\<lambda>s. (sec_AppID s, sec_Key s)) (app_secrets d))" "distinct (map (\<lambda>f. (file_AppID f, file_Path f)) (app_files d))"
    using assms by (simp_all add: db_ok_def keys_inv_def)
  have m: "mset (Repo_ListAllSecrets d) = mset (app_secrets d)" "mset (Repo_ListAllFiles d) = mset (app_files d)"
    by (simp_all add: Repo_ListAllSecrets_def Repo_ListAllFiles_def)
  note secs = map_of_rows [OF keys(1) m(1)] and files = map_of_rows [OF keys(2) m(2)]
  show "map_of (map (\<lambda>s. (sec_Key s, sec_Value s, sec_IsSecret s)) (filter (\<lambda>s. sec_AppID s = i) (Repo_ListAllSecrets d))) l
      = secret_of d i l" "distinct (map sec_Key (filter (\<lambda>s. sec_AppID s = i) (Repo_ListAllSecrets d)))"
    using secs by (simp_all add: secret_of_def)
  show "map_of (map (\<lambda>f. (file_Path f, file_Content f)) (filter (\<lambda>f. file_AppID f = i) (Repo_ListAllFiles d))) l = file_of d i l"
      "distinct (map file_Path (filter (\<lambda>f. file_AppID f = i) (Repo_ListAllFiles d)))"
    using files by (simp_all add: file_of_def)
qed

text \<open>The lists of a document against the rows they came from.\<close>

lemma all2_map: "list_all2 R xs ys \<Longrightarrow> (\<And>x y. R x y \<Longrightarrow> f x = g y) \<Longrightarrow> map f xs = map g ys"
  by (induction rule: list_all2_induct) auto

definition opened :: "string result \<Rightarrow> string" where
  "opened r = (case r of Inr x \<Rightarrow> x | Inl _ \<Rightarrow> [])"

lemma document_rows:
  assumes "list_all2 (\<lambda>s y. secret_doc (reads_as V pass k) s (i, y)) rws xs"
  shows "map (\<lambda>y. (xk_Key y, opened (dec V pass k (xk_Value y)), xk_IsSecret y)) xs = map (\<lambda>s. (sec_Key s, sec_Value s, sec_IsSecret s)) rws"
    and "map xk_Key xs = map sec_Key rws" and "\<forall>y \<in> set xs. \<exists>v. dec V pass k (xk_Value y) = Inr v"
  using assms
  by (auto intro!: all2_map [symmetric, OF assms] dest: all2_right simp: secret_doc_def reads_as_def opened_def)

lemma document_files:
  assumes "list_all2 (\<lambda>f y. file_doc (reads_as V pass k) f (i, y)) rws xs"
  shows "map (\<lambda>y. (xf_Path y, opened (dec V pass k (xf_Content y)))) xs = map (\<lambda>f. (file_Path f, file_Content f)) rws"
    and "map xf_Path xs = map file_Path rws" and "\<forall>y \<in> set xs. \<exists>v. dec V pass k (xf_Content y) = Inr v"
  using assms
  by (auto intro!: all2_map [symmetric, OF assms] dest: all2_right simp: file_doc_def reads_as_def opened_def)

text \<open>What an app keeps apart from the three tables that are filled.\<close>

lemma active_domains_iff:
  "dm \<in> active_domains d i \<longleftrightarrow> (\<exists>r \<in> set (routes d). rt_AppID r = i \<and> rt_Status r = ''active'' \<and> rt_Domain r = dm)"
  by (auto simp: active_domains_def)

lemma active_domains_SaveRoute:
  assumes "i \<in> app_ids d" and "sid \<in> server_ids d"
  shows "active_domains (snd (Repo_SaveRoute now (new_route i sid dm t) d)) j = active_domains d j \<union> (if j = i then {dm} else {})"
proof (cases "find (\<lambda>x. rt_AppID x = i \<and> rt_Domain x = dm) (routes d)")
  case None
  then show ?thesis
    using assms by (intro set_eqI) (auto simp: active_domains_iff Repo_SaveRoute_def new_route_def Let_def bump_def)
next
  case (Some x)
  then have "x \<in> set (routes d)" "rt_AppID x = i" "rt_Domain x = dm"
    by (auto dest: find_SomeD)
  then show ?thesis
    using assms by (intro set_eqI) (auto simp: active_domains_iff Repo_SaveRoute_def new_route_def Let_def Some
        simp del: if_image_distrib split: if_splits, metis)
qed

lemma wp_import_route:
  assumes "i \<in> app_ids (w_db w)" and "sid \<in> server_ids (w_db w)"
  shows "wp (import_route a i sid dm) (\<lambda>r v. r = None \<and> (apps (w_db v), servers (w_db v), app_secrets (w_db v), app_files (w_db v))
      = (apps (w_db w), servers (w_db w), app_secrets (w_db w), app_files (w_db w)) \<and>
    (\<forall>j. active_domains (w_db v) j = active_domains (w_db w) j \<union> (if j = i then {dm} else {}))) w"
proof -
  obtain r d where save: "Repo_SaveRoute (now_s w) (new_route i sid dm []) (w_db w) = (Inr r, d)"
    using route_store.put_accepted [of i "w_db w" sid "now_s w" dm "[]"] assms
    by (cases "Repo_SaveRoute (now_s w) (new_route i sid dm []) (w_db w)") auto
  have "(apps d, servers d, app_secrets d, app_files d) = (apps (w_db w), servers (w_db w), app_secrets (w_db w), app_files (w_db w))"
    using arg_cong [OF save, of snd] by (auto simp: Repo_SaveRoute_def bump_def Let_def split: option.splits if_splits)
  then show ?thesis
    using active_domains_SaveRoute [OF assms, of "now_s w" dm "[]"]
    by (simp add: import_route_def wp_simps save)
qed

text \<open>The tables an app's rows are in, apart from the one that is filled.\<close>

definition but_files :: "db \<Rightarrow> db" where
  "but_files d = d\<lparr>app_files := [], sqlite_sequence := (\<lambda>_. 0)\<rparr>"

lemma but_table_fields:
  "but_secrets d = but_secrets d' \<Longrightarrow> apps d = apps d' \<and> servers d = servers d' \<and> routes d = routes d' \<and> app_files d = app_files d'"
  "but_files d = but_files d' \<Longrightarrow> apps d = apps d' \<and> servers d = servers d' \<and> routes d = routes d' \<and> app_secrets d = app_secrets d'"
  by (cases d; cases d'; simp add: but_secrets_def but_files_def)+

lemma but_files_SetFile: "but_files (snd (Repo_SetFile i p c d)) = but_files d"
  by (simp add: but_files_def Repo_SetFile_def bump_def)

lemma wp_import_secrets:
  assumes "list_all2 (\<lambda>s y. secret_doc (reads_as V pass k) s (old, y)) (filter (\<lambda>s. sec_AppID s = old) (Repo_ListAllSecrets d)) xs"
    and "db_ok d" and "i \<in> app_ids (w_db w)" and "\<And>l. secret_of (w_db w) i l = None"
  shows "wp (eachM xs (import_secret (dec V pass k) a i)) (\<lambda>r v. r = None \<and> but_secrets (w_db v) = but_secrets (w_db w) \<and>
    (\<forall>j. secret_of (w_db v) j = (if j = i then secret_of d old else secret_of (w_db w) j))) w"
proof -
  let ?val = "\<lambda>y. (opened (dec V pass k (xk_Value y)), xk_IsSecret y)"
  note rws = document_rows [OF assms(1)] and listed = listed_secrets(1,2) [OF assms(2)]
  have keys: "distinct (map xk_Key xs)"
    unfolding rws(2) by (rule listed(2))
  have vals: "(case map_of (map (\<lambda>y. (xk_Key y, ?val y)) xs) l of Some z \<Rightarrow> Some z | None \<Rightarrow> secret_of (w_db w) i l) = secret_of d old l" for l
    using listed(1) by (simp add: rws(1) assms(4) split: option.split)
  have step: "wp (import_secret (dec V pass k) a i y)
      (\<lambda>r v'. r = None \<and> w_db v' = snd ((case ?val y of (x, b) \<Rightarrow> Repo_SetSecretWithType i (xk_Key y) x b) (w_db v))
        \<and> but_secrets (w_db v') = but_secrets (w_db w)) v"
    if y: "y \<in> set xs" "i \<in> app_ids (w_db v)" "but_secrets (w_db v) = but_secrets (w_db w)" for y v
  proof -
    from bspec [OF rws(3) y(1)] obtain x where x: "dec V pass k (xk_Value y) = Inr x" ..
    obtain r where r: "fst (Repo_SetSecretWithType i (xk_Key y) x (xk_IsSecret y) (w_db v)) = Inr r"
      using secret_store.put_accepted [OF y(2), of "xk_Key y" "(x, xk_IsSecret y)"] by auto
    then obtain d' where put: "Repo_SetSecretWithType i (xk_Key y) x (xk_IsSecret y) (w_db v) = (Inr r, d')"
      by (cases "Repo_SetSecretWithType i (xk_Key y) x (xk_IsSecret y) (w_db v)") simp
    have "but_secrets d' = but_secrets (w_db v)"
      using but_secrets_ops(1) [of i "xk_Key y" x "xk_IsSecret y" "w_db v"] by (simp add: put)
    then show ?thesis
      using y(3) by (simp add: import_secret_def wp_simps x opened_def put)
  qed
  note loop = secret_store.puts_in_loop [where get = w_db and K = "\<lambda>v. but_secrets (w_db v) = but_secrets (w_db w)" and w = w and xs = xs
    and i = i and key = xk_Key and val = ?val and f = "import_secret (dec V pass k) a i", OF step assms(3) refl keys, unfolded vals]
  show ?thesis
    by (rule wp_mono [OF loop]) (simp_all add: fun_eq_iff)
qed

lemma wp_import_files:
  assumes "list_all2 (\<lambda>f y. file_doc (reads_as V pass k) f (old, y)) (filter (\<lambda>f. file_AppID f = old) (Repo_ListAllFiles d)) xs"
    and "db_ok d" and "i \<in> app_ids (w_db w)" and "\<And>l. file_of (w_db w) i l = None"
  shows "wp (eachM xs (import_file (dec V pass k) a i)) (\<lambda>r v. r = None \<and> but_files (w_db v) = but_files (w_db w) \<and>
    (\<forall>j. file_of (w_db v) j = (if j = i then file_of d old else file_of (w_db w) j))) w"
proof -
  let ?val = "\<lambda>y. opened (dec V pass k (xf_Content y))"
  note rws = document_files [OF assms(1)] and listed = listed_secrets(3,4) [OF assms(2)]
  have keys: "distinct (map xf_Path xs)"
    unfolding rws(2) by (rule listed(2))
  have vals: "(case map_of (map (\<lambda>y. (xf_Path y, ?val y)) xs) l of Some z \<Rightarrow> Some z | None \<Rightarrow> file_of (w_db w) i l) = file_of d old l" for l
    using listed(1) by (simp add: rws(1) assms(4) split: option.split)
  have step: "wp (import_file (dec V pass k) a i y)
      (\<lambda>r v'. r = None \<and> w_db v' = snd (Repo_SetFile i (xf_Path y) (?val y) (w_db v))
        \<and> but_files (w_db v') = but_files (w_db w)) v"
    if y: "y \<in> set xs" "i \<in> app_ids (w_db v)" "but_files (w_db v) = but_files (w_db w)" for y v
  proof -
    from bspec [OF rws(3) y(1)] obtain x where x: "dec V pass k (xf_Content y) = Inr x" ..
    obtain r where r: "fst (Repo_SetFile i (xf_Path y) x (w_db v)) = Inr r"
      using file_store.put_accepted [OF y(2), of "xf_Path y" x] by auto
    then obtain d' where put: "Repo_SetFile i (xf_Path y) x (w_db v) = (Inr r, d')"
      by (cases "Repo_SetFile i (xf_Path y) x (w_db v)") simp
    have "but_files d' = but_files (w_db v)"
      using but_files_SetFile [of i "xf_Path y" x "w_db v"] by (simp add: put)
    then show ?thesis
      using y(3) by (simp add: import_file_def wp_simps x opened_def put)
  qed
  note loop = file_store.puts_in_loop [where get = w_db and K = "\<lambda>v. but_files (w_db v) = but_files (w_db w)" and w = w and xs = xs
    and i = i and key = xf_Path and val = ?val and f = "import_file (dec V pass k) a i", OF step assms(3) refl keys, unfolded vals]
  show ?thesis
    by (rule wp_mono [OF loop]) (simp_all add: fun_eq_iff)
qed

text \<open>The parts of an app whose row is there and nothing else of it.\<close>

lemma wp_fill_app:
  assumes "app_doc (reads_as V pass k) d b x" and "db_ok d" and "i \<in> app_ids (w_db w)" and "sid \<in> server_ids (w_db w)"
    and "active_domains (w_db w) i = {}" and "\<And>l. secret_of (w_db w) i l = None" and "\<And>l. file_of (w_db w) i l = None"
  shows "wp (fill_app (dec V pass k) x i sid) (\<lambda>r v. r = None \<and> apps (w_db v) = apps (w_db w) \<and> servers (w_db v) = servers (w_db w) \<and>
    (\<forall>j. active_domains (w_db v) j = (if j = i then app_domains d b else active_domains (w_db w) j) \<and>
         secret_of (w_db v) j = (if j = i then secret_of d (app_ID b) else secret_of (w_db w) j) \<and>
         file_of (w_db v) j = (if j = i then file_of d (app_ID b) else file_of (w_db w) j))) w"
proof -
  have doc: "set (xa_Domains x) = app_domains d b"
      "list_all2 (\<lambda>s y. secret_doc (reads_as V pass k) s (app_ID b, y)) (filter (\<lambda>s. sec_AppID s = app_ID b) (Repo_ListAllSecrets d)) (xa_Secrets x)"
      "list_all2 (\<lambda>f y. file_doc (reads_as V pass k) f (app_ID b, y)) (filter (\<lambda>f. file_AppID f = app_ID b) (Repo_ListAllFiles d)) (xa_Files x)"
    using assms(1) by (simp_all add: app_doc_def)
  let ?same = "\<lambda>v. (apps (w_db v), servers (w_db v), app_secrets (w_db v), app_files (w_db v))
      = (apps (w_db w), servers (w_db w), app_secrets (w_db w), app_files (w_db w))"
  let ?P = "\<lambda>seen v. ?same v \<and> (\<forall>j. active_domains (w_db v) j = (if j = i then set seen else active_domains (w_db w) j))"
  have doms: "wp (eachM (xa_Domains x) (import_route x i sid)) (\<lambda>r v. r = None \<and> ?P (xa_Domains x) v) w"
  proof (rule eachM_steps)
    fix seen dm rest and v :: world
    assume "?P seen v"
    then show "wp (import_route x i sid dm) (\<lambda>r v'. r = None \<and> ?P (seen @ [dm]) v') v"
      using assms(3,4) by (intro wp_mono [OF wp_import_route]) (auto simp: app_ids_def server_ids_def)
  qed (simp add: assms(5))
  have secs: "wp (eachM (xa_Secrets x) (import_secret (dec V pass k) x i)) (\<lambda>r v'. r = None \<and> but_secrets (w_db v') = but_secrets (w_db v) \<and>
      (\<forall>j. secret_of (w_db v') j = (if j = i then secret_of d (app_ID b) else secret_of (w_db w) j))) v" if "?same v" for v
  proof -
    have "secret_of (w_db v) = secret_of (w_db w)"
      using that by (intro ext) (simp add: secret_of_def)
    moreover have "i \<in> app_ids (w_db v)"
      using assms(3) that by (simp add: app_ids_def)
    ultimately show ?thesis
      using wp_import_secrets [OF doc(2) assms(2), of i v x] assms(6) by (simp only: simp_thms)
  qed
  have files: "wp (eachM (xa_Files x) (import_file (dec V pass k) x i)) (\<lambda>r v'. r = None \<and> but_files (w_db v') = but_files (w_db v) \<and>
      (\<forall>j. file_of (w_db v') j = (if j = i then file_of d (app_ID b) else file_of (w_db w) j))) v"
    if "apps (w_db v) = apps (w_db w)" "app_files (w_db v) = app_files (w_db w)" for v
  proof -
    have "file_of (w_db v) = file_of (w_db w)"
      using that by (intro ext) (simp add: file_of_def)
    moreover have "i \<in> app_ids (w_db v)"
      using assms(3) that by (simp add: app_ids_def)
    ultimately show ?thesis
      using wp_import_files [OF doc(3) assms(2), of i v x] assms(7) by (simp only: simp_thms)
  qed
  have act: "active_domains d' = active_domains d''" if "routes d' = routes d''" for d' d''
    using that by (intro ext) (simp add: active_domains_def)
  have sec: "secret_of d' = secret_of d''" if "app_secrets d' = app_secrets d''" for d' d''
    using that by (intro ext) (simp add: secret_of_def)
  let ?Q = "\<lambda>v. apps (w_db v) = apps (w_db w) \<and> servers (w_db v) = servers (w_db w) \<and>
    (\<forall>j. active_domains (w_db v) j = (if j = i then app_domains d b else active_domains (w_db w) j) \<and>
         secret_of (w_db v) j = (if j = i then secret_of d (app_ID b) else secret_of (w_db w) j) \<and>
         file_of (w_db v) j = (if j = i then file_of d (app_ID b) else file_of (w_db w) j))"
  have after_files: "wp (eachM (xa_Files x) (import_file (dec V pass k) x i)) (\<lambda>r v'. r = None \<and> ?Q v') v"
    if d: "but_secrets (w_db v) = but_secrets (w_db v1)" "?P (xa_Domains x) v1"
      "\<forall>j. secret_of (w_db v) j = (if j = i then secret_of d (app_ID b) else secret_of (w_db w) j)" for v v1
  proof -
    note same = but_table_fields(1) [OF d(1)]
    have "wp (eachM (xa_Files x) (import_file (dec V pass k) x i)) (\<lambda>r v'. r = None \<and> but_files (w_db v') = but_files (w_db v) \<and>
        (\<forall>j. file_of (w_db v') j = (if j = i then file_of d (app_ID b) else file_of (w_db w) j))) v"
      by (rule files) (use same d(2) in simp_all)
    then show ?thesis
    proof (rule wp_mono)
      fix r and v' :: world
      assume a: "r = None \<and> but_files (w_db v') = but_files (w_db v) \<and>
        (\<forall>j. file_of (w_db v') j = (if j = i then file_of d (app_ID b) else file_of (w_db w) j))"
      then have same': "apps (w_db v') = apps (w_db v) \<and> servers (w_db v') = servers (w_db v) \<and> routes (w_db v') = routes (w_db v) \<and>
          app_secrets (w_db v') = app_secrets (w_db v)"
        using but_table_fields(2) by blast
      have "active_domains (w_db v') = active_domains (w_db v1)" "secret_of (w_db v') = secret_of (w_db v)"
        using same same' by (auto intro!: act sec)
      then show "r = None \<and> ?Q v'"
        using a same same' d(2,3) by (simp add: doc(1))
    qed
  qed
  have after_secrets: "wp (State_Monad.bind (eachM (xa_Secrets x) (import_secret (dec V pass k) x i))
      (\<lambda>e2. case e2 of None \<Rightarrow> eachM (xa_Files x) (import_file (dec V pass k) x i) | Some err \<Rightarrow> ret (Some err)))
      (\<lambda>r v'. r = None \<and> ?Q v') v" if "?P (xa_Domains x) v" for v
    unfolding wp_bind
    by (rule wp_mono [OF secs]) (use that in \<open>auto simp only: option.case intro!: after_files\<close>)
  show ?thesis
    unfolding fill_app_def wp_bind
    by (rule wp_mono [OF doms]) (use after_secrets in \<open>auto simp only: option.case wp_bind\<close>)
qed

section \<open>All apps\<close>

type_synonym app_view = "App \<times> string \<times> string set \<times> (string \<Rightarrow> (string \<times> bool) option) \<times> (string \<Rightarrow> string option)"

definition app_view :: "db \<Rightarrow> App \<Rightarrow> app_view" where
  "app_view d a = (app_config a, server_name_of (Srv_List d) (app_ServerID a), app_domains d a, secret_of d (app_ID a),
     file_of d (app_ID a))"

lemma server_name_of_row:
  assumes "db_ok d" and "t \<in> set (servers d)"
  shows "server_name_of (Srv_List d) (srv_ID t) = srv_Name t"
proof -
  have "mset (map srv_ID (Srv_List d)) = mset (map srv_ID (servers d))"
    by (simp add: Srv_List_def)
  moreover have "distinct (map srv_ID (servers d))"
    using assms(1) by (simp add: db_ok_def ids_inv_def ids_ok_def)
  ultimately have "distinct (map srv_ID (Srv_List d))"
    using mset_eq_imp_distinct_iff by blast
  then show ?thesis
    using find_distinct [of srv_ID "Srv_List d" t] assms(2) by (simp add: server_name_of_def)
qed

text \<open>An id that no app has, has no rows.\<close>

lemma no_rows:
  assumes "db_ok d" and "i \<notin> app_ids d"
  shows "active_domains d i = {}" and "secret_of d i l = None" and "file_of d i l = None"
proof -
  have "\<forall>r \<in> set (routes d). rt_AppID r \<noteq> i" "\<forall>s \<in> set (app_secrets d). sec_AppID s \<noteq> i" "\<forall>f \<in> set (app_files d). file_AppID f \<noteq> i"
    using assms by (auto simp: db_ok_def refs_inv_def refs_ok_def)
  then show "active_domains d i = {}" "secret_of d i l = None" "file_of d i l = None"
    by (auto simp: active_domains_def secret_of_def file_of_def find_None_iff)
qed

lemma wp_insert_app:
  assumes "app_doc (reads_as V pass k) d b x" and "db_ok d" and "db_ok (w_db w)" and "sid \<in> server_ids (w_db w)"
    and "app_Name b \<notin> app_Name ` set (apps (w_db w))"
    and "server_name_of (Srv_List (w_db w)) sid = server_name_of (Srv_List d) (app_ServerID b)"
  shows "wp (insert_app (dec V pass k) x sid) (\<lambda>r v. r = None \<and> servers (w_db v) = servers (w_db w) \<and>
    map (app_view (w_db v)) (apps (w_db v)) = map (app_view (w_db w)) (apps (w_db w)) @ [app_view d b]) w"
proof -
  let ?d = "w_db w" and ?i = "next_id TApps (w_db w)" and ?row = "imported_app x sid (app_AuthPass b)"
  define t where "t = ?row\<lparr>app_ID := ?i, app_Status := defaultStatus [], app_CreatedAt := now_s w, app_UpdatedAt := now_s w\<rparr>"
  define d1 where "d1 = bump TApps (?d\<lparr>apps := apps ?d @ [t]\<rparr>)"
  have doc: "dec V pass k (xa_AuthPass x) = Inr (app_AuthPass b)" "app_config ?row = app_config b" "xa_Name x = app_Name b"
      "xa_Domain x = app_Domain b"
    using assms(1) app_doc_fields [OF assms(1)] by (simp_all add: app_doc_def reads_as_def)
  have create: "Repo_Create (now_s w) ?row ?d = (Inr ?i, d1)"
    using assms(4,5) by (simp add: Repo_Create_def Let_def d1_def t_def imported_app_def doc server_ref_def)
  have fresh: "?i \<notin> app_ids ?d"
    using next_id_fresh [OF assms(3)] by blast
  have t: "app_ID t = ?i" "app_ServerID t = sid" "app_config t = app_config b" "app_Domain t = app_Domain b"
    using doc(2,4) by (simp_all add: t_def app_config_def imported_app_def)
  have d1: "apps d1 = apps ?d @ [t]" "servers d1 = servers ?d" "active_domains d1 = active_domains ?d" "secret_of d1 = secret_of ?d"
      "file_of d1 = file_of ?d"
    by (auto simp: d1_def bump_def active_domains_def secret_of_def file_of_def fun_eq_iff)
  have start: "?i \<in> app_ids d1" "sid \<in> server_ids d1" "active_domains d1 ?i = {}" "\<And>l. secret_of d1 ?i l = None" "\<And>l. file_of d1 ?i l = None"
    using no_rows [OF assms(3) fresh] assms(4) by (simp_all add: d1 app_ids_def server_ids_def t(1))
  have view: "map (app_view (w_db v)) (apps (w_db v)) = map (app_view ?d) (apps ?d) @ [app_view d b]"
    if v: "apps (w_db v) = apps d1" "servers (w_db v) = servers d1"
      "\<forall>j. active_domains (w_db v) j = (if j = ?i then app_domains d b else active_domains d1 j) \<and>
         secret_of (w_db v) j = (if j = ?i then secret_of d (app_ID b) else secret_of d1 j) \<and>
         file_of (w_db v) j = (if j = ?i then file_of d (app_ID b) else file_of d1 j)" for v :: world
  proof -
    have list: "Srv_List (w_db v) = Srv_List ?d"
      by (simp add: Srv_List_def v(2) d1(2))
    have "app_ID a \<noteq> ?i" if "a \<in> set (apps ?d)" for a
      using fresh that by (auto simp: app_ids_def image_iff)
    then have "map (app_view (w_db v)) (apps ?d) = map (app_view ?d) (apps ?d)"
      using v(3) by (auto simp: app_view_def list app_domains_def d1)
    moreover have "app_view (w_db v) t = app_view d b"
      using v(3) t assms(6) by (auto simp: app_view_def list app_domains_def)
    ultimately show ?thesis
      by (simp add: v(1) d1(1))
  qed
  show ?thesis
    unfolding insert_app_def doc(1) sum.case wp_bind wp_db_try create prod.case
    by (rule wp_mono [OF wp_fill_app [OF assms(1,2)]]) (use start view d1(2) in auto)
qed

lemma view_names:
  assumes "map (app_view d') rws = map (app_view d) as"
  shows "app_Name ` set rws = app_Name ` set as"
proof -
  have "map (app_Name \<circ> fst) (map (app_view d') rws) = map (app_Name \<circ> fst) (map (app_view d) as)"
    using assms by simp
  then have "map app_Name rws = map app_Name as"
    by (simp add: app_view_def app_config_def comp_def)
  then show ?thesis
    by (metis set_map)
qed

lemma wp_import_app:
  assumes "app_doc (reads_as V pass k) d b x" and "db_ok d" and "app_ServerID b \<in> server_ids d" and "db_ok (w_db w)"
    and "app_Name b \<notin> app_Name ` set (apps (w_db w))" and "srv_Name ` set (servers d) \<subseteq> srv_Name ` set (servers (w_db w))"
    and "\<forall>t \<in> set (servers (w_db w)). known (srv_Name t) = Some (srv_ID t)"
  shows "wp (import_app (dec V pass k) known out x) (\<lambda>r v. snd r = None \<and> servers (w_db v) = servers (w_db w) \<and>
    map (app_view (w_db v)) (apps (w_db v)) = map (app_view (w_db w)) (apps (w_db w)) @ [app_view d b]) w"
proof -
  obtain u where u: "u \<in> set (servers d)" "srv_ID u = app_ServerID b"
    using assms(3) by (auto simp: server_ids_def)
  have "srv_Name u \<in> srv_Name ` set (servers (w_db w))"
    using assms(6) u(1) by blast
  then obtain t where t: "t \<in> set (servers (w_db w))" "srv_Name t = srv_Name u"
    by (metis imageE)
  have name: "server_name_of (Srv_List d) (app_ServerID b) = srv_Name t"
    using server_name_of_row [OF assms(2) u(1)] by (simp add: u(2) t(2))
  have x: "xa_Name x = app_Name b" "xa_ServerName x = srv_Name t"
    using assms(1) app_doc_fields(1) [OF assms(1)] by (simp_all add: app_doc_def name)
  have none: "findAppByName (app_Name b) (w_db w) = None"
    using assms(5) by (auto simp: findAppByName_def find_None_iff image_iff)
  have "srv_ID t \<in> server_ids (w_db w)" "server_name_of (Srv_List (w_db w)) (srv_ID t) = server_name_of (Srv_List d) (app_ServerID b)"
    using t(1) server_name_of_row [OF assms(4) t(1)] by (simp_all add: server_ids_def name)
  note insert = wp_insert_app [OF assms(1,2,4) this(1) assms(5) this(2)]
  have "known (srv_Name t) = Some (srv_ID t)"
    using assms(7) t(1) by blast
  then show ?thesis
    unfolding import_app_def x wp_bind
    by (simp add: wp_simps none) (rule wp_mono [OF insert], simp add: wp_simps)
qed

lemma steps_import_apps: "steps (loopM (import_app decode known) out xs)"
  by (intro stmts)

lemma import_apps:
  assumes "list_all2 (app_doc (reads_as V pass k) d) rest xs" and "db_ok d"
    and "distinct (map app_Name (as @ rest))" and "\<forall>a \<in> set rest. app_ServerID a \<in> server_ids d"
    and "srv_Name ` set (servers d) \<subseteq> srv_Name ` set (servers (w_db w))"
    and "\<forall>t \<in> set (servers (w_db w)). known (srv_Name t) = Some (srv_ID t)"
    and "db_ok (w_db w)" and "map (app_view (w_db w)) (apps (w_db w)) = map (app_view d) as"
  shows "wp (loopM (import_app (dec V pass k) known) out xs) (\<lambda>r v. snd r = None \<and> servers (w_db v) = servers (w_db w) \<and>
    map (app_view (w_db v)) (apps (w_db v)) = map (app_view d) (as @ rest)) w"
  using assms(1,3-)
proof (induction rest xs arbitrary: as out w rule: list_all2_induct)
  case (Cons b rest x xs)
  let ?m = "import_app (dec V pass k) known out x"
  have new: "app_Name b \<notin> app_Name ` set (apps (w_db w))"
    using Cons.prems(1) view_names [OF Cons.prems(6)] by auto
  have sid: "app_ServerID b \<in> server_ids d"
    using Cons.prems(2) by simp
  have one: "wp ?m (\<lambda>r v. snd r = None \<and> db_ok (w_db v) \<and> servers (w_db v) = servers (w_db w) \<and>
      map (app_view (w_db v)) (apps (w_db v)) = map (app_view d) (as @ [b])) w"
    using wp_import_app [OF Cons.hyps(1) assms(2) sid Cons.prems(5) new Cons.prems(3,4), of out]
      steps_db_ok [OF steps_import(4) Cons.prems(5), of "dec V pass k" known out x] Cons.prems(6)
    by (simp add: wp_result)
  show ?case
    unfolding loopM.simps wp_bind
  proof (rule wp_mono [OF one])
    fix r :: "import_log \<times> error option" and v :: world
    assume a: "snd r = None \<and> db_ok (w_db v) \<and> servers (w_db v) = servers (w_db w) \<and>
      map (app_view (w_db v)) (apps (w_db v)) = map (app_view d) (as @ [b])"
    then have "wp (loopM (import_app (dec V pass k) known) (fst r) xs) (\<lambda>r v'. snd r = None \<and> servers (w_db v') = servers (w_db v) \<and>
        map (app_view (w_db v')) (apps (w_db v')) = map (app_view d) ((as @ [b]) @ rest)) v"
      using Cons.prems by (intro Cons.IH) auto
    then show "wp (case r of (b', None) \<Rightarrow> loopM (import_app (dec V pass k) known) b' xs | (b', Some err) \<Rightarrow> ret (b', Some err))
        (\<lambda>r v. snd r = None \<and> servers (w_db v) = servers (w_db w) \<and> map (app_view (w_db v)) (apps (w_db v)) = map (app_view d) (as @ b # rest)) v"
      using a by (cases r) simp
  qed
qed (simp add: wp_simps)

section \<open>Property\<close>

text \<open>An installation whose configuration a document can carry and an import restore.\<close>

definition restorable :: "string \<Rightarrow> (string \<Rightarrow> string) \<Rightarrow> db \<Rightarrow> bool" where
  "restorable pass disk d \<longleftrightarrow> db_ok d \<and> portable pass disk d \<and> distinct (map srv_Name (servers d)) \<and>
     distinct (map app_Name (apps d)) \<and> (\<forall>s \<in> set (servers d). restorable_server disk s) \<and>
     (\<forall>a \<in> set (apps d). app_ServerID a \<in> server_ids d)"

text \<open>
  What the cipher and the YAML library document: what was sealed opens, and what was written is read
  back, comment lines before it ignored.
\<close>

definition backup_laws :: "backup_env \<Rightarrow> string \<Rightarrow> bool" where
  "backup_laws V pass \<longleftrightarrow> (\<forall>salt a. bk_aead V pass salt = Inr a \<longrightarrow> opens a) \<and>
     (\<forall>x out. bk_marshal V x = Inr out \<longrightarrow> bk_unmarshal V (export_header pass @ out) = Inr x)"

lemma distinct_sort_key: "distinct (map f (sort_key g xs)) = distinct (map f xs)"
proof -
  have "mset (map f (sort_key g xs)) = mset (map f xs)" by simp
  then show ?thesis using mset_eq_imp_distinct_iff by blast
qed

lemma import_restores:
  assumes "document (reads_as V pass k) disk d x" and "restorable pass disk d" and "saves E" and "cleared (w_db w)"
    and "db_ok (w_db w)"
  shows "wp (import_rows E (dec V pass k) out (xd_Servers x) (xd_Apps x)) (\<lambda>r v. snd r = None \<and>
     map (server_view (files_after (w_trace v) D)) (servers (w_db v)) = map (server_view disk) (Srv_List d) \<and>
     map (app_view (w_db v)) (apps (w_db v)) = map (app_view d) (Repo_List d)) w"
proof -
  have d: "db_ok d" "distinct (map srv_Name (Srv_List d))" "distinct (map app_Name (Repo_List d))"
      "\<forall>s \<in> set (Srv_List d). restorable_server disk s" "\<forall>a \<in> set (Repo_List d). app_ServerID a \<in> server_ids d"
    using assms(2) by (simp_all add: restorable_def Srv_List_def Repo_List_def distinct_sort_key)
  have docs: "list_all2 (server_doc (reads_as V pass k) disk) (Srv_List d) (xd_Servers x)"
      "list_all2 (app_doc (reads_as V pass k) d) (Repo_List d) (xd_Apps x)"
    using assms(1) by (simp_all add: document_def)
  let ?m = "loopM (import_server E (dec V pass k)) (\<lambda>_. None, out) (xd_Servers x)"
  let ?w = "exec ?m w"
  have "server_loop E D disk [] (\<lambda>_. None) w"
    using assms(4,5) by (simp add: server_loop_def cleared_def)
  from import_servers [OF assms(3) docs(1) _ d(4) this, of out] d(2)
  obtain known out' where svrs: "result ?m w = ((known, out'), None)" "server_loop E D disk (Srv_List d) known ?w"
      "tables_of_apps (w_db ?w) = tables_of_apps (w_db w)"
    by auto
  let ?n = "loopM (import_app (dec V pass k) known) out' (xd_Apps x)"
  have names: "srv_Name ` set (servers (w_db ?w)) = srv_Name ` set (servers d)"
    using server_loop_names [OF svrs(2)] by simp
  have loop: "db_ok (w_db ?w)" "\<forall>t \<in> set (servers (w_db ?w)). known (srv_Name t) = Some (srv_ID t)"
      "map (server_view (files_after (w_trace ?w) D)) (servers (w_db ?w)) = map (server_view disk) (Srv_List d)"
    using svrs(2) by (simp_all add: server_loop_def)
  have "wp ?n (\<lambda>r v. snd r = None \<and> servers (w_db v) = servers (w_db ?w) \<and>
      map (app_view (w_db v)) (apps (w_db v)) = map (app_view d) ([] @ Repo_List d)) ?w"
    by (rule import_apps [OF docs(2) d(1) _ d(5) _ loop(2,1)]) (use d(3) names svrs(3) assms(4) in \<open>simp_all add: cleared_def\<close>)
  then have apps: "snd (result ?n ?w) = None" "servers (w_db (exec ?n ?w)) = servers (w_db ?w)"
      "map (app_view (w_db (exec ?n ?w))) (apps (w_db (exec ?n ?w))) = map (app_view d) (Repo_List d)"
    by (simp_all add: wp_result)
  have "keeps w_trace ?n"
    unfolding import_app_def insert_app_def fill_app_def import_route_def import_secret_def import_file_def by (intro frame)
  then have "w_trace (exec ?n ?w) = w_trace ?w"
    by (rule keepsD)
  then show ?thesis
    unfolding import_rows_def wp_result using apps loop(3) by (simp add: result_bind exec_bind svrs(1))
qed


lemma result_modify: "result (modify f) w = ()" "exec (modify f) w = f w"
  by (simp_all add: exec_def result_def)

definition source_world :: world where
  "source_world = sample_world\<lparr>w_db := sample_db\<lparr>apps := [sample_app\<lparr>app_GitBranch := ''main''\<rparr>]\<rparr>\<rparr>"

definition sample_cipher :: AEAD where
  "sample_cipher = \<lparr> Seal = (\<lambda>_ p. p), Open = (\<lambda>_ c. Inr c) \<rparr>"

definition exported :: "ExportData result" where
  "exported = result (export_data sample_env (Some (replicate 16 CHR 0x00, sample_cipher))) (exec (Random sample_env 16) source_world)"

definition one_document :: backup_env where
  "one_document = \<lparr> bk_aead = (\<lambda>_ _. Inr sample_cipher), bk_marshal = (\<lambda>x. if exported = Inr x then Inr ''doc'' else Inl ''other''),
     bk_unmarshal = (\<lambda>_. exported) \<rparr>"


end
