(* ===== verification/Migrations.thy ===== *)
theory Migrations
  imports Store "HOL-Library.AList"
begin

text \<open>
  Opening and upgrading the database, from \<open>internal/db/db.go\<close>. Here a database is the file as SQLite has
  it: the tables with their columns and rows, the indexes, \<open>sqlite_sequence\<close> and
  \<open>user_version\<close>. Every statement may fail for a reason of its own (a full disk, a lock): the failures
  are a function of the number of statements so far. A value that is filled in by
  \<open>CURRENT_TIMESTAMP\<close> is \<open>VNow\<close>.
\<close>

section \<open>The file\<close>

datatype val = VNull | VInt int | VReal rat | VText string | VNow

datatype on_delete = NoAction | Cascade | SetNull

record column =
  cl_name :: string
  cl_type :: string
  cl_notnull :: bool
  cl_default :: val
  cl_ref :: "(string \<times> on_delete) option"

type_synonym tuple = "string \<Rightarrow> val"

record tbl =
  tb_cols :: "column list"
  tb_rows :: "tuple list"

record index =
  ix_table :: string
  ix_cols :: "string list"
  ix_unique :: bool

record dbfile =
  df_version :: nat
  df_tables :: "(string \<times> tbl) list"
  df_indexes :: "(string \<times> index) list"
  df_seq :: "(string \<times> int) list"

type_synonym failures = "nat \<Rightarrow> error option"

type_synonym 'a sql = "(dbfile \<times> nat, 'a result) state"

section \<open>Statements\<close>

definition stmt :: "failures \<Rightarrow> (dbfile \<Rightarrow> ('a \<times> dbfile) result) \<Rightarrow> 'a sql" where
  "stmt F g = State (\<lambda>(f, n). case F n of
       Some err \<Rightarrow> (Inl err, (f, Suc n))
     | None \<Rightarrow> (case g f of Inl err \<Rightarrow> (Inl err, (f, Suc n)) | Inr (x, f') \<Rightarrow> (Inr x, (f', Suc n))))"

definition query :: "failures \<Rightarrow> (dbfile \<Rightarrow> 'a) \<Rightarrow> 'a sql" where
  "query F g = stmt F (\<lambda>f. Inr (g f, f))"

definition ok_bind :: "'a sql \<Rightarrow> ('a \<Rightarrow> 'b sql) \<Rightarrow> 'b sql" where
  "ok_bind m g = do { r \<leftarrow> m; case r of Inl err \<Rightarrow> ret (Inl err) | Inr x \<Rightarrow> g x }"

definition wrap_error :: "(error \<Rightarrow> error) \<Rightarrow> 'a sql \<Rightarrow> 'a sql" where
  "wrap_error h m = do { r \<leftarrow> m; ret (case r of Inl err \<Rightarrow> Inl (h err) | Inr x \<Rightarrow> Inr x) }"

fun for_ok :: "'a list \<Rightarrow> ('a \<Rightarrow> unit sql) \<Rightarrow> unit sql" where
  "for_ok [] g = ret (Inr ())"
| "for_ok (x # xs) g = ok_bind (g x) (\<lambda>_. for_ok xs g)"

definition columns_of :: "dbfile \<Rightarrow> string \<Rightarrow> string list" where
  "columns_of f t = (case map_of (df_tables f) t of None \<Rightarrow> [] | Some tb \<Rightarrow> map cl_name (tb_cols tb))"

definition put_table :: "string \<Rightarrow> tbl \<Rightarrow> dbfile \<Rightarrow> dbfile" where
  "put_table t tb f = f\<lparr>df_tables := AList.update t tb (df_tables f)\<rparr>"

definition no_table :: "string \<Rightarrow> error" where
  "no_table t = ''SQL logic error: no such table: '' @ t"

definition with_table :: "string \<Rightarrow> (tbl \<Rightarrow> dbfile \<Rightarrow> dbfile result) \<Rightarrow> dbfile \<Rightarrow> (unit \<times> dbfile) result" where
  "with_table t g f = (case map_of (df_tables f) t of
     None \<Rightarrow> Inl (no_table t) | Some tb \<Rightarrow> (case g tb f of Inl err \<Rightarrow> Inl err | Inr f' \<Rightarrow> Inr ((), f')))"

definition create_table :: "string \<Rightarrow> column list \<Rightarrow> dbfile \<Rightarrow> (unit \<times> dbfile) result" where
  "create_table t cols f = (case map_of (df_tables f) t of
     Some _ \<Rightarrow> Inl (''SQL logic error: table '' @ t @ '' already exists'')
   | None \<Rightarrow> Inr ((), put_table t \<lparr> tb_cols = cols, tb_rows = [] \<rparr> f))"

definition add_column :: "string \<Rightarrow> column \<Rightarrow> dbfile \<Rightarrow> (unit \<times> dbfile) result" where
  "add_column t c = with_table t (\<lambda>tb f. Inr (put_table t
     \<lparr> tb_cols = tb_cols tb @ [c], tb_rows = map (\<lambda>r. r(cl_name c := cl_default c)) (tb_rows tb) \<rparr> f))"

definition drop_column :: "string \<Rightarrow> string \<Rightarrow> dbfile \<Rightarrow> (unit \<times> dbfile) result" where
  "drop_column t c = with_table t (\<lambda>tb f.
     if list_ex (\<lambda>(_, i). ix_table i = t \<and> c \<in> set (ix_cols i)) (df_indexes f)
     then Inl (''SQL logic error: error in index after drop column: no such column: '' @ c)
     else Inr (put_table t (tb\<lparr>tb_cols := filter (\<lambda>k. cl_name k \<noteq> c) (tb_cols tb)\<rparr>) f))"

definition update_rows :: "string \<Rightarrow> (tuple \<Rightarrow> tuple) \<Rightarrow> dbfile \<Rightarrow> (unit \<times> dbfile) result" where
  "update_rows t g = with_table t (\<lambda>tb f. Inr (put_table t (tb\<lparr>tb_rows := map g (tb_rows tb)\<rparr>) f))"

definition delete_rows :: "string \<Rightarrow> (tuple list \<Rightarrow> tuple \<Rightarrow> bool) \<Rightarrow> dbfile \<Rightarrow> (unit \<times> dbfile) result" where
  "delete_rows t P = with_table t (\<lambda>tb f.
     Inr (put_table t (tb\<lparr>tb_rows := filter (\<lambda>r. \<not> P (tb_rows tb) r) (tb_rows tb)\<rparr>) f))"

text \<open>A unique index takes rows that differ in a column or have a NULL.\<close>

fun clash :: "string list \<Rightarrow> tuple list \<Rightarrow> bool" where
  "clash cs [] = False"
| "clash cs (r # rs) = ((list_all (\<lambda>c. r c \<noteq> VNull) cs \<and> list_ex (\<lambda>s. map s cs = map r cs) rs) \<or> clash cs rs)"

definition create_index :: "string \<Rightarrow> index \<Rightarrow> dbfile \<Rightarrow> (unit \<times> dbfile) result" where
  "create_index name i f = with_table (ix_table i) (\<lambda>tb f.
     if map_of (df_indexes f) name \<noteq> None then Inl (''SQL logic error: index '' @ name @ '' already exists'')
     else if ix_unique i \<and> clash (ix_cols i) (tb_rows tb) then Inl (''constraint failed: UNIQUE constraint failed'')
     else Inr (f\<lparr>df_indexes := (name, i) # df_indexes f\<rparr>)) f"

definition drop_table :: "string \<Rightarrow> dbfile \<Rightarrow> (unit \<times> dbfile) result" where
  "drop_table t = with_table t (\<lambda>_ f. Inr (f\<lparr>df_tables := AList.delete t (df_tables f),
     df_indexes := filter (\<lambda>(_, i). ix_table i \<noteq> t) (df_indexes f), df_seq := AList.delete t (df_seq f)\<rparr>))"

definition rename_table :: "string \<Rightarrow> string \<Rightarrow> dbfile \<Rightarrow> (unit \<times> dbfile) result" where
  "rename_table t u = with_table t (\<lambda>tb f.
     if map_of (df_tables f) u \<noteq> None then Inl (''SQL logic error: there is already another table or index with this name: '' @ u)
     else Inr (f\<lparr>df_tables := AList.update u tb (AList.delete t (df_tables f)),
       df_indexes := map (\<lambda>(n, i). (n, if ix_table i = t then i\<lparr>ix_table := u\<rparr> else i)) (df_indexes f),
       df_seq := (case map_of (df_seq f) t of None \<Rightarrow> df_seq f | Some v \<Rightarrow> AList.update u v (AList.delete t (df_seq f)))\<rparr>))"

text \<open>\<open>INSERT INTO t (cs) SELECT cs FROM u\<close>: other columns get their default, a table without ids counts them.\<close>

definition copied :: "column list \<Rightarrow> string list \<Rightarrow> tuple list \<Rightarrow> tuple list" where
  "copied cols cs rws = map2 (\<lambda>n r c. if c \<in> set cs then r c
     else if c = ''id'' then VInt (int n)
     else (case find (\<lambda>k. cl_name k = c) cols of None \<Rightarrow> VNull | Some k \<Rightarrow> cl_default k)) [1..<Suc (length rws)] rws"

definition row_id :: "tuple \<Rightarrow> int" where
  "row_id r = (case r ''id'' of VInt i \<Rightarrow> i | _ \<Rightarrow> 0)"

definition insert_select :: "string \<Rightarrow> string list \<Rightarrow> string \<Rightarrow> dbfile \<Rightarrow> (unit \<times> dbfile) result" where
  "insert_select t cs u f = (case map_of (df_tables f) u of
     None \<Rightarrow> Inl (no_table u)
   | Some src \<Rightarrow> with_table t (\<lambda>tb f.
       let new = copied (tb_cols tb) cs (tb_rows src)
       in if cs = [] then Inl (''SQL logic error: near )'')
          else if list_ex (\<lambda>r. list_ex (\<lambda>k. cl_notnull k \<and> r (cl_name k) = VNull) (tb_cols tb)) new
          then Inl ''constraint failed: NOT NULL constraint failed''
          else if \<not> distinct (map (\<lambda>r. r ''id'') new) then Inl ''constraint failed: UNIQUE constraint failed''
          else Inr ((put_table t (tb\<lparr>tb_rows := tb_rows tb @ new\<rparr>) f)\<lparr>df_seq := (if new = [] then df_seq f
            else AList.update t (Max (set (map row_id new))) (df_seq f))\<rparr>)) f)"

section \<open>Columns\<close>

definition hasColumn :: "failures \<Rightarrow> string \<Rightarrow> string \<Rightarrow> bool sql" where
  "hasColumn F table col = query F (\<lambda>f. col \<in> set (columns_of f table))"

definition addColumn :: "failures \<Rightarrow> string \<Rightarrow> column \<Rightarrow> unit sql" where
  "addColumn F table c = ok_bind (hasColumn F table (cl_name c)) (\<lambda>ok.
     if ok then ret (Inr ()) else stmt F (add_column table c))"

definition dropColumn :: "failures \<Rightarrow> string \<Rightarrow> string \<Rightarrow> unit sql" where
  "dropColumn F table col = ok_bind (hasColumn F table col) (\<lambda>ok.
     if \<not> ok then ret (Inr ()) else stmt F (drop_column table col))"

text \<open>A column by its definition: the type, and what it holds in a row that does not say.\<close>

definition plain_col :: "string \<Rightarrow> string \<Rightarrow> val \<Rightarrow> column" where
  "plain_col n ty v = \<lparr> cl_name = n, cl_type = ty, cl_notnull = False, cl_default = v, cl_ref = None \<rparr>"

definition needed_col :: "string \<Rightarrow> string \<Rightarrow> column" where
  "needed_col n ty = (plain_col n ty VNull)\<lparr>cl_notnull := True\<rparr>"

definition id_col :: column where
  "id_col = plain_col ''id'' ''INTEGER PRIMARY KEY AUTOINCREMENT'' VNull"

definition time_col :: "string \<Rightarrow> column" where
  "time_col n = plain_col n ''DATETIME'' VNow"

definition app_col :: column where
  "app_col = (plain_col ''app_id'' ''INTEGER'' VNull)\<lparr>cl_ref := Some (''apps'', Cascade)\<rparr>"

definition server_col :: column where
  "server_col = (plain_col ''server_id'' ''INTEGER'' VNull)\<lparr>cl_ref := Some (''servers'', SetNull)\<rparr>"

section \<open>Migration 1\<close>

definition legacy_columns :: "(string \<times> column) list" where
  "legacy_columns =
    [(''servers'', plain_col ''disk_usage'' ''REAL'' VNull),
     (''servers'', plain_col ''resources_updated_at'' ''DATETIME'' VNull),
     (''servers'', plain_col ''registry_host'' ''TEXT'' (VText [])),
     (''servers'', plain_col ''registry_user'' ''TEXT'' (VText [])),
     (''servers'', plain_col ''registry_token'' ''TEXT'' (VText [])),
     (''apps'', plain_col ''compose_mode'' ''TEXT'' (VText ''advanced'')),
     (''apps'', plain_col ''memory_limit'' ''TEXT'' (VText [])),
     (''apps'', plain_col ''cpu_limit'' ''TEXT'' (VText [])),
     (''apps'', plain_col ''log_max_size'' ''TEXT'' (VText [])),
     (''apps'', plain_col ''log_max_file'' ''TEXT'' (VText [])),
     (''apps'', plain_col ''command'' ''TEXT'' (VText [])),
     (''apps'', plain_col ''ports'' ''TEXT'' (VText [])),
     (''apps'', plain_col ''ulimits_nofile'' ''TEXT'' (VText [])),
     (''app_secrets'', plain_col ''is_secret'' ''INTEGER'' (VInt 0))]"

definition gone_columns :: "(string \<times> string) list" where
  "gone_columns = [(''apps'', ''webhook_secret''), (''container_stats'', ''disk_usage_bytes''), (''container_stats'', ''pids'')]"

definition simple_mode :: "tuple \<Rightarrow> tuple" where
  "simple_mode r = (if r ''unique_service_name'' = VInt 1 then r(''compose_mode'' := VText ''simple'') else r)"

definition convert_mode :: "failures \<Rightarrow> unit sql" where
  "convert_mode F = ok_bind (hasColumn F ''apps'' ''unique_service_name'') (\<lambda>ok.
     if ok then stmt F (update_rows ''apps'' simple_mode) else ret (Inr ()))"

definition migrateLegacy :: "failures \<Rightarrow> unit sql" where
  "migrateLegacy F =
     ok_bind (for_ok legacy_columns (\<lambda>(t, c). wrap_error (\<lambda>err. ''add '' @ t @ ''.'' @ cl_name c @ '': '' @ err) (addColumn F t c))) (\<lambda>_.
     ok_bind (convert_mode F) (\<lambda>_.
     for_ok gone_columns (\<lambda>(t, c). wrap_error (\<lambda>err. ''drop '' @ t @ ''.'' @ c @ '': '' @ err) (dropColumn F t c))))"

section \<open>Migration 2\<close>

definition delete_seq :: "string \<Rightarrow> dbfile \<Rightarrow> (unit \<times> dbfile) result" where
  "delete_seq t f = Inr ((), f\<lparr>df_seq := AList.delete t (df_seq f)\<rparr>)"

definition copy_seq :: "string \<Rightarrow> string \<Rightarrow> dbfile \<Rightarrow> (unit \<times> dbfile) result" where
  "copy_seq t u f = Inr ((), case map_of (df_seq f) u of None \<Rightarrow> f | Some v \<Rightarrow> f\<lparr>df_seq := AList.update t v (df_seq f)\<rparr>)"

definition shared_columns :: "string \<Rightarrow> string \<Rightarrow> dbfile \<Rightarrow> string list" where
  "shared_columns t u f = filter (\<lambda>c. c \<in> set (columns_of f u)) (columns_of f t)"

definition rebuildTable :: "failures \<Rightarrow> string \<Rightarrow> column list \<Rightarrow> (string \<times> index) option \<Rightarrow> unit sql" where
  "rebuildTable F name cols index =
     (let tmp = ''new_'' @ name
      in ok_bind (stmt F (create_table tmp cols)) (\<lambda>_.
         ok_bind (query F (shared_columns tmp name)) (\<lambda>cs.
         ok_bind (stmt F (insert_select tmp cs name)) (\<lambda>_.
         ok_bind (stmt F (delete_seq tmp)) (\<lambda>_.
         ok_bind (stmt F (copy_seq tmp name)) (\<lambda>_.
         ok_bind (stmt F (drop_table name)) (\<lambda>_.
         ok_bind (stmt F (rename_table tmp name)) (\<lambda>_.
         case index of None \<Rightarrow> ret (Inr ()) | Some (n, i) \<Rightarrow> stmt F (create_index n i)))))))))"

definition time_index :: "string \<Rightarrow> (string \<times> index) option" where
  "time_index t = Some (''idx_'' @ t @ ''_app_time'', \<lparr> ix_table = t, ix_cols = [''app_id'', ''created_at''], ix_unique = False \<rparr>)"

definition deployments_cols :: "column list" where
  "deployments_cols = [id_col, app_col, server_col, plain_col ''status'' ''TEXT'' VNull, plain_col ''log'' ''TEXT'' VNull,
     plain_col ''commit_sha'' ''TEXT'' VNull, plain_col ''compose_snapshot'' ''TEXT'' VNull, time_col ''created_at'']"

definition routes_cols :: "column list" where
  "routes_cols = [id_col, app_col, server_col, needed_col ''domain'' ''TEXT'', needed_col ''target'' ''TEXT'',
     plain_col ''status'' ''TEXT'' (VText ''active''), time_col ''created_at'']"

definition dns_records_cols :: "column list" where
  "dns_records_cols = [id_col, app_col, server_col, needed_col ''zone_id'' ''TEXT'', needed_col ''record_id'' ''TEXT'',
     needed_col ''name'' ''TEXT'', plain_col ''type'' ''TEXT'' (VText ''A''), needed_col ''content'' ''TEXT'',
     plain_col ''proxied'' ''INTEGER'' (VInt 0), time_col ''created_at'']"

definition container_stats_cols :: "column list" where
  "container_stats_cols = [id_col, app_col, server_col, needed_col ''container_name'' ''TEXT'', plain_col ''cpu_percent'' ''REAL'' VNull,
     plain_col ''mem_usage_bytes'' ''INTEGER'' VNull, plain_col ''mem_limit_bytes'' ''INTEGER'' VNull,
     plain_col ''mem_percent'' ''REAL'' VNull, plain_col ''net_io_rx_bytes'' ''INTEGER'' VNull,
     plain_col ''net_io_tx_bytes'' ''INTEGER'' VNull, plain_col ''block_io_read'' ''INTEGER'' VNull,
     plain_col ''block_io_write'' ''INTEGER'' VNull, time_col ''created_at'']"

definition app_disk_stats_cols :: "column list" where
  "app_disk_stats_cols = [id_col, app_col, server_col, plain_col ''disk_usage_bytes'' ''INTEGER'' (VInt 0), time_col ''created_at'']"

definition rebuilt_tables :: "(string \<times> column list \<times> (string \<times> index) option) list" where
  "rebuilt_tables =
    [(''deployments'', deployments_cols, None), (''routes'', routes_cols, None), (''dns_records'', dns_records_cols, None),
     (''container_stats'', container_stats_cols, time_index ''container_stats''),
     (''app_disk_stats'', app_disk_stats_cols, time_index ''app_disk_stats'')]"

definition migrateForeignKeys :: "failures \<Rightarrow> unit sql" where
  "migrateForeignKeys F = for_ok rebuilt_tables (\<lambda>(name, cols, index).
     wrap_error (\<lambda>err. ''rebuild '' @ name @ '': '' @ err) (rebuildTable F name cols index))"

section \<open>Migrations 3 and 4\<close>

definition active_route :: "tuple \<Rightarrow> bool" where
  "active_route r \<longleftrightarrow> r ''status'' = VText ''active''"

definition same_route :: "tuple \<Rightarrow> tuple \<Rightarrow> bool" where
  "same_route r s \<longleftrightarrow> r ''app_id'' = s ''app_id'' \<and> r ''domain'' = s ''domain''"

text \<open>\<open>status IS NOT 'active' OR id NOT IN (SELECT MIN(id) ... WHERE status = 'active' GROUP BY app_id, domain)\<close>\<close>

definition superseded :: "tuple list \<Rightarrow> tuple \<Rightarrow> bool" where
  "superseded rws r \<longleftrightarrow> \<not> active_route r
     \<or> \<not> list_ex (\<lambda>s. active_route s \<and> row_id r = Min (set (map row_id (filter (\<lambda>u. active_route u \<and> same_route u s) rws)))) rws"

definition duplicate_names :: "string \<Rightarrow> dbfile \<Rightarrow> val list" where
  "duplicate_names t f = (case map_of (df_tables f) t of
     None \<Rightarrow> []
   | Some tb \<Rightarrow> remdups (filter (\<lambda>n. length (filter (\<lambda>r. r ''name'' = n) (tb_rows tb)) > 1) (map (\<lambda>r. r ''name'') (tb_rows tb))))"

definition name_index :: "string \<Rightarrow> string \<times> index" where
  "name_index t = (''idx_'' @ t @ ''_name'', \<lparr> ix_table = t, ix_cols = [''name''], ix_unique = True \<rparr>)"

definition unique_name :: "failures \<Rightarrow> string \<Rightarrow> unit sql" where
  "unique_name F t = ok_bind (query F (duplicate_names t)) (\<lambda>dups.
     if dups \<noteq> [] then ret (Inr ()) else stmt F (create_index (fst (name_index t)) (snd (name_index t))))"

definition route_index :: index where
  "route_index = \<lparr> ix_table = ''routes'', ix_cols = [''app_id'', ''domain''], ix_unique = True \<rparr>"

definition migrateUnique :: "failures \<Rightarrow> unit sql" where
  "migrateUnique F =
     ok_bind (stmt F (delete_rows ''routes'' superseded)) (\<lambda>_.
     ok_bind (stmt F (create_index ''idx_routes_app_domain'' route_index)) (\<lambda>_.
     for_ok [''apps'', ''servers''] (unique_name F)))"

record migration =
  mg_desc :: string
  mg_fn :: "failures \<Rightarrow> unit sql"

definition migrations :: "migration list" where
  "migrations =
    [\<lparr> mg_desc = ''legacy column changes (v0.3-v0.13)'', mg_fn = migrateLegacy \<rparr>,
     \<lparr> mg_desc = ''cascade app deletes, keep history on server delete'', mg_fn = migrateForeignKeys \<rparr>,
     \<lparr> mg_desc = ''de-duplicate routes, unique route/app/server names'', mg_fn = migrateUnique \<rparr>,
     \<lparr> mg_desc = ''add servers.host_key'', mg_fn = (\<lambda>F. addColumn F ''servers'' (plain_col ''host_key'' ''TEXT'' (VText []))) \<rparr>]"

section \<open>Running them\<close>

text \<open>A reference to a row that is not there: the first one, by its table, id and parent.\<close>

definition dangling :: "dbfile \<Rightarrow> tbl \<Rightarrow> tuple \<Rightarrow> string option" where
  "dangling f tb r = List.find (\<lambda>_. True) (List.map_filter (\<lambda>k. case cl_ref k of
       None \<Rightarrow> None
     | Some (parent, _) \<Rightarrow>
         if r (cl_name k) = VNull \<or> (case map_of (df_tables f) parent of
             None \<Rightarrow> False | Some ptb \<Rightarrow> r (cl_name k) \<in> (\<lambda>s. s ''id'') ` set (tb_rows ptb)) then None
         else Some parent) (tb_cols tb))"

definition foreign_key_check :: "dbfile \<Rightarrow> (string \<times> int \<times> string) option" where
  "foreign_key_check f = List.find (\<lambda>_. True) (concat (map (\<lambda>(t, tb).
     List.map_filter (\<lambda>r. map_option (\<lambda>parent. (t, row_id r, parent)) (dangling f tb r)) (tb_rows tb)) (df_tables f)))"

definition transaction :: "unit sql \<Rightarrow> unit sql" where
  "transaction m = do {
     f \<leftarrow> gets fst;
     r \<leftarrow> m;
     case r of Inl err \<Rightarrow> do { modify (\<lambda>(_, n). (f, n)); ret (Inl err) } | Inr x \<Rightarrow> ret (Inr x)
   }"

definition runMigration :: "failures \<Rightarrow> nat \<Rightarrow> (failures \<Rightarrow> unit sql) \<Rightarrow> unit sql" where
  "runMigration F version fn =
     ok_bind (query F (\<lambda>_. ())) (\<lambda>_. transaction (
     ok_bind (fn F) (\<lambda>_.
     ok_bind (wrap_error (\<lambda>err. ''foreign_key_check: '' @ err) (query F foreign_key_check)) (\<lambda>bad.
     case bad of
       Some (table, rowid, parent) \<Rightarrow>
         ret (Inl (''foreign key violation: '' @ table @ '' rowid '' @ Itoa rowid @ '' references a missing '' @ parent @ '' row''))
     | None \<Rightarrow> ok_bind (stmt F (\<lambda>f. Inr ((), f\<lparr>df_version := version\<rparr>))) (\<lambda>_. query F (\<lambda>_. ()))))))"

definition migrate_error :: "nat \<Rightarrow> migration \<Rightarrow> error \<Rightarrow> error" where
  "migrate_error v m err = ''migration '' @ Itoa (int v) @ '' ('' @ mg_desc m @ '') failed, database left at version ''
     @ Itoa (int v - 1) @ '': '' @ err"

definition migrate :: "failures \<Rightarrow> unit sql" where
  "migrate F =
     ok_bind (wrap_error (\<lambda>err. ''migrate: '' @ err) (query F (\<lambda>_. ()))) (\<lambda>_.
     ok_bind (wrap_error (\<lambda>err. ''migrate: read user_version: '' @ err) (query F df_version)) (\<lambda>version.
     if version \<ge> length migrations then ret (Inr ())
     else ok_bind (wrap_error (\<lambda>err. ''migrate: '' @ err) (query F (\<lambda>_. ()))) (\<lambda>_.
       ok_bind (for_ok [Suc version..<Suc (length migrations)] (\<lambda>v.
         wrap_error (migrate_error v (migrations ! (v - 1))) (runMigration F v (mg_fn (migrations ! (v - 1)))))) (\<lambda>_.
       wrap_error (\<lambda>err. ''migrate: '' @ err) (query F (\<lambda>_. ()))))))"

section \<open>Opening\<close>

text \<open>An item of \<open>schema.sql\<close>; a table comes with the columns of its UNIQUE constraints.\<close>

datatype schema_item = Table string "column list" "string list list" | Index string index

definition auto_index :: "string \<Rightarrow> nat \<Rightarrow> string list \<Rightarrow> string \<times> index" where
  "auto_index t n cs = (''sqlite_autoindex_'' @ t @ ''_'' @ Itoa (int n), \<lparr> ix_table = t, ix_cols = cs, ix_unique = True \<rparr>)"

definition run_item :: "schema_item \<Rightarrow> dbfile \<Rightarrow> (unit \<times> dbfile) result" where
  "run_item i f = (case i of
     Table t cols uniques \<Rightarrow>
       if map_of (df_tables f) t \<noteq> None then Inr ((), f)
       else create_table t cols (f\<lparr>df_indexes := map2 (auto_index t) [1..<Suc (length uniques)] uniques @ df_indexes f\<rparr>)
   | Index n ix \<Rightarrow> if map_of (df_indexes f) n \<noteq> None then Inr ((), f) else create_index n ix f)"

definition schema_sql :: "schema_item list" where
  "schema_sql =
    [Table ''servers'' [id_col, needed_col ''name'' ''TEXT'', needed_col ''host'' ''TEXT'',
            plain_col ''port'' ''INTEGER'' (VInt 22), plain_col ''user'' ''TEXT'' (VText ''root''),
            needed_col ''ssh_key'' ''TEXT'', plain_col ''status'' ''TEXT'' (VText ''pending''),
            plain_col ''cpu_cores'' ''INTEGER'' VNull, plain_col ''ram_mb'' ''INTEGER'' VNull,
            plain_col ''disk_gb'' ''INTEGER'' VNull, plain_col ''cpu_usage'' ''REAL'' VNull,
            plain_col ''ram_usage'' ''REAL'' VNull, plain_col ''disk_usage'' ''REAL'' VNull,
            plain_col ''resources_updated_at'' ''DATETIME'' VNull,
            plain_col ''registry_host'' ''TEXT'' (VText []), plain_col ''registry_user'' ''TEXT'' (VText []),
            plain_col ''registry_token'' ''TEXT'' (VText []), plain_col ''host_key'' ''TEXT'' (VText []),
            time_col ''created_at'', time_col ''updated_at''] [],
     Table ''apps'' [id_col, needed_col ''name'' ''TEXT'',
            server_col\<lparr>cl_ref := Some (''servers'', NoAction)\<rparr>,
            plain_col ''domain'' ''TEXT'' (VText []), plain_col ''port'' ''INTEGER'' (VInt 0),
            needed_col ''compose'' ''TEXT'', plain_col ''git_repo'' ''TEXT'' VNull,
            plain_col ''git_branch'' ''TEXT'' (VText ''main''), plain_col ''auth_user'' ''TEXT'' (VText []),
            plain_col ''auth_pass'' ''TEXT'' (VText []), plain_col ''status'' ''TEXT'' (VText ''created''),
            plain_col ''compose_mode'' ''TEXT'' (VText ''advanced''),
            plain_col ''memory_limit'' ''TEXT'' (VText []), plain_col ''cpu_limit'' ''TEXT'' (VText []),
            plain_col ''log_max_size'' ''TEXT'' (VText []), plain_col ''log_max_file'' ''TEXT'' (VText []),
            plain_col ''command'' ''TEXT'' (VText []), plain_col ''ports'' ''TEXT'' (VText []),
            plain_col ''ulimits_nofile'' ''TEXT'' (VText []), time_col ''created_at'',
            time_col ''updated_at''] [],
     Table ''deployments'' deployments_cols [],
     Table ''routes'' routes_cols [],
     Table ''dns_records'' dns_records_cols [],
     Table ''app_secrets'' [id_col, app_col, needed_col ''key'' ''TEXT'', needed_col ''value'' ''TEXT'',
            plain_col ''is_secret'' ''INTEGER'' (VInt 0)] [[''app_id'', ''key'']],
     Table ''app_files'' [id_col, app_col, needed_col ''path'' ''TEXT'', needed_col ''content'' ''TEXT''] [[''app_id'', ''path'']],
     Table ''settings'' [plain_col ''key'' ''TEXT'' VNull, needed_col ''value'' ''TEXT'',
            time_col ''updated_at''] [[''key'']],
     Table ''container_stats'' container_stats_cols [],
     Index ''idx_container_stats_app_time'' \<lparr> ix_table = ''container_stats'', ix_cols = [''app_id'', ''created_at''], ix_unique = False \<rparr>,
     Table ''app_disk_stats'' app_disk_stats_cols [],
     Index ''idx_app_disk_stats_app_time'' \<lparr> ix_table = ''app_disk_stats'', ix_cols = [''app_id'', ''created_at''], ix_unique = False \<rparr>,
     Table ''route_stats'' [id_col, app_col, needed_col ''domain'' ''TEXT'',
            plain_col ''total_requests'' ''INTEGER'' VNull, plain_col ''requests_rps'' ''REAL'' VNull,
            plain_col ''status_2xx'' ''INTEGER'' (VInt 0), plain_col ''status_3xx'' ''INTEGER'' (VInt 0),
            plain_col ''status_4xx'' ''INTEGER'' (VInt 0), plain_col ''status_5xx'' ''INTEGER'' (VInt 0),
            time_col ''created_at''] [],
     Index ''idx_route_stats_app_time'' \<lparr> ix_table = ''route_stats'', ix_cols = [''app_id'', ''created_at''], ix_unique = False \<rparr>,
     Table ''server_stats'' [id_col, server_col\<lparr>cl_ref := Some (''servers'', Cascade)\<rparr>,
            plain_col ''cpu_percent'' ''REAL'' VNull, plain_col ''ram_percent'' ''REAL'' VNull,
            plain_col ''disk_percent'' ''REAL'' VNull, plain_col ''cpu_cores'' ''INTEGER'' VNull,
            plain_col ''ram_mb'' ''INTEGER'' VNull, plain_col ''disk_gb'' ''INTEGER'' VNull,
            time_col ''created_at''] [],
     Index ''idx_server_stats_time'' \<lparr> ix_table = ''server_stats'', ix_cols = [''server_id'', ''created_at''], ix_unique = False \<rparr>]"

definition pragmas :: "string list" where
  "pragmas = [''PRAGMA journal_mode=WAL'', ''PRAGMA foreign_keys=ON'', ''PRAGMA busy_timeout=5000'']"

definition Open :: "failures \<Rightarrow> unit sql" where
  "Open F =
     ok_bind (wrap_error (\<lambda>err. ''open db: '' @ err) (query F (\<lambda>_. ()))) (\<lambda>_.
     ok_bind (for_ok pragmas (\<lambda>p. wrap_error (\<lambda>err. ''pragma '' @ Quote p @ '': '' @ err) (query F (\<lambda>_. ())))) (\<lambda>_.
     ok_bind (wrap_error (\<lambda>err. ''migrate: '' @ err) (for_ok schema_sql (\<lambda>i. stmt F (run_item i)))) (\<lambda>_.
     migrate F)))"

end
