(* ===== verification/MigrationLaws.thy ===== *)
theory MigrationLaws
  imports Migrations
begin

text \<open>
  Upgrades are all or nothing, can be interrupted anywhere, and keep the rows. The technique: a
  program \<open>agrees\<close> when a run that succeeds in spite of possible failures gives what the run without any
  failure gives.
\<close>

section \<open>Runs\<close>

definition no_failures :: failures where
  "no_failures = (\<lambda>_. None)"

definition agrees :: "(failures \<Rightarrow> 'a sql) \<Rightarrow> bool" where
  "agrees m \<longleftrightarrow> (\<forall>F f n k x f' n'. run_state (m F) (f, n) = (Inr x, (f', n'))
     \<longrightarrow> (\<exists>k'. run_state (m no_failures) (f, k) = (Inr x, (f', k'))))"

named_theorems agreement \<open>rules of the form agrees m\<close>

lemma agreesD:
  "agrees m \<Longrightarrow> run_state (m F) (f, n) = (Inr x, (f', n')) \<Longrightarrow> \<exists>k'. run_state (m no_failures) (f, k) = (Inr x, (f', k'))"
  unfolding agrees_def by blast

lemma run_stmt: "run_state (stmt F g) (f, n) = (case F n of
     Some err \<Rightarrow> (Inl err, (f, Suc n))
   | None \<Rightarrow> (case g f of Inl err \<Rightarrow> (Inl err, (f, Suc n)) | Inr (x, f') \<Rightarrow> (Inr x, (f', Suc n))))"
  by (simp add: stmt_def)

lemma run_query: "run_state (query F g) (f, n) = (case F n of Some err \<Rightarrow> (Inl err, (f, Suc n)) | None \<Rightarrow> (Inr (g f), (f, Suc n)))"
  by (simp add: query_def run_stmt split: option.splits)

lemma run_ok_bind: "run_state (ok_bind m g) s = (case run_state m s of
     (Inl err, s') \<Rightarrow> (Inl err, s') | (Inr x, s') \<Rightarrow> run_state (g x) s')"
  by (simp add: ok_bind_def split: prod.splits sum.splits)

lemma run_wrap_error: "run_state (wrap_error h m) s = (case run_state m s of
     (Inl err, s') \<Rightarrow> (Inl (h err), s') | (Inr x, s') \<Rightarrow> (Inr x, s'))"
  by (simp add: wrap_error_def split: prod.splits sum.splits)

lemma no_failures_at: "no_failures k = None"
  by (simp add: no_failures_def)

lemmas sql_runs = run_stmt run_query run_ok_bind run_wrap_error

lemma ok_bind_Inr:
  assumes "run_state (ok_bind m g) s = (Inr y, s')"
  obtains x s1 where "run_state m s = (Inr x, s1)" "run_state (g x) s1 = (Inr y, s')"
  using assms by (auto simp: run_ok_bind split: prod.splits sum.splits)

lemma agrees_stmt [agreement]: "agrees (\<lambda>F. stmt F g)"
  by (auto simp: agrees_def run_stmt no_failures_def split: option.splits sum.splits prod.splits)

lemma agrees_query [agreement]: "agrees (\<lambda>F. query F g)"
  by (auto simp: agrees_def run_query no_failures_def split: option.splits)

lemma agrees_ret [agreement]: "agrees (\<lambda>F. ret x)"
  by (auto simp: agrees_def)

lemma agrees_ok_bind [agreement]:
  assumes "agrees m" and "\<And>x. agrees (\<lambda>F. g F x)"
  shows "agrees (\<lambda>F. ok_bind (m F) (g F))"
  unfolding agrees_def
proof (intro allI impI)
  fix F f n k y f' n'
  assume "run_state (ok_bind (m F) (g F)) (f, n) = (Inr y, (f', n'))"
  then obtain x f1 n1 where m: "run_state (m F) (f, n) = (Inr x, (f1, n1))" and g: "run_state (g F x) (f1, n1) = (Inr y, (f', n'))"
    by (auto elim!: ok_bind_Inr)
  obtain k1 where "run_state (m no_failures) (f, k) = (Inr x, (f1, k1))" using agreesD [OF assms(1) m] by blast
  moreover obtain k' where "run_state (g no_failures x) (f1, k1) = (Inr y, (f', k'))" using agreesD [OF assms(2) g] by blast
  ultimately show "\<exists>k'. run_state (ok_bind (m no_failures) (g no_failures)) (f, k) = (Inr y, (f', k'))"
    by (simp add: run_ok_bind)
qed

lemma run_wrap_Inr: "run_state (wrap_error h m) s = (Inr x, s') \<longleftrightarrow> run_state m s = (Inr x, s')"
  by (auto simp: run_wrap_error split: prod.splits sum.splits)

lemma agrees_wrap_error [agreement]: "agrees m \<Longrightarrow> agrees (\<lambda>F. wrap_error h (m F))"
  by (simp add: agrees_def run_wrap_Inr)

lemma agrees_for_ok [agreement]: "(\<And>x. agrees (\<lambda>F. g F x)) \<Longrightarrow> agrees (\<lambda>F. for_ok xs (g F))"
  by (induction xs) (auto intro!: agreement)

lemma agrees_if [agreement]: "agrees a \<Longrightarrow> agrees b \<Longrightarrow> agrees (\<lambda>F. if c then a F else b F)"
  by (cases c) simp_all

lemma agrees_case_option [agreement]:
  "agrees a \<Longrightarrow> (\<And>y. agrees (\<lambda>F. b F y)) \<Longrightarrow> agrees (\<lambda>F. case x of None \<Rightarrow> a F | Some y \<Rightarrow> b F y)"
  by (cases x) simp_all

lemma agrees_case_prod [agreement]: "(\<And>a b. agrees (\<lambda>F. g F a b)) \<Longrightarrow> agrees (\<lambda>F. case p of (a, b) \<Rightarrow> g F a b)"
  by (cases p) simp

lemma agrees_columns [agreement]: "agrees (\<lambda>F. addColumn F t c)" "agrees (\<lambda>F. dropColumn F t n)" "agrees (\<lambda>F. hasColumn F t n)"
  unfolding addColumn_def dropColumn_def hasColumn_def by (intro agreement)+

lemma agrees_rebuildTable [agreement]: "agrees (\<lambda>F. rebuildTable F name cols i)"
  unfolding rebuildTable_def Let_def by (intro agreement)

lemma agrees_migrate_steps [agreement]: "agrees migrateLegacy" "agrees migrateForeignKeys" "agrees migrateUnique"
  unfolding migrateLegacy_def [abs_def] migrateForeignKeys_def [abs_def] migrateUnique_def [abs_def] convert_mode_def unique_name_def
  by (intro agreement)+

lemma agrees_migrations: "m \<in> set migrations \<Longrightarrow> agrees (mg_fn m)"
  by (auto simp: migrations_def intro!: agreement)

section \<open>A migration\<close>

lemma run_transaction: "run_state (transaction m) (f, n) = (case run_state m (f, n) of
     (Inl err, (_, n')) \<Rightarrow> (Inl err, (f, n')) | (Inr x, s) \<Rightarrow> (Inr x, s))"
  by (simp add: transaction_def split: prod.splits sum.splits)

lemma run_transaction_Inr: "run_state (transaction m) s = (Inr x, s') \<longleftrightarrow> run_state m s = (Inr x, s')"
  by (cases s) (auto simp: run_transaction split: prod.splits sum.splits)

lemma agrees_transaction [agreement]: "agrees m \<Longrightarrow> agrees (\<lambda>F. transaction (m F))"
  by (simp add: agrees_def run_transaction_Inr)

lemma agrees_runMigration: "agrees fn \<Longrightarrow> agrees (\<lambda>F. runMigration F v fn)"
  unfolding runMigration_def by (intro agreement)

lemma runMigration_fails: "run_state (runMigration F v fn) (f, n) = (Inl err, (f', n')) \<Longrightarrow> f' = f"
  by (auto simp: runMigration_def run_query run_ok_bind [of "query _ _"] run_transaction split: prod.splits sum.splits option.splits)

lemma runMigration_succeeds:
  assumes "run_state (runMigration F v fn) (f, n) = (Inr x, (f', n'))"
  shows "df_version f' = v" "\<exists>f1 n0 n1. run_state (fn F) (f, n0) = (Inr (), (f1, n1)) \<and> foreign_key_check f1 = None
    \<and> f' = f1\<lparr>df_version := v\<rparr>"
  using assms by (auto simp: runMigration_def sql_runs run_transaction split: prod.splits sum.splits option.splits) blast?

text \<open>What version \<open>v\<close> makes of a file, and what the next \<open>k\<close> versions make of it.\<close>

definition apply_migration :: "nat \<Rightarrow> dbfile \<Rightarrow> dbfile option" where
  "apply_migration v f = (case run_state (runMigration no_failures v (mg_fn (migrations ! (v - 1)))) (f, 0) of
     (Inl _, _) \<Rightarrow> None | (Inr _, (f', _)) \<Rightarrow> Some f')"

fun upgrade :: "nat \<Rightarrow> nat \<Rightarrow> dbfile \<Rightarrow> dbfile option" where
  "upgrade 0 v f = Some f"
| "upgrade (Suc k) v f = (case apply_migration (Suc v) f of None \<Rightarrow> None | Some f' \<Rightarrow> upgrade k (Suc v) f')"

lemma upgrade_add: "upgrade (j + k) v f = (case upgrade j v f of None \<Rightarrow> None | Some f' \<Rightarrow> upgrade k (v + j) f')"
  by (induction j v f rule: upgrade.induct) (auto split: option.splits)

lemma apply_migration_iff:
  assumes "0 < v" and "v \<le> length migrations"
  shows "run_state (runMigration F v (mg_fn (migrations ! (v - 1)))) (f, n) = (Inr x, (f', n')) \<Longrightarrow> apply_migration v f = Some f'"
    and "apply_migration v f = Some f' \<Longrightarrow> \<exists>k'. run_state (runMigration no_failures v (mg_fn (migrations ! (v - 1)))) (f, k) = (Inr (), (f', k'))"
proof -
  have ag: "agrees (\<lambda>F. runMigration F v (mg_fn (migrations ! (v - 1))))"
    by (rule agrees_runMigration) (rule agrees_migrations, use assms in simp)
  show "apply_migration v f = Some f'"
    if "run_state (runMigration F v (mg_fn (migrations ! (v - 1)))) (f, n) = (Inr x, (f', n'))"
    using agreesD [OF ag that, of 0] by (auto simp: apply_migration_def)
  show "\<exists>k'. run_state (runMigration no_failures v (mg_fn (migrations ! (v - 1)))) (f, k) = (Inr (), (f', k'))"
    if "apply_migration v f = Some f'"
    using that agreesD [OF ag, of no_failures f 0 "()" f' _ k]
    by (auto simp: apply_migration_def split: prod.splits sum.splits)
qed

lemma foreign_key_check_version: "foreign_key_check (f\<lparr>df_version := v\<rparr>) = foreign_key_check f"
proof -
  have tables: "df_tables (f\<lparr>df_version := v\<rparr>) = df_tables f" by simp
  show ?thesis unfolding foreign_key_check_def dangling_def tables ..
qed

lemma apply_migration_version: "apply_migration v f = Some f' \<Longrightarrow> df_version f' = v \<and> foreign_key_check f' = None"
proof -
  assume "apply_migration v f = Some f'"
  then obtain n' where "run_state (runMigration no_failures v (mg_fn (migrations ! (v - 1)))) (f, 0) = (Inr (), (f', n'))"
    by (auto simp: apply_migration_def split: prod.splits sum.splits)
  from runMigration_succeeds [OF this] show ?thesis by (metis foreign_key_check_version)
qed

lemma upgrade_version: "upgrade k v f = Some f' \<Longrightarrow> df_version f = v \<Longrightarrow> df_version f' = v + k"
  by (induction k v f rule: upgrade.induct) (auto split: option.splits dest: apply_migration_version)

lemma upgrade_references: "upgrade (Suc k) v f = Some f' \<Longrightarrow> foreign_key_check f' = None"
proof (induction k arbitrary: v f)
  case 0
  then show ?case
    using apply_migration_version [of "Suc v" f f'] by (auto split: option.splits)
qed (auto split: option.splits)

section \<open>All migrations\<close>

abbreviation step :: "failures \<Rightarrow> nat \<Rightarrow> unit sql" where
  "step F v \<equiv> wrap_error (migrate_error v (migrations ! (v - 1))) (runMigration F v (mg_fn (migrations ! (v - 1))))"

lemma steps_atomic:
  assumes "run_state (for_ok [Suc v..<Suc (length migrations)] (step F)) (f, n) = (r, (f', n'))"
    and "v \<le> length migrations"
  shows "\<exists>k. upgrade k v f = Some f' \<and> v + k \<le> length migrations \<and> (r = Inr () \<longrightarrow> v + k = length migrations)"
  using assms
proof (induction "length migrations - v" arbitrary: v f n)
  case 0
  then show ?case by (intro exI [of _ 0]) auto
next
  case (Suc m)
  then have less: "v < length migrations" by simp
  then have upt: "[Suc v..<Suc (length migrations)] = Suc v # [Suc (Suc v)..<Suc (length migrations)]" by (simp add: upt_conv_Cons)
  obtain s f1 n1 where run: "run_state (runMigration F (Suc v) (mg_fn (migrations ! v))) (f, n) = (s, (f1, n1))"
    by (rule prod_cases3)
  show ?case
  proof (cases s)
    case (Inl err)
    with runMigration_fails run have "f1 = f" by metis
    with Suc.prems run Inl show ?thesis unfolding upt by (intro exI [of _ 0]) (auto simp: run_ok_bind run_wrap_error)
  next
    case (Inr x)
    have ap: "apply_migration (Suc v) f = Some f1"
      by (rule apply_migration_iff(1) [where F = F and n = n and x = x and n' = n1]) (use less run Inr in auto)
    have "run_state (for_ok [Suc (Suc v)..<Suc (length migrations)] (step F)) (f1, n1) = (r, (f', n'))"
      using Suc.prems(1) run Inr unfolding upt by (simp add: run_ok_bind run_wrap_error)
    moreover have "m = length migrations - Suc v" "Suc v \<le> length migrations" using Suc.hyps(2) less by simp_all
    ultimately obtain k where "upgrade k (Suc v) f1 = Some f'" "Suc v + k \<le> length migrations"
      "r = Inr () \<longrightarrow> Suc v + k = length migrations" using Suc.hyps(1) by blast
    then show ?thesis by (intro exI [of _ "Suc k"]) (simp add: ap)
  qed
qed

lemma steps_complete:
  assumes "upgrade (length migrations - v) v f = Some f'" and "v \<le> length migrations"
  shows "\<exists>n'. run_state (for_ok [Suc v..<Suc (length migrations)] (step no_failures)) (f, n) = (Inr (), (f', n'))"
  using assms
proof (induction "length migrations - v" arbitrary: v f n)
  case (Suc m)
  then have less: "v < length migrations" by simp
  then have upt: "[Suc v..<Suc (length migrations)] = Suc v # [Suc (Suc v)..<Suc (length migrations)]" by (simp add: upt_conv_Cons)
  from Suc.prems(1) obtain f1 where ap: "apply_migration (Suc v) f = Some f1" and up: "upgrade m (Suc v) f1 = Some f'"
    unfolding Suc.hyps(2) [symmetric] by (auto split: option.splits)
  obtain n1 where "run_state (runMigration no_failures (Suc v) (mg_fn (migrations ! v))) (f, n) = (Inr (), (f1, n1))"
    using apply_migration_iff(2) [OF _ _ ap, of n] less by auto
  moreover have "length migrations - Suc v = m" using Suc.hyps(2) by simp
  then obtain n' where "run_state (for_ok [Suc (Suc v)..<Suc (length migrations)] (step no_failures)) (f1, n1) = (Inr (), (f', n'))"
    using Suc.hyps(1) [of "Suc v" f1 n1] up less by auto
  ultimately show ?case unfolding upt by (simp add: run_ok_bind run_wrap_error)
qed simp

lemma migrate_upgrades:
  assumes "run_state (migrate F) (f, n) = (r, (f', n'))"
  shows "\<exists>k. upgrade k (df_version f) f = Some f' \<and> (k > 0 \<longrightarrow> df_version f + k \<le> length migrations)
    \<and> (r = Inr () \<longrightarrow> length migrations \<le> df_version f + k)"
proof (cases "length migrations \<le> df_version f \<or> f' = f \<and> r \<noteq> Inr ()")
  case True
  with assms have "f' = f" by (auto simp: migrate_def sql_runs split: prod.splits sum.splits option.splits if_splits)
  with True show ?thesis by (intro exI [of _ 0]) auto
next
  case False
  then have v: "df_version f \<le> length migrations" by simp
  from False assms obtain r1 n0 n1 where
    "run_state (for_ok [Suc (df_version f)..<Suc (length migrations)] (step F)) (f, n0) = (r1, (f', n1))"
    "r = Inr () \<longrightarrow> r1 = Inr ()"
    by (auto simp: migrate_def sql_runs split: prod.splits sum.splits option.splits if_splits)
  from steps_atomic [OF this(1) v] this(2) show ?thesis by auto
qed

lemma migrate_completes:
  assumes "upgrade (length migrations - df_version f) (df_version f) f = Some f'"
  shows "\<exists>n'. run_state (migrate no_failures) (f, n) = (Inr (), (f', n'))"
proof (cases "length migrations \<le> df_version f")
  case True
  with assms show ?thesis by (simp add: migrate_def sql_runs no_failures_def)
next
  case False
  then obtain n' where "run_state (for_ok [Suc (df_version f)..<Suc (length migrations)] (step no_failures)) (f, Suc (Suc (Suc n))) = (Inr (), (f', n'))"
    using steps_complete [OF assms, of "Suc (Suc (Suc n))"] by auto
  with False show ?thesis by (simp add: migrate_def sql_runs no_failures_def)
qed

section \<open>Rebuilding a table\<close>

lemma run_stmt_Inr: "run_state (stmt F g) s = (Inr x, s') \<longleftrightarrow> (\<exists>f n f'. s = (f, n) \<and> F n = None \<and> g f = Inr (x, f') \<and> s' = (f', Suc n))"
  by (cases s) (auto simp: run_stmt split: option.splits sum.splits)

lemma run_query_Inr: "run_state (query F g) s = (Inr x, s') \<longleftrightarrow> (\<exists>f n. s = (f, n) \<and> F n = None \<and> x = g f \<and> s' = (f, Suc n))"
  by (cases s) (auto simp: run_query split: option.splits)

lemma run_ok_bind_Inr: "run_state (ok_bind m g) s = (Inr y, s') \<longleftrightarrow>
    (\<exists>x s1. run_state m s = (Inr x, s1) \<and> run_state (g x) s1 = (Inr y, s'))"
  by (auto simp: run_ok_bind split: prod.splits sum.splits)

lemmas sql_succeeds = run_stmt_Inr run_query_Inr run_ok_bind_Inr run_wrap_Inr

lemma with_table_Inr: "with_table t g f = Inr (x, f') \<longleftrightarrow> (\<exists>tb. map_of (df_tables f) t = Some tb \<and> g tb f = Inr f')"
  by (auto simp: with_table_def split: option.splits sum.splits)

lemma put_table_simps [simp]:
  "map_of (df_tables (put_table t tb f)) = (map_of (df_tables f))(t \<mapsto> tb)" "df_seq (put_table t tb f) = df_seq f"
  "df_version (put_table t tb f) = df_version f" "df_indexes (put_table t tb f) = df_indexes f"
  by (simp_all add: put_table_def update_conv')

lemma new_name: "''new_'' @ name \<noteq> name" "name \<noteq> ''new_'' @ name"
  by (metis append_self_conv2 list.distinct(1))+

lemma length_copied [simp]: "length (copied cols cs rws) = length rws"
  by (simp add: copied_def del: upt_Suc)

lemma copied_column:
  assumes "c \<in> set cs"
  shows "map (\<lambda>r. r c) (copied cols cs rws) = map (\<lambda>r. r c) rws"
proof (rule nth_equalityI)
  fix k
  assume "k < length (map (\<lambda>r. r c) (copied cols cs rws))"
  then have "k < length rws" by simp
  with assms show "map (\<lambda>r. r c) (copied cols cs rws) ! k = map (\<lambda>r. r c) rws ! k"
    by (simp add: copied_def del: upt_Suc)
qed simp

text \<open>What a rebuild leaves: the same rows in the columns both tables have, the counter, all else as it was.\<close>

definition rebuilt :: "string \<Rightarrow> column list \<Rightarrow> dbfile \<Rightarrow> dbfile \<Rightarrow> bool" where
  "rebuilt name cols f f' \<longleftrightarrow> (\<exists>old new. map_of (df_tables f) name = Some old \<and> map_of (df_tables f') name = Some new
     \<and> tb_cols new = cols \<and> length (tb_rows new) = length (tb_rows old)
     \<and> (\<forall>c \<in> set (map cl_name (tb_cols old)) \<inter> set (map cl_name cols). map (\<lambda>r. r c) (tb_rows new) = map (\<lambda>r. r c) (tb_rows old)))
   \<and> (\<forall>t. t \<noteq> name \<longrightarrow> map_of (df_tables f') t = map_of (df_tables f) t)
   \<and> (\<forall>t. t \<noteq> ''new_'' @ name \<longrightarrow> map_of (df_seq f') t = map_of (df_seq f) t)
   \<and> df_version f' = df_version f"

lemma create_index_frame:
  "create_index n i f = Inr (x, f') \<Longrightarrow> df_tables f' = df_tables f \<and> df_seq f' = df_seq f \<and> df_version f' = df_version f"
  by (auto simp: create_index_def with_table_Inr split: if_splits)

lemma rebuildTable_base:
  assumes "run_state (rebuildTable F name cols index) (f, n) = (Inr (), (f', n'))"
  shows "rebuilt name cols f f'"
proof -
  let ?tmp = "''new_'' @ name"
  obtain f1 f2 f5 f6 cs where create: "create_table ?tmp cols f = Inr ((), f1)" and cs: "cs = shared_columns ?tmp name f1"
    and ins: "insert_select ?tmp cs name f1 = Inr ((), f2)"
    and drop: "\<exists>f3 f4. delete_seq ?tmp f2 = Inr ((), f3) \<and> copy_seq ?tmp name f3 = Inr ((), f4) \<and> drop_table name f4 = Inr ((), f5)"
    and rename: "rename_table ?tmp name f5 = Inr ((), f6)"
    and index: "df_tables f' = df_tables f6 \<and> df_seq f' = df_seq f6 \<and> df_version f' = df_version f6"
    using assms unfolding rebuildTable_def Let_def sql_succeeds
    by (cases index) (auto simp: run_stmt_Inr dest!: create_index_frame)
  have f1: "map_of (df_tables f) ?tmp = None" "f1 = put_table ?tmp \<lparr> tb_cols = cols, tb_rows = [] \<rparr> f"
    using create by (auto simp: create_table_def split: option.splits)
  obtain old where old: "map_of (df_tables f) name = Some old"
    and f2: "map_of (df_tables f2) = (map_of (df_tables f))(?tmp \<mapsto> \<lparr> tb_cols = cols, tb_rows = copied cols cs (tb_rows old) \<rparr>)"
      "\<forall>t. t \<noteq> ?tmp \<longrightarrow> map_of (df_seq f2) t = map_of (df_seq f) t" "df_version f2 = df_version f"
    using ins new_name [of name] by (auto simp: insert_select_def with_table_Inr f1(2) Let_def update_conv' split: option.splits if_splits)
  have f5: "map_of (df_tables f5) = (map_of (df_tables f2))(name := None)" "df_version f5 = df_version f"
    "map_of (df_seq f5) = (map_of (df_seq f2))(?tmp := map_of (df_seq f) name, name := None)"
    using drop f2(2,3) new_name [of name]
    by (auto simp: delete_seq_def copy_seq_def drop_table_def with_table_Inr delete_conv' update_conv' split: option.splits)
  have f6: "map_of (df_tables f6) = (map_of (df_tables f2))(?tmp := None, name := map_of (df_tables f2) ?tmp)" "df_version f6 = df_version f"
    "map_of (df_seq f6) = (map_of (df_seq f5))(?tmp := None, name := map_of (df_seq f) name)"
    using rename f5 f2(1) new_name [of name]
    by (auto simp: rename_table_def with_table_Inr delete_conv' update_conv' split: option.splits if_splits)
  have shared: "set (map cl_name (tb_cols old)) \<inter> set (map cl_name cols) = set cs"
    using old new_name [of name] by (auto simp: cs shared_columns_def columns_of_def f1(2))
  show ?thesis unfolding rebuilt_def
  proof (intro conjI)
    show "\<exists>o' new. map_of (df_tables f) name = Some o' \<and> map_of (df_tables f') name = Some new \<and> tb_cols new = cols
        \<and> length (tb_rows new) = length (tb_rows o') \<and> (\<forall>c \<in> set (map cl_name (tb_cols o')) \<inter> set (map cl_name cols).
          map (\<lambda>r. r c) (tb_rows new) = map (\<lambda>r. r c) (tb_rows o'))"
      using old f2(1) f6(1) index
      by (intro exI [of _ old] exI [of _ "\<lparr> tb_cols = cols, tb_rows = copied cols cs (tb_rows old) \<rparr>"]) (simp add: shared copied_column del: set_map)
    show "\<forall>t. t \<noteq> name \<longrightarrow> map_of (df_tables f') t = map_of (df_tables f) t" using f2(1) f6(1) f1(1) index by simp
    show "\<forall>t. t \<noteq> ?tmp \<longrightarrow> map_of (df_seq f') t = map_of (df_seq f) t" using f2(2) f5(3) f6(3) index by simp
    show "df_version f' = df_version f" using f6(2) index by simp
  qed
qed

section \<open>Unique routes and names\<close>

lemma clash_distinct: "distinct (map (\<lambda>r. map r cs) rws) \<Longrightarrow> \<not> clash cs rws"
  by (induction rws) (auto simp: list_ex_iff image_iff, metis)

definition oldest_active :: "tuple list \<Rightarrow> tuple \<Rightarrow> bool" where
  "oldest_active rws r \<longleftrightarrow> active_route r \<and> (\<forall>s \<in> set rws. active_route s \<and> same_route s r \<longrightarrow> row_id r \<le> row_id s)"

lemma superseded_iff:
  assumes ids: "inj_on row_id (set rws)" and r: "r \<in> set rws"
  shows "superseded rws r \<longleftrightarrow> \<not> oldest_active rws r"
proof -
  let ?group = "\<lambda>s. row_id ` {u \<in> set rws. active_route u \<and> same_route u s}"
  have "(\<exists>s \<in> set rws. active_route s \<and> row_id r = Min (?group s)) \<longleftrightarrow> (\<forall>s \<in> set rws. active_route s \<and> same_route s r \<longrightarrow> row_id r \<le> row_id s)"
    if act: "active_route r"
  proof
    assume "\<exists>s \<in> set rws. active_route s \<and> row_id r = Min (?group s)"
    then obtain s where s: "s \<in> set rws" "active_route s" "row_id r = Min (?group s)" by blast
    then have "?group s \<noteq> {}" by (auto simp: same_route_def)
    then have "row_id r \<in> ?group s" using s(3) Min_in [of "?group s"] by simp
    then have "same_route r s" using ids r by (auto simp: inj_on_def)
    then show "\<forall>u \<in> set rws. active_route u \<and> same_route u r \<longrightarrow> row_id r \<le> row_id u"
      using s(3) by (auto simp: same_route_def intro!: Min_le)
  next
    assume least: "\<forall>s \<in> set rws. active_route s \<and> same_route s r \<longrightarrow> row_id r \<le> row_id s"
    have "Min (?group r) = row_id r"
      by (rule Min_eqI) (use r act least in \<open>auto simp: same_route_def\<close>)
    then show "\<exists>s \<in> set rws. active_route s \<and> row_id r = Min (?group s)" using r act by metis
  qed
  then show ?thesis by (auto simp: superseded_def oldest_active_def list_ex_iff)
qed

lemma oldest_distinct:
  assumes "distinct (map row_id rws)"
  shows "distinct (map (\<lambda>r. map r [''app_id'', ''domain'']) (filter (oldest_active rws) rws))"
proof -
  have "r = s" if "r \<in> set rws" "s \<in> set rws" "oldest_active rws r" "oldest_active rws s" "same_route r s" for r s
  proof -
    have "same_route s r" using that(5) by (simp add: same_route_def)
    with that have "row_id r \<le> row_id s" "row_id s \<le> row_id r" unfolding oldest_active_def by blast+
    then have "row_id r = row_id s" by (rule antisym)
    with assms that show ?thesis by (auto simp: distinct_map inj_on_def)
  qed
  with assms show ?thesis by (auto simp: distinct_map inj_on_def same_route_def)
qed

lemma oldest_exists:
  assumes "r \<in> set rws" and "active_route r"
  shows "\<exists>s \<in> set rws. oldest_active rws s \<and> same_route s r"
proof -
  let ?group = "{u \<in> set rws. active_route u \<and> same_route u r}"
  have ne: "?group \<noteq> {}" "finite ?group" using assms by (auto simp: same_route_def)
  then have "Min (row_id ` ?group) \<in> row_id ` ?group" by (intro Min_in) auto
  then obtain s where s: "s \<in> ?group" "Min (row_id ` ?group) = row_id s" by blast
  have "row_id s \<le> row_id u" if "u \<in> ?group" for u
    unfolding s(2) [symmetric] using that ne(2) by (intro Min_le) auto
  with s(1) show ?thesis by (intro bexI [of _ s]) (auto simp: oldest_active_def same_route_def)
qed

lemma unique_name_runs:
  assumes "map_of (df_tables f) t = Some tb" and "map_of (df_indexes f) (''idx_'' @ t @ ''_name'') = None"
  shows "\<exists>f' n'. run_state (unique_name no_failures t) (f, n) = (Inr (), (f', n')) \<and> df_tables f' = df_tables f
    \<and> (\<forall>m. m \<noteq> ''idx_'' @ t @ ''_name'' \<longrightarrow> map_of (df_indexes f') m = map_of (df_indexes f) m)"
proof (cases "duplicate_names t f = []")
  case True
  have "distinct (map (\<lambda>r. r ''name'') (tb_rows tb))"
  proof (rule ccontr)
    assume "\<not> distinct (map (\<lambda>r. r ''name'') (tb_rows tb))"
    then obtain xs ys zs y where "map (\<lambda>r. r ''name'') (tb_rows tb) = xs @ [y] @ ys @ [y] @ zs" by (blast dest: not_distinct_decomp)
    then have "length (filter (\<lambda>n. n = y) (map (\<lambda>r. r ''name'') (tb_rows tb))) > 1" "y \<in> set (map (\<lambda>r. r ''name'') (tb_rows tb))" by simp_all
    with True assms(1) show False by (auto simp: duplicate_names_def filter_map comp_def filter_empty_conv)
  qed
  then have "\<not> clash [''name''] (tb_rows tb)" by (intro clash_distinct) (simp add: distinct_map inj_on_def)
  with assms True show ?thesis
    by (simp add: unique_name_def sql_runs no_failures_def name_index_def create_index_def with_table_def)
next
  case False
  then show ?thesis by (simp add: unique_name_def sql_runs no_failures_def)
qed

section \<open>Properties\<close>

text \<open>
  C14. An upgrade in which any statement may fail, at any place: the file is left exactly as a whole number
  of migrations leave it, with \<open>user_version\<close> counting them; a file that some migration changed has no
  dangling reference; and success means that all have run.
\<close>

theorem migrate_atomic:
  "case run_state (migrate F) (f, n) of (r, (f', _)) \<Rightarrow>
     \<exists>k. upgrade k (df_version f) f = Some f' \<and> df_version f' = df_version f + k
       \<and> (if k = 0 then f' = f else foreign_key_check f' = None)
       \<and> (if r = Inr () then length migrations \<le> df_version f' else True)"
proof -
  obtain r f' n' where run: "run_state (migrate F) (f, n) = (r, (f', n'))" by (rule prod_cases3)
  from migrate_upgrades [OF this] obtain k where k: "upgrade k (df_version f) f = Some f'"
    "r = Inr () \<longrightarrow> length migrations \<le> df_version f + k" by blast
  moreover have "df_version f' = df_version f + k" by (rule upgrade_version [OF k(1) refl])
  moreover have "if k = 0 then f' = f else foreign_key_check f' = None"
    using k(1) upgrade_references by (cases k) auto
  ultimately show ?thesis by (auto simp: run intro!: exI [of _ k])
qed

text \<open>
  C15. An upgrade that was broken off, at any statement, is completed by the next start: it ends in the
  very file that an upgrade without interruption gives.
\<close>

theorem migrate_resumes:
  assumes "run_state (migrate F) (f, n) = (r, (f', n'))"
    and "run_state (migrate no_failures) (f, k) = (Inr (), (g, k'))"
  shows "\<exists>j. run_state (migrate no_failures) (f', 0) = (Inr (), (g, j))"
proof -
  obtain a where a: "upgrade a (df_version f) f = Some f'" "a > 0 \<longrightarrow> df_version f + a \<le> length migrations"
    using migrate_upgrades [OF assms(1)] by blast
  obtain b where b: "upgrade b (df_version f) f = Some g" "b > 0 \<longrightarrow> df_version f + b \<le> length migrations"
    "length migrations \<le> df_version f + b" using migrate_upgrades [OF assms(2)] by blast
  have v: "df_version f' = df_version f + a" by (rule upgrade_version [OF a(1) refl])
  have "a \<le> b" "length migrations - df_version f' = b - a" using a(2) b(2,3) v by auto
  then have "upgrade (length migrations - df_version f') (df_version f') f' = Some g"
    using b(1) upgrade_add [of a "b - a" "df_version f" f] a(1) v by simp
  then show ?thesis by (rule migrate_completes)
qed

text \<open>
  C16. Rebuilding a table, whatever fails before or after: once it succeeds the table has the new columns and
  its old rows, in order, with every value of the columns that both have; the counter of its ids
  goes on where it was, so no id is given twice; no other table or counter changes.
\<close>

theorem rebuildTable_correct:
  assumes "run_state (rebuildTable F name cols index) (f, n) = (Inr (), (f', n'))"
  shows "rebuilt name cols f f'"
  by (rule rebuildTable_base [OF assms])

text \<open>
  C17. Making routes and names unique, on tables that have their names and ids: it succeeds. The routes left are
  the oldest active one of every app and domain, in their order; every active route is still
  represented, no two are of the same app and domain, and the index that enforces this exists. No other table
  changes.
\<close>

theorem migrateUnique_correct:
  assumes "map_of (df_tables f) ''routes'' = Some old" and "distinct (map row_id (tb_rows old))"
    and "map_of (df_tables f) ''apps'' \<noteq> None" and "map_of (df_tables f) ''servers'' \<noteq> None"
    and "map_of (df_indexes f) ''idx_routes_app_domain'' = None" and "map_of (df_indexes f) ''idx_apps_name'' = None"
    and "map_of (df_indexes f) ''idx_servers_name'' = None"
  shows "\<exists>f' n' new. run_state (migrateUnique no_failures) (f, n) = (Inr (), (f', n'))
    \<and> map_of (df_tables f') = (map_of (df_tables f))(''routes'' \<mapsto> new)
    \<and> map_of (df_indexes f') ''idx_routes_app_domain'' = Some route_index
    \<and> tb_rows new = filter (oldest_active (tb_rows old)) (tb_rows old)
    \<and> distinct (map (\<lambda>r. (r ''app_id'', r ''domain'')) (tb_rows new))
    \<and> (\<forall>r \<in> set (tb_rows old). active_route r \<longrightarrow> (\<exists>s \<in> set (tb_rows new). same_route s r \<and> row_id s \<le> row_id r))"
proof -
  let ?new = "old\<lparr>tb_rows := filter (oldest_active (tb_rows old)) (tb_rows old)\<rparr>"
  let ?f1 = "put_table ''routes'' ?new f"
  let ?f2 = "?f1\<lparr>df_indexes := (''idx_routes_app_domain'', route_index) # df_indexes f\<rparr>"
  have inj: "inj_on row_id (set (tb_rows old))" using assms(2) by (simp add: distinct_map)
  have "filter (\<lambda>r. \<not> superseded (tb_rows old) r) (tb_rows old) = filter (oldest_active (tb_rows old)) (tb_rows old)"
    by (rule filter_cong) (simp_all add: superseded_iff [OF inj])
  then have del: "delete_rows ''routes'' superseded f = Inr ((), ?f1)" by (simp add: delete_rows_def with_table_def assms(1))
  have d: "distinct (map (\<lambda>r. map r [''app_id'', ''domain'']) (tb_rows ?new))" using oldest_distinct [OF assms(2)] by simp
  have ix: "create_index ''idx_routes_app_domain'' route_index ?f1 = Inr ((), ?f2)"
    using clash_distinct [OF d] assms(5) by (simp add: create_index_def with_table_def route_index_def)
  obtain ta where "map_of (df_tables ?f2) ''apps'' = Some ta" using assms(3) by auto
  then obtain f3 n3 where f3: "run_state (unique_name no_failures ''apps'') (?f2, Suc (Suc n)) = (Inr (), (f3, n3))"
    "df_tables f3 = df_tables ?f2" "\<forall>m. m \<noteq> ''idx_apps_name'' \<longrightarrow> map_of (df_indexes f3) m = map_of (df_indexes ?f2) m"
    using unique_name_runs [of ?f2 "''apps''" ta "Suc (Suc n)"] assms(6) by auto
  obtain ts where "map_of (df_tables f3) ''servers'' = Some ts" using assms(4) f3(2) by auto
  then obtain f4 n4 where f4: "run_state (unique_name no_failures ''servers'') (f3, n3) = (Inr (), (f4, n4))"
    "df_tables f4 = df_tables f3" "\<forall>m. m \<noteq> ''idx_servers_name'' \<longrightarrow> map_of (df_indexes f4) m = map_of (df_indexes f3) m"
    using unique_name_runs [of f3 "''servers''" ts n3] f3(3) assms(7) by auto
  have run: "run_state (migrateUnique no_failures) (f, n) = (Inr (), (f4, n4))"
    by (simp add: migrateUnique_def run_ok_bind run_stmt no_failures_at del ix f3(1) f4(1))
  have "\<forall>r \<in> set (tb_rows old). active_route r \<longrightarrow> (\<exists>s \<in> set (tb_rows ?new). same_route s r \<and> row_id s \<le> row_id r)"
    using oldest_exists [of _ "tb_rows old"] by (fastforce simp: oldest_active_def same_route_def)
  moreover have "distinct (map (\<lambda>r. (r ''app_id'', r ''domain'')) (tb_rows ?new))"
    using d by (simp add: distinct_map inj_on_def)
  ultimately show ?thesis using run f3(2,3) f4(2,3) by (intro exI [of _ f4] exI [of _ n4] exI [of _ ?new]) simp
qed

text \<open>A file at version 3 with one app that has a route twice and one that is not active.\<close>

definition route_row :: "int \<Rightarrow> string \<Rightarrow> tuple" where
  "route_row i status c = (if c = ''id'' then VInt i else if c = ''app_id'' then VInt 1 else if c = ''domain'' then VText ''d''
     else if c = ''status'' then VText status else if c = ''target'' then VText ''t'' else VNull)"

definition old_file :: dbfile where
  "old_file = \<lparr> df_version = 3,
     df_tables = [(''servers'', \<lparr> tb_cols = [id_col], tb_rows = [] \<rparr>), (''apps'', \<lparr> tb_cols = [id_col], tb_rows = [\<lambda>_. VInt 1] \<rparr>),
       (''routes'', \<lparr> tb_cols = routes_cols, tb_rows = [route_row 1 ''removed'', route_row 2 ''active'', route_row 3 ''active''] \<rparr>)],
     df_indexes = [], df_seq = [(''routes'', 5)] \<rparr>"

definition fail_at :: "nat \<Rightarrow> failures" where
  "fail_at k n = (if n = k then Some ''disk I/O error'' else None)"

theorem migrateUnique_correct_witness:
  "\<exists>f' n' new. run_state (migrateUnique no_failures) (old_file, 0) = (Inr (), (f', n'))
     \<and> map_of (df_tables f') ''routes'' = Some new \<and> map row_id (tb_rows new) = [2]"
proof -
  let ?rws = "[route_row 1 ''removed'', route_row 2 ''active'', route_row 3 ''active'']"
  have old: "map_of (df_tables old_file) ''routes'' = Some \<lparr> tb_cols = routes_cols, tb_rows = ?rws \<rparr>" by (simp add: old_file_def)
  have "filter (oldest_active ?rws) ?rws = [route_row 2 ''active'']"
    by (simp add: oldest_active_def active_route_def same_route_def route_row_def row_id_def)
  moreover have "row_id (route_row 2 ''active'') = 2" by (simp add: row_id_def route_row_def)
  ultimately show ?thesis
    using migrateUnique_correct [OF old, of 0] by (force simp: old_file_def row_id_def route_row_def)
qed

lemma old_file_facts:
  "length migrations = 4" "df_version old_file = 3" "[4..<5] = [4::nat]"
  "mg_fn (migrations ! 3) = (\<lambda>F. addColumn F ''servers'' (plain_col ''host_key'' ''TEXT'' (VText [])))"
  "columns_of old_file ''servers'' = [''id'']" "map_of (df_tables old_file) ''servers'' = Some \<lparr> tb_cols = [id_col], tb_rows = [] \<rparr>"
  by (simp_all add: migrations_def old_file_def columns_of_def id_col_def plain_col_def)

theorem migrate_resumes_witness:
  "\<exists>f' n' g j. run_state (migrate (fail_at 5)) (old_file, 0) = (Inl (migrate_error 4 (migrations ! 3) ''disk I/O error''), (f', n'))
     \<and> run_state (migrate no_failures) (f', 0) = (Inr (), (g, j)) \<and> columns_of g ''servers'' = [''id'', ''host_key'']"
proof -
  let ?c = "plain_col ''host_key'' ''TEXT'' (VText [])"
  let ?g = "(put_table ''servers'' \<lparr> tb_cols = [id_col, ?c], tb_rows = [] \<rparr> old_file)\<lparr>df_version := 4\<rparr>"
  have name: "cl_name ?c = ''host_key''" "cl_name id_col = ''id''" by (simp_all add: plain_col_def id_col_def)
  have fails: "run_state (migrate (fail_at 5)) (old_file, 0) = (Inl (migrate_error 4 (migrations ! 3) ''disk I/O error''), (old_file, 6))"
    by (simp add: migrate_def sql_runs old_file_facts runMigration_def run_transaction addColumn_def hasColumn_def fail_at_def name)
  have "foreign_key_check (put_table ''servers'' \<lparr> tb_cols = [id_col, ?c], tb_rows = [] \<rparr> old_file) = None"
    by (simp add: foreign_key_check_def dangling_def put_table_def old_file_def List.map_filter_simps routes_cols_def id_col_def
        app_col_def server_col_def plain_col_def needed_col_def time_col_def route_row_def)
  then have "\<exists>k. run_state (migrate no_failures) (old_file, 0) = (Inr (), (?g, k))"
    by (simp add: migrate_def sql_runs old_file_facts runMigration_def run_transaction addColumn_def hasColumn_def no_failures_at name
      add_column_def with_table_def)
  then obtain k where "run_state (migrate no_failures) (old_file, 0) = (Inr (), (?g, k))" ..
  from migrate_resumes [OF fails this] fails show ?thesis
    by (auto simp: columns_of_def name)
qed

theorem rebuildTable_correct_witness:
  "\<exists>f' n'. run_state (rebuildTable no_failures ''routes'' routes_cols None) (old_file, 0) = (Inr (), (f', n'))
     \<and> rebuilt ''routes'' routes_cols old_file f'"
proof -
  let ?cs = "map cl_name routes_cols"
  have names: "?cs = [''id'', ''app_id'', ''server_id'', ''domain'', ''target'', ''status'', ''created_at'']"
    by (simp add: routes_cols_def id_col_def app_col_def server_col_def plain_col_def needed_col_def time_col_def)
  have "\<exists>f' n'. run_state (rebuildTable no_failures ''routes'' routes_cols None) (old_file, 0) = (Inr (), (f', n'))"
    by (simp add: rebuildTable_def sql_runs no_failures_at create_table_def shared_columns_def columns_of_def old_file_def put_table_def
        insert_select_def with_table_def Let_def names copied_def delete_seq_def copy_seq_def drop_table_def rename_table_def
        routes_cols_def id_col_def app_col_def server_col_def plain_col_def needed_col_def time_col_def route_row_def)
  then obtain f' n' where "run_state (rebuildTable no_failures ''routes'' routes_cols None) (old_file, 0) = (Inr (), (f', n'))" by blast
  from this rebuildTable_correct [OF this] show ?thesis by blast
qed

end
