(* ===== verification/Stats.thy ===== *)
theory Stats
  imports Deploy "HOL-Library.AList"
begin

text \<open>
  The collector of measurements, from \<open>internal/app/stats.go\<close>, and the cache of the latest ones in
  \<open>internal/app/service.go\<close>. Floating-point numbers are the rationals they stand for:
  parsing, the product with a unit and the conversion of a value outside \<open>int64\<close> are parameters,
  sums and quotients are exact. The decoder of a line of \<open>docker stats\<close> is a parameter.
\<close>

section \<open>Parameters and state\<close>

record dockerStat =
  dk_CPUPerc :: string
  dk_MemUsage :: string
  dk_MemPerc :: string
  dk_NetIO :: string
  dk_BlockIO :: string
  dk_Name :: string

text \<open>
  \<open>st_float\<close> is \<open>ParseFloat\<close> without its error, \<open>st_groups\<close> the order in which a map of servers is
  walked, the plans the order of rows a query leaves open.
\<close>

record stats_env =
  st_float :: "string \<Rightarrow> rat"
  st_mul :: "rat \<Rightarrow> rat \<Rightarrow> rat"
  st_wild :: "rat \<Rightarrow> int"
  st_stat :: "string \<Rightarrow> dockerStat result"
  st_groups :: "event list \<Rightarrow> int list \<Rightarrow> int list"
  st_plan_traffic :: "event list \<Rightarrow> RouteStats list \<Rightarrow> RouteStats list"
  st_plan_disk :: "event list \<Rightarrow> AppDiskStats list \<Rightarrow> AppDiskStats list"

record StatsOverview =
  so_CPUPercent :: rat
  so_MemPercent :: rat
  so_MemUsageBytes :: int
  so_MemLimitBytes :: int
  so_NetIORxBytes :: int
  so_NetIOTxBytes :: int
  so_BlockIORead :: int
  so_BlockIOWrite :: int
  so_DiskUsageBytes :: int
  so_ContainerName :: string

definition no_overview :: StatsOverview where
  "no_overview = \<lparr> so_CPUPercent = 0, so_MemPercent = 0, so_MemUsageBytes = 0, so_MemLimitBytes = 0, so_NetIORxBytes = 0,
     so_NetIOTxBytes = 0, so_BlockIORead = 0, so_BlockIOWrite = 0, so_DiskUsageBytes = 0, so_ContainerName = [] \<rparr>"

text \<open>\<open>statsCache\<close>, a map from apps, guarded by one mutex: an access is one step.\<close>

type_synonym stats_cache = "(int \<times> StatsOverview) list"

type_synonym 'a stats_prog = "(world \<times> stats_cache, 'a) state"

definition on_world :: "'a prog \<Rightarrow> 'a stats_prog" where
  "on_world m = State (\<lambda>(w, c). case run_state m w of (r, w') \<Rightarrow> (r, (w', c)))"

definition on_cache :: "(stats_cache \<Rightarrow> stats_cache) \<Rightarrow> unit stats_prog" where
  "on_cache f = modify (\<lambda>(w, c). (w, f c))"

section \<open>The cache\<close>

definition updateDiskCache :: "int \<Rightarrow> int \<Rightarrow> stats_cache \<Rightarrow> stats_cache" where
  "updateDiskCache appID bytes cache =
     (case map_of cache appID of
        Some existing \<Rightarrow> AList.update appID (existing\<lparr>so_DiskUsageBytes := bytes\<rparr>) cache
      | None \<Rightarrow> AList.update appID (no_overview\<lparr>so_DiskUsageBytes := bytes\<rparr>) cache)"

definition cache_put :: "int \<times> StatsOverview \<Rightarrow> stats_cache \<Rightarrow> stats_cache" where
  "cache_put p cache =
     (case map_of cache (fst p) of
        Some existing \<Rightarrow> AList.update (fst p) (if so_DiskUsageBytes (snd p) \<le> 0
          then (snd p)\<lparr>so_DiskUsageBytes := so_DiskUsageBytes existing\<rparr> else snd p) cache
      | None \<Rightarrow> AList.update (fst p) (snd p) cache)"

definition UpdateStatsCacheBatch :: "(int \<times> StatsOverview) list \<Rightarrow> stats_cache \<Rightarrow> stats_cache" where
  "UpdateStatsCacheBatch stats cache = fold cache_put stats cache"

section \<open>Numbers\<close>

definition truncate_rat :: "rat \<Rightarrow> int" where
  "truncate_rat v = (if 0 \<le> v then \<lfloor>v\<rfloor> else \<lceil>v\<rceil>)"

definition int64_of :: "stats_env \<Rightarrow> rat \<Rightarrow> int" where
  "int64_of V v = (if - (2 ^ 63) \<le> v \<and> v < 2 ^ 63 then truncate_rat v else st_wild V v)"

definition parsePercent :: "stats_env \<Rightarrow> string \<Rightarrow> rat" where
  "parsePercent V s = st_float V (TrimSuffix (TrimSpace s) ''%'')"

definition clamp100Val :: "rat \<Rightarrow> rat" where
  "clamp100Val v = (if v > 100 then 100 else if v < 0 then 0 else v)"

definition units :: "(string \<times> int) list" where
  "units = [(''TiB'', 1024 * 1024 * 1024 * 1024), (''GiB'', 1024 * 1024 * 1024), (''MiB'', 1024 * 1024), (''KiB'', 1024),
     (''TB'', 1000 * 1000 * 1000 * 1000), (''GB'', 1000 * 1000 * 1000), (''MB'', 1000 * 1000), (''kB'', 1000), (''B'', 1)]"

definition parseBytes :: "stats_env \<Rightarrow> string \<Rightarrow> int" where
  "parseBytes V s =
     (let t = TrimSpace s
      in if t = [] \<or> t = ''0B'' then 0
         else case (case find (\<lambda>u. HasSuffix t (fst u)) units of
                Some u \<Rightarrow> (TrimSuffix t (fst u), snd u) | None \<Rightarrow> (t, 1)) of
            (number, multiplier) \<Rightarrow> int64_of V (st_mul V (st_float V (TrimSpace number)) (of_int multiplier)))"

definition parseMemUsage :: "stats_env \<Rightarrow> string \<Rightarrow> int \<times> int" where
  "parseMemUsage V s = (case SplitN2 CHR ''/'' s of
     [a, b] \<Rightarrow> (parseBytes V (TrimSpace a), parseBytes V (TrimSpace b)) | _ \<Rightarrow> (0, 0))"

definition parseNetIO :: "stats_env \<Rightarrow> string \<Rightarrow> int \<times> int" where
  "parseNetIO V s = (case SplitN2 CHR ''/'' s of
     [a, b] \<Rightarrow> (parseBytes V (TrimSpace a), parseBytes V (TrimSpace b)) | _ \<Rightarrow> (0, 0))"

definition parseBlockIO :: "stats_env \<Rightarrow> string \<Rightarrow> int \<times> int" where
  "parseBlockIO V s = (case SplitN2 CHR ''/'' s of
     [a, b] \<Rightarrow> (parseBytes V (TrimSpace a), parseBytes V (TrimSpace b)) | _ \<Rightarrow> (0, 0))"

definition parseDockerStat :: "stats_env \<Rightarrow> dockerStat \<Rightarrow> int \<Rightarrow> int \<Rightarrow> string \<Rightarrow> ContainerStats" where
  "parseDockerStat V stat appID serverID containerName =
     \<lparr> cs_ID = 0, cs_AppID = appID, cs_ServerID = serverID, cs_ContainerName = containerName,
       cs_CPUPercent = clamp100Val (parsePercent V (dk_CPUPerc stat)),
       cs_MemUsageBytes = fst (parseMemUsage V (dk_MemUsage stat)),
       cs_MemLimitBytes = snd (parseMemUsage V (dk_MemUsage stat)),
       cs_MemPercent = clamp100Val (parsePercent V (dk_MemPerc stat)),
       cs_NetIORxBytes = fst (parseNetIO V (dk_NetIO stat)), cs_NetIOTxBytes = snd (parseNetIO V (dk_NetIO stat)),
       cs_BlockIORead = fst (parseBlockIO V (dk_BlockIO stat)), cs_BlockIOWrite = snd (parseBlockIO V (dk_BlockIO stat)),
       cs_CreatedAt = 0 \<rparr>"

section \<open>Finding the containers\<close>

definition prefixed_id :: "string \<Rightarrow> string \<Rightarrow> int" where
  "prefixed_id pre s =
     (if \<not> HasPrefix s pre then 0
      else case ParseInt (TrimPrefix s pre) of (n, bad) \<Rightarrow> if bad then 0 else n)"

definition parseComposeProjectAppID :: "string \<Rightarrow> int" where
  "parseComposeProjectAppID project = prefixed_id ''app-'' (TrimSpace project)"

definition parseAppDirID :: "string \<Rightarrow> int" where
  "parseAppDirID path = prefixed_id ''/opt/dockify/apps/app-'' path"

text \<open>The lines of an output, trimmed, without blank ones.\<close>

definition output_lines :: "string \<Rightarrow> string list" where
  "output_lines out = filter (\<lambda>c. c \<noteq> []) (map TrimSpace (Split1 (CHR 0x0A) (TrimSpace out)))"

definition parseContainerList :: "string \<Rightarrow> string list" where
  "parseContainerList out = output_lines out"

definition detectDockerCompose :: "env \<Rightarrow> conn \<Rightarrow> string prog" where
  "detectDockerCompose E c = do {
     r \<leftarrow> Exec E c ''docker compose version 2>/dev/null'';
     ret (if TrimSpace (fst r) \<noteq> [] then ''docker compose'' else ''docker-compose'')
   }"

definition discoverAppContainers :: "env \<Rightarrow> conn \<Rightarrow> App \<Rightarrow> (string list \<times> error option) prog" where
  "discoverAppContainers E c app = do {
     r \<leftarrow> Exec E c (''docker ps --filter label=com.docker.compose.project='' @ (''app-'' @ Itoa (app_ID app))
       @ '' --format '' @ [CHR 0x27] @ ''{{.Names}}'' @ [CHR 0x27] @ '' 2>/dev/null'');
     if snd r = None \<and> TrimSpace (fst r) \<noteq> [] then ret (parseContainerList (fst r), None)
     else do {
       let composePath = ''/opt/dockify/apps/app-'' @ Itoa (app_ID app) @ ''/docker-compose.yml'';
       dc \<leftarrow> detectDockerCompose E c;
       r1 \<leftarrow> Exec E c (dc @ '' -f '' @ composePath @ '' ps --format '' @ [CHR 0x27] @ ''{{.Names}}'' @ [CHR 0x27] @ '' 2>/dev/null'');
       if snd r1 \<noteq> None \<or> TrimSpace (fst r1) = [] then do {
         r2 \<leftarrow> Exec E c (dc @ '' -f '' @ composePath @ '' ps -q 2>/dev/null'');
         ret (if snd r2 \<noteq> None \<or> TrimSpace (fst r2) = [] then ([], snd r2) else (parseContainerList (fst r2), None))
       }
       else ret (parseContainerList (fst r1), None)
     }
   }"

definition listAppContainers :: "env \<Rightarrow> conn \<Rightarrow> App \<Rightarrow> (string list \<times> error option) prog" where
  "listAppContainers E c app = do {
     r \<leftarrow> discoverAppContainers E c app;
     ret (if snd r \<noteq> None \<or> fst r = [] then ([], snd r) else (fst r, None))
   }"

text \<open>A line of \<open>docker ps\<close>: the container and the app of its project, when that is one of these.\<close>

definition ps_entry :: "App list \<Rightarrow> string \<Rightarrow> (string \<times> int) option" where
  "ps_entry as line = (case SplitN2 CHR ''|'' line of
     [name, project] \<Rightarrow>
       (let appID = parseComposeProjectAppID (TrimSpace project)
        in if appID > 0 \<and> appID \<in> set (map app_ID as) then Some (TrimSpace name, appID) else None)
   | _ \<Rightarrow> None)"

type_synonym container_map = "(string \<times> int) list"

definition put_all :: "container_map \<Rightarrow> container_map \<Rightarrow> container_map" where
  "put_all kvs m = fold (\<lambda>(k, v). AList.update k v) kvs m"

definition labelled_containers :: "env \<Rightarrow> conn \<Rightarrow> App list \<Rightarrow> container_map prog" where
  "labelled_containers E c as = do {
     r \<leftarrow> Exec E c (''docker ps --format '' @ [CHR 0x27] @ ''{{.Names}}|{{.Label '' @ [CHR 0x22] @ ''com.docker.compose.project''
       @ [CHR 0x22] @ ''}}'' @ [CHR 0x27] @ '' 2>/dev/null'');
     ret (if snd r = None then put_all (List.map_filter (ps_entry as) (output_lines (fst r))) [] else [])
   }"

definition discovered_containers :: "env \<Rightarrow> conn \<Rightarrow> App list \<Rightarrow> container_map prog" where
  "discovered_containers E c as = foldM (\<lambda>m a. do {
     r \<leftarrow> listAppContainers E c a;
     ret (if snd r \<noteq> None then m else put_all (map (\<lambda>name. (name, app_ID a)) (fst r)) m)
   }) [] as"

section \<open>A round of container statistics\<close>

text \<open>The lines of \<open>docker stats\<close> that decode and name a known container.\<close>

definition stat_row :: "stats_env \<Rightarrow> container_map \<Rightarrow> int \<Rightarrow> string \<Rightarrow> ContainerStats option" where
  "stat_row V containerApp serverID line = (case st_stat V line of
     Inl _ \<Rightarrow> None
   | Inr stat \<Rightarrow> map_option (\<lambda>appID. parseDockerStat V stat appID serverID (dk_Name stat)) (map_of containerApp (dk_Name stat)))"

definition add_row :: "ContainerStats \<Rightarrow> StatsOverview \<Rightarrow> StatsOverview" where
  "add_row cs st = st\<lparr>so_CPUPercent := so_CPUPercent st + cs_CPUPercent cs,
     so_MemUsageBytes := so_MemUsageBytes st + cs_MemUsageBytes cs,
     so_MemLimitBytes := so_MemLimitBytes st + cs_MemLimitBytes cs,
     so_MemPercent := so_MemPercent st + cs_MemPercent cs,
     so_NetIORxBytes := so_NetIORxBytes st + cs_NetIORxBytes cs,
     so_NetIOTxBytes := so_NetIOTxBytes st + cs_NetIOTxBytes cs,
     so_BlockIORead := so_BlockIORead st + cs_BlockIORead cs,
     so_BlockIOWrite := so_BlockIOWrite st + cs_BlockIOWrite cs\<rparr>"

definition batch_row :: "ContainerStats \<Rightarrow> (int \<times> StatsOverview) list \<Rightarrow> (int \<times> StatsOverview) list" where
  "batch_row cs batch =
     (let st = (case map_of batch (cs_AppID cs) of
            Some st \<Rightarrow> st | None \<Rightarrow> no_overview\<lparr>so_ContainerName := cs_ContainerName cs\<rparr>)
      in AList.update (cs_AppID cs) (add_row cs st) batch)"

text \<open>The rows are stored one by one; an error is only logged.\<close>

definition store_rows :: "ContainerStats list \<Rightarrow> unit prog" where
  "store_rows rws = forM rws (\<lambda>cs. db_do (\<lambda>now d. snd (Repo_InsertContainerStats now cs d)))"

definition stats_cmd :: "string list \<Rightarrow> string" where
  "stats_cmd names = ''docker stats --no-stream --format '' @ [CHR 0x27] @ ''{{json .}}'' @ [CHR 0x27] @ '' ''
     @ Join names '' '' @ '' 2>/dev/null''"

definition sample_containers :: "env \<Rightarrow> stats_env \<Rightarrow> conn \<Rightarrow> int \<Rightarrow> container_map \<Rightarrow> unit stats_prog" where
  "sample_containers E V c serverID containerApp = do {
     r \<leftarrow> on_world (Exec E c (stats_cmd (sort (map fst containerApp))));
     if snd r \<noteq> None \<or> TrimSpace (fst r) = [] then ret ()
     else do {
       let parsed = List.map_filter (stat_row V containerApp serverID) (output_lines (fst r));
       if parsed = [] then ret ()
       else do {
         on_world (store_rows parsed);
         on_cache (UpdateStatsCacheBatch (fold batch_row parsed []))
       }
     }
   }"

definition collectAllContainerStats :: "env \<Rightarrow> stats_env \<Rightarrow> conn \<Rightarrow> int \<Rightarrow> App list \<Rightarrow> unit stats_prog" where
  "collectAllContainerStats E V c serverID as = do {
     labelled \<leftarrow> on_world (labelled_containers E c as);
     containerApp \<leftarrow> (if labelled = [] then on_world (discovered_containers E c as) else ret labelled);
     if containerApp = [] then ret () else sample_containers E V c serverID containerApp
   }"

section \<open>The jobs of a tick\<close>

text \<open>
  The running apps by server; a goroutine per server runs the rest. A job is what the goroutine does
  with its server and its apps.
\<close>

definition running_on_servers :: "App list \<Rightarrow> App list" where
  "running_on_servers as = filter (\<lambda>a. \<not> (app_Status a \<noteq> StatusRunning \<or> app_ServerID a = 0)) as"

definition server_apps :: "env \<Rightarrow> stats_env \<Rightarrow> (int \<times> App list) list prog" where
  "server_apps E V = do {
     h \<leftarrow> trace;
     as \<leftarrow> db_get (\<lambda>d. running_on_servers (Repo_List d));
     ret (map (\<lambda>sid. (sid, filter (\<lambda>a. app_ServerID a = sid) as))
       (reorder (st_groups V h) (remdups (map app_ServerID as))))
   }"

definition server_job :: "env \<Rightarrow> int \<Rightarrow> (conn \<Rightarrow> unit stats_prog) \<Rightarrow> unit stats_prog" where
  "server_job E sid work = do {
     svr \<leftarrow> on_world (db_get (Srv_Get sid));
     case svr of
       None \<Rightarrow> ret ()
     | Some s \<Rightarrow> do {
         r \<leftarrow> on_world (Connect E (srv_Host s) (srv_Port s) (srv_User s) (srv_SSHKey s));
         case r of
           Inl _ \<Rightarrow> ret ()
         | Inr c \<Rightarrow> do { work c; on_world (Close E c) }
       }
   }"

definition collectServerStats :: "env \<Rightarrow> stats_env \<Rightarrow> int \<Rightarrow> App list \<Rightarrow> unit stats_prog" where
  "collectServerStats E V serverID as = server_job E serverID (\<lambda>c. collectAllContainerStats E V c serverID as)"

section \<open>Disk usage\<close>

definition du_cmd :: "App list \<Rightarrow> string" where
  "du_cmd as = ''du -sb '' @ Join (map (\<lambda>a. app_dir (app_ID a)) as) '' '' @ '' 2>/dev/null''"

text \<open>A line of \<open>du\<close>: the app of the folder and its bytes.\<close>

definition disk_entry :: "string \<Rightarrow> (int \<times> int) option" where
  "disk_entry line = (case Fields line of
     amount # path # _ \<Rightarrow>
       (let appID = parseAppDirID path
        in if appID \<le> 0 then None
           else case ParseInt amount of (bytes, bad) \<Rightarrow> if bad \<or> bytes \<le> 0 then None else Some (appID, bytes))
   | _ \<Rightarrow> None)"

definition server_by_app :: "App list \<Rightarrow> int \<Rightarrow> int" where
  "server_by_app as i = (case find (\<lambda>a. app_ID a = i) (rev as) of Some a \<Rightarrow> app_ServerID a | None \<Rightarrow> 0)"

definition store_disk :: "App list \<Rightarrow> int \<times> int \<Rightarrow> unit stats_prog" where
  "store_disk as e = do {
     on_world (db_do (\<lambda>now d. snd (Repo_InsertAppDiskUsage now (fst e) (server_by_app as (fst e)) (snd e) d)));
     on_cache (updateDiskCache (fst e) (snd e))
   }"

definition collectDiskUsageForApps :: "env \<Rightarrow> conn \<Rightarrow> App list \<Rightarrow> unit stats_prog" where
  "collectDiskUsageForApps E c as =
     (if as = [] then ret ()
      else do {
        r \<leftarrow> on_world (Exec E c (du_cmd as));
        if snd r \<noteq> None \<or> TrimSpace (fst r) = [] then ret ()
        else forM (List.map_filter disk_entry (output_lines (fst r))) (store_disk as)
      })"

section \<open>Traffic\<close>

text \<open>\<open>Index\<close> from the front; the label's value ends at the next quote.\<close>

definition extractLabel :: "string \<Rightarrow> string \<Rightarrow> string" where
  "extractLabel line label =
     (case Index line (label @ ''='' @ [CHR 0x22]) of
        None \<Rightarrow> []
      | Some idx \<Rightarrow>
          (let rest = drop (idx + length label + 2) line
           in case Index rest [CHR 0x22] of None \<Rightarrow> [] | Some e \<Rightarrow> take e rest))"

definition parseMetricValue :: "string \<Rightarrow> int" where
  "parseMetricValue line = (let parts = Fields line in if length parts < 2 then 0 else fst (ParseInt (last parts)))"

definition metric_matches :: "string \<Rightarrow> string \<Rightarrow> string \<Rightarrow> string \<Rightarrow> bool" where
  "metric_matches metric statusPrefix host line \<longleftrightarrow> Contains line metric \<and> Contains line statusPrefix \<and>
     Contains line (''host='' @ [CHR 0x22] @ host @ [CHR 0x22])"

definition parseMetricLine :: "string list \<Rightarrow> string \<Rightarrow> string \<Rightarrow> string \<Rightarrow> int" where
  "parseMetricLine ls metric statusPrefix host =
     (case find (\<lambda>l. metric_matches metric statusPrefix host (TrimSpace l)) ls of
        Some l \<Rightarrow> parseMetricValue (TrimSpace l) | None \<Rightarrow> 0)"

abbreviation requests_metric :: string where
  "requests_metric \<equiv> ''caddy_http_requests_total''"

definition status_class :: "char \<Rightarrow> string" where
  "status_class d = ''status='' @ [CHR 0x22, d]"

text \<open>The domains of the apps; a later app wins.\<close>

definition app_domain_map :: "(App \<Rightarrow> Route list) \<Rightarrow> App list \<Rightarrow> (string \<times> int) list" where
  "app_domain_map routes_of as = fold (\<lambda>a m. put_all (map (\<lambda>r. (rt_Domain r, app_ID a)) (routes_of a))
     (if app_Domain a \<noteq> [] then AList.update (app_Domain a) (app_ID a) m else m)) as []"

definition request_rate :: "int \<Rightarrow> RouteStats option \<Rightarrow> int \<Rightarrow> rat" where
  "request_rate clock prev val = (case prev of
     None \<Rightarrow> 0
   | Some p \<Rightarrow>
       (let delta = val - rs_TotalRequests p; elapsed = of_int (clock - rs_CreatedAt p * 1000000000) / 1000000000
        in if delta > 0 \<and> elapsed > 0 then of_int delta / elapsed else 0))"

definition traffic_line :: "env \<Rightarrow> stats_env \<Rightarrow> (string \<times> int) list \<Rightarrow> string list \<Rightarrow> string \<Rightarrow> unit prog" where
  "traffic_line E V domains ls raw =
     (let line = TrimSpace raw; host = extractLabel line ''host''
      in if HasPrefix line ''#'' \<or> line = [] \<or> \<not> Contains line requests_metric \<or> host = [] then ret ()
         else case map_of domains host of
             None \<Rightarrow> ret ()
           | Some appID \<Rightarrow> do {
               h \<leftarrow> trace;
               prev \<leftarrow> db_get (Repo_LatestRouteStats (st_plan_traffic V h) appID);
               clock \<leftarrow> gets w_clock;
               db_do (\<lambda>now d. snd (Repo_InsertRouteStats now \<lparr> rs_ID = 0, rs_AppID = appID, rs_Domain = host,
                 rs_TotalRequests = parseMetricValue line, rs_RequestsRPS = request_rate clock prev (parseMetricValue line),
                 rs_Status2xx = parseMetricLine ls requests_metric (status_class CHR ''2'') host,
                 rs_Status3xx = parseMetricLine ls requests_metric (status_class CHR ''3'') host,
                 rs_Status4xx = parseMetricLine ls requests_metric (status_class CHR ''4'') host,
                 rs_Status5xx = parseMetricLine ls requests_metric (status_class CHR ''5'') host, rs_CreatedAt = 0 \<rparr> d))
             })"

definition collectCaddyTraffic :: "env \<Rightarrow> stats_env \<Rightarrow> conn \<Rightarrow> App list \<Rightarrow> unit prog" where
  "collectCaddyTraffic E V c as = do {
     r \<leftarrow> Exec E c ''docker exec caddy curl -s http://localhost:2019/metrics 2>/dev/null'';
     if snd r \<noteq> None \<or> TrimSpace (fst r) = [] then ret ()
     else do {
       h \<leftarrow> trace;
       domains \<leftarrow> db_get (\<lambda>d. app_domain_map (\<lambda>a. Repo_GetRoutes (e_plan_routes E h) (app_ID a) d) as);
       if domains = [] then ret ()
       else forM (Split1 (CHR 0x0A) (fst r)) (traffic_line E V domains (Split1 (CHR 0x0A) (fst r)))
     }
   }"

section \<open>The loop\<close>

datatype stats_tick = StatsTick | CaddyTick | DiskTick | OldTick

definition pruneOldStats :: "unit prog" where
  "pruneOldStats = do {
     db_do (\<lambda>now. Repo_PruneContainerStats (now - 7 * 24 * 3600));
     db_do (\<lambda>now. Repo_PruneRouteStats (now - 7 * 24 * 3600));
     db_do (\<lambda>now. Repo_PruneAppDiskStats (now - 7 * 24 * 3600))
   }"

text \<open>The goroutines that a tick starts, as the programs they run.\<close>

definition collectAllStats :: "env \<Rightarrow> stats_env \<Rightarrow> unit stats_prog list prog" where
  "collectAllStats E V = do {
     groups \<leftarrow> server_apps E V;
     ret (map (\<lambda>(sid, as). collectServerStats E V sid as) groups)
   }"

definition collectAllCaddyTraffic :: "env \<Rightarrow> stats_env \<Rightarrow> unit stats_prog list prog" where
  "collectAllCaddyTraffic E V = do {
     groups \<leftarrow> server_apps E V;
     ret (map (\<lambda>(sid, as). server_job E sid (\<lambda>c. on_world (collectCaddyTraffic E V c as))) groups)
   }"

definition collectAppDiskUsage :: "env \<Rightarrow> stats_env \<Rightarrow> unit stats_prog list prog" where
  "collectAppDiskUsage E V = do {
     groups \<leftarrow> server_apps E V;
     ret (map (\<lambda>(sid, as). server_job E sid (\<lambda>c. collectDiskUsageForApps E c as)) groups)
   }"

definition stats_round :: "env \<Rightarrow> stats_env \<Rightarrow> stats_tick \<Rightarrow> unit stats_prog list prog" where
  "stats_round E V t = (case t of
     StatsTick \<Rightarrow> collectAllStats E V
   | CaddyTick \<Rightarrow> collectAllCaddyTraffic E V
   | DiskTick \<Rightarrow> collectAppDiskUsage E V
   | OldTick \<Rightarrow> do { pruneOldStats; ret [] })"

section \<open>Live statistics\<close>

definition sum_into :: "ContainerStats \<Rightarrow> ContainerStats \<Rightarrow> ContainerStats" where
  "sum_into cs acc = acc\<lparr>cs_AppID := cs_AppID cs, cs_ServerID := cs_ServerID cs,
     cs_CPUPercent := cs_CPUPercent acc + cs_CPUPercent cs,
     cs_MemUsageBytes := cs_MemUsageBytes acc + cs_MemUsageBytes cs,
     cs_MemLimitBytes := cs_MemLimitBytes acc + cs_MemLimitBytes cs,
     cs_MemPercent := cs_MemPercent acc + cs_MemPercent cs,
     cs_NetIORxBytes := cs_NetIORxBytes acc + cs_NetIORxBytes cs,
     cs_NetIOTxBytes := cs_NetIOTxBytes acc + cs_NetIOTxBytes cs,
     cs_BlockIORead := cs_BlockIORead acc + cs_BlockIORead cs,
     cs_BlockIOWrite := cs_BlockIOWrite acc + cs_BlockIOWrite cs\<rparr>"

definition no_stats :: ContainerStats where
  "no_stats = \<lparr> cs_ID = 0, cs_AppID = 0, cs_ServerID = 0, cs_ContainerName = [], cs_CPUPercent = 0, cs_MemUsageBytes = 0,
     cs_MemLimitBytes = 0, cs_MemPercent = 0, cs_NetIORxBytes = 0, cs_NetIOTxBytes = 0, cs_BlockIORead = 0,
     cs_BlockIOWrite = 0, cs_CreatedAt = 0 \<rparr>"

definition sumStats :: "ContainerStats list \<Rightarrow> ContainerStats option" where
  "sumStats stats = (if stats = [] then None else Some (fold sum_into stats no_stats))"

definition live_containers :: "stats_env \<Rightarrow> env \<Rightarrow> conn \<Rightarrow> App \<Rightarrow> string list \<Rightarrow> ContainerStats list prog" where
  "live_containers V E c a names = foldM (\<lambda>parsed name. do {
     r \<leftarrow> Exec E c (''docker stats --no-stream --format '' @ [CHR 0x27] @ ''{{json .}}'' @ [CHR 0x27] @ '' '' @ name @ '' 2>/dev/null'');
     ret (if snd r \<noteq> None \<or> TrimSpace (fst r) = [] then parsed
          else case st_stat V (TrimSpace (fst r)) of
              Inl _ \<Rightarrow> parsed
            | Inr stat \<Rightarrow> parsed @ [parseDockerStat V stat (app_ID a) (app_ServerID a) name])
   }) [] names"

definition LiveSnapshot :: "env \<Rightarrow> stats_env \<Rightarrow> conn \<Rightarrow> App option \<Rightarrow> ContainerStats option result prog" where
  "LiveSnapshot E V c app = (case app of
     None \<Rightarrow> ret (Inl ''app is nil'')
   | Some a \<Rightarrow>
       if app_ServerID a = 0 then ret (Inl (''app '' @ Itoa (app_ID a) @ '' is not assigned to a server''))
       else do {
         r \<leftarrow> listAppContainers E c a;
         case r of
           (_, Some err) \<Rightarrow> ret (Inl err)
         | (names, None) \<Rightarrow>
             if names = [] then ret (Inr None)
             else do { parsed \<leftarrow> live_containers V E c a names; ret (Inr (sumStats parsed)) }
       })"

text \<open>\<open>stripANSI\<close>: escape, bracket, digits and semicolons, one letter; leftmost matches.\<close>

definition ansi_body :: "char \<Rightarrow> bool" where
  "ansi_body c \<longleftrightarrow> is_digit c \<or> c = CHR '';''"

definition ansi_letter :: "char \<Rightarrow> bool" where
  "ansi_letter c \<longleftrightarrow> (CHR ''a'' \<le> c \<and> c \<le> CHR ''z'') \<or> (CHR ''A'' \<le> c \<and> c \<le> CHR ''Z'')"

definition ansi_rest :: "string \<Rightarrow> string option" where
  "ansi_rest s =
     (if HasPrefix s [CHR 0x1B, CHR ''['']
      then (case dropWhile ansi_body (drop 2 s) of c # t \<Rightarrow> (if ansi_letter c then Some t else None) | [] \<Rightarrow> None)
      else None)"

lemma length_ansi_rest: "ansi_rest s = Some t \<Longrightarrow> length t < length s"
  using length_dropWhile_le [of ansi_body "drop 2 s"]
  by (auto simp: ansi_rest_def HasPrefix_def split: if_splits list.splits)

function stripANSI :: "string \<Rightarrow> string" where
  "stripANSI s = (case ansi_rest s of
     Some t \<Rightarrow> stripANSI t
   | None \<Rightarrow> (case s of [] \<Rightarrow> [] | c # t \<Rightarrow> c # stripANSI t))"
  by pat_completeness auto
termination
  by (relation "measure length") (auto dest: length_ansi_rest)

declare stripANSI.simps [simp del]

text \<open>One line of a stream: the latest row of every container, and the total that is sent.\<close>

definition stream_line :: "stats_env \<Rightarrow> App \<Rightarrow> (string \<times> ContainerStats) list \<Rightarrow> string
    \<Rightarrow> (string \<times> ContainerStats) list \<times> ContainerStats option" where
  "stream_line V a latest raw =
     (let line = stripANSI (TrimSpace raw)
      in if line = [] then (latest, None)
         else case st_stat V line of
             Inl _ \<Rightarrow> (latest, None)
           | Inr stat \<Rightarrow>
               (let latest' = AList.update (dk_Name stat) (parseDockerStat V stat (app_ID a) (app_ServerID a) (dk_Name stat)) latest
                in (latest', sumStats (map snd latest'))))"

section \<open>What the pages read\<close>

definition overview_of :: "ContainerStats \<Rightarrow> StatsOverview" where
  "overview_of cs = \<lparr> so_CPUPercent = cs_CPUPercent cs, so_MemPercent = cs_MemPercent cs, so_MemUsageBytes = cs_MemUsageBytes cs,
     so_MemLimitBytes = cs_MemLimitBytes cs, so_NetIORxBytes = cs_NetIORxBytes cs, so_NetIOTxBytes = cs_NetIOTxBytes cs,
     so_BlockIORead = cs_BlockIORead cs, so_BlockIOWrite = cs_BlockIOWrite cs, so_DiskUsageBytes = 0, so_ContainerName = [] \<rparr>"

definition GetStatsOverview :: "stats_env \<Rightarrow> int \<Rightarrow> StatsOverview option prog" where
  "GetStatsOverview V appID = do {
     h \<leftarrow> trace;
     r \<leftarrow> db_get (Repo_LatestAggregatedStats appID);
     case r of
       Inl _ \<Rightarrow> ret None
     | Inr cs \<Rightarrow> do {
         diskBytes \<leftarrow> db_get (Repo_LatestAppDiskUsage (st_plan_disk V h) appID);
         ret (Some ((overview_of cs)\<lparr>so_DiskUsageBytes := diskBytes\<rparr>))
       }
   }"

text \<open>
  \<open>LatestDiskByApp\<close>: the rows of the latest time of each app in the last seven days; of several the last one
  read counts.
\<close>

definition Repo_LatestDiskByApp :: "(AppDiskStats list \<Rightarrow> AppDiskStats list) \<Rightarrow> int \<Rightarrow> db \<Rightarrow> (int \<times> int) list" where
  "Repo_LatestDiskByApp plan now d =
     (let recent = filter (\<lambda>s. ds_CreatedAt s \<ge> now - 7 * 86400) (app_disk_stats d);
          latest = (\<lambda>i t. \<forall>s \<in> set recent. ds_AppID s = i \<longrightarrow> ds_CreatedAt s \<le> t)
      in fold (\<lambda>s m. AList.update (ds_AppID s) (ds_Bytes s) m)
           (reorder plan (filter (\<lambda>s. latest (ds_AppID s) (ds_CreatedAt s)) recent)) [])"

definition put_disk :: "int \<times> int \<Rightarrow> stats_cache \<Rightarrow> stats_cache" where
  "put_disk e out = (case map_of out (fst e) of
     Some ov \<Rightarrow> AList.update (fst e) (ov\<lparr>so_DiskUsageBytes := snd e\<rparr>) out
   | None \<Rightarrow> AList.update (fst e) (no_overview\<lparr>so_DiskUsageBytes := snd e\<rparr>) out)"

definition cold_overview :: "stats_env \<Rightarrow> event list \<Rightarrow> int \<Rightarrow> db \<Rightarrow> stats_cache" where
  "cold_overview V h now d =
     fold put_disk (Repo_LatestDiskByApp (st_plan_disk V h) now d)
       (List.map_filter (\<lambda>i. map_option (\<lambda>cs. (i, overview_of cs)) (Repo_LatestStatsByApp now d i))
         (remdups (map cs_AppID (container_stats d))))"

definition StatsOverviewByApp :: "stats_env \<Rightarrow> stats_cache stats_prog" where
  "StatsOverviewByApp V = do {
     cache \<leftarrow> gets snd;
     if cache \<noteq> [] then ret cache
     else do {
       out \<leftarrow> gets (\<lambda>(w, _). cold_overview V (w_trace w) (now_s w) (w_db w));
       (if out \<noteq> [] then on_cache (UpdateStatsCacheBatch out) else ret ());
       ret out
     }
   }"

record TrafficOverview =
  to_RequestsRPS :: rat
  to_TotalRequests :: int
  to_Status2xx :: int
  to_Status3xx :: int
  to_Status4xx :: int
  to_Status5xx :: int

definition GetTrafficOverview :: "stats_env \<Rightarrow> int \<Rightarrow> TrafficOverview option prog" where
  "GetTrafficOverview V appID = do {
     h \<leftarrow> trace;
     rs \<leftarrow> db_get (Repo_LatestRouteStats (st_plan_traffic V h) appID);
     ret (map_option (\<lambda>r. \<lparr> to_RequestsRPS = rs_RequestsRPS r, to_TotalRequests = rs_TotalRequests r,
       to_Status2xx = rs_Status2xx r, to_Status3xx = rs_Status3xx r, to_Status4xx = rs_Status4xx r,
       to_Status5xx = rs_Status5xx r \<rparr>) rs)
   }"

record DashboardStats =
  da_TotalApps :: int
  da_RunningApps :: int
  da_TotalServers :: int
  da_OnlineServers :: int

definition Service_DashboardStats :: "db \<Rightarrow> DashboardStats" where
  "Service_DashboardStats d = \<lparr> da_TotalApps = int (length (Repo_List d)),
     da_RunningApps = int (length (filter (\<lambda>a. app_Status a = StatusRunning) (Repo_List d))),
     da_TotalServers = int (length (Srv_List d)),
     da_OnlineServers = int (length (filter (\<lambda>s. srv_Status s = StatusOnline) (Srv_List d))) \<rparr>"

end
