(* ===== verification/StatsLaws.thy ===== *)
theory StatsLaws
  imports Stats
begin

text \<open>
  What a round of measurements leaves behind: the rows stored, the cache, and that the cache and the
  database agree. The reference of a round is the list of rows that the worker reported; the totals
  are sums over it.
\<close>

section \<open>Programs on the world and the cache\<close>

lemma wp_on_world [wp_simps]: "wp (on_world m) Q s = wp m (\<lambda>r w. Q r (w, snd s)) (fst s)"
  by (cases s) (simp add: wp_def on_world_def split: prod.splits)

lemma wp_on_cache [wp_simps]: "wp (on_cache f) Q s = Q () (fst s, f (snd s))"
  by (cases s) (simp add: wp_def on_cache_def modify_def)

section \<open>The batch of a round\<close>

definition app_rows :: "int \<Rightarrow> ContainerStats list \<Rightarrow> ContainerStats list" where
  "app_rows i rws = filter (\<lambda>s. cs_AppID s = i) rws"

text \<open>The total of some rows: their sums, under the name of the first container.\<close>

definition round_total :: "ContainerStats list \<Rightarrow> StatsOverview" where
  "round_total rws = (overview_of (sum_tick 0 rws))\<lparr>so_ContainerName := cs_ContainerName (hd rws)\<rparr>"

lemma map_of_batch_row:
  "map_of (batch_row cs b) i = (if i = cs_AppID cs
     then Some (add_row cs (case map_of b i of Some st \<Rightarrow> st | None \<Rightarrow> no_overview\<lparr>so_ContainerName := cs_ContainerName cs\<rparr>))
     else map_of b i)"
  by (simp add: batch_row_def update_conv Let_def)

lemma add_row_total: "rws \<noteq> [] \<Longrightarrow> add_row cs (round_total rws) = round_total (rws @ [cs])"
  by (simp add: add_row_def round_total_def overview_of_def sum_tick_def)

lemma add_row_first: "add_row cs (no_overview\<lparr>so_ContainerName := cs_ContainerName cs\<rparr>) = round_total [cs]"
  by (simp add: add_row_def round_total_def overview_of_def sum_tick_def no_overview_def)

lemma map_of_batch:
  "map_of (fold batch_row rws []) i = (if app_rows i rws = [] then None else Some (round_total (app_rows i rws)))"
proof (induction rws rule: rev_induct)
  case Nil
  show ?case by (simp add: app_rows_def)
next
  case (snoc cs rws)
  then show ?case by (auto simp: map_of_batch_row app_rows_def add_row_total add_row_first)
qed

lemma distinct_batch: "distinct (map fst (fold batch_row rws []))"
  by (induction rws rule: rev_induct) (simp_all add: batch_row_def distinct_update Let_def)

section \<open>The cache\<close>

definition kept_disk :: "StatsOverview option \<Rightarrow> StatsOverview \<Rightarrow> StatsOverview" where
  "kept_disk old s = (case old of
     Some e \<Rightarrow> if so_DiskUsageBytes s \<le> 0 then s\<lparr>so_DiskUsageBytes := so_DiskUsageBytes e\<rparr> else s | None \<Rightarrow> s)"

lemma map_of_cache_put:
  "map_of (cache_put p c) i = (if i = fst p then Some (kept_disk (map_of c i) (snd p)) else map_of c i)"
  by (simp add: cache_put_def kept_disk_def update_conv split: option.splits)

lemma map_of_cache_puts:
  "distinct (map fst stats) \<Longrightarrow> map_of (fold cache_put stats c) i =
     (case map_of stats i of None \<Rightarrow> map_of c i | Some s \<Rightarrow> Some (kept_disk (map_of c i) s))"
proof (induction stats arbitrary: c)
  case (Cons p stats)
  then have "map_of stats (fst p) = None" by (simp add: map_of_eq_None_iff)
  with Cons show ?case by (cases p) (auto simp: map_of_cache_put split: option.splits)
qed simp

lemma round_total_disk: "so_DiskUsageBytes (round_total rws) = 0"
  by (simp add: round_total_def overview_of_def)

text \<open>The cache after a round: the totals of the apps that were measured, with their disk usage kept.\<close>

lemma map_of_round:
  "map_of (UpdateStatsCacheBatch (fold batch_row rws []) cache) i =
     (if app_rows i rws = [] then map_of cache i
      else Some ((round_total (app_rows i rws))\<lparr>so_DiskUsageBytes :=
        (case map_of cache i of Some e \<Rightarrow> so_DiskUsageBytes e | None \<Rightarrow> 0)\<rparr>))"
  by (auto simp: UpdateStatsCacheBatch_def map_of_cache_puts distinct_batch map_of_batch kept_disk_def round_total_disk
      split: option.splits intro: StatsOverview.equality)

section \<open>The rows of a round\<close>

text \<open>The row of the database for a measurement: its fields with an id and the time.\<close>

definition row_of :: "int \<Rightarrow> ContainerStats \<Rightarrow> ContainerStats \<Rightarrow> bool" where
  "row_of now cs s \<longleftrightarrow> s = cs\<lparr>cs_ID := cs_ID s, cs_CreatedAt := now\<rparr>"

definition storable :: "db \<Rightarrow> ContainerStats \<Rightarrow> bool" where
  "storable d cs \<longleftrightarrow> cs_AppID cs \<in> app_ids d \<and> cs_ServerID cs \<in> server_ids d"

lemma store_rows_spec:
  "\<exists>new q. exec (store_rows rws) w = w\<lparr>w_db := (w_db w)\<lparr>container_stats := container_stats (w_db w) @ new,
     sqlite_sequence := q\<rparr>\<rparr> \<and> list_all2 (row_of (now_s w)) (filter (storable (w_db w)) rws) new"
proof (induction rws arbitrary: w)
  case Nil
  show ?case by (rule exI [of _ "[]"], rule exI [of _ "sqlite_sequence (w_db w)"]) (simp add: store_rows_def)
next
  case (Cons cs rws)
  let ?d = "snd (Repo_InsertContainerStats (now_s w) cs (w_db w))"
  let ?w = "w\<lparr>w_db := ?d\<rparr>"
  have step: "exec (store_rows (cs # rws)) w = exec (store_rows rws) ?w"
    by (simp add: store_rows_def exec_bind) (simp add: db_do_def exec_def modify_def)
  have ids: "storable ?d = storable (w_db w)"
    by (rule ext) (simp add: storable_def Repo_InsertContainerStats_def app_ids_def server_ids_def bump_def)
  have now: "now_s ?w = now_s w" by (simp add: now_s_def)
  from Cons.IH [of ?w] obtain new q where
    new: "exec (store_rows rws) ?w = ?w\<lparr>w_db := ?d\<lparr>container_stats := container_stats ?d @ new, sqlite_sequence := q\<rparr>\<rparr>"
      "list_all2 (row_of (now_s w)) (filter (storable (w_db w)) rws) new"
    by (auto simp: ids now)
  show ?case
  proof (cases "storable (w_db w) cs")
    case True
    then have d: "?d = bump TContainerStats ((w_db w)\<lparr>container_stats := container_stats (w_db w)
        @ [cs\<lparr>cs_ID := next_id TContainerStats (w_db w), cs_CreatedAt := now_s w\<rparr>]\<rparr>)"
      by (simp add: storable_def Repo_InsertContainerStats_def)
    let ?s = "cs\<lparr>cs_ID := next_id TContainerStats (w_db w), cs_CreatedAt := now_s w\<rparr>"
    have "row_of (now_s w) cs ?s" by (simp add: row_of_def)
    with new True show ?thesis
      by (intro exI [of _ "?s # new"] exI [of _ q]) (simp add: step d bump_def)
  next
    case False
    then have "?d = w_db w" by (auto simp: storable_def Repo_InsertContainerStats_def)
    with new False show ?thesis by (intro exI [of _ new] exI [of _ q]) (simp add: step)
  qed
qed

lemma exec_on_world: "exec (on_world m) s = (exec m (fst s), snd s)" "result (on_world m) s = result m (fst s)"
  by (cases s; simp add: exec_def result_def on_world_def split: prod.splits)+

lemma exec_on_cache: "exec (on_cache f) s = (fst s, f (snd s))"
  by (cases s) (simp add: exec_def on_cache_def modify_def)

text \<open>The containers of a round, and the rows that \<open>docker stats\<close> reported of them.\<close>

definition round_containers :: "env \<Rightarrow> conn \<Rightarrow> App list \<Rightarrow> container_map prog" where
  "round_containers E c as = do {
     labelled \<leftarrow> labelled_containers E c as;
     (if labelled = [] then discovered_containers E c as else ret labelled)
   }"

definition round_rows :: "env \<Rightarrow> stats_env \<Rightarrow> conn \<Rightarrow> int \<Rightarrow> App list \<Rightarrow> ContainerStats list prog" where
  "round_rows E V c sid as = do {
     m \<leftarrow> round_containers E c as;
     if m = [] then ret []
     else do {
       r \<leftarrow> Exec E c (stats_cmd (sort (map fst m)));
       ret (if snd r = None then List.map_filter (stat_row V m sid) (output_lines (fst r)) else [])
     }
   }"

lemma output_lines_blank: "TrimSpace out = [] \<Longrightarrow> output_lines out = []"
  by (simp add: output_lines_def)

lemma collect_refines:
  "exec (collectAllContainerStats E V c sid as) (w, cache) =
     (let rws = result (round_rows E V c sid as) w; w1 = exec (round_rows E V c sid as) w
      in (exec (store_rows rws) w1, UpdateStatsCacheBatch (fold batch_row rws []) cache))"
  by (auto simp: collectAllContainerStats_def sample_containers_def round_rows_def round_containers_def Let_def exec_bind
      result_bind exec_on_world exec_on_cache output_lines_blank store_rows_def UpdateStatsCacheBatch_def)

lemma keeps_round_rows [frame]: "keeps w_db (round_rows E V c sid as)"
  unfolding round_rows_def round_containers_def labelled_containers_def discovered_containers_def listAppContainers_def
    discoverAppContainers_def detectDockerCompose_def Let_def
  by (intro frame)

text \<open>A container map names only apps of the round.\<close>

lemma put_all_ran: "snd ` set kvs \<subseteq> A \<Longrightarrow> snd ` set m \<subseteq> A \<Longrightarrow> snd ` set (put_all kvs m) \<subseteq> A"
proof (induction kvs arbitrary: m)
  case (Cons p kvs)
  obtain k i where p: "p = (k, i)" by (cases p)
  have "snd ` set (AList.update k i m) \<subseteq> A"
    using Cons.prems p by (induction m) (auto split: if_splits)
  then show ?case using Cons.prems by (simp add: put_all_def p Cons.IH [unfolded put_all_def])
qed (simp add: put_all_def)

lemma set_map_filter: "set (List.map_filter f xs) = {y. \<exists>x \<in> set xs. f x = Some y}"
  by (force simp: List.map_filter_def image_iff)

lemma ps_entries_ran: "snd ` set (List.map_filter (ps_entry as) ls) \<subseteq> set (map app_ID as)"
  by (auto simp: List.map_filter_def ps_entry_def Let_def split: list.splits if_splits)

lemma labelled_ran: "wp (labelled_containers E c as) (\<lambda>m _. snd ` set m \<subseteq> set (map app_ID as)) w"
proof -
  have "snd ` set (put_all (List.map_filter (ps_entry as) ls) []) \<subseteq> set (map app_ID as)" for ls
    by (rule put_all_ran [OF ps_entries_ran]) simp
  then have "snd ` set (if b then put_all (List.map_filter (ps_entry as) ls) [] else []) \<subseteq> set (map app_ID as)" for b ls
    by (cases b) (simp_all del: set_map)
  then show ?thesis unfolding labelled_containers_def wp_bind wp_ret by (intro wp_triv)
qed

lemma discovered_ran: "wp (discovered_containers E c as) (\<lambda>m _. snd ` set m \<subseteq> set (map app_ID as)) w"
  unfolding discovered_containers_def
proof (rule wp_foldM)
  fix m :: container_map and a and w :: world
  assume a: "a \<in> set as" and m: "snd ` set m \<subseteq> set (map app_ID as)"
  have "snd ` set (put_all (map (\<lambda>name. (name, app_ID a)) names) m) \<subseteq> set (map app_ID as)" for names
    by (rule put_all_ran) (use a m in auto)
  then show "wp (State_Monad.bind (listAppContainers E c a) (\<lambda>r. ret (if snd r \<noteq> None then m
      else put_all (map (\<lambda>name. (name, app_ID a)) (fst r)) m))) (\<lambda>m _. snd ` set m \<subseteq> set (map app_ID as)) w"
    unfolding wp_bind wp_ret using m by (intro wp_triv) auto
qed simp

lemma clamp100Val_range: "0 \<le> clamp100Val v" "clamp100Val v \<le> 100"
  by (simp_all add: clamp100Val_def)

definition well_measured :: "int set \<Rightarrow> int \<Rightarrow> ContainerStats \<Rightarrow> bool" where
  "well_measured ids sid s \<longleftrightarrow> cs_AppID s \<in> ids \<and> cs_ServerID s = sid
     \<and> 0 \<le> cs_CPUPercent s \<and> cs_CPUPercent s \<le> 100 \<and> 0 \<le> cs_MemPercent s \<and> cs_MemPercent s \<le> 100"

lemma stat_row_well_measured:
  assumes "stat_row V m sid l = Some s" and "snd ` set m \<subseteq> ids"
  shows "well_measured ids sid s"
proof -
  from assms(1) obtain stat i where "map_of m (dk_Name stat) = Some i" "s = parseDockerStat V stat i sid (dk_Name stat)"
    by (auto simp: stat_row_def split: sum.splits)
  with assms(2) show ?thesis
    by (auto simp: well_measured_def parseDockerStat_def clamp100Val_range dest!: map_of_SomeD)
qed

lemma round_rows_well_measured:
  "wp (round_rows E V c sid as) (\<lambda>rws _. \<forall>s \<in> set rws. well_measured (set (map app_ID as)) sid s) w"
proof -
  have m: "wp (round_containers E c as) (\<lambda>m _. snd ` set m \<subseteq> set (map app_ID as)) w"
    unfolding round_containers_def wp_bind
    by (rule wp_mono [OF labelled_ran]) (simp add: wp_if wp_ret discovered_ran del: set_map)
  show ?thesis unfolding round_rows_def wp_bind
  proof (rule wp_mono [OF m])
    fix m :: container_map and w1 :: world
    assume m: "snd ` set m \<subseteq> set (map app_ID as)"
    have "\<forall>s \<in> set (if b then List.map_filter (stat_row V m sid) ls else []). well_measured (set (map app_ID as)) sid s" for b ls
      using stat_row_well_measured [OF _ m] by (auto simp: set_map_filter)
    then show "wp (if m = [] then ret [] else State_Monad.bind (Exec E c (stats_cmd (sort (map fst m))))
        (\<lambda>r. ret (if snd r = None then List.map_filter (stat_row V m sid) (output_lines (fst r)) else [])))
        (\<lambda>rws _. \<forall>s \<in> set rws. well_measured (set (map app_ID as)) sid s) w1"
      unfolding wp_if wp_bind wp_ret 
      by (intro impI conjI wp_triv if_split [of "\<lambda>b. b", THEN iffD2]) (auto simp del: set_map)
  qed
qed

section \<open>The cache against the database\<close>

definition measured :: "StatsOverview \<Rightarrow> StatsOverview" where
  "measured ov = ov\<lparr>so_DiskUsageBytes := 0, so_ContainerName := []\<rparr>"

lemma measured_simps [simp]:
  "measured (ov\<lparr>so_DiskUsageBytes := b\<rparr>) = measured ov" "measured (ov\<lparr>so_ContainerName := n\<rparr>) = measured ov"
  by (simp_all add: measured_def)

lemma measured_round_total: "measured (round_total rws) = measured (overview_of (sum_tick i rws))"
  by (simp add: round_total_def measured_def overview_of_def sum_tick_def)

lemma measured_put_disk:
  "map_option measured (map_of cache i) = Some m \<Longrightarrow> map_option measured (map_of (put_disk e cache) i) = Some m"
  by (auto simp: put_disk_def update_conv split: option.splits)

lemma measured_put_disks:
  "map_option measured (map_of cache i) = Some m \<Longrightarrow> map_option measured (map_of (fold put_disk es cache) i) = Some m"
  by (induction es arbitrary: cache) (simp_all only: fold_simps measured_put_disk)

text \<open>The rows of a round are the latest tick of every app in it.\<close>

lemma row_ofE:
  assumes "row_of now cs s"
  obtains k where "s = cs\<lparr>cs_ID := k, cs_CreatedAt := now\<rparr>"
  using assms by (auto simp: row_of_def)

lemma rows_of_app:
  assumes "list_all2 (row_of now) rws new"
  shows "list_all2 (row_of now) (app_rows i rws) (app_rows i new)"
  using assms by (induction rule: list_all2_induct) (auto simp: app_rows_def elim: row_ofE)

lemma sum_rows:
  assumes "list_all2 (row_of now) rws new"
  shows "sum_tick i new = sum_tick i rws"
  using assms
proof (induction rule: list_all2_induct)
  case (Cons cs rws s new)
  from Cons(1) obtain k where "s = cs\<lparr>cs_ID := k, cs_CreatedAt := now\<rparr>" by (rule row_ofE)
  with Cons(3) show ?case by (simp add: sum_tick_def)
qed simp

lemma rows_created: "list_all2 (row_of now) rws new \<Longrightarrow> s \<in> set new \<Longrightarrow> cs_CreatedAt s = now"
  by (induction rule: list_all2_induct) (auto elim: row_ofE)

lemma latest_tick_new:
  assumes "\<forall>s \<in> set old. cs_CreatedAt s < now" and "\<forall>s \<in> set new. cs_CreatedAt s = now" and "new \<noteq> []"
  shows "latest_tick (old @ new) = new"
proof -
  from assms(3) obtain s where s: "s \<in> set new" by (cases new) auto
  have "filter (\<lambda>t. \<forall>u \<in> set (old @ new). cs_CreatedAt u \<le> cs_CreatedAt t) old = []"
    using assms s by (force simp: filter_empty_conv)
  moreover have "filter (\<lambda>t. \<forall>u \<in> set (old @ new). cs_CreatedAt u \<le> cs_CreatedAt t) new = new"
    using assms by (force simp: filter_id_conv)
  ultimately show ?thesis by (simp add: latest_tick_def)
qed

lemma storable_rounds:
  assumes "list_all (well_measured ids sid) rws" and "ids \<subseteq> app_ids d" and "sid \<in> server_ids d"
  shows "filter (storable d) rws = rws"
  using assms by (auto simp: filter_id_conv list_all_iff well_measured_def storable_def)

lemma latest_rows:
  assumes new: "list_all2 (row_of now) rws new" and old: "\<forall>s \<in> set old. cs_CreatedAt s < now"
    and "app_rows i rws \<noteq> []" and "\<forall>s. cs_AppID s = i \<and> s \<in> set new \<longrightarrow> P s"
  shows "sum_tick i (latest_tick (filter (\<lambda>s. cs_AppID s = i \<and> P s) (old @ new))) = sum_tick i (app_rows i rws)"
    and "filter (\<lambda>s. cs_AppID s = i \<and> P s) (old @ new) \<noteq> []"
proof -
  let ?old = "filter (\<lambda>s. cs_AppID s = i \<and> P s) old"
  have rows: "list_all2 (row_of now) (app_rows i rws) (app_rows i new)" by (rule rows_of_app [OF new])
  have split: "filter (\<lambda>s. cs_AppID s = i \<and> P s) (old @ new) = ?old @ app_rows i new"
    using assms(4) by (auto simp: app_rows_def intro: filter_cong)
  have some: "app_rows i new \<noteq> []" using rows assms(3) by auto
  have "latest_tick (?old @ app_rows i new) = app_rows i new"
    by (rule latest_tick_new [where now = now]) (use old some rows_created [OF rows] in auto)
  then show "sum_tick i (latest_tick (filter (\<lambda>s. cs_AppID s = i \<and> P s) (old @ new))) = sum_tick i (app_rows i rws)"
    unfolding split by (simp add: sum_rows [OF rows])
  show "filter (\<lambda>s. cs_AppID s = i \<and> P s) (old @ new) \<noteq> []" unfolding split using some by simp
qed

lemma map_of_map_filter:
  "map_of (List.map_filter (\<lambda>k. map_option (\<lambda>x. (k, f x)) (g k)) ks) i = (if i \<in> set ks then map_option f (g i) else None)"
  by (induction ks) (auto simp: List.map_filter_simps split: option.splits)

lemma collectAllContainerStats_base:
  "let rws = result (round_rows E V c sid as) w; (w', cache') = exec (collectAllContainerStats E V c sid as) (w, cache)
   in list_all (well_measured (app_ID ` set as) sid) rws
      \<and> (\<exists>new q. w_db w' = (w_db w)\<lparr>container_stats := container_stats (w_db w) @ new, sqlite_sequence := q\<rparr>
           \<and> list_all2 (row_of (now_s w')) (filter (storable (w_db w)) rws) new)
      \<and> (\<forall>i. map_of cache' i = (if app_rows i rws = [] then map_of cache i
           else Some ((round_total (app_rows i rws))\<lparr>so_DiskUsageBytes :=
             (case map_of cache i of Some e \<Rightarrow> so_DiskUsageBytes e | None \<Rightarrow> 0)\<rparr>)))"
proof -
  let ?rws = "result (round_rows E V c sid as) w" and ?w1 = "exec (round_rows E V c sid as) w"
  have db: "w_db ?w1 = w_db w" by (rule keepsD [OF keeps_round_rows])
  have "list_all (well_measured (app_ID ` set as) sid) ?rws"
    using round_rows_well_measured [of E V c sid as w] by (simp add: wp_exec_result list_all_iff)
  moreover from store_rows_spec [of ?rws ?w1] obtain new q where
    "exec (store_rows ?rws) ?w1 = ?w1\<lparr>w_db := (w_db w)\<lparr>container_stats := container_stats (w_db w) @ new, sqlite_sequence := q\<rparr>\<rparr>"
    "list_all2 (row_of (now_s ?w1)) (filter (storable (w_db w)) ?rws) new" unfolding db by blast
  ultimately show ?thesis by (auto simp: collect_refines Let_def map_of_round now_s_def)
qed

section \<open>Properties\<close>

text \<open>
  C22. A round of measurements on a server, whatever the worker answers and whatever became of the apps
  meanwhile. The rows that the worker reported belong to apps of the round and to that server, with
  percentages between 0 and 100. The database gets exactly these, in this order, with the time of the
  round, less those of an app or a server that is gone; nothing else in it changes. In the cache every app
  with a row has the sums of its rows and the disk usage it had; every other app keeps its entry.
\<close>

theorem collectAllContainerStats_correct:
  "let rws = result (round_rows E V c sid as) w; (w', cache') = exec (collectAllContainerStats E V c sid as) (w, cache)
   in list_all (well_measured (app_ID ` set as) sid) rws
      \<and> (\<exists>new q. w_db w' = (w_db w)\<lparr>container_stats := container_stats (w_db w) @ new, sqlite_sequence := q\<rparr>
           \<and> list_all2 (row_of (now_s w')) (filter (storable (w_db w)) rws) new)
      \<and> (\<forall>i. map_of cache' i = (if app_rows i rws = [] then map_of cache i
           else Some ((round_total (app_rows i rws))\<lparr>so_DiskUsageBytes :=
             (case map_of cache i of Some e \<Rightarrow> so_DiskUsageBytes e | None \<Rightarrow> 0)\<rparr>)))"
  by (rule collectAllContainerStats_base)


text \<open>A worker that answers every command with the line of one container of app 1.\<close>

definition one_container_env :: env where
  "one_container_env = sample_env\<lparr>e_run := \<lambda>_ _ _ _. Exited ''n|app-1'' None []\<rparr>"

definition one_container_stats :: stats_env where
  "one_container_stats = \<lparr> st_float = \<lambda>s. if s = ''1.5'' then 3 / 2 else if s = ''2'' then 2 else 0, st_mul = \<lambda>a b. a * b, st_wild = \<lambda>_. 0,
     st_stat = \<lambda>_. Inr \<lparr> dk_CPUPerc = [], dk_MemUsage = [], dk_MemPerc = [], dk_NetIO = [], dk_BlockIO = [], dk_Name = ''n'' \<rparr>,
     st_groups = \<lambda>_ xs. xs, st_plan_traffic = \<lambda>_ xs. xs, st_plan_disk = \<lambda>_ xs. xs \<rparr>"

lemma one_container_texts:
  "output_lines ''n|app-1'' = [''n|app-1'']" "SplitN2 CHR ''|'' ''n|app-1'' = [''n'', ''app-1'']"
  "TrimSpace ''n'' = ''n''" "parseComposeProjectAppID (TrimSpace ''app-1'') = 1"
  by code_simp+

lemma one_container_exec: "result (Exec one_container_env c cmd) w = (''n|app-1'', None)"
  by (simp add: Exec_def run_def result_bind one_container_env_def trace_def)

lemma one_container_rows:
  "app_rows 1 (result (round_rows one_container_env one_container_stats c 1 [sample_app]) w) \<noteq> []"
proof -
  have "ps_entry [sample_app] ''n|app-1'' = Some (''n'', 1)"
    by (simp add: ps_entry_def one_container_texts sample_app_def Let_def)
  then have "result (labelled_containers one_container_env c [sample_app]) w = [(''n'', 1)]"
    by (simp add: labelled_containers_def result_bind one_container_exec one_container_texts put_all_def List.map_filter_simps)
  then show ?thesis
    by (simp add: round_rows_def round_containers_def result_bind one_container_exec one_container_texts
        List.map_filter_simps stat_row_def one_container_stats_def app_rows_def parseDockerStat_def)
qed


section \<open>The format of docker\<close>

definition unsigned_number :: "string \<Rightarrow> bool" where
  "unsigned_number n \<longleftrightarrow> n \<noteq> [] \<and> n \<noteq> ''0'' \<and> list_all (\<lambda>c. is_digit c \<or> c = CHR ''.'') n"

definition letters :: "char list" where
  "letters = ''/ikKMGTB''"

lemma number_char: "is_digit c \<or> c = CHR ''.'' \<Longrightarrow> graphic c \<and> c \<notin> set letters"
proof (elim disjE)
  assume c: "is_digit c"
  have "\<not> is_digit x" if "x \<in> set letters" for x
    using that by (auto simp: letters_def is_digit_def less_eq_char_def)
  then have "c \<notin> set letters" using c by metis
  moreover have "graphic c" using c by (simp add: is_digit_def graphic_def less_eq_char_def)
  ultimately show ?thesis by simp
qed (simp add: graphic_def letters_def less_eq_char_def)

lemma HasSuffix_beyond: "c \<notin> set p \<Longrightarrow> HasSuffix (b @ c # u) p = HasSuffix u p"
proof -
  assume "c \<notin> set p"
  then have "c \<notin> set (rev p)" by simp
  then show ?thesis unfolding HasSuffix_def HasPrefix_iff
    by (auto simp: append_eq_append_conv2 append_eq_Cons_conv Cons_eq_append_conv)
      (metis in_set_conv_decomp set_rev)
qed

lemma unit_letters: "(u, m) \<in> set units \<Longrightarrow> set u \<subseteq> set letters"
  by (auto simp: units_def letters_def)

lemma find_unit: "(u, m) \<in> set units \<Longrightarrow> find (\<lambda>x. HasSuffix u (fst x)) units = Some (u, m)"
proof -
  have "list_all (\<lambda>p. find (\<lambda>x. HasSuffix (fst p) (fst x)) units = Some p) units" by code_simp
  then show "(u, m) \<in> set units \<Longrightarrow> ?thesis" by (auto simp: list_all_iff)
qed

lemma parseBytes_unit:
  assumes n: "unsigned_number n" and u: "(u, m) \<in> set units"
  shows "parseBytes V (n @ u) = int64_of V (st_mul V (st_float V n) (of_int m))"
proof -
  obtain b c where bc: "n = b @ [c]" using n by (cases n rule: rev_cases) (auto simp: unsigned_number_def)
  have c: "is_digit c \<or> c = CHR ''.''" using n by (simp add: unsigned_number_def bc)
  have gn: "list_all graphic n" using n number_char by (auto simp: unsigned_number_def list_all_iff)
  have gu: "list_all graphic u" using u by (auto simp: units_def graphic_def less_eq_char_def)
  have trim: "TrimSpace (n @ u) = n @ u" "TrimSpace n = n" using gn gu by (simp_all add: TrimSpace_graphic)
  have "find (\<lambda>x. HasSuffix (n @ u) (fst x)) units = Some (u, m)"
  proof -
    have "HasSuffix (n @ u) (fst x) = HasSuffix u (fst x)" if "x \<in> set units" for x
    proof -
      have "c \<notin> set (fst x)" using number_char [OF c] unit_letters [of "fst x" "snd x"] that by auto
      then show ?thesis using HasSuffix_beyond by (simp add: bc)
    qed
    then have "find (\<lambda>x. HasSuffix (n @ u) (fst x)) units = find (\<lambda>x. HasSuffix u (fst x)) units"
      by (intro find_cong refl) simp
    then show ?thesis by (simp add: find_unit [OF u])
  qed
  moreover have "n @ u \<noteq> ''0B''"
  proof
    assume "n @ u = ''0B''"
    then have "b @ c # u = [CHR ''0'', CHR ''B'']" by (simp add: bc)
    then have "n = ''0'' \<or> c = CHR ''B''" by (cases b) (auto simp: bc append_eq_Cons_conv)
    moreover have "c \<noteq> CHR ''B''" using number_char [OF c] by (auto simp: letters_def)
    ultimately show False using n by (simp add: unsigned_number_def)
  qed
  moreover have "TrimSuffix (n @ u) u = n" by (simp add: TrimSuffix_def HasSuffix_def)
  moreover have "n \<noteq> []" by (simp add: bc)
  ultimately show ?thesis by (simp add: parseBytes_def trim Let_def)
qed

lemma blank_rune: "find (\<lambda>r. r \<noteq> [] \<and> HasPrefix (CHR '' '' # s) r) space_runes = Some '' ''"
  "find (\<lambda>r. r \<noteq> [] \<and> HasPrefix (CHR '' '' # s) r) (map rev space_runes) = Some '' ''"
  by (simp_all add: space_runes_def HasPrefix_def)

lemma trim_blank: "trim_with space_runes (CHR '' '' # s) = trim_with space_runes s"
  "trim_with (map rev space_runes) (CHR '' '' # s) = trim_with (map rev space_runes) s"
  by (subst trim_with.simps, simp only: blank_rune option.case length_Cons list.size drop_Suc_Cons drop_0 One_nat_def add_0)+

lemma trim_graphic:
  assumes "s \<noteq> []" and "graphic (hd s)"
  shows "trim_with space_runes s = s" "trim_with (map rev space_runes) s = s"
proof -
  have ends: "hd r \<noteq> hd s \<and> last r \<noteq> hd s" if "r \<in> set space_runes" for r
    using space_runes_ends [OF that] assms(2) by auto
  have "hd r = hd s" if "HasPrefix s r" "r \<noteq> []" for r using that by (auto simp: HasPrefix_iff)
  with ends have "\<not> HasPrefix s r" if "r \<noteq> []" "r \<in> set space_runes \<union> set (map rev space_runes)" for r
    using that by (fastforce simp: hd_rev)
  then show "trim_with space_runes s = s" "trim_with (map rev space_runes) s = s" by (auto intro!: trim_with_id)
qed

lemma TrimSpace_none:
  assumes "graphic (hd s)" and "graphic (last s)" and "s \<noteq> []"
  shows "TrimSpace (s @ '' '') = s" "TrimSpace ('' '' @ s) = s"
  using assms trim_graphic [of s] trim_graphic [of "s @ '' ''"] trim_graphic [of "rev s"]
  by (simp_all add: TrimSpace_def trim_blank hd_rev)

definition amount :: "string \<Rightarrow> string \<Rightarrow> int \<Rightarrow> bool" where
  "amount n u m \<longleftrightarrow> unsigned_number n \<and> (u, m) \<in> set units"

lemma SplitN2_found: "x \<notin> set a \<Longrightarrow> SplitN2 x (a @ x # b) = [a, b]"
  by (induction a) (auto simp: SplitN2_def Cut1_def split: if_splits)

lemma amount_graphic:
  assumes "amount n u m"
  shows "graphic (hd (n @ u))" "graphic (last (n @ u))" "n @ u \<noteq> []" "CHR ''/'' \<notin> set (n @ u)"
proof -
  have n: "n \<noteq> []" "c \<in> set n \<Longrightarrow> graphic c \<and> c \<noteq> CHR ''/''" for c
    using assms number_char [of c] by (auto simp: amount_def unsigned_number_def list_all_iff letters_def)
  have u: "u \<noteq> []" "c \<in> set u \<Longrightarrow> graphic c \<and> c \<noteq> CHR ''/''" for c
    using assms by (auto simp: amount_def units_def graphic_def less_eq_char_def)
  show "graphic (hd (n @ u))" "graphic (last (n @ u))" "n @ u \<noteq> []" "CHR ''/'' \<notin> set (n @ u)"
    using n(1) n(2) [of "hd n"] u(1) u(2) [of "last u"] n(2) [of "CHR ''/''"] u(2) [of "CHR ''/''"] by auto
qed

text \<open>
  A pair of sizes as docker prints it, \<open>1.5MiB / 2GiB\<close>: both are read as their number times
  the factor of their own unit, decimal or binary, whichever two units are combined.
\<close>

theorem docker_pair_parsed:
  assumes "amount n1 u1 m1" and "amount n2 u2 m2"
  shows "parseMemUsage V (n1 @ u1 @ '' / '' @ n2 @ u2)
     = (int64_of V (st_mul V (st_float V n1) (of_int m1)), int64_of V (st_mul V (st_float V n2) (of_int m2)))"
proof -
  have "n1 @ u1 @ '' / '' @ n2 @ u2 = (n1 @ u1 @ '' '') @ CHR ''/'' # '' '' @ n2 @ u2" by simp
  moreover have "CHR ''/'' \<notin> set (n1 @ u1 @ '' '')" using amount_graphic(4) [OF assms(1)] by simp
  ultimately have "SplitN2 CHR ''/'' (n1 @ u1 @ '' / '' @ n2 @ u2) = [(n1 @ u1) @ '' '', '' '' @ n2 @ u2]"
    using SplitN2_found [of "CHR ''/''" "n1 @ u1 @ '' ''" "'' '' @ n2 @ u2"] by simp
  then show ?thesis
    using TrimSpace_none [OF amount_graphic(1-3) [OF assms(1)]] TrimSpace_none [OF amount_graphic(1-3) [OF assms(2)]]
      parseBytes_unit assms by (simp add: parseMemUsage_def amount_def)
qed

theorem docker_pair_parsed_witness:
  "parseMemUsage one_container_stats ''1.5MiB / 2GiB'' = (1572864, 2147483648)"
proof -
  have "amount ''1.5'' ''MiB'' (1024 * 1024)" "amount ''2'' ''GiB'' (1024 * 1024 * 1024)"
    by (simp_all add: amount_def unsigned_number_def units_def is_digit_def less_eq_char_def)
  from docker_pair_parsed [OF this, of one_container_stats] show ?thesis
    by (simp add: one_container_stats_def int64_of_def truncate_rat_def)
qed

end
