(* ===== verification/Charts.thy ===== *)
theory Charts
  imports Store
begin

text \<open>
  The charts: the history queries of \<open>internal/app/repository.go\<close> and \<open>internal/server/repository.go\<close>
  and the ranges that the pages ask for (\<open>internal/app/stats.go\<close>, \<open>internal/server/service.go\<close>). The time of
  a point is the first second of its bucket; the code has its text, which sorts the same way. The
  start of a range is in nanoseconds.
\<close>

section \<open>Grouping\<close>

record ChartPoint =
  cp_Time :: int
  cp_Value :: rat

text \<open>\<open>GROUP BY key ORDER BY key ASC\<close>.\<close>

definition group_by :: "('a \<Rightarrow> int) \<Rightarrow> 'a list \<Rightarrow> (int \<times> 'a list) list" where
  "group_by key xs = map (\<lambda>k. (k, filter (\<lambda>x. key x = k) xs)) (sort (remdups (map key xs)))"

definition bucket :: "int \<Rightarrow> int \<Rightarrow> int" where
  "bucket secs t = t div secs * secs"

definition since_ns :: "int \<Rightarrow> int \<Rightarrow> bool" where
  "since_ns since t \<longleftrightarrow> since \<le> t * 1000000000"

definition average :: "rat list \<Rightarrow> rat" where
  "average xs = sum_list xs / of_nat (length xs)"

section \<open>The queries\<close>

text \<open>The sum of a tick over the containers, averaged over the ticks of a bucket.\<close>

definition tick_history :: "(ContainerStats \<Rightarrow> rat) \<Rightarrow> int \<Rightarrow> int \<Rightarrow> int \<Rightarrow> db \<Rightarrow> ChartPoint list" where
  "tick_history field appID since bucketMinutes d =
     (let secs = (if bucketMinutes * 60 \<le> 0 then 60 else bucketMinutes * 60);
          rws = filter (\<lambda>s. cs_AppID s = appID \<and> since_ns since (cs_CreatedAt s)) (container_stats d);
          ticks = map (\<lambda>(t, ss). (t, sum_list (map field ss))) (group_by cs_CreatedAt rws)
      in map (\<lambda>(b, ts). \<lparr> cp_Time = b, cp_Value = average (map snd ts) \<rparr>) (group_by (\<lambda>p. bucket secs (fst p)) ticks))"

definition ContainerStatsCPUHistory :: "int \<Rightarrow> int \<Rightarrow> int \<Rightarrow> db \<Rightarrow> ChartPoint list" where
  "ContainerStatsCPUHistory appID since bucketMinutes d = tick_history cs_CPUPercent appID since bucketMinutes d"

definition ContainerStatsMemHistory :: "int \<Rightarrow> int \<Rightarrow> int \<Rightarrow> db \<Rightarrow> ChartPoint list" where
  "ContainerStatsMemHistory appID since bucketMinutes d = tick_history cs_MemPercent appID since bucketMinutes d"

text \<open>The growth against the bucket before, \<open>LAG\<close>, per second; none for the first bucket or when it shrinks.\<close>

fun net_rates :: "int \<Rightarrow> int option \<Rightarrow> (int \<times> int) list \<Rightarrow> ChartPoint list" where
  "net_rates secs prev [] = []"
| "net_rates secs prev ((b, bytes) # bs) = \<lparr> cp_Time = b, cp_Value = (case prev of
       None \<Rightarrow> 0 | Some p \<Rightarrow> if bytes - p < 0 then 0 else of_int (bytes - p) / of_int secs) \<rparr>
     # net_rates secs (Some bytes) bs"

definition net_bytes :: "ContainerStats \<Rightarrow> int" where
  "net_bytes s = cs_NetIORxBytes s + cs_NetIOTxBytes s"

definition ContainerStatsNetHistory :: "int \<Rightarrow> int \<Rightarrow> int \<Rightarrow> db \<Rightarrow> ChartPoint list" where
  "ContainerStatsNetHistory appID since bucketMinutes d =
     (let secs = bucketMinutes * 60;
          rws = filter (\<lambda>s. cs_AppID s = appID \<and> since_ns (since - secs * 1000000000) (cs_CreatedAt s)) (container_stats d);
          b = map (\<lambda>(k, ss). (k, sum_list (map net_bytes ss))) (group_by (\<lambda>s. bucket secs (cs_CreatedAt s)) rws)
      in filter (\<lambda>p. since_ns since (cp_Time p)) (net_rates secs None b))"

definition AppDiskUsageHistory :: "int \<Rightarrow> int \<Rightarrow> int \<Rightarrow> db \<Rightarrow> ChartPoint list" where
  "AppDiskUsageHistory appID since bucketMinutes d =
     map (\<lambda>(b, ss). \<lparr> cp_Time = b, cp_Value = of_int (Max (set (map ds_Bytes ss))) \<rparr>)
       (group_by (\<lambda>s. bucket (bucketMinutes * 60) (ds_CreatedAt s))
         (filter (\<lambda>s. ds_AppID s = appID \<and> since_ns since (ds_CreatedAt s)) (app_disk_stats d)))"

definition RouteStatsHistory :: "int \<Rightarrow> int \<Rightarrow> int \<Rightarrow> db \<Rightarrow> ChartPoint list" where
  "RouteStatsHistory appID since bucketMinutes d =
     map (\<lambda>(b, ss). \<lparr> cp_Time = b, cp_Value = Max (set (map rs_RequestsRPS ss)) \<rparr>)
       (group_by (\<lambda>s. bucket (bucketMinutes * 60) (rs_CreatedAt s))
         (filter (\<lambda>s. rs_AppID s = appID \<and> since_ns since (rs_CreatedAt s)) (route_stats d)))"

definition Srv_StatsHistory :: "int \<Rightarrow> int \<Rightarrow> int \<Rightarrow> string \<Rightarrow> db \<Rightarrow> ChartPoint list" where
  "Srv_StatsHistory serverID since bucketMinutes field d =
     (let col = (if field = ''ram'' then vs_RAMPercent else if field = ''disk'' then vs_DiskPercent else vs_CPUPercent)
      in map (\<lambda>(b, ss). \<lparr> cp_Time = b, cp_Value = average (map col ss) \<rparr>)
           (group_by (\<lambda>s. bucket (bucketMinutes * 60) (vs_CreatedAt s))
             (filter (\<lambda>s. vs_ServerID s = serverID \<and> since_ns since (vs_CreatedAt s)) (server_stats d))))"

section \<open>The ranges\<close>

definition chart_range :: "int \<Rightarrow> string \<Rightarrow> int \<times> int" where
  "chart_range now duration =
     (let minute = 60 * 1000000000
      in if duration = ''realtime'' then (now - 2 * minute, 1)
         else if duration = ''1h'' then (now - 60 * minute, 1)
         else if duration = ''6h'' then (now - 6 * 60 * minute, 5)
         else if duration = ''24h'' then (now - 24 * 60 * minute, 10)
         else if duration = ''7d'' then (now - 7 * 24 * 60 * minute, 60)
         else (now - 2 * minute, 1))"

record AppCharts =
  ac_cpu :: "ChartPoint list"
  ac_memory :: "ChartPoint list"
  ac_network :: "ChartPoint list"
  ac_disk :: "ChartPoint list"
  ac_labels :: "int list"

definition GetStatsHistory :: "int \<Rightarrow> int \<Rightarrow> string \<Rightarrow> db \<Rightarrow> AppCharts" where
  "GetStatsHistory now appID duration d =
     (case chart_range now duration of (since, bucketMins) \<Rightarrow>
        \<lparr> ac_cpu = ContainerStatsCPUHistory appID since bucketMins d,
          ac_memory = ContainerStatsMemHistory appID since bucketMins d,
          ac_network = ContainerStatsNetHistory appID since bucketMins d,
          ac_disk = AppDiskUsageHistory appID since bucketMins d,
          ac_labels = map cp_Time (ContainerStatsCPUHistory appID since bucketMins d) \<rparr>)"

definition GetTrafficHistory :: "int \<Rightarrow> int \<Rightarrow> string \<Rightarrow> db \<Rightarrow> ChartPoint list \<times> int list" where
  "GetTrafficHistory now appID duration d =
     (case chart_range now duration of (since, bucketMins) \<Rightarrow>
        let rps = RouteStatsHistory appID since bucketMins d in (rps, map cp_Time rps))"

record ServerCharts =
  sc_cpu :: "ChartPoint list"
  sc_ram :: "ChartPoint list"
  sc_disk :: "ChartPoint list"

definition Server_GetStatsHistory :: "int \<Rightarrow> int \<Rightarrow> string \<Rightarrow> db \<Rightarrow> ServerCharts" where
  "Server_GetStatsHistory now serverID duration d =
     (case chart_range now duration of (since, bucketMins) \<Rightarrow>
        \<lparr> sc_cpu = Srv_StatsHistory serverID since bucketMins ''cpu'' d,
          sc_ram = Srv_StatsHistory serverID since bucketMins ''ram'' d,
          sc_disk = Srv_StatsHistory serverID since bucketMins ''disk'' d \<rparr>)"

section \<open>Laws of grouping\<close>

lemma group_by_sorted: "sorted_wrt (<) (map fst (group_by key xs))"
  by (simp add: group_by_def comp_def strict_sorted_iff)

lemma set_group_by: "set (group_by key xs) = (\<lambda>k. (k, filter (\<lambda>x. key x = k) xs)) ` key ` set xs"
  by (simp add: group_by_def)

lemma length_group_by: "length (group_by key xs) = card (key ` set xs)"
  by (simp add: group_by_def length_remdups_card_conv)

lemma filter_group_by:
  "filter (\<lambda>p. P (fst p)) (group_by key xs) = group_by key (filter (\<lambda>x. P (key x)) xs)"
proof -
  have "filter P (map key xs) = map key (filter (\<lambda>x. P (key x)) xs)" by (simp add: filter_map comp_def)
  then have keys: "filter P (sort (remdups (map key xs))) = sort (remdups (map key (filter (\<lambda>x. P (key x)) xs)))"
    by (simp add: filter_sort remdups_filter [symmetric])
  have "filter (\<lambda>x. key x = k) (filter (\<lambda>x. P (key x)) xs) = filter (\<lambda>x. key x = k) xs" if "P k" for k
    using that by (auto intro: filter_cong)
  then show ?thesis unfolding group_by_def filter_map comp_def fst_conv keys [symmetric] by simp
qed

lemma sum_list_groups:
  fixes f :: "'a \<Rightarrow> 'b::comm_monoid_add"
  shows "sum_list (map (\<lambda>(k, ss). sum_list (map f ss)) (group_by key xs)) = sum_list (map f xs)"
proof -
  have all: "(\<Sum>k \<in> K. sum_list (map f (filter (\<lambda>x. key x = k) ys))) = sum_list (map f ys)"
    if "finite K" "key ` set ys \<subseteq> K" for K ys
    using that
  proof (induction ys)
    case (Cons y ys)
    have "(\<Sum>k \<in> K. sum_list (map f (filter (\<lambda>x. key x = k) (y # ys))))
        = (\<Sum>k \<in> K. (if key y = k then f y else 0) + sum_list (map f (filter (\<lambda>x. key x = k) ys)))"
      by (rule sum.cong) simp_all
    then show ?case using Cons by (simp add: sum.distrib sum.delta)
  qed simp
  have "sum_list (map (\<lambda>(k, ss). sum_list (map f ss)) (group_by key xs))
      = (\<Sum>k \<in> key ` set xs. sum_list (map f (filter (\<lambda>x. key x = k) xs)))"
    by (simp add: group_by_def comp_def sum_list_distinct_conv_sum_set)
  then show ?thesis by (simp add: all)
qed

section \<open>What the charts show\<close>

definition bucket_rows :: "int \<Rightarrow> int \<Rightarrow> int \<Rightarrow> db \<Rightarrow> int \<Rightarrow> ContainerStats list" where
  "bucket_rows i since secs d b =
     filter (\<lambda>s. cs_AppID s = i \<and> since_ns since (cs_CreatedAt s) \<and> bucket secs (cs_CreatedAt s) = b) (container_stats d)"

text \<open>The mean over the ticks of a bucket, without grouping: all there is, by the number of times.\<close>

definition bucket_mean :: "(ContainerStats \<Rightarrow> rat) \<Rightarrow> ContainerStats list \<Rightarrow> rat" where
  "bucket_mean field rws = sum_list (map field rws) / of_nat (card (cs_CreatedAt ` set rws))"

lemma tick_history_points:
  assumes "bucketMinutes > 0"
  shows "tick_history field i since bucketMinutes d =
    map (\<lambda>b. \<lparr> cp_Time = b, cp_Value = bucket_mean field (bucket_rows i since (bucketMinutes * 60) d b) \<rparr>)
      (sort (remdups (map (\<lambda>s. bucket (bucketMinutes * 60) (cs_CreatedAt s))
        (filter (\<lambda>s. cs_AppID s = i \<and> since_ns since (cs_CreatedAt s)) (container_stats d)))))"
proof -
  let ?secs = "bucketMinutes * 60"
  let ?rws = "filter (\<lambda>s. cs_AppID s = i \<and> since_ns since (cs_CreatedAt s)) (container_stats d)"
  let ?f = "\<lambda>(t, ss). (t, sum_list (map field ss))"
  let ?ticks = "map ?f (group_by cs_CreatedAt ?rws)"
  have fst: "fst (?f p) = fst p" for p :: "int \<times> ContainerStats list" by (cases p) simp
  have "filter (\<lambda>p. bucket ?secs (fst p) = b) ?ticks = map ?f (group_by cs_CreatedAt (bucket_rows i since ?secs d b))" for b
    using filter_group_by [of "\<lambda>t. bucket ?secs t = b" cs_CreatedAt ?rws] by (simp add: filter_map comp_def fst bucket_rows_def)
  moreover have "average (map snd (map ?f (group_by cs_CreatedAt rws))) = bucket_mean field rws" for rws
    using sum_list_groups [of field cs_CreatedAt rws]
    by (simp add: average_def bucket_mean_def length_group_by comp_def case_prod_unfold)
  moreover have "set (map (\<lambda>p. bucket ?secs (fst p)) ?ticks) = set (map (\<lambda>s. bucket ?secs (cs_CreatedAt s)) ?rws)"
    by (auto simp: set_group_by image_image)
  then have "sort (remdups (map (\<lambda>p. bucket ?secs (fst p)) ?ticks)) = sort (remdups (map (\<lambda>s. bucket ?secs (cs_CreatedAt s)) ?rws))"
    by (simp only: sorted_list_of_set_sort_remdups [symmetric])
  ultimately show ?thesis using assms by (simp add: tick_history_def Let_def group_by_def [of "\<lambda>p. bucket ?secs (fst p)"] comp_def)
qed

lemma chart_range_minutes: "snd (chart_range now duration) > 0"
  by (simp add: chart_range_def Let_def)


text \<open>
  The network chart adds up the cumulative counters of all ticks of a bucket before it takes the difference,
  so it depends on the number of ticks.
\<close>

lemma two_groups:
  assumes "key ` set xs = {a, b}" and "a < b"
  shows "group_by key xs = [(a, filter (\<lambda>x. key x = a) xs), (b, filter (\<lambda>x. key x = b) xs)]"
proof -
  have "sort (remdups (map key xs)) = sorted_list_of_set {a, b}"
    using assms(1) by (simp add: sorted_list_of_set_sort_remdups [symmetric])
  then show ?thesis using assms(2) by (simp add: group_by_def)
qed

lemma sum_list_const: "\<forall>x \<in> set xs. f x = (c::int) \<Longrightarrow> sum_list (map f xs) = int (length xs) * c"
  by (induction xs) (auto simp: algebra_simps)


definition counter_row :: "int \<Rightarrow> ContainerStats" where
  "counter_row t = \<lparr> cs_ID = 0, cs_AppID = 1, cs_ServerID = 1, cs_ContainerName = ''n'', cs_CPUPercent = 0, cs_MemUsageBytes = 0,
     cs_MemLimitBytes = 0, cs_MemPercent = 0, cs_NetIORxBytes = 6000, cs_NetIOTxBytes = 0, cs_BlockIORead = 0,
     cs_BlockIOWrite = 0, cs_CreatedAt = t \<rparr>"


end
