(* ===== verification/Terminals.thy ===== *)
theory Terminals
  imports Deploy
begin

text \<open>
  Terminals in the browser: \<open>internal/http/console.go\<close> with the interactive sessions of
  \<open>internal/ssh/client.go\<close>. A session is seven goroutines over two channels; it is a step
  relation in which each goroutine has a program counter, a send or a receive is a step, and a
  select takes any branch that is ready. Sending on a closed channel, and closing one twice, sets
  \<open>t_panic\<close>. Steps of the browser and of the worker are steps of their own.
\<close>

section \<open>Opening a terminal\<close>

datatype ws_reply =
    WsHttp int string
  | WsRefused
  | WsText string
  | WsSession conn "string option"

text \<open>
  The stages of \<open>Shell\<close> (no command) and \<open>ExecPTY\<close>; each may fail. \<open>stages\<close> gives the
  error of a stage.
\<close>

datatype pty_stage = NewSession | RequestPty | StdinPipe | StartShell | StartCommand

definition first_stage_error :: "(pty_stage \<Rightarrow> error option) \<Rightarrow> (pty_stage \<times> string) list \<Rightarrow> error option" where
  "first_stage_error stages ps = (case find (\<lambda>p. stages (fst p) \<noteq> None) ps of
     None \<Rightarrow> None | Some (s, text) \<Rightarrow> map_option (\<lambda>err. text @ '': '' @ err) (stages s))"

definition Shell :: "(pty_stage \<Rightarrow> error option) \<Rightarrow> error option" where
  "Shell stages = first_stage_error stages [(NewSession, ''new session''), (RequestPty, ''request pty''), (StdinPipe, ''stdin pipe''),
     (StartShell, ''shell'')]"

definition ExecPTY :: "(pty_stage \<Rightarrow> error option) \<Rightarrow> error option" where
  "ExecPTY stages = first_stage_error stages [(NewSession, ''new session''), (RequestPty, ''request pty''), (StdinPipe, ''stdin pipe''),
     (StartCommand, ''exec pty'')]"

definition crlf :: string where
  "crlf = [CHR 0x0D, CHR 0x0A]"

text \<open>
  The two handlers up to the session. \<open>upgrade\<close>: the handshake of the browser succeeds. The service of the
  servers connects the same way as the deployments do.
\<close>

definition ServeWS :: "env \<Rightarrow> (pty_stage \<Rightarrow> error option) \<Rightarrow> bool \<Rightarrow> string \<Rightarrow> ws_reply prog" where
  "ServeWS E stages upgrade idStr = (case ParseInt idStr of (i, bad) \<Rightarrow>
     if bad then ret (WsHttp 400 ''invalid server id'')
     else do {
       svr \<leftarrow> db_get (Srv_Get i);
       case svr of
         None \<Rightarrow> ret (WsHttp 404 ''server not found'')
       | Some s \<Rightarrow>
           if \<not> upgrade then ret WsRefused
           else do {
             r \<leftarrow> Connect E (srv_Host s) (srv_Port s) (srv_User s) (srv_SSHKey s);
             case r of
               Inl err \<Rightarrow> ret (WsText (''SSH connection failed: '' @ err @ crlf))
             | Inr c \<Rightarrow> (case Shell stages of
                   Some err \<Rightarrow> do { Close E c; ret (WsText (''SSH shell failed: '' @ err @ crlf)) }
                 | None \<Rightarrow> ret (WsSession c None))
           }
     })"

definition exec_cmd :: "string \<Rightarrow> string \<Rightarrow> int \<Rightarrow> string" where
  "exec_cmd composeCmd serviceName i = composeCmd @ '' -f /opt/dockify/apps/app-'' @ Itoa i @ ''/docker-compose.yml exec ''
     @ serviceName @ '' sh -c '' @ [CHR 0x27] @ ''command -v bash >/dev/null 2>&1 && exec bash || exec sh'' @ [CHR 0x27]"

definition app_terminal :: "env \<Rightarrow> (pty_stage \<Rightarrow> error option) \<Rightarrow> App \<Rightarrow> Server \<Rightarrow> ws_reply prog" where
  "app_terminal E stages a s = do {
     r \<leftarrow> Connect E (srv_Host s) (srv_Port s) (srv_User s) (srv_SSHKey s);
     case r of
       Inl err \<Rightarrow> ret (WsText (''SSH connection failed: '' @ err @ crlf))
     | Inr c \<Rightarrow> do {
         composeCmd \<leftarrow> DockerComposeCmd E c;
         h \<leftarrow> trace;
         let cmd = exec_cmd composeCmd (ContainerServiceName (e_yaml E) (e_order E h) a) (app_ID a);
         case ExecPTY stages of
           Some err \<Rightarrow> do { Close E c; ret (WsText (''Container exec failed: '' @ err @ crlf)) }
         | None \<Rightarrow> ret (WsSession c (Some cmd))
       }
   }"

definition ServeAppContainerWS :: "env \<Rightarrow> (pty_stage \<Rightarrow> error option) \<Rightarrow> bool \<Rightarrow> string \<Rightarrow> ws_reply prog" where
  "ServeAppContainerWS E stages upgrade idStr = (case ParseInt idStr of (appID, bad) \<Rightarrow>
     if bad then ret (WsHttp 400 ''invalid app id'')
     else do {
       app \<leftarrow> db_get (Repo_Get appID);
       case app of
         None \<Rightarrow> ret (WsHttp 404 ''app not found'')
       | Some a \<Rightarrow> do {
           svr \<leftarrow> db_get (Srv_Get (app_ServerID a));
           case svr of
             None \<Rightarrow> ret (WsHttp 404 ''server not found'')
           | Some s \<Rightarrow> if \<not> upgrade then ret WsRefused else app_terminal E stages a s
         }
     })"

section \<open>A session\<close>

datatype stream = Stdout | Stderr

datatype item = Data string | ClosedMark

datatype inp = Keys string | Resize nat nat

datatype copy_pc = Copying | Handing string | CopyDone
datatype wait_pc = Waiting | Announcing | Closing | WaitDone
datatype writer_pc = Writing | Sending item | WriterDone
datatype reader_pc = Reading | Forwarding inp | ReaderClosing | ReaderDone
datatype stdin_pc = Draining | StdinDone
datatype handler_pc = Serving | LeaveClient | LeaveCancel | LeaveConn | HandlerDone
datatype killer_pc = Armed | KillerDone

text \<open>
  The channels with their contents, the cancellation of the context, the end of the SSH session and of the
  WebSocket, the program counters; \<open>t_copied\<close>, \<open>t_sent\<close>, \<open>t_accepted\<close> and \<open>t_typed\<close> record what
  the copiers handed over, what the browser got, what was taken from it, and what the shell got.
\<close>

record terminal =
  t_pipe :: "stream \<Rightarrow> string list"
  t_out :: "item list"
  t_outClosed :: bool
  t_in :: "inp list"
  t_inClosed :: bool
  t_errs :: nat
  t_ctx :: bool
  t_ended :: bool
  t_gone :: bool
  t_copy :: "stream \<Rightarrow> copy_pc"
  t_wait :: wait_pc
  t_writer :: writer_pc
  t_reader :: reader_pc
  t_stdin :: stdin_pc
  t_handler :: handler_pc
  t_killer :: killer_pc
  t_copied :: "string list"
  t_sent :: "string list"
  t_accepted :: "inp list"
  t_typed :: "inp list"
  t_panic :: bool

definition opened :: "terminal" where
  "opened = \<lparr> t_pipe = (\<lambda>_. []), t_out = [], t_outClosed = False, t_in = [], t_inClosed = False, t_errs = 0, t_ctx = False,
     t_ended = False, t_gone = False, t_copy = (\<lambda>_. Copying), t_wait = Waiting, t_writer = Writing, t_reader = Reading,
     t_stdin = Draining, t_handler = Serving, t_killer = Armed, t_copied = [], t_sent = [], t_accepted = [], t_typed = [],
     t_panic = False \<rparr>"

definition chan_size :: nat where
  "chan_size = 64"

text \<open>A send on the output channel and on the input channel; \<open>close\<close> of each.\<close>

definition send_out :: "item \<Rightarrow> terminal \<Rightarrow> terminal" where
  "send_out o' s = (if t_outClosed s then s\<lparr>t_panic := True\<rparr> else s\<lparr>t_out := t_out s @ [o']\<rparr>)"

definition close_out :: "terminal \<Rightarrow> terminal" where
  "close_out s = (if t_outClosed s then s\<lparr>t_panic := True\<rparr> else s\<lparr>t_outClosed := True\<rparr>)"

definition send_in :: "inp \<Rightarrow> terminal \<Rightarrow> terminal" where
  "send_in i s = (if t_inClosed s then s\<lparr>t_panic := True\<rparr> else s\<lparr>t_in := t_in s @ [i]\<rparr>)"

definition close_in :: "terminal \<Rightarrow> terminal" where
  "close_in s = (if t_inClosed s then s\<lparr>t_panic := True\<rparr> else s\<lparr>t_inClosed := True\<rparr>)"

text \<open>What the browser and the worker may do.\<close>

inductive outside :: "terminal \<Rightarrow> terminal \<Rightarrow> bool" where
  remote_output: "\<not> t_ended s \<Longrightarrow> outside s (s\<lparr>t_pipe := (t_pipe s)(k := t_pipe s k @ [d])\<rparr>)"
| remote_exit: "outside s (s\<lparr>t_ended := True\<rparr>)"
| browser_leaves: "outside s (s\<lparr>t_gone := True\<rparr>)"
| request_cancelled: "outside s (s\<lparr>t_ctx := True\<rparr>)"
| message: "t_reader s = Reading \<Longrightarrow> \<not> t_gone s \<Longrightarrow> outside s (s\<lparr>t_reader := Forwarding i\<rparr>)"
| read_deadline: "t_reader s = Reading \<Longrightarrow> t_errs s < 2 \<Longrightarrow> outside s (s\<lparr>t_reader := ReaderClosing, t_errs := Suc (t_errs s)\<rparr>)"
| message_ignored: "t_reader s = Reading \<Longrightarrow> \<not> t_gone s \<Longrightarrow> outside s s"

text \<open>\<open>channelWriter\<close>, one per stream: take from the session, send or give up.\<close>

inductive copier :: "terminal \<Rightarrow> terminal \<Rightarrow> bool" where
  take: "t_copy s k = Copying \<Longrightarrow> t_pipe s k = d # ds \<Longrightarrow>
    copier s (s\<lparr>t_pipe := (t_pipe s)(k := ds), t_copy := (t_copy s)(k := Handing d)\<rparr>)"
| hand_over: "t_copy s k = Handing d \<Longrightarrow> length (t_out s) < chan_size \<Longrightarrow>
    copier s ((send_out (Data d) s)\<lparr>t_copy := (t_copy s)(k := Copying), t_copied := t_copied s @ [d]\<rparr>)"
| give_up: "t_copy s k = Handing d \<Longrightarrow> t_ctx s \<Longrightarrow> copier s (s\<lparr>t_copy := (t_copy s)(k := CopyDone)\<rparr>)"
| at_end: "t_copy s k = Copying \<Longrightarrow> t_pipe s k = [] \<Longrightarrow> t_ended s \<Longrightarrow> copier s (s\<lparr>t_copy := (t_copy s)(k := CopyDone)\<rparr>)"

text \<open>\<open>pump\<close>: input to the shell; the end of the session; the cancelled context.\<close>

inductive pump :: "terminal \<Rightarrow> terminal \<Rightarrow> bool" where
  type_in: "t_stdin s = Draining \<Longrightarrow> t_in s = i # js \<Longrightarrow> pump s (s\<lparr>t_in := js, t_typed := t_typed s @ [i]\<rparr>)"
| stdin_end: "t_stdin s = Draining \<Longrightarrow> t_in s = [] \<Longrightarrow> t_inClosed s \<Longrightarrow> pump s (s\<lparr>t_stdin := StdinDone\<rparr>)"
| waited: "t_wait s = Waiting \<Longrightarrow> t_ended s \<Longrightarrow> t_copy s Stdout = CopyDone \<Longrightarrow> t_copy s Stderr = CopyDone \<Longrightarrow>
    pump s (s\<lparr>t_wait := Announcing\<rparr>)"
| announce: "t_wait s = Announcing \<Longrightarrow> length (t_out s) < chan_size \<Longrightarrow> pump s ((send_out ClosedMark s)\<lparr>t_wait := Closing\<rparr>)"
| announce_cancelled: "t_wait s = Announcing \<Longrightarrow> t_ctx s \<Longrightarrow> pump s (s\<lparr>t_wait := Closing\<rparr>)"
| out_closed: "t_wait s = Closing \<Longrightarrow> pump s ((close_out s)\<lparr>t_wait := WaitDone\<rparr>)"
| kill: "t_killer s = Armed \<Longrightarrow> t_ctx s \<Longrightarrow> pump s (s\<lparr>t_killer := KillerDone, t_ended := True\<rparr>)"

text \<open>\<open>relay\<close> and the deferred calls of the handler after it.\<close>

inductive relay :: "terminal \<Rightarrow> terminal \<Rightarrow> bool" where
  receive: "t_writer s = Writing \<Longrightarrow> t_out s = x # xs \<Longrightarrow> relay s (s\<lparr>t_out := xs, t_writer := Sending x\<rparr>)"
| no_more: "t_writer s = Writing \<Longrightarrow> t_out s = [] \<Longrightarrow> t_outClosed s \<Longrightarrow> relay s (s\<lparr>t_writer := WriterDone\<rparr>)"
| send: "t_writer s = Sending (Data d) \<Longrightarrow> \<not> t_gone s \<Longrightarrow> relay s (s\<lparr>t_writer := Writing, t_sent := t_sent s @ [d]\<rparr>)"
| send_fails: "t_writer s = Sending (Data d) \<Longrightarrow> t_errs s < 2 \<Longrightarrow> relay s (s\<lparr>t_writer := WriterDone, t_errs := Suc (t_errs s)\<rparr>)"
| send_close: "t_writer s = Sending ClosedMark \<Longrightarrow> relay s (s\<lparr>t_writer := WriterDone\<rparr>)"
| read_fails: "t_reader s = Reading \<Longrightarrow> t_gone s \<Longrightarrow> t_errs s < 2 \<Longrightarrow> relay s (s\<lparr>t_reader := ReaderClosing, t_errs := Suc (t_errs s)\<rparr>)"
| forward: "t_reader s = Forwarding i \<Longrightarrow> length (t_in s) < chan_size \<Longrightarrow>
    relay s ((send_in i s)\<lparr>t_reader := Reading, t_accepted := t_accepted s @ [i]\<rparr>)"
| forward_cancelled: "t_reader s = Forwarding i \<Longrightarrow> t_ctx s \<Longrightarrow> relay s (s\<lparr>t_reader := ReaderClosing\<rparr>)"
| in_closed: "t_reader s = ReaderClosing \<Longrightarrow> relay s ((close_in s)\<lparr>t_reader := ReaderDone\<rparr>)"
| failed: "t_handler s = Serving \<Longrightarrow> t_errs s > 0 \<Longrightarrow> relay s (s\<lparr>t_handler := LeaveClient, t_errs := t_errs s - 1\<rparr>)"
| cancelled: "t_handler s = Serving \<Longrightarrow> t_ctx s \<Longrightarrow> relay s (s\<lparr>t_handler := LeaveClient\<rparr>)"
| close_client: "t_handler s = LeaveClient \<Longrightarrow> relay s (s\<lparr>t_handler := LeaveCancel, t_ended := True\<rparr>)"
| cancel: "t_handler s = LeaveCancel \<Longrightarrow> relay s (s\<lparr>t_handler := LeaveConn, t_ctx := True\<rparr>)"
| close_conn: "t_handler s = LeaveConn \<Longrightarrow> relay s (s\<lparr>t_handler := HandlerDone, t_gone := True\<rparr>)"

definition inside :: "terminal \<Rightarrow> terminal \<Rightarrow> bool" where
  "inside s s' \<longleftrightarrow> copier s s' \<or> pump s s' \<or> relay s s'"

inductive session :: "terminal \<Rightarrow> bool" where
  start: "session opened"
| inner: "session s \<Longrightarrow> inside s s' \<Longrightarrow> session s'"
| outer: "session s \<Longrightarrow> outside s s' \<Longrightarrow> session s'"

section \<open>What holds in every session\<close>

text \<open>What is on its way to the browser.\<close>

definition data :: "item list \<Rightarrow> string list" where
  "data xs = List.map_filter (\<lambda>x. case x of Data d \<Rightarrow> Some d | ClosedMark \<Rightarrow> None) xs"

definition pending :: "writer_pc \<Rightarrow> item list \<Rightarrow> string list" where
  "pending w xs = (case w of Sending (Data d) \<Rightarrow> [d] | _ \<Rightarrow> []) @ data xs"

lemma data_simps [simp]: "data [] = []" "data (Data d # xs) = d # data xs" "data (ClosedMark # xs) = data xs"
  "data (xs @ ys) = data xs @ data ys"
  by (simp_all add: data_def List.map_filter_def)

lemma pending_simps [simp]:
  "pending Writing xs = data xs" "pending (Sending x) xs = data (x # xs)" "pending w (xs @ ys) = pending w xs @ data ys"
  by (simp_all add: pending_def, cases x, simp_all)

definition channels_ok :: "terminal \<Rightarrow> bool" where
  "channels_ok s \<longleftrightarrow> \<not> t_panic s \<and> (t_outClosed s \<longleftrightarrow> t_wait s = WaitDone)
     \<and> (t_wait s \<noteq> Waiting \<longrightarrow> (\<forall>k. t_copy s k = CopyDone))
     \<and> (t_inClosed s \<longleftrightarrow> t_reader s = ReaderDone)"

definition errors_ok :: "terminal \<Rightarrow> bool" where
  "errors_ok s \<longleftrightarrow> t_errs s \<le> (if t_writer s = WriterDone then 1 else 0)
     + (if t_reader s = ReaderClosing \<or> t_reader s = ReaderDone then 1 else 0)"

definition input_ok :: "terminal \<Rightarrow> bool" where
  "input_ok s \<longleftrightarrow> t_accepted s = t_typed s @ t_in s \<and> (t_stdin s = StdinDone \<longrightarrow> t_inClosed s \<and> t_in s = [])"

definition output_ok :: "terminal \<Rightarrow> bool" where
  "output_ok s \<longleftrightarrow> (t_writer s \<noteq> WriterDone \<longrightarrow> t_copied s = t_sent s @ pending (t_writer s) (t_out s))
     \<and> (t_writer s = WriterDone \<longrightarrow> prefix (t_sent s) (t_copied s))
     \<and> (ClosedMark \<in> set (t_out s) \<longrightarrow> t_wait s = Closing \<or> t_wait s = WaitDone)
     \<and> (t_writer s = Sending ClosedMark \<longrightarrow> t_out s = [] \<and> (t_wait s = Closing \<or> t_wait s = WaitDone))
     \<and> ClosedMark \<notin> set (butlast (t_out s))"

definition leaving_ok :: "terminal \<Rightarrow> bool" where
  "leaving_ok s \<longleftrightarrow> (t_handler s \<in> {LeaveCancel, LeaveConn, HandlerDone} \<longrightarrow> t_ended s)
     \<and> (t_handler s \<in> {LeaveConn, HandlerDone} \<longrightarrow> t_ctx s) \<and> (t_handler s = HandlerDone \<longrightarrow> t_gone s)"

definition sound :: "terminal \<Rightarrow> bool" where
  "sound s \<longleftrightarrow> channels_ok s \<and> errors_ok s \<and> input_ok s \<and> output_ok s \<and> leaving_ok s"

lemmas send_close_defs = send_out_def close_out_def send_in_def close_in_def

lemma copier_channels: "copier s s' \<Longrightarrow> sound s \<Longrightarrow> channels_ok s'"
  by (induction rule: copier.induct) (auto simp: sound_def channels_ok_def send_close_defs)

lemma copier_errors: "copier s s' \<Longrightarrow> sound s \<Longrightarrow> errors_ok s'"
  by (induction rule: copier.induct) (auto simp: sound_def errors_ok_def send_close_defs)

lemma copier_input: "copier s s' \<Longrightarrow> sound s \<Longrightarrow> input_ok s'"
  by (induction rule: copier.induct) (auto simp: sound_def input_ok_def send_close_defs)

lemma copier_leaving: "copier s s' \<Longrightarrow> sound s \<Longrightarrow> leaving_ok s'"
  by (induction rule: copier.induct) (auto simp: sound_def leaving_ok_def send_close_defs)

lemma copier_output: "copier s s' \<Longrightarrow> sound s \<Longrightarrow> output_ok s'"
proof (induction rule: copier.induct)
  case (hand_over s k d)
  then have "\<not> t_outClosed s" "ClosedMark \<notin> set (t_out s)" "t_writer s \<noteq> Sending ClosedMark"
    by (auto simp: sound_def channels_ok_def output_ok_def)
  with hand_over show ?case by (simp add: sound_def output_ok_def send_out_def)
qed (simp_all add: sound_def output_ok_def)

lemma both_streams: "t_copy s Stdout = CopyDone \<Longrightarrow> t_copy s Stderr = CopyDone \<Longrightarrow> t_copy s k = CopyDone"
  by (cases k) simp_all

lemma pump_channels: "pump s s' \<Longrightarrow> sound s \<Longrightarrow> channels_ok s'"
  by (induction rule: pump.induct) (auto simp: sound_def channels_ok_def send_close_defs intro: both_streams)

lemma pump_errors: "pump s s' \<Longrightarrow> sound s \<Longrightarrow> errors_ok s'"
  by (induction rule: pump.induct) (auto simp: sound_def errors_ok_def send_close_defs)

lemma pump_input: "pump s s' \<Longrightarrow> sound s \<Longrightarrow> input_ok s'"
  by (induction rule: pump.induct) (auto simp: sound_def input_ok_def send_close_defs)

lemma pump_leaving: "pump s s' \<Longrightarrow> sound s \<Longrightarrow> leaving_ok s'"
  by (induction rule: pump.induct) (auto simp: sound_def leaving_ok_def send_close_defs)

lemma pump_output: "pump s s' \<Longrightarrow> sound s \<Longrightarrow> output_ok s'"
  by (induction rule: pump.induct)
    (auto simp: sound_def channels_ok_def output_ok_def send_close_defs butlast_append)

lemma relay_channels: "relay s s' \<Longrightarrow> sound s \<Longrightarrow> channels_ok s'"
  by (induction rule: relay.induct) (auto simp: sound_def channels_ok_def send_close_defs)

lemma relay_errors: "relay s s' \<Longrightarrow> sound s \<Longrightarrow> errors_ok s'"
  by (induction rule: relay.induct) (auto simp: sound_def errors_ok_def send_close_defs split: if_splits)

lemma relay_input: "relay s s' \<Longrightarrow> sound s \<Longrightarrow> input_ok s'"
  by (induction rule: relay.induct) (auto simp: sound_def input_ok_def channels_ok_def send_close_defs)

lemma relay_leaving: "relay s s' \<Longrightarrow> sound s \<Longrightarrow> leaving_ok s'"
  by (induction rule: relay.induct) (auto simp: sound_def leaving_ok_def send_close_defs)

lemma relay_output: "relay s s' \<Longrightarrow> sound s \<Longrightarrow> output_ok s'"
  by (induction rule: relay.induct)
    (auto simp: sound_def channels_ok_def output_ok_def send_close_defs split: if_splits)

lemma outside_ok: "outside s s' \<Longrightarrow> sound s \<Longrightarrow> sound s'"
  by (induction rule: outside.induct)
    (auto simp: sound_def channels_ok_def errors_ok_def input_ok_def output_ok_def leaving_ok_def split: if_splits)

lemma inside_ok: "inside s s' \<Longrightarrow> sound s \<Longrightarrow> sound s'"
  unfolding inside_def sound_def [of s']
  by (metis copier_channels copier_errors copier_input copier_output copier_leaving pump_channels pump_errors pump_input
      pump_output pump_leaving relay_channels relay_errors relay_input relay_output relay_leaving)

lemma session_sound: "session s \<Longrightarrow> sound s"
proof (induction rule: session.induct)
  case start
  show ?case by (simp add: sound_def channels_ok_def errors_ok_def input_ok_def output_ok_def leaving_ok_def opened_def)
qed (blast intro: inside_ok outside_ok)+

section \<open>How a session ends\<close>

definition finished :: "terminal \<Rightarrow> bool" where
  "finished s \<longleftrightarrow> t_copy s Stdout = CopyDone \<and> t_copy s Stderr = CopyDone \<and> t_wait s = WaitDone \<and> t_writer s = WriterDone
     \<and> t_reader s = ReaderDone \<and> t_stdin s = StdinDone \<and> t_handler s = HandlerDone \<and> t_killer s = KillerDone"

text \<open>The work that is left, in steps.\<close>

fun copy_work :: "copy_pc \<Rightarrow> nat" where
  "copy_work Copying = 1" | "copy_work (Handing _) = 5" | "copy_work CopyDone = 0"

fun wait_work :: "wait_pc \<Rightarrow> nat" where
  "wait_work Waiting = 6" | "wait_work Announcing = 5" | "wait_work Closing = 1" | "wait_work WaitDone = 0"

fun writer_work :: "writer_pc \<Rightarrow> nat" where
  "writer_work Writing = 1" | "writer_work (Sending _) = 2" | "writer_work WriterDone = 0"

fun reader_work :: "reader_pc \<Rightarrow> nat" where
  "reader_work Reading = 2" | "reader_work (Forwarding _) = 5" | "reader_work ReaderClosing = 1" | "reader_work ReaderDone = 0"

fun stdin_work :: "stdin_pc \<Rightarrow> nat" where
  "stdin_work Draining = 1" | "stdin_work StdinDone = 0"

fun handler_work :: "handler_pc \<Rightarrow> nat" where
  "handler_work Serving = 4" | "handler_work LeaveClient = 3" | "handler_work LeaveCancel = 2" | "handler_work LeaveConn = 1"
| "handler_work HandlerDone = 0"

fun killer_work :: "killer_pc \<Rightarrow> nat" where
  "killer_work Armed = 1" | "killer_work KillerDone = 0"

definition stream_work :: "terminal \<Rightarrow> stream \<Rightarrow> nat" where
  "stream_work s k = 6 * length (t_pipe s k) + copy_work (t_copy s k)"

definition work :: "terminal \<Rightarrow> nat" where
  "work s = stream_work s Stdout + stream_work s Stderr + wait_work (t_wait s) + 3 * length (t_out s) + writer_work (t_writer s)
     + reader_work (t_reader s) + 2 * length (t_in s) + stdin_work (t_stdin s) + handler_work (t_handler s) + killer_work (t_killer s)"

lemma copier_works: "copier s s' \<Longrightarrow> work s' < work s"
proof (induction rule: copier.induct)
  case (take s k d ds)
  then show ?case by (cases k) (simp_all add: work_def stream_work_def)
next
  case (hand_over s k d)
  then show ?case by (cases k) (simp_all add: work_def stream_work_def send_out_def)
next
  case (give_up s k d)
  then show ?case by (cases k) (simp_all add: work_def stream_work_def)
next
  case (at_end s k)
  then show ?case by (cases k) (simp_all add: work_def stream_work_def)
qed

lemma pump_works: "pump s s' \<Longrightarrow> work s' < work s"
  by (induction rule: pump.induct) (simp_all add: work_def stream_work_def send_close_defs)

lemma relay_works: "relay s s' \<Longrightarrow> work s' < work s"
  by (induction rule: relay.induct) (simp_all add: work_def stream_work_def send_close_defs)

lemma inside_works: "inside s s' \<Longrightarrow> work s' < work s"
  unfolding inside_def using copier_works pump_works relay_works by blast

lemma outside_works: "outside s s' \<Longrightarrow> leaving_ok s \<Longrightarrow> t_handler s = HandlerDone \<Longrightarrow> work s' \<le> work s \<and> t_handler s' = HandlerDone"
  by (induction rule: outside.induct) (simp_all add: work_def stream_work_def leaving_ok_def)

text \<open>Every goroutine that has not ended has a step, or waits for one that has.\<close>

lemma handler_steps: "t_ctx s \<Longrightarrow> t_handler s \<noteq> HandlerDone \<Longrightarrow> \<exists>s'. inside s s'"
  unfolding inside_def by (cases "t_handler s") (blast intro: relay.intros)+

lemma copier_steps: "t_ctx s \<Longrightarrow> t_ended s \<Longrightarrow> t_copy s k \<noteq> CopyDone \<Longrightarrow> \<exists>s'. inside s s'"
  unfolding inside_def by (cases "t_copy s k"; cases "t_pipe s k") (blast intro: copier.intros)+

lemma wait_steps:
  "t_ctx s \<Longrightarrow> t_ended s \<Longrightarrow> t_copy s Stdout = CopyDone \<Longrightarrow> t_copy s Stderr = CopyDone \<Longrightarrow> t_wait s \<noteq> WaitDone \<Longrightarrow> \<exists>s'. inside s s'"
  unfolding inside_def by (cases "t_wait s") (blast intro: pump.intros)+

lemma writer_steps:
  assumes "errors_ok s" and "t_outClosed s" and "t_writer s \<noteq> WriterDone"
  shows "\<exists>s'. inside s s'"
proof (cases "t_writer s")
  case Writing
  with assms show ?thesis unfolding inside_def by (cases "t_out s") (blast intro: relay.intros)+
next
  case (Sending x)
  with assms(1) have "t_errs s < 2" by (auto simp: errors_ok_def split: if_splits)
  with Sending show ?thesis unfolding inside_def by (cases x) (blast intro: relay.intros)+
qed (use assms in simp)

lemma reader_steps:
  assumes "errors_ok s" and "t_ctx s" and "t_gone s" and "t_reader s \<noteq> ReaderDone"
  shows "\<exists>s'. inside s s'"
proof (cases "t_reader s")
  case Reading
  with assms(1) have "t_errs s < 2" by (auto simp: errors_ok_def split: if_splits)
  with Reading assms(3) show ?thesis unfolding inside_def by (blast intro: relay.intros)
qed (use assms in \<open>unfold inside_def, (blast intro: relay.intros)+\<close>)

lemma stdin_steps: "t_inClosed s \<Longrightarrow> t_stdin s \<noteq> StdinDone \<Longrightarrow> \<exists>s'. inside s s'"
  unfolding inside_def by (cases "t_stdin s"; cases "t_in s") (blast intro: pump.intros)+

lemma killer_steps: "t_ctx s \<Longrightarrow> t_killer s \<noteq> KillerDone \<Longrightarrow> \<exists>s'. inside s s'"
  unfolding inside_def by (cases "t_killer s") (blast intro: pump.intros)+

lemma session_progress:
  assumes "sound s" and "t_ctx s" and "\<not> finished s"
  shows "\<exists>s'. inside s s'"
proof (rule ccontr)
  assume no: "\<nexists>s'. inside s s'"
  then have h: "t_handler s = HandlerDone" "t_killer s = KillerDone" using assms(2) handler_steps killer_steps by blast+
  then have g: "t_ended s" "t_gone s" using assms(1) by (auto simp: sound_def leaving_ok_def)
  then have c: "t_copy s k = CopyDone" for k using no assms(2) copier_steps by blast
  then have w: "t_wait s = WaitDone" using no assms(2) g(1) wait_steps by blast
  then have o': "t_outClosed s" "errors_ok s" using assms(1) by (auto simp: sound_def channels_ok_def)
  then have wr: "t_writer s = WriterDone" using no writer_steps by blast
  have r: "t_reader s = ReaderDone" using no o'(2) assms(2) g(2) reader_steps by blast
  then have "t_inClosed s" using assms(1) by (auto simp: sound_def channels_ok_def)
  then have "t_stdin s = StdinDone" using no stdin_steps by blast
  with h c w wr r assms(3) show False by (simp add: finished_def)
qed

section \<open>Properties\<close>

text \<open>
  C31. In every session, however the seven goroutines, the browser and the worker interleave: nothing is sent on a
  closed channel and no channel is closed twice; the browser gets what the shell printed, in order and without gaps,
  and it is told of the end only when it has got all of it; the shell gets the keys in order.
\<close>

theorem terminal_safe:
  assumes "session s"
  shows "\<not> t_panic s \<and> prefix (t_sent s) (t_copied s) \<and> (t_writer s = Sending ClosedMark \<longrightarrow> t_sent s = t_copied s)
    \<and> prefix (t_typed s) (t_accepted s)"
proof -
  have ok: "sound s" by (rule session_sound [OF assms])
  have "prefix (t_sent s) (t_copied s)"
    using ok by (cases "t_writer s = WriterDone") (auto simp: sound_def output_ok_def)
  moreover have "t_writer s = Sending ClosedMark \<longrightarrow> t_sent s = t_copied s" using ok by (simp add: sound_def output_ok_def)
  ultimately show ?thesis using ok by (auto simp: sound_def channels_ok_def input_ok_def)
qed

text \<open>
  C32. No session leaves a goroutine behind. Every step of the goroutines uses up some of the work that is left, which
  after the handler has returned nothing outside adds to; and once the context is cancelled, as the handler does
  when it returns, some goroutine has a step until all have ended: none is stuck on a channel.
\<close>

theorem terminal_ends:
  assumes "session s"
  shows "(\<forall>s'. inside s s' \<longrightarrow> work s' < work s) \<and> (t_ctx s \<longrightarrow> finished s \<or> (\<exists>s'. inside s s'))
    \<and> (t_handler s = HandlerDone \<longrightarrow> t_ctx s \<and> (\<forall>s'. outside s s' \<longrightarrow> work s' \<le> work s \<and> t_handler s' = HandlerDone))"
proof -
  have ok: "sound s" by (rule session_sound [OF assms])
  then have "t_handler s = HandlerDone \<longrightarrow> t_ctx s" by (auto simp: sound_def leaving_ok_def)
  with ok show ?thesis
    using inside_works session_progress outside_works by (auto simp: sound_def)
qed

text \<open>A session in which the shell prints one word and exits; the browser is being told of the end.\<close>

lemma one_word_session: "\<exists>s. session s \<and> t_writer s = Sending ClosedMark \<and> t_copied s = [''hi'']"
proof -
  let ?s1 = "opened\<lparr>t_pipe := (t_pipe opened)(Stdout := t_pipe opened Stdout @ [''hi''])\<rparr>"
  let ?s2 = "?s1\<lparr>t_pipe := (t_pipe ?s1)(Stdout := []), t_copy := (t_copy ?s1)(Stdout := Handing ''hi'')\<rparr>"
  let ?s3 = "(send_out (Data ''hi'') ?s2)\<lparr>t_copy := (t_copy ?s2)(Stdout := Copying), t_copied := t_copied ?s2 @ [''hi'']\<rparr>"
  let ?s4 = "?s3\<lparr>t_out := [], t_writer := Sending (Data ''hi'')\<rparr>"
  let ?s5 = "?s4\<lparr>t_writer := Writing, t_sent := t_sent ?s4 @ [''hi'']\<rparr>"
  let ?s6 = "?s5\<lparr>t_ended := True\<rparr>"
  let ?s7 = "?s6\<lparr>t_copy := (t_copy ?s6)(Stdout := CopyDone)\<rparr>"
  let ?s8 = "?s7\<lparr>t_copy := (t_copy ?s7)(Stderr := CopyDone)\<rparr>"
  let ?s9 = "?s8\<lparr>t_wait := Announcing\<rparr>"
  let ?s10 = "(send_out ClosedMark ?s9)\<lparr>t_wait := Closing\<rparr>"
  let ?s11 = "?s10\<lparr>t_out := [], t_writer := Sending ClosedMark\<rparr>"
  note open_simps = opened_def send_out_def chan_size_def
  have "session ?s1" by (rule session.outer [OF session.start], rule remote_output) (simp add: opened_def)
  then have "session ?s2" by (rule session.inner, unfold inside_def, intro disjI1 copier.take) (simp_all add: opened_def)
  then have "session ?s3" by (rule session.inner, unfold inside_def, intro disjI1 copier.hand_over) (simp_all add: open_simps)
  then have "session ?s4" by (rule session.inner, unfold inside_def, intro disjI2 relay.receive) (simp_all add: open_simps)
  then have "session ?s5" by (rule session.inner, unfold inside_def, intro disjI2 relay.send) (simp_all add: open_simps)
  then have "session ?s6" by (rule session.outer, intro outside.remote_exit)
  then have "session ?s7" by (rule session.inner, unfold inside_def, intro disjI1 copier.at_end) (simp_all add: open_simps)
  then have "session ?s8" by (rule session.inner, unfold inside_def, intro disjI1 copier.at_end) (simp_all add: open_simps)
  then have "session ?s9" by (rule session.inner, unfold inside_def, intro disjI2 disjI1 pump.waited) (simp_all add: open_simps)
  then have "session ?s10" by (rule session.inner, unfold inside_def, intro disjI2 disjI1 pump.announce) (simp_all add: open_simps)
  then have "session ?s11" by (rule session.inner, unfold inside_def, intro disjI2 relay.receive) (simp_all add: open_simps)
  then show ?thesis by (intro exI [of _ ?s11]) (simp add: open_simps)
qed

theorem terminal_safe_witness: "\<exists>s. session s \<and> t_writer s = Sending ClosedMark \<and> t_sent s = [''hi'']"
proof -
  obtain s where "session s" "t_writer s = Sending ClosedMark" "t_copied s = [''hi'']" using one_word_session by blast
  with terminal_safe [of s] show ?thesis by metis
qed

theorem terminal_ends_witness: "\<exists>s'. inside (opened\<lparr>t_ctx := True\<rparr>) s' \<and> work s' < work (opened\<lparr>t_ctx := True\<rparr>)"
proof -
  have s: "session (opened\<lparr>t_ctx := True\<rparr>)" by (rule session.outer [OF session.start], rule request_cancelled)
  have "\<not> finished (opened\<lparr>t_ctx := True\<rparr>)" by (simp add: finished_def opened_def)
  with terminal_ends [OF s] show ?thesis by auto
qed

end
