(* ===== verification/LiveStats.thy ===== *)
theory LiveStats
  imports StatsLaws Charts Terminals ServerSvc "HOL-Library.Sublist"
begin

text \<open>
  Live figures in the browser: \<open>internal/http/app_stats_ws.go\<close> and \<open>internal/http/stats_ws.go\<close>. The loop of a
  handler is a function of the events its select receives, in their order. With each event comes what the
  rest of the program did to the world meanwhile, and whether the WebSocket takes what is sent. What the
  collecting goroutines deliver is \<open>Feed\<close>; they are \<open>LiveSnapshot\<close> and \<open>stream_line\<close> of theory \<open>Stats\<close>.
\<close>

section \<open>The stream of an app\<close>

text \<open>\<open>StreamStats\<close>: \<open>stream\<close> is the session of \<open>ExecStream\<close>, its lines until it ends or the error that it did not start.\<close>

fun stream_all :: "stats_env \<Rightarrow> App \<Rightarrow> (string \<times> ContainerStats) list \<Rightarrow> string list \<Rightarrow> ContainerStats list" where
  "stream_all V a latest [] = []"
| "stream_all V a latest (l # ls) = (case stream_line V a latest l of
     (latest', None) \<Rightarrow> stream_all V a latest' ls
   | (latest', Some agg) \<Rightarrow> agg # stream_all V a latest' ls)"

definition docker_stream_cmd :: "string list \<Rightarrow> string" where
  "docker_stream_cmd names = ''docker stats --format '' @ sq @ ''{{json .}}'' @ sq @ '' '' @ Join names '' '' @ '' 2>/dev/null''"

definition StreamStats :: "env \<Rightarrow> stats_env \<Rightarrow> conn \<Rightarrow> App option \<Rightarrow> (string \<Rightarrow> string list result)
    \<Rightarrow> (ContainerStats list \<times> error option) prog" where
  "StreamStats E V c app stream = (case app of
     None \<Rightarrow> ret ([], Some ''app is nil'')
   | Some a \<Rightarrow>
       if app_ServerID a = 0 then ret ([], Some (''app '' @ Itoa (app_ID a) @ '' is not assigned to a server''))
       else do {
         r \<leftarrow> listAppContainers E c a;
         case r of
           (_, Some err) \<Rightarrow> ret ([], Some err)
         | (names, None) \<Rightarrow>
             if names = [] then ret ([], None)
             else (case stream (docker_stream_cmd names) of
                 Inl err \<Rightarrow> ret ([], Some err)
               | Inr ls \<Rightarrow> ret (stream_all V a [] ls, None))
       })"

section \<open>Events\<close>

datatype 'a live_event = Feed 'a | Tick | ChartTick | DiskTick | Range "string option" | Cancelled

text \<open>\<open>Range None\<close>: the reader closed its channel.\<close>

type_synonym 'a live_input = "(world \<Rightarrow> world) \<times> 'a live_event \<times> bool"

definition send_msg :: "bool \<Rightarrow> 'm \<Rightarrow> 's \<Rightarrow> 'm list \<times> 's option" where
  "send_msg ok m st = (if ok then ([m], Some st) else ([], None))"

fun live_loop :: "('a live_event \<Rightarrow> bool \<Rightarrow> 's \<Rightarrow> ('m list \<times> 's option) prog) \<Rightarrow> 'a live_input list \<Rightarrow> 's \<Rightarrow> 'm list prog" where
  "live_loop step [] st = ret []"
| "live_loop step ((meanwhile, ev, ok) # es) st = do {
     modify meanwhile;
     r \<leftarrow> step ev ok st;
     case r of
       (ms, None) \<Rightarrow> ret ms
     | (ms, Some st') \<Rightarrow> do { ms' \<leftarrow> live_loop step es st'; ret (ms @ ms') }
   }"

section \<open>An app\<close>

record app_live =
  al_range :: string
  al_latest :: "ContainerStats option"
  al_prev :: "(int \<times> int) option"
  al_disk :: int

text \<open>A message has the figures of a snapshot, the rate of its traffic, the disk usage and the time.\<close>

record live_figures =
  lf_stats :: ContainerStats
  lf_network :: rat
  lf_disk :: int
  lf_time :: int

datatype app_msg = AppChart AppCharts | AppLive live_figures

definition net_rate :: "(int \<times> int) option \<Rightarrow> int \<Rightarrow> int \<Rightarrow> rat" where
  "net_rate prev now curNet = (case prev of
     None \<Rightarrow> 0
   | Some (prevTime, prevBytes) \<Rightarrow>
       if now - prevTime > 0 \<and> curNet \<ge> prevBytes then of_int (curNet - prevBytes) * 1000000000 / of_int (now - prevTime) else 0)"

definition app_chart :: "int \<Rightarrow> string \<Rightarrow> AppCharts prog" where
  "app_chart i rangeStr = gets (\<lambda>w. GetStatsHistory (w_clock w) i rangeStr (w_db w))"

definition app_live_step :: "stats_env \<Rightarrow> int \<Rightarrow> ContainerStats live_event \<Rightarrow> bool \<Rightarrow> app_live \<Rightarrow> (app_msg list \<times> app_live option) prog" where
  "app_live_step V i ev ok st = (case ev of
     Feed cs \<Rightarrow> ret ([], Some (st\<lparr>al_latest := Some cs\<rparr>))
   | Tick \<Rightarrow> (case al_latest st of
         None \<Rightarrow> ret ([], Some st)
       | Some cs \<Rightarrow> do {
           now \<leftarrow> gets w_clock;
           let curNet = net_bytes cs;
           ret (send_msg ok (AppLive \<lparr> lf_stats = cs, lf_network = net_rate (al_prev st) now curNet, lf_disk = al_disk st, lf_time = now \<rparr>)
             (st\<lparr>al_latest := None, al_prev := Some (now, curNet)\<rparr>))
         })
   | ChartTick \<Rightarrow> do { c \<leftarrow> app_chart i (al_range st); ret (send_msg ok (AppChart c) st) }
   | DiskTick \<Rightarrow> do {
       r \<leftarrow> GetStatsOverview V i;
       ret ([], Some (case r of None \<Rightarrow> st | Some stats \<Rightarrow> st\<lparr>al_disk := so_DiskUsageBytes stats\<rparr>))
     }
   | Range None \<Rightarrow> ret ([], None)
   | Range (Some r) \<Rightarrow> do { c \<leftarrow> app_chart i r; ret (send_msg ok (AppChart c) (st\<lparr>al_range := r\<rparr>)) }
   | Cancelled \<Rightarrow> ret ([], None))"

datatype 'm live_reply = LiveHttp int string | LiveRefused | LiveText string | LiveFeed "'m list"

text \<open>\<open>first\<close>: the browser takes the first chart, whose error is not looked at.\<close>

definition app_feed :: "env \<Rightarrow> stats_env \<Rightarrow> App \<Rightarrow> Server \<Rightarrow> bool \<Rightarrow> ContainerStats live_input list \<Rightarrow> app_msg live_reply prog" where
  "app_feed E V a s first es = do {
     r \<leftarrow> Connect E (srv_Host s) (srv_Port s) (srv_User s) (srv_SSHKey s);
     case r of
       Inl _ \<Rightarrow> ret (LiveText ([CHR ''{'', CHR 0x22] @ ''error'' @ [CHR 0x22, CHR '':'', CHR 0x22] @ ''SSH connection failed'' @ [CHR 0x22, CHR ''}'']))
     | Inr c \<Rightarrow> do {
         chart \<leftarrow> app_chart (app_ID a) ''realtime'';
         o' \<leftarrow> GetStatsOverview V (app_ID a);
         ms \<leftarrow> live_loop (app_live_step V (app_ID a)) es \<lparr> al_range = ''realtime'', al_latest = None, al_prev = None,
           al_disk = (case o' of None \<Rightarrow> 0 | Some stats \<Rightarrow> so_DiskUsageBytes stats) \<rparr>;
         Close E c;
         ret (LiveFeed ((if first then [AppChart chart] else []) @ ms))
       }
   }"

definition ServeLiveAppStats :: "env \<Rightarrow> stats_env \<Rightarrow> bool \<Rightarrow> string \<Rightarrow> bool \<Rightarrow> ContainerStats live_input list \<Rightarrow> app_msg live_reply prog" where
  "ServeLiveAppStats E V upgrade idStr first es = (case ParseInt idStr of (i, bad) \<Rightarrow>
     if bad then ret (LiveHttp 400 ''invalid app id'')
     else do {
       app \<leftarrow> db_get (Repo_Get i);
       case app of
         None \<Rightarrow> ret (LiveHttp 404 ''app not found'')
       | Some a \<Rightarrow>
           if app_ServerID a = 0 then ret (LiveHttp 400 ''app is not assigned to a server'')
           else do {
             svr \<leftarrow> db_get (Srv_Get (app_ServerID a));
             case svr of
               None \<Rightarrow> ret (LiveHttp 404 ''server not found'')
             | Some s \<Rightarrow> if \<not> upgrade then ret LiveRefused else app_feed E V a s first es
           }
     })"

section \<open>A server\<close>

text \<open>The share of the time between two readings of \<open>/proc/stat\<close> that was not idle.\<close>

definition calculateCPUUsage :: "server_env \<Rightarrow> string \<Rightarrow> string \<Rightarrow> rat" where
  "calculateCPUUsage V prev cur =
     (let prevParts = Fields prev; currParts = Fields cur
      in if length prevParts < 5 \<or> length currParts < 5 then 0
         else let prevTotal = sum_list (map (sv_float V) (tl prevParts));
                  currTotal = sum_list (map (sv_float V) (tl currParts));
                  dt = currTotal - prevTotal;
                  di = sv_float V (currParts ! 4) - sv_float V (prevParts ! 4)
              in if dt \<le> 0 then 0 else 100 * (dt - di) / dt)"

definition clamp100 :: "rat \<Rightarrow> rat" where
  "clamp100 v = (if v > 100 then 100 else if v < 0 then 0 else v)"

record server_live =
  sl_range :: string
  sl_prev :: string

record server_figures =
  sf_cpu :: rat
  sf_ram :: rat
  sf_disk :: rat
  sf_cpu_cores :: int
  sf_ram_mb :: int
  sf_disk_gb :: int
  sf_time :: int

datatype server_msg = ServerChart ServerCharts | ServerFigures server_figures

definition server_chart :: "int \<Rightarrow> string \<Rightarrow> ServerCharts prog" where
  "server_chart i rangeStr = gets (\<lambda>w. Server_GetStatsHistory (w_clock w) i rangeStr (w_db w))"

definition proc_stat :: string where
  "proc_stat = ''head -1 /proc/stat''"

definition server_live_step :: "env \<Rightarrow> server_env \<Rightarrow> conn \<Rightarrow> int \<Rightarrow> int \<times> int \<times> int \<Rightarrow> unit live_event \<Rightarrow> bool \<Rightarrow> server_live
    \<Rightarrow> (server_msg list \<times> server_live option) prog" where
  "server_live_step E V c i sizes ev ok st = (case ev of
     Tick \<Rightarrow> do {
       r \<leftarrow> Exec E c proc_stat;
       if snd r \<noteq> None then ret ([], Some st)
       else do {
         let currStat = fst r;
         ramUsage \<leftarrow> ParseRAMUsage E V c;
         diskUsage \<leftarrow> ParseDiskUsage E V c;
         now \<leftarrow> gets w_clock;
         ret (send_msg ok (ServerFigures \<lparr> sf_cpu = clamp100 (calculateCPUUsage V (sl_prev st) currStat), sf_ram = clamp100 ramUsage,
             sf_disk = clamp100 diskUsage, sf_cpu_cores = fst sizes, sf_ram_mb = fst (snd sizes), sf_disk_gb = snd (snd sizes),
             sf_time = now \<rparr>) (st\<lparr>sl_prev := currStat\<rparr>))
       }
     }
   | ChartTick \<Rightarrow> do { c \<leftarrow> server_chart i (sl_range st); ret (send_msg ok (ServerChart c) st) }
   | Range None \<Rightarrow> ret ([], None)
   | Range (Some r) \<Rightarrow> do { c \<leftarrow> server_chart i r; ret (send_msg ok (ServerChart c) (st\<lparr>sl_range := r\<rparr>)) }
   | Cancelled \<Rightarrow> ret ([], None)
   | Feed _ \<Rightarrow> ret ([], Some st)
   | DiskTick \<Rightarrow> ret ([], Some st))"

definition server_feed :: "env \<Rightarrow> server_env \<Rightarrow> int \<Rightarrow> Server \<Rightarrow> bool \<Rightarrow> unit live_input list \<Rightarrow> server_msg live_reply prog" where
  "server_feed E V i s first es = do {
     r \<leftarrow> Connect E (srv_Host s) (srv_Port s) (srv_User s) (srv_SSHKey s);
     case r of
       Inl _ \<Rightarrow> ret (LiveText ([CHR ''{'', CHR 0x22] @ ''error'' @ [CHR 0x22, CHR '':'', CHR 0x22] @ ''SSH connection failed'' @ [CHR 0x22, CHR ''}'']))
     | Inr c \<Rightarrow> do {
         cpuCores \<leftarrow> ParseCPUCount E c;
         ramMB \<leftarrow> ParseRAM E c;
         diskGB \<leftarrow> ParseDisk E c;
         prev \<leftarrow> Exec E c proc_stat;
         chart \<leftarrow> server_chart i ''realtime'';
         ms \<leftarrow> live_loop (server_live_step E V c i (cpuCores, ramMB, diskGB)) es \<lparr> sl_range = ''realtime'', sl_prev = fst prev \<rparr>;
         Close E c;
         ret (LiveFeed ((if first then [ServerChart chart] else []) @ ms))
       }
   }"

definition ServeLiveStats :: "env \<Rightarrow> server_env \<Rightarrow> bool \<Rightarrow> string \<Rightarrow> bool \<Rightarrow> unit live_input list \<Rightarrow> server_msg live_reply prog" where
  "ServeLiveStats E V upgrade idStr first es = (case ParseInt idStr of (i, bad) \<Rightarrow>
     if bad then ret (LiveHttp 400 ''invalid server id'')
     else do {
       svr \<leftarrow> db_get (Srv_Get i);
       case svr of
         None \<Rightarrow> ret (LiveHttp 404 ''server not found'')
       | Some s \<Rightarrow> if \<not> upgrade then ret LiveRefused else server_feed E V i s first es
     })"


section \<open>The messages of an app\<close>

text \<open>The loop leaves the world as the rest of the program made it.\<close>

definition others :: "'a live_input list \<Rightarrow> world \<Rightarrow> world" where
  "others es w = fold (\<lambda>(meanwhile, _). meanwhile) es w"

lemma others_simps [simp]: "others [] w = w" "others ((f, ev, ok) # es) w = others es (f w)"
  by (simp_all add: others_def)

definition lives :: "app_msg list \<Rightarrow> live_figures list" where
  "lives ms = List.map_filter (\<lambda>m. case m of AppLive f \<Rightarrow> Some f | AppChart _ \<Rightarrow> None) ms"

definition feeds :: "'a live_input list \<Rightarrow> 'a list" where
  "feeds es = List.map_filter (\<lambda>(_, ev, _). case ev of Feed x \<Rightarrow> Some x | _ \<Rightarrow> None) es"

lemma lives_simps [simp]:
  "lives [] = []" "lives (AppLive f # ms) = f # lives ms" "lives (AppChart c # ms) = lives ms" "lives (ms @ ns) = lives ms @ lives ns"
  by (simp_all add: lives_def List.map_filter_def)

lemma feeds_simps [simp]:
  "feeds [] = []" "feeds ((g, Feed x, ok) # es) = x # feeds es" "feeds ((g, Tick, ok) # es) = feeds es"
  "feeds ((g, ChartTick, ok) # es) = feeds es" "feeds ((g, DiskTick, ok) # es) = feeds es"
  "feeds ((g, Range r, ok) # es) = feeds es" "feeds ((g, Cancelled, ok) # es) = feeds es"
  by (simp_all add: feeds_def List.map_filter_def)

text \<open>The rates of a list of messages, each against the one before.\<close>

fun rates_from :: "(int \<times> int) option \<Rightarrow> live_figures list \<Rightarrow> bool" where
  "rates_from prev [] = True"
| "rates_from prev (f # fs) = (lf_network f = net_rate prev (lf_time f) (net_bytes (lf_stats f))
     \<and> rates_from (Some (lf_time f, net_bytes (lf_stats f))) fs)"

definition ranges :: "'a live_input list \<Rightarrow> string set" where
  "ranges es = {r. \<exists>g ok. (g, Range (Some r), ok) \<in> set es}"

lemma GetStatsOverview_pure: "run_state (GetStatsOverview V i) w = (result (GetStatsOverview V i) w, w)"
  by (simp add: GetStatsOverview_def result_def trace_def db_get_def split: sum.splits)

lemma result_gets: "result (gets f) w = f w" "exec (gets f) w = w"
  by (simp_all add: result_def exec_def)


definition chart_from :: "int \<Rightarrow> string set \<Rightarrow> 'a live_input list \<Rightarrow> world \<Rightarrow> AppCharts \<Rightarrow> bool" where
  "chart_from i rs es w c \<longleftrightarrow> (\<exists>n \<le> length es. \<exists>r \<in> rs.
     c = GetStatsHistory (w_clock (others (take n es) w)) i r (w_db (others (take n es) w)))"

lemma chart_from_now: "r \<in> rs \<Longrightarrow> chart_from i rs ((g, ev, ok) # es) w (GetStatsHistory (w_clock (g w)) i r (w_db (g w)))"
  unfolding chart_from_def by (rule exI [of _ 1]) auto

lemma chart_from_later: "chart_from i rs es (g w) c \<Longrightarrow> rs \<subseteq> rs' \<Longrightarrow> chart_from i rs' ((g, ev, ok) # es) w c"
  unfolding chart_from_def by (elim exE conjE bexE, rule_tac x = "Suc n" in exI) auto

lemma ranges_Cons: "ranges ((g, ev, ok) # es) = (case ev of Range (Some r) \<Rightarrow> insert r (ranges es) | _ \<Rightarrow> ranges es)"
  by (auto simp: ranges_def split: live_event.splits option.splits)

definition app_loop_ok :: "stats_env \<Rightarrow> int \<Rightarrow> app_live \<Rightarrow> ContainerStats live_input list \<Rightarrow> world \<Rightarrow> bool" where
  "app_loop_ok V i st es w \<longleftrightarrow> (case run_state (live_loop (app_live_step V i) es st) w of (ms, w') \<Rightarrow>
     subseq (map lf_stats (lives ms)) ((case al_latest st of None \<Rightarrow> [] | Some cs \<Rightarrow> [cs]) @ feeds es)
     \<and> rates_from (al_prev st) (lives ms)
     \<and> (\<forall>c. AppChart c \<in> set ms \<longrightarrow> chart_from i (insert (al_range st) (ranges es)) es w c)
     \<and> (\<exists>n \<le> length es. w' = others (take n es) w))"

text \<open>One event: what it sends, and what it leaves for the rest.\<close>

lemma app_loop_stop:
  assumes "run_state (app_live_step V i ev ok st) (g w) = (([], None), g w)"
  shows "app_loop_ok V i st ((g, ev, ok) # es) w"
  unfolding app_loop_ok_def using assms by (simp add: exI [of _ 1])

lemma app_loop_step:
  assumes "run_state (app_live_step V i ev ok st) (g w) = ((ms, Some st'), g w)" and "app_loop_ok V i st' es (g w)"
    and "subseq (map lf_stats (lives ms) @ (case al_latest st' of None \<Rightarrow> [] | Some cs \<Rightarrow> [cs]))
          ((case al_latest st of None \<Rightarrow> [] | Some cs \<Rightarrow> [cs]) @ feeds [(g, ev, ok)])"
    and "\<And>fs. rates_from (al_prev st') fs \<Longrightarrow> rates_from (al_prev st) (lives ms @ fs)"
    and "al_range st' \<in> insert (al_range st) (ranges [(g, ev, ok)])"
    and "\<And>c. AppChart c \<in> set ms \<Longrightarrow> c = GetStatsHistory (w_clock (g w)) i (al_range st') (w_db (g w))"
  shows "app_loop_ok V i st ((g, ev, ok) # es) w"
proof -
  obtain ms' w' where run: "run_state (live_loop (app_live_step V i) es st') (g w) = (ms', w')" by fastforce
  have fd: "feeds ((g, ev, ok) # es) = feeds [(g, ev, ok)] @ feeds es"
    by (simp add: feeds_def List.map_filter_def)
  have rg: "ranges ((g, ev, ok) # es) = ranges [(g, ev, ok)] \<union> ranges es" by (auto simp: ranges_def)
  have "subseq (map lf_stats (lives ms) @ map lf_stats (lives ms'))
      (((case al_latest st of None \<Rightarrow> [] | Some cs \<Rightarrow> [cs]) @ feeds [(g, ev, ok)]) @ feeds es)"
  proof (rule subseq_order.trans)
    let ?l = "case al_latest st' of None \<Rightarrow> [] | Some cs \<Rightarrow> [cs]"
    show "subseq (map lf_stats (lives ms) @ map lf_stats (lives ms')) ((map lf_stats (lives ms) @ ?l) @ feeds es)"
      unfolding append_assoc by (intro list_emb_append_mono subseq_order.refl) (use assms(2) run in \<open>simp add: app_loop_ok_def\<close>)
    show "subseq ((map lf_stats (lives ms) @ ?l) @ feeds es)
      (((case al_latest st of None \<Rightarrow> [] | Some cs \<Rightarrow> [cs]) @ feeds [(g, ev, ok)]) @ feeds es)"
      by (rule list_emb_append_mono [OF assms(3)]) simp
  qed
  moreover have "rates_from (al_prev st) (lives ms @ lives ms')" using assms(2,4) run by (simp add: app_loop_ok_def)
  moreover have "chart_from i (insert (al_range st) (ranges ((g, ev, ok) # es))) ((g, ev, ok) # es) w c"
    if "AppChart c \<in> set (ms @ ms')" for c
  proof -
    have here: "al_range st' \<in> insert (al_range st) (ranges ((g, ev, ok) # es))" using assms(5) rg by auto
    from that consider "AppChart c \<in> set ms" | "AppChart c \<in> set ms'" by auto
    then show ?thesis
    proof cases
      case 1
      then show ?thesis using assms(6) chart_from_now [OF here] by blast
    next
      case 2
      then have "chart_from i (insert (al_range st') (ranges es)) es (g w) c" using assms(2) run by (simp add: app_loop_ok_def)
      then show ?thesis by (rule chart_from_later) (use here rg in auto)
    qed
  qed
  moreover have "\<exists>n \<le> length ((g, ev, ok) # es). w' = others (take n ((g, ev, ok) # es)) w"
  proof -
    obtain n where "n \<le> length es" "w' = others (take n es) (g w)" using assms(2) run by (auto simp: app_loop_ok_def)
    then show ?thesis by (intro exI [of _ "Suc n"]) simp
  qed
  ultimately show ?thesis using assms(1) run by (simp add: app_loop_ok_def fd)
qed

lemma app_loop_base: "app_loop_ok V i st es w"
proof (induction es arbitrary: st w)
  case Nil
  show ?case by (simp add: app_loop_ok_def)
next
  case (Cons e es st w)
  obtain g ev ok where e: "e = (g, ev, ok)" by (rule prod_cases3)
  note step_simps = app_live_step_def app_chart_def send_msg_def Let_def GetStatsOverview_pure
  have goes: "app_loop_ok V i st ((g, ev, ok) # es) w"
    if "run_state (app_live_step V i ev ok st) (g w) = ((ms, Some st'), g w)"
      "subseq (map lf_stats (lives ms) @ (case al_latest st' of None \<Rightarrow> [] | Some cs \<Rightarrow> [cs]))
          ((case al_latest st of None \<Rightarrow> [] | Some cs \<Rightarrow> [cs]) @ feeds [(g, ev, ok)])"
      "\<And>fs. rates_from (al_prev st') fs \<Longrightarrow> rates_from (al_prev st) (lives ms @ fs)"
      "al_range st' \<in> insert (al_range st) (ranges [(g, ev, ok)])"
      "\<And>c. AppChart c \<in> set ms \<Longrightarrow> c = GetStatsHistory (w_clock (g w)) i (al_range st') (w_db (g w))"
    for ev ms st' using that(1) Cons.IH that(2-5) by (rule app_loop_step)
  show ?case
  proof (cases ev)
    case (Feed cs)
    show ?thesis unfolding e Feed
      by (rule goes [where ms = "[]"]) (simp add: step_simps, auto split: option.splits)
  next
    case Tick
    show ?thesis
    proof (cases "al_latest st")
      case None
      show ?thesis unfolding e Tick by (rule goes [where ms = "[]" and st' = st]) (simp_all add: step_simps None)
    next
      case (Some cs)
      show ?thesis
      proof (cases ok)
        case True
        let ?f = "\<lparr> lf_stats = cs, lf_network = net_rate (al_prev st) (w_clock (g w)) (net_bytes cs), lf_disk = al_disk st,
          lf_time = w_clock (g w) \<rparr>"
        let ?st = "st\<lparr>al_latest := None, al_prev := Some (w_clock (g w), net_bytes cs)\<rparr>"
        show ?thesis unfolding e Tick
          by (rule goes [where ms = "[AppLive ?f]" and st' = ?st]) (simp_all add: step_simps Some True)
      next
        case False
        then show ?thesis unfolding e Tick by (intro app_loop_stop) (simp add: step_simps Some)
      qed
    qed
  next
    case ChartTick
    show ?thesis
    proof (cases ok)
      case True
      then show ?thesis unfolding e ChartTick
        by (intro goes [where ms = "[AppChart (GetStatsHistory (w_clock (g w)) i (al_range st) (w_db (g w)))]" and st' = st])
          (auto simp: step_simps)
    next
      case False
      then show ?thesis unfolding e ChartTick by (intro app_loop_stop) (simp add: step_simps)
    qed
  next
    case DiskTick
    let ?st = "case result (GetStatsOverview V i) (g w) of None \<Rightarrow> st | Some stats \<Rightarrow> st\<lparr>al_disk := so_DiskUsageBytes stats\<rparr>"
    show ?thesis unfolding e DiskTick
      by (rule goes [where ms = "[]" and st' = ?st]) (auto simp: step_simps split: option.splits)
  next
    case (Range x)
    show ?thesis
    proof (cases "x = None \<or> \<not> ok")
      case True
      then show ?thesis unfolding e Range by (intro app_loop_stop) (auto simp: step_simps split: option.splits)
    next
      case False
      then obtain r where "x = Some r" by auto
      with False show ?thesis unfolding e Range
        by (intro goes [where ms = "[AppChart (GetStatsHistory (w_clock (g w)) i r (w_db (g w)))]" and st' = "st\<lparr>al_range := r\<rparr>"])
          (auto simp: step_simps ranges_def)
    qed
  next
    case Cancelled
    show ?thesis unfolding e Cancelled by (rule app_loop_stop) (simp add: step_simps)
  qed
qed


lemma net_rate_nonneg: "net_rate prev now bytes \<ge> 0"
  by (auto simp: net_rate_def split: option.splits prod.splits)

lemma rates_nonneg: "rates_from prev fs \<Longrightarrow> \<forall>f \<in> set fs. lf_network f \<ge> 0"
  by (induction fs arbitrary: prev) (auto simp: net_rate_nonneg)

section \<open>The messages of a server\<close>

lemma clamp100_range: "0 \<le> clamp100 v \<and> clamp100 v \<le> 100"
  by (simp add: clamp100_def)

definition percentages :: "server_msg \<Rightarrow> bool" where
  "percentages m = (case m of ServerChart _ \<Rightarrow> True
     | ServerFigures f \<Rightarrow> (\<forall>x \<in> {sf_cpu f, sf_ram f, sf_disk f}. 0 \<le> x \<and> x \<le> 100))"

lemma wp_live_loop:
  assumes "\<And>ev ok st w. wp (step ev ok st) (\<lambda>r _. \<forall>m \<in> set (fst r). P m) w"
  shows "wp (live_loop step es st) (\<lambda>ms _. \<forall>m \<in> set ms. P m) w"
proof (induction es arbitrary: st w)
  case Nil
  show ?case by (simp add: wp_simps)
next
  case (Cons e es st w)
  obtain g ev ok where e: "e = (g, ev, ok)" by (rule prod_cases3)
  show ?case unfolding e live_loop.simps wp_bind wp_modify
    by (rule wp_mono [OF assms]) (auto simp: wp_simps split: option.splits intro!: wp_mono [OF Cons.IH])
qed

lemma step_percentages: "wp (server_live_step E V c i sizes ev ok st) (\<lambda>r _. \<forall>m \<in> set (fst r). percentages m) w"
  by (cases ev; simp add: server_live_step_def server_chart_def send_msg_def percentages_def clamp100_range wp_simps Let_def
      wp_triv split: option.splits)

lemma keeps_readings [frame]:
  "keeps w_db (ParseCPUCount E c)" "keeps w_db (ParseRAM E c)" "keeps w_db (ParseDisk E c)"
  "keeps w_db (ParseRAMUsage E V c)" "keeps w_db (ParseDiskUsage E V c)"
  unfolding ParseCPUCount_def ParseRAM_def ParseDisk_def ParseRAMUsage_def ParseDiskUsage_def read_int_def read_float_def
  by (intro frame)+

lemma keeps_server_step [frame]: "keeps w_db (server_live_step E V c i sizes ev ok st)"
  unfolding server_live_step_def server_chart_def by (cases ev) (auto intro!: frame split: option.splits)

text \<open>Counters that only grow.\<close>

lemma sum_list_mono2:
  fixes xs ys :: "rat list"
  shows "list_all2 (\<le>) xs ys \<Longrightarrow> k < length xs \<Longrightarrow> 0 \<le> ys ! k - xs ! k \<and> ys ! k - xs ! k \<le> sum_list ys - sum_list xs"
proof (induction xs ys arbitrary: k rule: list_all2_induct)
  case (Cons x xs y ys)
  have "sum_list xs \<le> sum_list ys" using Cons.hyps(2) by (induction rule: list_all2_induct) auto
  then show ?case
  proof (cases k)
    case 0
    with Cons.hyps(1) \<open>sum_list xs \<le> sum_list ys\<close> show ?thesis by simp
  next
    case (Suc j)
    with Cons.IH [of j] Cons.prems Cons.hyps(1) show ?thesis by simp
  qed
qed simp

lemma usage_in_range:
  assumes "list_all2 (\<le>) (map (sv_float V) (tl (Fields prev))) (map (sv_float V) (tl (Fields cur)))"
  shows "0 \<le> calculateCPUUsage V prev cur \<and> calculateCPUUsage V prev cur \<le> 100"
proof (cases "length (Fields prev) < 5 \<or> length (Fields cur) < 5")
  case True
  then show ?thesis by (auto simp: calculateCPUUsage_def Let_def)
next
  case False
  let ?xs = "map (sv_float V) (tl (Fields prev))" and ?ys = "map (sv_float V) (tl (Fields cur))"
  have idle: "?ys ! 3 - ?xs ! 3 = sv_float V (Fields cur ! 4) - sv_float V (Fields prev ! 4)"
    using False by (simp add: nth_tl less_diff_conv)
  have "3 < length ?xs" using False by (simp, linarith)
  from sum_list_mono2 [OF assms this] have "0 \<le> sv_float V (Fields cur ! 4) - sv_float V (Fields prev ! 4)"
    "sv_float V (Fields cur ! 4) - sv_float V (Fields prev ! 4) \<le> sum_list ?ys - sum_list ?xs" unfolding idle by blast+
  then show ?thesis using False by (auto simp: calculateCPUUsage_def Let_def field_simps)
qed

section \<open>The reader\<close>

text \<open>
  The goroutine that reads the ranges: it hands a range to a channel of one element and ends when reading fails,
  which it does once the handler has returned and closed the connection.
\<close>

datatype range_pc = RangeReading | RangeSending | RangeDone

record range_state =
  rg_buf :: nat
  rg_pc :: range_pc
  rg_loop :: bool
  rg_gone :: bool

definition range_start :: range_state where
  "range_start = \<lparr> rg_buf = 0, rg_pc = RangeReading, rg_loop = True, rg_gone = False \<rparr>"

inductive range_step :: "range_state \<Rightarrow> range_state \<Rightarrow> bool" where
  got_range: "rg_pc s = RangeReading \<Longrightarrow> \<not> rg_gone s \<Longrightarrow> range_step s (s\<lparr>rg_pc := RangeSending\<rparr>)"
| hand_range: "rg_pc s = RangeSending \<Longrightarrow> rg_buf s < 1 \<Longrightarrow> range_step s (s\<lparr>rg_pc := RangeReading, rg_buf := Suc (rg_buf s)\<rparr>)"
| take_range: "rg_loop s \<Longrightarrow> 0 < rg_buf s \<Longrightarrow> range_step s (s\<lparr>rg_buf := rg_buf s - 1\<rparr>)"
| no_connection: "rg_pc s = RangeReading \<Longrightarrow> rg_gone s \<Longrightarrow> range_step s (s\<lparr>rg_pc := RangeDone\<rparr>)"
| browser_closes: "range_step s (s\<lparr>rg_gone := True\<rparr>)"
| handler_returns: "rg_loop s \<Longrightarrow> range_step s (s\<lparr>rg_loop := False, rg_gone := True\<rparr>)"

lemma range_stuck:
  assumes "range_step\<^sup>*\<^sup>* s s'" and "rg_pc s = RangeSending" and "0 < rg_buf s" and "\<not> rg_loop s"
  shows "rg_pc s' = RangeSending \<and> 0 < rg_buf s' \<and> \<not> rg_loop s'"
  using assms by (induction rule: rtranclp_induct) (auto elim: range_step.cases)

section \<open>Properties\<close>


text \<open>
  The live figures of a server, whatever the worker answers: every percentage is between 0 and 100, and the
  loop does not change the database. Between two readings whose counters only grow the computed
  load is in this range by itself.
\<close>

theorem live_server_bounds:
  "list_all percentages (result (live_loop (server_live_step E V c i sizes) es st) w)
     \<and> keeps w_db (server_live_step E V c i sizes ev ok st)
     \<and> (if list_all2 (\<le>) (map (sv_float V) (tl (Fields prev))) (map (sv_float V) (tl (Fields cur)))
          then calculateCPUUsage V prev cur \<in> {0..100} else True)"
proof -
  have "wp (live_loop (server_live_step E V c i sizes) es st) (\<lambda>ms _. \<forall>m \<in> set ms. percentages m) w"
    by (rule wp_live_loop) (rule step_percentages)
  then show ?thesis using keeps_server_step usage_in_range [of V prev cur] by (auto simp: wp_exec_result list_all_iff)
qed

text \<open>
  C35. The goroutine that reads the ranges can be left behind: when the browser asks for two ranges and the handler
  returns before it takes the first one, the goroutine waits at a full channel that nobody reads, for good.
\<close>

theorem live_reader_leaks:
  "\<exists>s. range_step\<^sup>*\<^sup>* range_start s \<and> \<not> rg_loop s \<and> (\<nexists>s'. range_step\<^sup>*\<^sup>* s s' \<and> rg_pc s' = RangeDone)"
proof -
  let ?s = "\<lparr> rg_buf = 1, rg_pc = RangeSending, rg_loop = False, rg_gone = True \<rparr>"
  have "range_step\<^sup>*\<^sup>* range_start (range_start\<lparr>rg_pc := RangeSending\<rparr>)"
    by (intro r_into_rtranclp got_range) (simp_all add: range_start_def)
  moreover have "range_step (range_start\<lparr>rg_pc := RangeSending\<rparr>) (range_start\<lparr>rg_buf := 1\<rparr>)"
    using hand_range [of "range_start\<lparr>rg_pc := RangeSending\<rparr>"] by (simp add: range_start_def)
  moreover have "range_step (range_start\<lparr>rg_buf := 1\<rparr>) (range_start\<lparr>rg_buf := 1, rg_pc := RangeSending\<rparr>)"
    using got_range [of "range_start\<lparr>rg_buf := 1\<rparr>"] by (simp add: range_start_def)
  moreover have "range_step (range_start\<lparr>rg_buf := 1, rg_pc := RangeSending\<rparr>) ?s"
    using handler_returns [of "range_start\<lparr>rg_buf := 1, rg_pc := RangeSending\<rparr>"] by (simp add: range_start_def)
  ultimately have "range_step\<^sup>*\<^sup>* range_start ?s" by (meson rtranclp.rtrancl_into_rtrancl)
  moreover have "\<nexists>s'. range_step\<^sup>*\<^sup>* ?s s' \<and> rg_pc s' = RangeDone" using range_stuck [of ?s] by auto
  ultimately show ?thesis by (intro exI [of _ ?s]) simp
qed

end
