(* ===== verification/Responses.thy ===== *)
theory Responses
  imports GoStrings
begin

text \<open>
  The compression of responses: \<open>internal/http/compress.go\<close>. A response writer is seen through the calls
  made on it. Below \<open>minSizeWriter\<close> there are two: the compressor of chi (\<open>Chi\<close>) and the connection under
  it (\<open>Raw\<close>). What the connection makes of the calls is \<open>net_http\<close>, the documented behaviour of
  \<open>http.ResponseWriter\<close>; the compressor changes how the bytes are coded and not which they are.
\<close>

section \<open>Response writers\<close>

datatype wcall = WHeader int | WWrite string | WFlush

datatype side = Chi | Raw

type_synonym calls = "(side \<times> wcall) list"

text \<open>The answer to a write: the bytes taken and an error, for the calls so far.\<close>

type_synonym writer = "calls \<Rightarrow> string \<Rightarrow> nat \<times> error option"

record reply =
  rp_info :: "int list"
  rp_status :: "int option"
  rp_body :: string

definition no_reply :: reply where
  "no_reply = \<lparr> rp_info = [], rp_status = None, rp_body = [] \<rparr>"

definition informational :: "int \<Rightarrow> bool" where
  "informational c \<longleftrightarrow> 100 \<le> c \<and> c < 200 \<and> c \<noteq> 101"

definition bodyAllowed :: "int \<Rightarrow> bool" where
  "bodyAllowed c \<longleftrightarrow> 200 \<le> c \<and> c \<noteq> 204 \<and> c \<noteq> 304"

text \<open>The first final status counts; a write or a flush without one sends 200.\<close>

definition begun :: "reply \<Rightarrow> reply" where
  "begun r = (if rp_status r = None then r\<lparr>rp_status := Some 200\<rparr> else r)"

fun net_http :: "wcall \<Rightarrow> reply \<Rightarrow> reply" where
  "net_http (WHeader c) r = (if rp_status r \<noteq> None then r
     else if informational c then r\<lparr>rp_info := rp_info r @ [c]\<rparr> else r\<lparr>rp_status := Some c\<rparr>)"
| "net_http (WWrite p) r = (let r' = begun r in if bodyAllowed (the (rp_status r')) then r'\<lparr>rp_body := rp_body r' @ p\<rparr> else r')"
| "net_http WFlush r = begun r"

definition served :: "wcall list \<Rightarrow> reply" where
  "served cs = begun (fold net_http cs no_reply)"

section \<open>\<open>minSizeWriter\<close>\<close>

definition compressMinSize :: nat where
  "compressMinSize = 1024"

record minSizeWriter =
  mw_code :: int
  mw_buf :: string
  mw_committed :: bool

type_synonym mw = "minSizeWriter \<times> calls"

definition mw_new :: minSizeWriter where
  "mw_new = \<lparr> mw_code = 200, mw_buf = [], mw_committed = False \<rparr>"

definition mw_commit :: "writer \<Rightarrow> mw \<Rightarrow> error option \<times> mw" where
  "mw_commit wr x = (case x of (m, t) \<Rightarrow>
     let t1 = t @ [(Chi, WHeader (mw_code m))]
     in if mw_buf m = [] then (None, (m\<lparr>mw_committed := True\<rparr>, t1))
        else (snd (wr t1 (mw_buf m)), (m\<lparr>mw_committed := True, mw_buf := []\<rparr>, t1 @ [(Chi, WWrite (mw_buf m))])))"

definition mw_WriteHeader :: "writer \<Rightarrow> int \<Rightarrow> mw \<Rightarrow> mw" where
  "mw_WriteHeader wr code x = (case x of (m, t) \<Rightarrow>
     if mw_committed m then (m, t @ [(Chi, WHeader code)])
     else let m' = m\<lparr>mw_code := code\<rparr>
          in if code < 200 \<or> code = 204 \<or> code = 304 then snd (mw_commit wr (m', t)) else (m', t))"

definition mw_Write :: "writer \<Rightarrow> string \<Rightarrow> mw \<Rightarrow> (nat \<times> error option) \<times> mw" where
  "mw_Write wr p x = (case x of (m, t) \<Rightarrow>
     if mw_committed m then (wr t p, (m, t @ [(Chi, WWrite p)]))
     else let m' = m\<lparr>mw_buf := mw_buf m @ p\<rparr>
          in if length (mw_buf m') \<ge> compressMinSize
             then (case mw_commit wr (m', t) of
                 (Some err, y) \<Rightarrow> ((0, Some err), y) | (None, y) \<Rightarrow> ((length p, None), y))
             else ((length p, None), (m', t)))"

definition mw_Flush :: "writer \<Rightarrow> mw \<Rightarrow> mw" where
  "mw_Flush wr x = (case (if mw_committed (fst x) then x else snd (mw_commit wr x)) of (m, t) \<Rightarrow> (m, t @ [(Chi, WFlush)]))"

definition mw_finish :: "mw \<Rightarrow> mw" where
  "mw_finish x = (case x of (m, t) \<Rightarrow>
     if mw_committed m then x
     else (m\<lparr>mw_committed := True\<rparr>, t @ [(Raw, WHeader (mw_code m)), (Raw, WWrite (mw_buf m))]))"

text \<open>A hijacked connection belongs to the handler; \<open>finish\<close> then adds nothing.\<close>

definition mw_Hijack :: "mw \<Rightarrow> mw" where
  "mw_Hijack x = ((fst x)\<lparr>mw_committed := True\<rparr>, snd x)"

lemma finish_hijacked: "mw_finish (mw_Hijack x) = mw_Hijack x"
  by (simp add: mw_finish_def mw_Hijack_def)

text \<open>A handler by the calls it makes.\<close>

definition mw_call :: "writer \<Rightarrow> wcall \<Rightarrow> mw \<Rightarrow> mw" where
  "mw_call wr c x = (case c of WHeader code \<Rightarrow> mw_WriteHeader wr code x | WWrite p \<Rightarrow> snd (mw_Write wr p x) | WFlush \<Rightarrow> mw_Flush wr x)"

definition compress :: "writer \<Rightarrow> wcall list \<Rightarrow> calls" where
  "compress wr cs = snd (mw_finish (fold (mw_call wr) cs (mw_new, [])))"

section \<open>Nothing is lost\<close>

text \<open>The status comes before the body, once, after any informational ones.\<close>

fun in_order :: "bool \<Rightarrow> wcall list \<Rightarrow> bool" where
  "in_order started [] = True"
| "in_order started (WHeader c # cs) = (\<not> started \<and> in_order (\<not> informational c) cs)"
| "in_order started (WWrite p # cs) = in_order True cs"
| "in_order started (WFlush # cs) = in_order True cs"

definition replied :: "calls \<Rightarrow> reply" where
  "replied t = fold net_http (map snd t) no_reply"

definition holds_back :: "reply \<Rightarrow> minSizeWriter \<Rightarrow> calls \<Rightarrow> bool" where
  "holds_back r m t \<longleftrightarrow> t = [] \<and> rp_info r = [] \<and> rp_body r = mw_buf m \<and> length (mw_buf m) < compressMinSize
     \<and> bodyAllowed (mw_code m) \<and> (rp_status r = Some (mw_code m) \<or> rp_status r = None \<and> mw_code m = 200 \<and> mw_buf m = [])"

text \<open>Why a response went to the compressor; \<open>flushed\<close>: the handler has flushed it.\<close>

definition compressible :: "bool \<Rightarrow> reply \<Rightarrow> bool" where
  "compressible flushed r \<longleftrightarrow> flushed \<or> compressMinSize \<le> length (rp_body r) \<or> rp_info r \<noteq> []
     \<or> rp_status r \<noteq> None \<and> \<not> bodyAllowed (the (rp_status r))"

definition passes_on :: "bool \<Rightarrow> reply \<Rightarrow> calls \<Rightarrow> bool" where
  "passes_on flushed r t \<longleftrightarrow> replied t = r \<and> (\<forall>c \<in> set t. fst c = Chi) \<and> compressible flushed r"

definition follows :: "bool \<Rightarrow> reply \<Rightarrow> mw \<Rightarrow> bool" where
  "follows flushed r x \<longleftrightarrow> (case x of (m, t) \<Rightarrow> if mw_committed m then passes_on flushed r t else holds_back r m t \<and> \<not> flushed)"

lemma replied_simps [simp]: "replied [] = no_reply" "replied (t @ u) = fold net_http (map snd u) (replied t)"
  by (simp_all add: replied_def)

lemmas reply_defs = replied_def no_reply_def bodyAllowed_def informational_def begun_def

text \<open>Committing sends what was held back; a body that has grown too long is sent as well.\<close>

lemma commit_sends:
  assumes "rp_info r = []" and "rp_body r = mw_buf m" and "bodyAllowed (mw_code m)"
    and "rp_status r = Some (mw_code m) \<or> rp_status r = None \<and> mw_code m = 200 \<and> mw_buf m = []"
  shows "replied (snd (snd (mw_commit wr (m, [])))) = begun r" and "mw_committed (fst (snd (mw_commit wr (m, []))))"
    and "\<forall>c \<in> set (snd (snd (mw_commit wr (m, [])))). fst c = Chi"
  using assms by (auto simp: mw_commit_def Let_def reply_defs intro!: reply.equality)

lemma commit_follows:
  assumes "holds_back r m t" and "compressible flushed (begun r)"
  shows "follows flushed (begun r) (snd (mw_commit wr (m, t)))"
  using assms commit_sends [of r m wr]
  by (cases "snd (mw_commit wr (m, t))") (auto simp: follows_def passes_on_def holds_back_def)

lemma compressible_more:
  "compressible flushed r \<Longrightarrow> compressible flushed (begun r)" "compressible flushed r \<Longrightarrow> compressible flushed (net_http c r)"
  by (cases c; auto simp: compressible_def begun_def Let_def)+

lemma status_follows:
  assumes "follows flushed r (m, t)" and "rp_status r = None"
  shows "follows flushed (net_http (WHeader c) r) (mw_WriteHeader wr c (m, t))"
proof (cases "mw_committed m")
  case True
  then show ?thesis using assms compressible_more(2) [of flushed r "WHeader c"]
    by (auto simp: follows_def passes_on_def mw_WriteHeader_def)
next
  case False
  then show ?thesis using assms
    by (auto simp: follows_def passes_on_def mw_WriteHeader_def mw_commit_def holds_back_def compressible_def reply_defs Let_def
        intro!: reply.equality)
qed

lemma write_follows:
  assumes "follows flushed r (m, t)"
  shows "follows flushed (net_http (WWrite p) r) (snd (mw_Write wr p (m, t)))"
proof (cases "mw_committed m")
  case True
  then show ?thesis using assms compressible_more(2) [of flushed r "WWrite p"]
    by (auto simp: follows_def passes_on_def mw_Write_def)
next
  case False
  let ?m = "m\<lparr>mw_buf := mw_buf m @ p\<rparr>" and ?r = "net_http (WWrite p) r"
  have held: "holds_back r m t" "t = []" "\<not> flushed" using assms False by (auto simp: follows_def holds_back_def)
  then have new: "rp_info ?r = []" "rp_body ?r = mw_buf ?m" "bodyAllowed (mw_code ?m)" "rp_status ?r = Some (mw_code ?m)"
    by (auto simp: holds_back_def begun_def bodyAllowed_def Let_def)
  show ?thesis
  proof (cases "length (mw_buf ?m) \<ge> compressMinSize")
    case True
    then have "compressible flushed ?r" using new(2) by (simp del: net_http.simps add: compressible_def)
    moreover have "begun ?r = ?r" using new(4) by (simp add: begun_def)
    ultimately show ?thesis using commit_sends [of ?r ?m wr] new True False held(2)
      by (cases "mw_commit wr (?m, [])") (auto simp: mw_Write_def follows_def passes_on_def Let_def split: option.splits)
  next
    case False
    then show ?thesis using new held \<open>\<not> mw_committed m\<close> by (simp add: mw_Write_def follows_def holds_back_def Let_def)
  qed
qed

lemma flush_follows:
  assumes "follows flushed r (m, t)"
  shows "follows True (net_http WFlush r) (mw_Flush wr (m, t))"
proof (cases "mw_committed m")
  case True
  then show ?thesis using assms by (auto simp: follows_def passes_on_def mw_Flush_def compressible_def)
next
  case False
  then have "holds_back r m t" using assms by (simp add: follows_def)
  then have "follows True (begun r) (snd (mw_commit wr (m, t)))" by (rule commit_follows) (simp add: compressible_def)
  moreover have "mw_committed (fst (snd (mw_commit wr (m, t))))" by (simp add: mw_commit_def Let_def)
  moreover have "begun (begun r) = begun r" by (simp add: begun_def)
  ultimately show ?thesis using False
    by (cases "snd (mw_commit wr (m, t))") (auto simp: follows_def passes_on_def mw_Flush_def)
qed

lemma calls_follow:
  assumes "follows flushed r x" and "in_order (rp_status r \<noteq> None) cs"
  shows "follows (flushed \<or> WFlush \<in> set cs) (fold net_http cs r) (fold (mw_call wr) cs x)"
  using assms
proof (induction cs arbitrary: flushed r x)
  case (Cons c cs)
  obtain m t where x: "x = (m, t)" by fastforce
  show ?case
  proof (cases c)
    case (WHeader code)
    then have "follows flushed (net_http c r) (mw_call wr c x)" "in_order (rp_status (net_http c r) \<noteq> None) cs"
      using Cons.prems status_follows by (auto simp: x mw_call_def)
    from Cons.IH [OF this] show ?thesis using WHeader by simp
  next
    case (WWrite p)
    then have "follows flushed (net_http c r) (mw_call wr c x)" "in_order (rp_status (net_http c r) \<noteq> None) cs"
      using Cons.prems write_follows by (auto simp: x mw_call_def Let_def begun_def)
    from Cons.IH [OF this] show ?thesis using WWrite by simp
  next
    case WFlush
    then have "follows True (net_http c r) (mw_call wr c x)" "in_order (rp_status (net_http c r) \<noteq> None) cs"
      using Cons.prems flush_follows by (auto simp: x mw_call_def begun_def)
    from Cons.IH [OF this] show ?thesis using WFlush by simp
  qed
qed simp

section \<open>Properties\<close>


text \<open>A page of 2000 bytes sent in two writes.\<close>

definition two_writes :: "wcall list" where
  "two_writes = [WHeader 404, WWrite (replicate 1000 CHR ''x''), WWrite (replicate 1000 CHR ''y'')]"


end
