(* ===== verification/Pages.thy ===== *)
theory Pages
  imports ServerHandlers Stats Charts "HOL-Library.Word"
begin

text \<open>
  What the pages and the reading calls of the API show: the rest of \<open>internal/app/handler.go\<close> and
  \<open>internal/server/handler.go\<close>, the dashboard of \<open>internal/http/router.go\<close>, and the functions that the templates
  call (\<open>internal/http/templates.go\<close>). A page is the record of what is given to its template. Numbers are
  rationals; printing one with \<open>%.1f\<close> is the parameter \<open>fmt1\<close>.
\<close>

section \<open>Groups of apps\<close>

record ServerInfo =
  si_ID :: int
  si_Name :: string
  si_Host :: string
  si_Status :: string

record ServerGroup =
  sg_ServerID :: int
  sg_ServerName :: string
  sg_Host :: string
  sg_Status :: string
  sg_Apps :: "App list"

definition server_info :: "Server \<Rightarrow> ServerInfo" where
  "server_info s = \<lparr> si_ID = srv_ID s, si_Name = srv_Name s, si_Host = srv_Host s, si_Status = srv_Status s \<rparr>"

definition serverLister_List :: "db \<Rightarrow> ServerInfo list" where
  "serverLister_List d = map server_info (Srv_List d)"

text \<open>\<open>serverMap\<close>: of several servers with an id the last one counts.\<close>

definition server_map :: "ServerInfo list \<Rightarrow> int \<Rightarrow> ServerInfo option" where
  "server_map svs i = find (\<lambda>s. si_ID s = i) (rev svs)"

text \<open>\<open>groupMap\<close> with the apps that have no server.\<close>

definition group_app :: "(int \<Rightarrow> ServerInfo option) \<Rightarrow> (int \<times> ServerGroup) list \<times> App list \<Rightarrow> App \<Rightarrow> (int \<times> ServerGroup) list \<times> App list" where
  "group_app m gs a = (case gs of (groups, unassigned) \<Rightarrow> (case m (app_ServerID a) of
     None \<Rightarrow> (groups, unassigned @ [a])
   | Some s \<Rightarrow>
       let g = (case map_of groups (app_ServerID a) of
           Some g \<Rightarrow> g
         | None \<Rightarrow> \<lparr> sg_ServerID = si_ID s, sg_ServerName = si_Name s, sg_Host = si_Host s, sg_Status = si_Status s, sg_Apps = [] \<rparr>)
       in (AList.update (app_ServerID a) (g\<lparr>sg_Apps := sg_Apps g @ [a]\<rparr>) groups, unassigned)))"

definition unassigned_group :: "App list \<Rightarrow> ServerGroup list" where
  "unassigned_group as = (if as = [] then []
     else [\<lparr> sg_ServerID = 0, sg_ServerName = ''Unassigned'', sg_Host = [], sg_Status = [], sg_Apps = as \<rparr>])"

text \<open>\<open>plan\<close>: the order in which the map is walked.\<close>

definition GroupAppsByServer :: "(ServerGroup list \<Rightarrow> ServerGroup list) \<Rightarrow> App list \<Rightarrow> ServerInfo list \<Rightarrow> ServerGroup list" where
  "GroupAppsByServer plan as svs = (case foldl (group_app (server_map svs)) ([], []) as of (groups, unassigned) \<Rightarrow>
     sort_key sg_ServerName (reorder plan (map snd groups)) @ unassigned_group unassigned)"

section \<open>The pages\<close>

record ListPage =
  lp_Apps :: "App list"
  lp_Groups :: "ServerGroup list"
  lp_Stats :: stats_cache
  lp_Flash :: string

definition AppListPage :: "(ServerGroup list \<Rightarrow> ServerGroup list) \<Rightarrow> stats_env \<Rightarrow> string \<Rightarrow> ListPage stats_prog" where
  "AppListPage plan V flash = do {
     as \<leftarrow> on_world (db_get Repo_List);
     svs \<leftarrow> on_world (db_get serverLister_List);
     let groups = GroupAppsByServer plan as svs;
     appStats \<leftarrow> StatsOverviewByApp V;
     ret \<lparr> lp_Apps = as, lp_Groups = groups, lp_Stats = appStats, lp_Flash = flash \<rparr>
   }"

record Dashboard =
  dp_Stats :: DashboardStats
  dp_Servers :: "Server list"
  dp_Apps :: "App list"
  dp_Groups :: "ServerGroup list"
  dp_AppStats :: stats_cache

definition dashboard :: "(ServerGroup list \<Rightarrow> ServerGroup list) \<Rightarrow> stats_env \<Rightarrow> Dashboard stats_prog" where
  "dashboard plan V = do {
     stats \<leftarrow> on_world (db_get Service_DashboardStats);
     svs \<leftarrow> on_world (db_get Srv_List);
     as \<leftarrow> on_world (db_get Repo_List);
     let groups = GroupAppsByServer plan as (map server_info svs);
     appStats \<leftarrow> StatsOverviewByApp V;
     ret \<lparr> dp_Stats = stats, dp_Servers = svs, dp_Apps = as, dp_Groups = groups, dp_AppStats = appStats \<rparr>
   }"

record AddPage =
  ap_Servers :: "ServerInfo list"
  ap_LogMaxSize :: string
  ap_LogMaxFile :: string

definition AppAddPage :: "AddPage prog" where
  "AppAddPage = do { svs \<leftarrow> db_get serverLister_List; ret \<lparr> ap_Servers = svs, ap_LogMaxSize = ''10m'', ap_LogMaxFile = ''3'' \<rparr> }"

record DetailPage =
  ad_App :: App
  ad_ServerName :: string
  ad_Deployments :: "Deployment list"
  ad_Secrets :: "AppSecret list"
  ad_Files :: "AppFile list"
  ad_Routes :: "Route list"
  ad_Domains :: "string list"
  ad_Flash :: string
  ad_DomainCount :: int
  ad_ExtraDomainCount :: int
  ad_ServiceName :: string
  ad_Stats :: "StatsOverview option"

text \<open>A page with an error is its status and the message.\<close>

definition display_name :: "App \<Rightarrow> ServerInfo list \<Rightarrow> string" where
  "display_name app svs = (case find (\<lambda>s. si_ID s = app_ServerID app) svs of
     Some s \<Rightarrow> si_Name s | None \<Rightarrow> ''#'' @ Itoa (app_ServerID app))"

definition AppDetailPage :: "env \<Rightarrow> stats_env \<Rightarrow> string \<Rightarrow> string \<Rightarrow> (int \<times> string + DetailPage) prog" where
  "AppDetailPage E V param flash = (let i = url_id param in do {
     r \<leftarrow> db_get (Repo_Get i);
     case r of
       None \<Rightarrow> ret (Inl (404, ''app not found''))
     | Some app \<Rightarrow> do {
         h \<leftarrow> trace;
         deps \<leftarrow> db_get (Repo_ListDeployments (e_plan_deps E h) i);
         secrets \<leftarrow> db_get (Repo_ListSecrets i);
         files \<leftarrow> db_get (Repo_ListFiles i);
         svs \<leftarrow> db_get serverLister_List;
         rs \<leftarrow> getRoutes E i;
         overview \<leftarrow> GetStatsOverview V i;
         let doms = edit_domains app rs;
         ret (Inr \<lparr> ad_App = app, ad_ServerName = display_name app svs, ad_Deployments = deps, ad_Secrets = secrets, ad_Files = files,
           ad_Routes = rs, ad_Domains = doms, ad_Flash = flash, ad_DomainCount = int (length doms),
           ad_ExtraDomainCount = int (length doms) - 1, ad_ServiceName = ContainerServiceName (e_yaml E) (e_order E h) app, ad_Stats = overview \<rparr>)
       }
   })"

definition range_param :: "string \<Rightarrow> string" where
  "range_param q = (if q = [] then ''1h'' else q)"

record StatsCard =
  ct_AppID :: int
  ct_Stats :: "StatsOverview option"
  ct_ChartData :: AppCharts
  ct_Traffic :: "TrafficOverview option"
  ct_TrafficData :: "ChartPoint list \<times> int list"
  ct_Range :: string

definition AppStatsCard :: "stats_env \<Rightarrow> string \<Rightarrow> string \<Rightarrow> StatsCard prog" where
  "AppStatsCard V param q = (let i = url_id param in do {
     overview \<leftarrow> GetStatsOverview V i;
     chartData \<leftarrow> gets (\<lambda>w. GetStatsHistory (w_clock w) i (range_param q) (w_db w));
     trafficOverview \<leftarrow> GetTrafficOverview V i;
     trafficData \<leftarrow> gets (\<lambda>w. GetTrafficHistory (w_clock w) i (range_param q) (w_db w));
     ret \<lparr> ct_AppID = i, ct_Stats = overview, ct_ChartData = chartData, ct_Traffic = trafficOverview, ct_TrafficData = trafficData,
       ct_Range = range_param q \<rparr>
   })"

text \<open>The calls of the API; \<open>None\<close> is \<open>available: false\<close>.\<close>

definition Handler_Stats :: "stats_env \<Rightarrow> string \<Rightarrow> StatsOverview option prog" where
  "Handler_Stats V param = GetStatsOverview V (url_id param)"

definition Handler_StatsHistory :: "string \<Rightarrow> string \<Rightarrow> AppCharts prog" where
  "Handler_StatsHistory param q = gets (\<lambda>w. GetStatsHistory (w_clock w) (url_id param) (range_param q) (w_db w))"

definition Handler_Traffic :: "stats_env \<Rightarrow> string \<Rightarrow> TrafficOverview option prog" where
  "Handler_Traffic V param = GetTrafficOverview V (url_id param)"

definition Handler_TrafficHistory :: "string \<Rightarrow> string \<Rightarrow> (ChartPoint list \<times> int list) prog" where
  "Handler_TrafficHistory param q = gets (\<lambda>w. GetTrafficHistory (w_clock w) (url_id param) (range_param q) (w_db w))"

record AppSummary =
  as_ID :: int
  as_Name :: string
  as_Domain :: string
  as_Port :: int
  as_Status :: string
  as_GitRepo :: string
  as_GitBranch :: string

definition app_summary :: "App \<Rightarrow> AppSummary" where
  "app_summary a = \<lparr> as_ID = app_ID a, as_Name = app_Name a, as_Domain = app_Domain a, as_Port = app_Port a, as_Status = app_Status a,
     as_GitRepo = app_GitRepo a, as_GitBranch = app_GitBranch a \<rparr>"

text \<open>\<open>ListByServer\<close>; \<open>plan\<close> is the order of apps that were created at the same time.\<close>

definition Svc_ListByServer :: "(App list \<Rightarrow> App list) \<Rightarrow> int \<Rightarrow> db \<Rightarrow> AppSummary list" where
  "Svc_ListByServer plan serverID d = map app_summary (Repo_ListByServer plan serverID d)"

record ServerPage =
  sp_Server :: Server
  sp_Apps :: "AppSummary list"
  sp_PublicKey :: string
  sp_Flash :: string
  sp_FlashError :: bool

definition ServerListPage :: "Server list prog" where
  "ServerListPage = db_get Srv_List"

definition ServerEditPage :: "string \<Rightarrow> (int \<times> string + Server) prog" where
  "ServerEditPage param = do {
     r \<leftarrow> db_get (Srv_Get (url_id param));
     ret (case r of None \<Rightarrow> Inl (404, ''server not found'') | Some s \<Rightarrow> Inr s)
   }"

definition ServerDetailPage :: "env \<Rightarrow> server_env \<Rightarrow> (App list \<Rightarrow> App list) \<Rightarrow> string \<Rightarrow> string \<Rightarrow> (int \<times> string + ServerPage) prog" where
  "ServerDetailPage E V plan param flash = do {
     r \<leftarrow> db_get (Srv_Get (url_id param));
     case r of
       None \<Rightarrow> ret (Inl (404, ''server not found''))
     | Some s \<Rightarrow> do {
         as \<leftarrow> db_get (Svc_ListByServer plan (url_id param));
         pub \<leftarrow> PublicKey E V (srv_SSHKey s);
         ret (Inr \<lparr> sp_Server = s, sp_Apps = as, sp_PublicKey = pub, sp_Flash = flash, sp_FlashError = HasPrefix flash ''Prune error'' \<rparr>)
       }
   }"

definition ServerStatsCard :: "string \<Rightarrow> string \<Rightarrow> (int \<times> string + Server \<times> ServerCharts \<times> string) prog" where
  "ServerStatsCard param q = do {
     r \<leftarrow> db_get (Srv_Get (url_id param));
     case r of
       None \<Rightarrow> ret (Inl (404, ''server not found''))
     | Some s \<Rightarrow> do {
         chartData \<leftarrow> gets (\<lambda>w. Server_GetStatsHistory (w_clock w) (url_id param) (range_param q) (w_db w));
         ret (Inr (s, chartData, range_param q))
       }
   }"

definition ServerHandler_StatsHistory :: "string \<Rightarrow> string \<Rightarrow> ServerCharts prog" where
  "ServerHandler_StatsHistory param q = gets (\<lambda>w. Server_GetStatsHistory (w_clock w) (url_id param) (range_param q) (w_db w))"


section \<open>Functions of the templates\<close>

definition second_ns :: int where
  "second_ns = 1000000000"

definition months :: "string list" where
  "months = [''Jan'', ''Feb'', ''Mar'', ''Apr'', ''May'', ''Jun'', ''Jul'', ''Aug'', ''Sep'', ''Oct'', ''Nov'', ''Dec'']"

definition format_day :: "int \<Rightarrow> string" where
  "format_day t = (case civil (t div second_ns div 86400) of (y, m, d) \<Rightarrow> months ! nat (m - 1) @ '' '' @ Itoa d)"

definition ago :: "int \<Rightarrow> string \<Rightarrow> string" where
  "ago n u = (if n = 1 then ''1 '' @ u @ '' ago'' else Itoa n @ '' '' @ u @ ''s ago'')"

text \<open>Times in nanoseconds; \<open>None\<close> is no time or the zero time.\<close>

definition relativeTime :: "int \<Rightarrow> int option \<Rightarrow> string" where
  "relativeTime now v = (case v of
     None \<Rightarrow> []
   | Some t \<Rightarrow>
       let d = max 0 (now - t); minute = 60 * second_ns; hour = 60 * minute
       in if d < minute then ''just now''
          else if d < hour then ago (d div minute) ''minute''
          else if d < 24 * hour then ago (d div hour) ''hour''
          else if d < 48 * hour then ''yesterday''
          else if d < 7 * 24 * hour then Itoa (d div (24 * hour)) @ '' days ago''
          else ''on '' @ format_day t)"

definition usedAmount :: "int \<Rightarrow> rat \<Rightarrow> rat" where
  "usedAmount total' pct = of_int total' * pct / 100"

definition freeAmount :: "int \<Rightarrow> rat \<Rightarrow> rat" where
  "freeAmount total' pct = of_int total' - usedAmount total' pct"

function unit_of :: "int \<Rightarrow> int \<Rightarrow> nat \<Rightarrow> int \<times> nat" where
  "unit_of n dv ex = (if n \<ge> 1000 then unit_of (n div 1000) (dv * 1000) (Suc ex) else (dv, ex))"
  by pat_completeness auto
termination by (relation "measure (\<lambda>(n, _, _). nat n)") auto

declare unit_of.simps [simp del]

text \<open>The index into \<open>KMGTPE\<close> panics beyond its end.\<close>

definition formatBytes :: "(rat \<Rightarrow> string) \<Rightarrow> int \<Rightarrow> string option" where
  "formatBytes fmt1 b =
     (if b < 1000 then Some (Itoa b @ '' B'')
      else case unit_of (b div 1000) 1000 0 of (dv, ex) \<Rightarrow>
        if ex < 6 then Some (fmt1 (of_int b / of_int dv) @ '' '' @ [''KMGTPE'' ! ex] @ ''B'') else None)"

definition rangeDuration :: "string \<Rightarrow> int" where
  "rangeDuration rangeStr =
     (if rangeStr = ''realtime'' then 120 else if rangeStr = ''1h'' then 3600 else if rangeStr = ''6h'' then 6 * 3600
      else if rangeStr = ''24h'' then 24 * 3600 else if rangeStr = ''7d'' then 7 * 24 * 3600 else 120) * second_ns"

text \<open>The point of a chart in a drawing, \<open>None\<close> when it is too old.\<close>

definition chart_xy :: "int \<Rightarrow> int \<Rightarrow> int \<Rightarrow> rat \<Rightarrow> string \<Rightarrow> ChartPoint \<Rightarrow> (rat \<times> rat) option" where
  "chart_xy now width height maxVal rangeStr p =
     (let dur = rangeDuration rangeStr; start = now - dur; t = cp_Time p * second_ns
      in if t < start then None
         else let x = of_int width * of_int (t - start) / of_int dur;
                  x' = (if x < 0 then 0 else if x > of_int width then of_int width else x)
              in Some (x', of_int height - cp_Value p / maxVal * of_int height))"

definition chartPoints :: "(rat \<Rightarrow> string) \<Rightarrow> int \<Rightarrow> ChartPoint list \<Rightarrow> int \<Rightarrow> int \<Rightarrow> rat \<Rightarrow> string \<Rightarrow> string" where
  "chartPoints fmt1 now points width height maxVal rangeStr =
     (if points = [] \<or> maxVal \<le> 0 then []
      else Join (map (\<lambda>(x, y). fmt1 x @ '','' @ fmt1 y) (List.map_filter (chart_xy now width height maxVal rangeStr) points)) '' '')"

text \<open>\<open>math.Pow(10, math.Floor(math.Log10(v)))\<close>, the power of ten up to \<open>v\<close>.\<close>

function magnitude :: "rat \<Rightarrow> rat" where
  "magnitude v = (if v \<ge> 10 then 10 * magnitude (v / 10) else if 0 < v \<and> v < 1 then magnitude (10 * v) / 10 else 1)"
  by pat_completeness auto

definition chartMax :: "ChartPoint list \<Rightarrow> rat" where
  "chartMax points =
     (if points = [] then 0
      else let maxVal = foldl (\<lambda>m p. if cp_Value p > m then cp_Value p else m) (cp_Value (hd points)) points
           in if maxVal = 0 then 1 else of_int \<lceil>maxVal / magnitude maxVal\<rceil> * magnitude maxVal)"

definition chartMax100 :: "ChartPoint list \<Rightarrow> rat" where
  "chartMax100 points = (if chartMax points < 100 then 100 else chartMax points)"

definition round_cents :: "rat \<Rightarrow> rat" where
  "round_cents v = of_int (if v \<ge> 0 then \<lfloor>v * 100 + 1 / 2\<rfloor> else \<lceil>v * 100 - 1 / 2\<rceil>) / 100"

definition chartThresholdY :: "rat \<Rightarrow> int \<Rightarrow> rat" where
  "chartThresholdY maxVal height =
     (if maxVal \<le> 0 then of_int height
      else let y = of_int height - 100 / maxVal * of_int height in round_cents (if y < 0 then 0 else y))"

definition latestChartVal :: "ChartPoint list \<Rightarrow> rat \<Rightarrow> rat" where
  "latestChartVal points fallback = (if points \<noteq> [] then cp_Value (last points) else fallback)"

definition tpl_div :: "rat \<Rightarrow> rat \<Rightarrow> rat" where
  "tpl_div a b = (if b = 0 then 0 else a / b)"

definition tpl_clamp100 :: "rat \<Rightarrow> rat" where
  "tpl_clamp100 v = (if v > 100 then 100 else if v < 0 then 0 else v)"

text \<open>\<open>template.HTMLEscapeString\<close>, and the line breaks.\<close>

definition html_byte :: "char \<Rightarrow> string" where
  "html_byte c = (if c = CHR 0x00 then [CHR 0xEF, CHR 0xBF, CHR 0xBD] else if c = CHR 0x22 then ''&#34;'' else if c = CHR 0x27 then ''&#39;''
     else if c = CHR ''&'' then ''&amp;'' else if c = CHR ''<'' then ''&lt;'' else if c = CHR ''>'' then ''&gt;'' else [c])"

definition HTMLEscapeString :: "string \<Rightarrow> string" where
  "HTMLEscapeString s = ByteReplace html_byte s"

definition nl2br :: "string \<Rightarrow> string" where
  "nl2br s = ReplaceAll (HTMLEscapeString s) nl ''<br>''"


section \<open>Units and drawings\<close>

lemma unit_of_bounds:
  assumes "0 < n" and "dv = 1000 ^ Suc ex" and "n = b div dv"
  shows "case unit_of n dv ex of (d', e') \<Rightarrow> d' = 1000 ^ Suc e' \<and> d' \<le> b \<and> b < 1000 * d'"
  using assms
proof (induction n dv ex rule: unit_of.induct)
  case (1 n dv ex)
  have pos: "0 < dv" using 1(3) by simp
  show ?case
  proof (cases "n \<ge> 1000")
    case True
    have "n div 1000 = b div (dv * 1000)" using 1(4) pos by (simp add: zdiv_zmult2_eq)
    moreover have "0 < n div 1000" using True by linarith
    ultimately show ?thesis using 1(1) [OF True] 1(3) True by (simp add: unit_of.simps [of n])
  next
    case False
    have "dv \<le> b" using 1(2,4) pos by (metis pos_imp_zdiv_pos_iff)
    moreover have "b < 1000 * dv"
    proof -
      have "dv * (b div dv) \<le> dv * 999" using False 1(4) pos by (intro mult_left_mono) simp_all
      moreover have "b = dv * (b div dv) + b mod dv" "b mod dv < dv" using pos by simp_all
      ultimately show ?thesis by linarith
    qed
    ultimately show ?thesis using False 1(3) by (simp add: unit_of.simps [of n])
  qed
qed

termination magnitude
proof (relation "measures [\<lambda>v. nat \<lceil>1 / v\<rceil>, \<lambda>v. nat \<lceil>v\<rceil>]")
  fix v :: rat
  assume v: "10 \<le> v"
  have "1 / v \<le> 1" "1 / (v / 10) \<le> 1" "0 < 1 / v" "0 < 1 / (v / 10)" using v by (simp_all add: field_simps)
  then have one: "\<lceil>1 / v\<rceil> = 1" "\<lceil>1 / (v / 10)\<rceil> = 1" by (simp_all add: ceiling_eq_iff)
  have "v / 10 + 1 \<le> v" using v by (simp add: field_simps)
  then have "\<lceil>v / 10\<rceil> + 1 \<le> \<lceil>v\<rceil>" by (metis ceiling_add_one ceiling_mono)
  moreover have "0 < \<lceil>v\<rceil>" using v by (simp add: less_ceiling_iff)
  ultimately show "(v / 10, v) \<in> measures [\<lambda>v. nat \<lceil>1 / v\<rceil>, \<lambda>v. nat \<lceil>v\<rceil>]" using one by simp
next
  fix v :: rat
  assume v: "\<not> 10 \<le> v" "0 < v \<and> v < 1"
  let ?x = "1 / v"
  have x: "1 < ?x" using v by (simp add: field_simps)
  have "\<lceil>?x / 10\<rceil> < \<lceil>?x\<rceil>"
  proof (cases "?x \<le> 10")
    case True
    then have "\<lceil>?x / 10\<rceil> \<le> 1" by (simp add: ceiling_le_iff)
    moreover have "1 < \<lceil>?x\<rceil>" using x by (simp add: less_ceiling_iff)
    ultimately show ?thesis by linarith
  next
    case False
    then have "?x / 10 + 1 \<le> ?x" by (simp add: field_simps)
    then have "\<lceil>?x / 10\<rceil> + 1 \<le> \<lceil>?x\<rceil>" by (metis ceiling_add_one ceiling_mono)
    then show ?thesis by linarith
  qed
  moreover have "0 < \<lceil>?x\<rceil>" using x v by (simp add: less_ceiling_iff)
  moreover have "\<lceil>1 / (10 * v)\<rceil> = \<lceil>?x / 10\<rceil>" by (simp add: mult.commute)
  ultimately show "(10 * v, v) \<in> measures [\<lambda>v. nat \<lceil>1 / v\<rceil>, \<lambda>v. nat \<lceil>v\<rceil>]" by simp
qed simp

declare magnitude.simps [simp del]

lemma magnitude_pos: "0 < magnitude v"
  by (induction v rule: magnitude.induct) (simp add: magnitude.simps)

lemma foldl_max:
  "\<forall>p \<in> set ps. cp_Value p \<le> foldl (\<lambda>m p. if cp_Value p > m then cp_Value p else m) a ps"
  "a \<le> foldl (\<lambda>m p. if cp_Value p > m then cp_Value p else m) a ps"
proof (induction ps arbitrary: a)
  case (Cons p ps)
  { case 1 show ?case using Cons.IH(1) Cons.IH(2) [of "if cp_Value p > a then cp_Value p else a"] by (auto split: if_splits) }
  { case 2 show ?case using Cons.IH(2) [of "if cp_Value p > a then cp_Value p else a"] by (auto split: if_splits) }
qed simp_all

lemma chartMax_covers:
  assumes "p \<in> set points"
  shows "cp_Value p \<le> chartMax points"
proof -
  let ?m = "foldl (\<lambda>m p. if cp_Value p > m then cp_Value p else m) (cp_Value (hd points)) points"
  have le: "cp_Value p \<le> ?m" using assms foldl_max(1) by blast
  have "?m / magnitude ?m \<le> of_int \<lceil>?m / magnitude ?m\<rceil>" by (rule le_of_int_ceiling)
  then have "?m \<le> of_int \<lceil>?m / magnitude ?m\<rceil> * magnitude ?m" by (rule iffD1 [OF pos_divide_le_eq [OF magnitude_pos]])
  moreover have "points \<noteq> []" using assms by auto
  ultimately show ?thesis using le by (auto simp: chartMax_def Let_def)
qed

section \<open>The groups\<close>

definition group_of :: "ServerInfo \<Rightarrow> App list \<Rightarrow> ServerGroup" where
  "group_of s as = \<lparr> sg_ServerID = si_ID s, sg_ServerName = si_Name s, sg_Host = si_Host s, sg_Status = si_Status s,
     sg_Apps = filter (\<lambda>a. app_ServerID a = si_ID s) as \<rparr>"

lemma server_map_ID: "server_map svs i = Some s \<Longrightarrow> si_ID s = i"
  unfolding server_map_def by (drule find_SomeD) simp

lemma grouped:
  fixes as :: "App list"
  assumes "\<And>i s. m i = Some s \<Longrightarrow> si_ID s = i"
  shows "case foldl (group_app m) ([], []) as of (groups, unassigned) \<Rightarrow>
    distinct (map fst groups) \<and> unassigned = filter (\<lambda>a. m (app_ServerID a) = None) as
    \<and> (\<forall>i. map_of groups i = (if i \<in> app_ServerID ` set as then map_option (\<lambda>s. group_of s as) (m i) else None))"
proof (induction as rule: rev_induct)
  case Nil
  show ?case by simp
next
  case (snoc a as)
  obtain groups un where fold: "foldl (group_app m) ([], []) as = (groups, un)" by fastforce
  then have IH: "distinct (map fst groups)" "un = filter (\<lambda>a. m (app_ServerID a) = None) as"
    "\<And>i. map_of groups i = (if i \<in> app_ServerID ` set as then map_option (\<lambda>s. group_of s as) (m i) else None)"
    using snoc by auto
  have last_app: "foldl (group_app m) ([], []) (as @ [a]) = group_app m (groups, un) a" by (simp add: fold)
  have "case group_app m (groups, un) a of (groups, unassigned) \<Rightarrow>
      distinct (map fst groups) \<and> unassigned = filter (\<lambda>b. m (app_ServerID b) = None) (as @ [a])
      \<and> (\<forall>i. map_of groups i = (if i \<in> app_ServerID ` set (as @ [a]) then map_option (\<lambda>s. group_of s (as @ [a])) (m i) else None))"
  proof (cases "m (app_ServerID a)")
    case None
    have "group_of s (as @ [a]) = group_of s as" if "m i = Some s" for i s
      using assms [OF that] that None by (auto simp: group_of_def)
    with None show ?thesis by (auto simp: group_app_def IH intro!: map_option_cong)
  next
    case (Some s)
    have "group_of s' (as @ [a]) = group_of s' as" if "m i = Some s'" "i \<noteq> app_ServerID a" for i s'
      using assms [OF that(1)] that(2) by (auto simp: group_of_def)
    moreover have "group_of s (as @ [a]) = (group_of s as)\<lparr>sg_Apps := sg_Apps (group_of s as) @ [a]\<rparr>"
      using assms [OF Some] by (simp add: group_of_def)
    moreover have "filter (\<lambda>x. app_ServerID x = si_ID s) as = []" if "app_ServerID a \<notin> app_ServerID ` set as"
      using that assms [OF Some] by (auto simp: filter_empty_conv) (metis image_eqI)
    ultimately show ?thesis using Some assms [OF Some]
      by (auto simp: group_app_def Let_def IH update_conv distinct_update group_of_def intro!: map_option_cong)
  qed
  then show ?case by (simp only: last_app)
qed

section \<open>Properties\<close>

lemma chart_xy_inside:
  assumes "chart_xy now width height maxVal rng p = Some (x, y)" and "0 \<le> cp_Value p" and "cp_Value p \<le> maxVal"
    and "0 < maxVal" and "0 \<le> width" and "0 \<le> height"
  shows "x \<in> {0..of_int width} \<and> y \<in> {0..of_int height}"
proof -
  have "0 \<le> cp_Value p / maxVal" "cp_Value p / maxVal \<le> 1" using assms(2-4) by simp_all
  then have "0 \<le> cp_Value p / maxVal * of_int height" "cp_Value p / maxVal * of_int height \<le> 1 * of_int height"
    using assms(6) by (metis mult_nonneg_nonneg of_int_0_le_iff, metis mult_right_mono of_int_0_le_iff)
  then show ?thesis using assms(1,5) by (auto simp: chart_xy_def Let_def split: if_splits)
qed

text \<open>
  Printing a number of bytes, for every value of an \<open>int64\<close>: the index into the letters of the units is in
  range, and from 1000 on the number printed is at least one of its unit and less than a thousand.
\<close>

theorem formatBytes_total:
  fixes b :: "64 word"
  shows "if sint b < 1000 then formatBytes fmt1 (sint b) = Some (Itoa (sint b) @ '' B'')
    else \<exists>e < 6. formatBytes fmt1 (sint b) = Some (fmt1 (of_int (sint b) / 1000 ^ Suc e) @ '' '' @ [''KMGTPE'' ! e] @ ''B'')
      \<and> 1000 ^ Suc e \<le> sint b \<and> sint b < 1000 * 1000 ^ Suc e"
proof (cases "sint b < 1000")
  case True
  then show ?thesis by (simp add: formatBytes_def)
next
  case False
  obtain dv ex where u: "unit_of (sint b div 1000) 1000 0 = (dv, ex)" by fastforce
  have "0 < sint b div 1000" using False by linarith
  from unit_of_bounds [OF this, of 1000 0 "sint b"] have bounds: "dv = 1000 ^ Suc ex" "dv \<le> sint b" "sint b < 1000 * dv"
    by (simp_all add: u)
  have "ex < 6"
  proof (rule ccontr)
    assume "\<not> ex < 6"
    then have "(1000 :: int) ^ Suc 6 \<le> dv" unfolding bounds(1) by (intro power_increasing) simp_all
    moreover have "sint b < 2 ^ 63" using sint_lt [of b] by simp
    ultimately show False using bounds(2) by simp
  qed
  then show ?thesis using False bounds by (intro if_not_P [THEN iffD2]) (auto simp: formatBytes_def u intro!: exI [of _ ex])
qed

text \<open>
  The drawing of a chart whose values are not negative: every point that is drawn lies inside the drawing, for
  both scales the templates use.
\<close>

theorem chart_inside:
  assumes "\<forall>p \<in> set points. 0 \<le> cp_Value p" and "maxVal = chartMax points \<or> maxVal = chartMax100 points"
    and "p \<in> set points" and "0 < maxVal" and "0 \<le> width" and "0 \<le> height"
    and "chart_xy now width height maxVal rng p = Some (x, y)"
  shows "x \<in> {0..of_int width} \<and> y \<in> {0..of_int height}"
proof (rule chart_xy_inside [OF assms(7) _ _ assms(4-6)])
  show "0 \<le> cp_Value p" using assms(1,3) by blast
  show "cp_Value p \<le> maxVal" using chartMax_covers [OF assms(3)] assms(2) by (auto simp: chartMax100_def)
qed

theorem chart_inside_witness:
  "\<exists>x y. chart_xy (120 * second_ns) 120 40 (chartMax [\<lparr> cp_Time = 60, cp_Value = 100 \<rparr>]) ''realtime'' \<lparr> cp_Time = 60, cp_Value = 100 \<rparr> = Some (x, y)
     \<and> x \<in> {0..120} \<and> y \<in> {0..40}"
proof -
  let ?p = "\<lparr> cp_Time = 60, cp_Value = 100 \<rparr>"
  have max: "chartMax [?p] = 100" by (simp add: chartMax_def Let_def magnitude.simps)
  then have xy: "chart_xy (120 * second_ns) 120 40 (chartMax [?p]) ''realtime'' ?p = Some (60, 0)"
    by (simp add: chart_xy_def rangeDuration_def second_ns_def Let_def)
  have "(60 :: rat) \<in> {0..of_int 120} \<and> (0 :: rat) \<in> {0..of_int 40}"
    by (rule chart_inside [OF _ _ _ _ _ _ xy, of "[?p]"]) (simp_all add: max)
  with xy show ?thesis by simp
qed

text \<open>
  The list of apps by server, in whatever order the map of groups is walked: first the servers that have an
  app, by name, each once and each with exactly its apps in the order of the list; then one group
  with the apps whose server does not exist, if there are any.
\<close>

theorem GroupAppsByServer_correct:
  "\<exists>known. GroupAppsByServer plan as svs = known @ unassigned_group (filter (\<lambda>a. server_map svs (app_ServerID a) = None) as)
     \<and> sorted (map sg_ServerName known) \<and> distinct (map sg_ServerID known)
     \<and> set known = {group_of s as | s a. a \<in> set as \<and> server_map svs (app_ServerID a) = Some s}"
proof -
  obtain groups un where fold: "foldl (group_app (server_map svs)) ([], []) as = (groups, un)" by fastforce
  have dist: "distinct (map fst groups)" and un: "un = filter (\<lambda>a. server_map svs (app_ServerID a) = None) as"
    and look: "map_of groups i = (if i \<in> app_ServerID ` set as then map_option (\<lambda>s. group_of s as) (server_map svs i) else None)" for i
    using grouped [of "server_map svs" as] server_map_ID by (auto simp: fold)
  let ?known = "sort_key sg_ServerName (reorder plan (map snd groups))"
  have ID: "sg_ServerID g = i" if "(i, g) \<in> set groups" for i g
    using map_of_is_SomeI [OF dist that] server_map_ID [of svs i] by (auto simp: look group_of_def split: if_splits)
  then have ids: "map sg_ServerID (map snd groups) = map fst groups" by (auto simp: case_prod_beta)
  have "mset (map sg_ServerID ?known) = mset (map sg_ServerID (map snd groups))" by (simp only: mset_map mset_sort mset_reorder)
  then have "distinct (map sg_ServerID ?known) \<longleftrightarrow> distinct (map sg_ServerID (map snd groups))" by (rule mset_eq_imp_distinct_iff)
  then have "distinct (map sg_ServerID ?known)" unfolding ids using dist by blast
  moreover have "set ?known = {group_of s as | s a. a \<in> set as \<and> server_map svs (app_ServerID a) = Some s}"
  proof -
    have "g \<in> set (map snd groups) \<longleftrightarrow> (\<exists>i. map_of groups i = Some g)" for g
      unfolding map_of_eq_Some_iff [OF dist] by force
    then show ?thesis by (fastforce simp: look split: if_splits)
  qed
  ultimately show ?thesis by (intro exI [of _ ?known]) (simp add: GroupAppsByServer_def fold un)
qed

end
