(* ===== verification/Router.thy ===== *)
theory Router
  imports Auth Webhook Responses Pages
begin

text \<open>
  The composition of the HTTP side: \<open>internal/http/router.go\<close> with its table of routes and its middlewares,
  \<open>internal/web/web.go\<close>, \<open>internal/settings/handler.go\<close>, and the start of the controller,
  \<open>internal/config/config.go\<close> and \<open>cmd/dockify/main.go\<close>. The matching of chi is the parameter \<open>lookup\<close>: of the table it
  is told, it gives the entry for a method and a path, with the values of the placeholders.
\<close>

section \<open>The base path\<close>

text \<open>The value in the context of the request, empty when there is none.\<close>

definition GetBasePath :: "string \<Rightarrow> string" where
  "GetBasePath v = (if v \<noteq> [] then v else ''/'')"

definition PrefixMiddleware :: "(string \<Rightarrow> string) \<Rightarrow> request \<Rightarrow> string" where
  "PrefixMiddleware getenv r =
     (let forwarded = rq_Header r ''X-Forwarded-Prefix'';
          pfx = (if forwarded = [] then getenv ''DOCKIFY_BASE_PATH'' else forwarded)
      in if pfx \<noteq> [] then TrimSuffix pfx ''/'' @ ''/'' else [])"

definition Redirect_path :: "string \<Rightarrow> string \<Rightarrow> string" where
  "Redirect_path base path = (if HasPrefix path ''/'' then TrimSuffix (GetBasePath base) ''/'' @ path else path)"

definition navSection :: "string \<Rightarrow> string \<Rightarrow> string" where
  "navSection base path =
     (let p = ''/'' @ TrimPrefix (TrimPrefix path (TrimSuffix (GetBasePath base) ''/'')) ''/''
      in if HasPrefix p ''/servers'' then ''servers'' else if HasPrefix p ''/apps'' then ''apps''
         else if HasPrefix p ''/settings'' \<or> HasPrefix p ''/about'' \<or> HasPrefix p ''/export'' \<or> HasPrefix p ''/import'' then ''settings''
         else ''dashboard'')"

section \<open>Middlewares and files\<close>

definition contentSecurityPolicy :: string where
  "contentSecurityPolicy = ''default-src '' @ sq @ ''self'' @ sq @ ''; script-src '' @ sq @ ''self'' @ sq @ '' '' @ sq @ ''unsafe-inline'' @ sq @ ''; ''
     @ ''style-src '' @ sq @ ''self'' @ sq @ '' '' @ sq @ ''unsafe-inline'' @ sq @ '' https://fonts.googleapis.com; font-src https://fonts.gstatic.com data:; ''
     @ ''img-src '' @ sq @ ''self'' @ sq @ '' data:; connect-src '' @ sq @ ''self'' @ sq @ '' ws: wss:; frame-ancestors '' @ sq @ ''none'' @ sq
     @ ''; base-uri '' @ sq @ ''self'' @ sq"

definition securityHeaders :: "(string \<times> string) list" where
  "securityHeaders = [(''Content-Security-Policy'', contentSecurityPolicy), (''X-Content-Type-Options'', ''nosniff''),
     (''Referrer-Policy'', ''same-origin'')]"

text \<open>The file that is served with its headers; \<open>None\<close> is not found.\<close>

definition serveStatic :: "string \<Rightarrow> ((string \<times> string) list \<times> string) option" where
  "serveStatic name =
     (if name = [] \<or> Contains name ''/'' then None
      else Some ((if HasSuffix name ''.webmanifest'' then [(''Content-Type'', ''application/manifest+json'')] else [])
        @ (if name = ''sw.js'' then [(''Cache-Control'', ''no-cache''), (''Service-Worker-Allowed'', ''../''),
             (''Content-Type'', ''text/javascript; charset=utf-8'')]
           else [(''Cache-Control'', ''public, max-age=604800'')]), ''static/'' @ name))"

text \<open>\<open>Render\<close>: status, headers and body, for the outcome of the template.\<close>

definition Render :: "request \<Rightarrow> int \<Rightarrow> string \<Rightarrow> (string result) option \<Rightarrow> int \<times> (string \<times> string) list \<times> string" where
  "Render r status name outcome = (case outcome of
     None \<Rightarrow> (500, [], ''template not found: '' @ name)
   | Some (Inl err) \<Rightarrow> (500, [], ''render error: '' @ err)
   | Some (Inr page) \<Rightarrow> (status, (''Content-Type'', ''text/html; charset=utf-8'')
       # (if status = 200 \<and> rq_Method r = ''GET'' \<and> rq_Header r ''HX-Preloaded'' = ''true'' then [(''Cache-Control'', ''private, max-age=5'')] else []),
       page))"

section \<open>Settings\<close>

datatype settings_reply = SecretReply string | UpdateReply UpdateInfo "error option" | UpdateStarted | SettingsError error

definition Settings_Roll :: "settings_env \<Rightarrow> (int \<times> settings_reply) settings_op" where
  "Settings_Roll V = do { s \<leftarrow> RegenerateWebhookSecret V; ret (200, SecretReply s) }"

definition Settings_GetSecret :: "settings_env \<Rightarrow> (int \<times> settings_reply) settings_op" where
  "Settings_GetSecret V = do { s \<leftarrow> GetWebhookSecret V; ret (200, SecretReply s) }"

definition Settings_CheckUpdate :: "settings_env \<Rightarrow> string \<Rightarrow> (int \<times> settings_reply) settings_op" where
  "Settings_CheckUpdate V force = do {
     r \<leftarrow> CheckUpdate V (force = ''1'');
     ret (200, case r of
       (_, Some err) \<Rightarrow> UpdateReply \<lparr> ui_Current = se_version V, ui_Latest = [], ui_HasUpdate = False \<rparr> (Some err)
     | (info, None) \<Rightarrow> UpdateReply info None)
   }"

definition Settings_RunUpdate :: "settings_env \<Rightarrow> (int \<times> settings_reply) settings_op" where
  "Settings_RunUpdate V = do {
     r \<leftarrow> RunUpdate V;
     ret (case r of Some err \<Rightarrow> (500, SettingsError err) | None \<Rightarrow> (200, UpdateStarted))
   }"

section \<open>The routes\<close>

record route =
  re_method :: string
  re_pattern :: string
  re_handler :: string
  re_public :: bool

definition on_path :: "string \<Rightarrow> bool \<Rightarrow> (string \<times> string \<times> string) list \<Rightarrow> route list" where
  "on_path path public = map (\<lambda>(m, p, h). \<lparr> re_method = m, re_pattern = path @ p, re_handler = h, re_public = public \<rparr>)"

definition public_routes :: "(string \<times> string \<times> string) list" where
  "public_routes =
    [(''GET'', ''/health'', ''health''), (''GET'', ''/login'', ''login page''), (''POST'', ''/login'', ''HandleLogin''),
     (''POST'', ''/logout'', ''HandleLogout''), (''POST'', ''/api/webhook/github'', ''whHandler.GitHub''),
     (''POST'', ''/api/webhook/gitlab'', ''whHandler.GitLab''), (''GET'', ''/static/*'', ''serveStatic'')]"

definition api_servers :: "(string \<times> string \<times> string) list" where
  "api_servers =
    [(''GET'', ''/'', ''apiHandler.List''), (''POST'', ''/'', ''apiHandler.Create''), (''GET'', ''/{id}'', ''apiHandler.Get''),
     (''PATCH'', ''/{id}'', ''apiHandler.Update''), (''DELETE'', ''/{id}'', ''apiHandler.Delete''),
     (''POST'', ''/{id}/init'', ''apiHandler.Init''), (''POST'', ''/{id}/refresh'', ''apiHandler.Refresh''),
     (''POST'', ''/{id}/prune'', ''apiHandler.Prune''), (''GET'', ''/{id}/console'', ''consoleHandler.ServeWS''),
     (''GET'', ''/{id}/stats/history'', ''apiHandler.StatsHistory''), (''GET'', ''/{id}/stats/live'', ''statsHandler.ServeLiveStats'')]"

definition web_servers :: "(string \<times> string \<times> string) list" where
  "web_servers =
    [(''GET'', ''/'', ''webHandler.ServerListPage''), (''GET'', ''/add'', ''webHandler.ServerAddPage''),
     (''POST'', ''/add'', ''webHandler.ServerAddForm''), (''GET'', ''/{id}'', ''webHandler.ServerDetailPage''),
     (''GET'', ''/{id}/edit'', ''webHandler.ServerEditPage''), (''POST'', ''/{id}/edit'', ''webHandler.ServerEditForm''),
     (''POST'', ''/{id}/init'', ''webHandler.ServerInit''), (''POST'', ''/{id}/prune'', ''webHandler.ServerPrune''),
     (''GET'', ''/{id}/resources'', ''webHandler.ServerResourcesCard''), (''GET'', ''/{id}/stats'', ''webHandler.ServerStatsCard''),
     (''POST'', ''/{id}/refresh'', ''webHandler.ServerRefreshWeb''), (''POST'', ''/{id}/delete'', ''webHandler.ServerDeleteWeb''),
     (''DELETE'', ''/{id}'', ''webHandler.ServerDeleteWeb'')]"

definition api_apps :: "(string \<times> string \<times> string) list" where
  "api_apps =
    [(''GET'', ''/'', ''appAPIHandler.List''), (''POST'', ''/'', ''appAPIHandler.Create''), (''GET'', ''/{id}'', ''appAPIHandler.Get''),
     (''PATCH'', ''/{id}'', ''appAPIHandler.Patch''), (''DELETE'', ''/{id}'', ''appAPIHandler.Delete''),
     (''POST'', ''/{id}/redeploy'', ''appAPIHandler.Redeploy''), (''POST'', ''/{id}/rollback'', ''appAPIHandler.Rollback''),
     (''POST'', ''/{id}/stop'', ''appAPIHandler.Stop''), (''POST'', ''/{id}/start'', ''appAPIHandler.Start''),
     (''GET'', ''/{id}/deployments'', ''appAPIHandler.ListDeployments''), (''DELETE'', ''/{id}/deployments'', ''appAPIHandler.ClearDeployments''),
     (''GET'', ''/{id}/logs'', ''appAPIHandler.Logs''), (''GET'', ''/{id}/secrets'', ''appAPIHandler.ListSecrets''),
     (''POST'', ''/{id}/secrets'', ''appAPIHandler.SetSecret''), (''DELETE'', ''/{id}/secrets/{key}'', ''appAPIHandler.DeleteSecret''),
     (''GET'', ''/{id}/files'', ''appAPIHandler.ListFiles''), (''POST'', ''/{id}/files'', ''appAPIHandler.SetFile''),
     (''DELETE'', ''/{id}/files/*'', ''appAPIHandler.DeleteFile''), (''GET'', ''/{id}/console'', ''consoleHandler.ServeAppContainerWS''),
     (''GET'', ''/{id}/stats'', ''appAPIHandler.Stats''), (''GET'', ''/{id}/stats/history'', ''appAPIHandler.StatsHistory''),
     (''GET'', ''/{id}/stats/live'', ''statsHandler.ServeLiveAppStats''), (''GET'', ''/{id}/traffic'', ''appAPIHandler.Traffic''),
     (''GET'', ''/{id}/traffic/history'', ''appAPIHandler.TrafficHistory'')]"

definition web_apps :: "(string \<times> string \<times> string) list" where
  "web_apps =
    [(''GET'', ''/'', ''appWebHandler.AppListPage''), (''GET'', ''/add'', ''appWebHandler.AppAddPage''),
     (''POST'', ''/add'', ''appWebHandler.AppAddForm''), (''POST'', ''/redeploy-all'', ''appWebHandler.AppRedeployAll''),
     (''GET'', ''/{id}'', ''appWebHandler.AppDetailPage''), (''DELETE'', ''/{id}/undeploy'', ''appWebHandler.AppDeleteWeb''),
     (''POST'', ''/{id}/undeploy'', ''appWebHandler.AppDeleteWeb''), (''POST'', ''/{id}/deploy'', ''appWebHandler.AppDeployWeb''),
     (''POST'', ''/{id}/clear-deployments'', ''appWebHandler.AppClearDeploymentsWeb''), (''POST'', ''/{id}/redeploy'', ''appWebHandler.AppRedeployWeb''),
     (''POST'', ''/{id}/rollback'', ''appWebHandler.AppRollbackWeb''), (''POST'', ''/{id}/stop'', ''appWebHandler.AppStopWeb''),
     (''POST'', ''/{id}/start'', ''appWebHandler.AppStartWeb''), (''GET'', ''/{id}/edit'', ''appWebHandler.AppEditPage''),
     (''POST'', ''/{id}/edit'', ''appWebHandler.AppEditForm''), (''GET'', ''/{id}/stats'', ''appWebHandler.AppStatsCard'')]"

definition other_routes :: "(string \<times> string \<times> string) list" where
  "other_routes =
    [(''GET'', ''/settings'', ''settingsHandler.SettingsPage''), (''GET'', ''/api/settings/webhook-secret'', ''settingsHandler.GetWebhookSecret''),
     (''POST'', ''/api/settings/webhook-secret/roll'', ''settingsHandler.RollWebhookSecret''),
     (''GET'', ''/api/settings/update/check'', ''settingsHandler.CheckUpdate''), (''POST'', ''/api/settings/update/run'', ''settingsHandler.RunUpdate''),
     (''GET'', ''/about'', ''about''), (''GET'', ''/export'', ''backupHandler.ExportPage''),
     (''POST'', ''/api/backup/export'', ''backupHandler.ExportDownload''), (''GET'', ''/import'', ''backupHandler.ImportPage''),
     (''POST'', ''/api/backup/import'', ''backupHandler.ImportUpload''), (''GET'', ''/'', ''dashboard'')]"

definition route_table :: "route list" where
  "route_table = on_path [] True public_routes @ on_path ''/api/servers'' False api_servers @ on_path ''/servers'' False web_servers
     @ on_path ''/api/apps'' False api_apps @ on_path [] False [(''GET'', ''/api/deployments/{id}'', ''appAPIHandler.GetDeployment'')]
     @ on_path ''/apps'' False web_apps @ on_path [] False other_routes"

type_synonym lookup = "route list \<Rightarrow> string \<Rightarrow> string \<Rightarrow> (route \<times> (string \<times> string) list) option"

text \<open>What is used of chi: it gives an entry of the table, for the method of the request.\<close>

definition chi_sound :: "lookup \<Rightarrow> bool" where
  "chi_sound lookup \<longleftrightarrow> (\<forall>tbl m p e ps. lookup tbl m p = Some (e, ps) \<longrightarrow> e \<in> set tbl \<and> re_method e = m)"

datatype routed = NotFound | Refused verdict | Handled string "(string \<times> string) list"

definition NewRouter :: "lookup \<Rightarrow> (string \<Rightarrow> string option) \<Rightarrow> string \<Rightarrow> string \<Rightarrow> int \<Rightarrow> auth \<Rightarrow> request \<Rightarrow> string \<Rightarrow> routed" where
  "NewRouter lookup urlHost cfgPass apiToken now a r path = (case lookup route_table (rq_Method r) path of
     None \<Rightarrow> NotFound
   | Some (e, ps) \<Rightarrow>
       if re_public e then Handled (re_handler e) ps
       else case AuthMiddleware urlHost (cfgPass \<noteq> []) apiToken now a r of
           Served \<Rightarrow> Handled (re_handler e) ps
         | v \<Rightarrow> Refused v)"

definition login_page :: "string \<Rightarrow> string \<Rightarrow> int \<Rightarrow> int \<Rightarrow> string \<Rightarrow> request \<Rightarrow> auth \<Rightarrow> verdict \<times> auth" where
  "login_page cfgUser cfgPass t1 t2 i r a =
     (if cfgPass = [] \<or> getSessionUser t1 a r \<noteq> [] then (RedirectTo ''/'' 302, a) else HandleLogin cfgUser cfgPass t1 t2 i r a)"

section \<open>Starting\<close>

record Config =
  cg_Host :: string
  cg_Port :: string
  cg_DataDir :: string
  cg_SSHKeyDir :: string
  cg_AdminUser :: string
  cg_AdminPass :: string
  cg_APIToken :: string
  cg_CloudflareAPIToken :: string
  cg_CloudflareZoneID :: string
  cg_AllowNoAuth :: bool
  cg_DevMock :: bool
  cg_TrustProxy :: bool

definition getEnv :: "(string \<Rightarrow> string) \<Rightarrow> string \<Rightarrow> string \<Rightarrow> string" where
  "getEnv getenv key defaultVal = (if getenv key \<noteq> [] then getenv key else defaultVal)"

definition Load :: "(string \<Rightarrow> string) \<Rightarrow> Config" where
  "Load getenv = (let dataDir = getEnv getenv ''DOCKIFY_DATA_DIR'' ''/var/lib/dockify'' in
     \<lparr> cg_Host = getEnv getenv ''DOCKIFY_HOST'' ''0.0.0.0'', cg_Port = getEnv getenv ''DOCKIFY_PORT'' ''8080'', cg_DataDir = dataDir,
       cg_SSHKeyDir = getEnv getenv ''DOCKIFY_SSH_KEY_DIR'' (path_join dataDir ''keys''),
       cg_AdminUser = getEnv getenv ''DOCKIFY_ADMIN_USER'' ''admin'', cg_AdminPass = getenv ''DOCKIFY_ADMIN_PASSWORD'',
       cg_APIToken = getenv ''DOCKIFY_API_TOKEN'', cg_CloudflareAPIToken = getenv ''CLOUDFLARE_API_TOKEN'',
       cg_CloudflareZoneID = getenv ''CLOUDFLARE_ZONE_ID'', cg_AllowNoAuth = (getenv ''DOCKIFY_ALLOW_NO_AUTH'' = ''true''),
       cg_DevMock = (getenv ''DOCKIFY_DEV_MOCK'' = ''true''), cg_TrustProxy = (getenv ''DOCKIFY_TRUST_PROXY'' = ''true'') \<rparr>)"

definition DBPath :: "Config \<Rightarrow> string" where
  "DBPath c = path_join (cg_DataDir c) ''dockify.db''"

definition Addr :: "Config \<Rightarrow> string" where
  "Addr c = cg_Host c @ '':'' @ cg_Port c"

definition TrimSet :: "string \<Rightarrow> string \<Rightarrow> string" where
  "TrimSet cutset s = rev (dropWhile (\<lambda>c. c \<in> set cutset) (rev (dropWhile (\<lambda>c. c \<in> set cutset) s)))"

text \<open>\<open>isLoopback\<close>: the text parses as an IP address of the loopback network.\<close>

definition CheckAuth :: "(string \<Rightarrow> bool) \<Rightarrow> Config \<Rightarrow> error option" where
  "CheckAuth isLoopback c =
     (let h = TrimSet ''[]'' (cg_Host c)
      in if cg_AdminPass c \<noteq> [] \<or> cg_AllowNoAuth c \<or> h = ''localhost'' \<or> isLoopback h then None
         else Some (''refusing to start: no DOCKIFY_ADMIN_PASSWORD set and DOCKIFY_HOST='' @ cg_Host c
           @ '' is reachable from the network. Set DOCKIFY_ADMIN_PASSWORD, bind to DOCKIFY_HOST=127.0.0.1,''
           @ '' or set DOCKIFY_ALLOW_NO_AUTH=true to run without authentication''))"

text \<open>
  \<open>main\<close> up to serving: \<open>opened\<close> is what \<open>db.Open\<close> returned. A controller that serves has its configuration and the
  database after \<open>FailInterrupted\<close>.
\<close>

datatype startup = PrintVersion | Usage | FatalExit string | Serving Config db

definition start_serving :: "(string \<Rightarrow> bool) \<Rightarrow> (string \<Rightarrow> string) \<Rightarrow> db result \<Rightarrow> int \<Rightarrow> startup" where
  "start_serving isLoopback getenv opened now =
     (let cfg = Load getenv
      in case CheckAuth isLoopback cfg of
           Some err \<Rightarrow> FatalExit err
         | None \<Rightarrow> (case opened of
               Inl err \<Rightarrow> FatalExit (''failed to open database: '' @ err)
             | Inr d \<Rightarrow> Serving cfg (snd (Repo_FailInterrupted now d))))"

definition main :: "(string \<Rightarrow> bool) \<Rightarrow> (string \<Rightarrow> string) \<Rightarrow> string list \<Rightarrow> db result \<Rightarrow> int \<Rightarrow> startup" where
  "main isLoopback getenv args opened now =
     (if length args > 1 \<and> args ! 1 = ''version'' then PrintVersion
      else if length args > 1 \<and> args ! 1 \<noteq> ''serve'' then Usage
      else start_serving isLoopback getenv opened now)"

section \<open>Who may run what\<close>

definition public_handlers :: "string set" where
  "public_handlers = {''health'', ''login page'', ''HandleLogin'', ''HandleLogout'', ''whHandler.GitHub'', ''whHandler.GitLab'', ''serveStatic''}"

lemma public_in_table: "e \<in> set route_table \<Longrightarrow> re_public e \<Longrightarrow> re_handler e \<in> public_handlers"
  by (auto simp: route_table_def on_path_def public_routes_def public_handlers_def)

text \<open>Who a running controller admits to the rest.\<close>

definition local_only :: "(string \<Rightarrow> bool) \<Rightarrow> Config \<Rightarrow> bool" where
  "local_only isLoopback c \<longleftrightarrow> TrimSet ''[]'' (cg_Host c) = ''localhost'' \<or> isLoopback (TrimSet ''[]'' (cg_Host c))"

definition admitted :: "(string \<Rightarrow> bool) \<Rightarrow> (string \<Rightarrow> string option) \<Rightarrow> Config \<Rightarrow> site \<Rightarrow> request \<Rightarrow> bool" where
  "admitted isLoopback urlHost c s r \<longleftrightarrow>
     (if cg_AdminPass c = [] then (cg_AllowNoAuth c \<or> local_only isLoopback c) \<and> csrfCheck urlHost r = None
      else case CutPrefix (rq_Header r ''Authorization'') ''Bearer '' of
          Some bearer \<Rightarrow> cg_APIToken c \<noteq> [] \<and> bearer = cg_APIToken c
        | None \<Rightarrow> csrfCheck urlHost r = None \<and> session_open s r)"

lemma serving_checked:
  "main isLoopback getenv args opened now = Serving c d \<Longrightarrow> CheckAuth isLoopback c = None"
  by (auto simp: main_def start_serving_def Let_def split: if_splits option.splits sum.splits)

lemma served_admitted:
  assumes "CheckAuth isLoopback c = None" and "sessions_follow s"
    and "AuthMiddleware urlHost (cg_AdminPass c \<noteq> []) (cg_APIToken c) (s_now s) (s_auth s) r = Served"
  shows "admitted isLoopback urlHost c s r"
  using assms(1,3) getSessionUser_open [OF assms(2), of r]
  by (auto simp: AuthMiddleware_def admitted_def CheckAuth_def local_only_def Let_def split: option.splits if_splits)

section \<open>Properties\<close>

text \<open>
  C29. A controller that came up and serves, at any moment of any history of logins and logouts: a request that runs
  a handler runs one of the seven public ones, or is admitted: with the API token; or with a session
  that a login opened and nothing closed, and not from another site; without any login only when no password is set, and
  then only if the operator asked for that or the controller listens on a loopback address, and again not from another
  site. Sessions are only opened by the configured user and password.
\<close>

theorem controller_guarded:
  assumes "main isLoopback getenv args opened now = Serving c d" and "chi_sound lookup" and "auth_reach C s"
    and "NewRouter lookup urlHost (cg_AdminPass c) (cg_APIToken c) (s_now s) (s_auth s) r path = Handled h ps"
  shows "(h \<in> public_handlers \<or> admitted isLoopback urlHost c s r) \<and> logins_checked C (s_log s)"
proof -
  obtain e where e: "lookup route_table (rq_Method r) path = Some (e, ps)" "h = re_handler e"
    "re_public e \<or> AuthMiddleware urlHost (cg_AdminPass c \<noteq> []) (cg_APIToken c) (s_now s) (s_auth s) r = Served"
    using assms(4) by (auto simp: NewRouter_def split: option.splits prod.splits if_splits verdict.splits)
  then have "e \<in> set route_table" using assms(2) unfolding chi_sound_def by blast
  then show ?thesis
    using e(2,3) public_in_table served_admitted [OF serving_checked [OF assms(1)] reach_follows(1) [OF assms(3)]]
      reach_follows(2) [OF assms(3)] by blast
qed

text \<open>A controller with a password, and the administrator who looks at the dashboard.\<close>

definition first_match :: lookup where
  "first_match tbl m p = map_option (\<lambda>e. (e, [])) (find (\<lambda>e. re_method e = m \<and> re_pattern e = p) tbl)"

lemma first_match_sound: "chi_sound first_match"
  unfolding chi_sound_def first_match_def by (auto dest!: find_SomeD)

theorem controller_guarded_witness:
  "\<exists>c. admitted (\<lambda>_. False) (\<lambda>_. None) c sample_site ((sample_login [] [])\<lparr>rq_Method := ''GET'', rq_Cookie := Some ''abc''\<rparr>)
     \<and> cg_AdminPass c = ''s3cret''"
proof -
  let ?env = "\<lambda>k. if k = ''DOCKIFY_ADMIN_PASSWORD'' then ''s3cret'' else []"
  let ?r = "(sample_login [] [])\<lparr>rq_Method := ''GET'', rq_Cookie := Some ''abc''\<rparr>"
  have pass: "cg_AdminPass (Load ?env) = ''s3cret''" "cg_APIToken (Load ?env) = []" by (simp_all add: Load_def Let_def)
  have up: "main (\<lambda>_. False) ?env [''dockify''] (Inr (empty_db True True)) 0
      = Serving (Load ?env) (snd (Repo_FailInterrupted 0 (empty_db True True)))"
    by (simp add: main_def start_serving_def CheckAuth_def pass)
  have "first_match route_table ''GET'' ''/settings''
      = Some (\<lparr> re_method = ''GET'', re_pattern = ''/settings'', re_handler = ''settingsHandler.SettingsPage'', re_public = False \<rparr>, [])"
    by (simp add: first_match_def route_table_def on_path_def public_routes_def api_servers_def web_servers_def api_apps_def
        web_apps_def other_routes_def)
  then have "NewRouter first_match (\<lambda>_. None) (cg_AdminPass (Load ?env)) (cg_APIToken (Load ?env)) (s_now sample_site) (s_auth sample_site)
      ?r ''/settings'' = Handled ''settingsHandler.SettingsPage'' []"
    by (simp add: NewRouter_def pass sample_login_def AuthMiddleware_def CutPrefix_def HasPrefix_def csrfCheck_def getSessionUser_def)
      (simp add: sample_site_def lone_login_def sample_conf_def start_site_def login_enter_def loginBlocked_def Let_def
        drop_ended_def auth_update_defs sample_keys sample_checks)
  from controller_guarded [OF up first_match_sound sample_reach this] show ?thesis
    using pass(1) by (auto simp: public_handlers_def)
qed

end
