(* ===== verification/Spec2Isabelle.thy ===== *)
theory Spec2Isabelle
  imports Forms Auth Webhook AppLocks BackupRoundtrip MigrationLaws LiveStats Router
begin

text \<open>
  Verification of \<open>dockify\<close>, a controller that deploys applications with \<open>docker compose\<close> on worker
  machines over SSH, routes their domains through the Caddy server of the worker and keeps their DNS
  records at Cloudflare. The controller is a web server with a JSON interface, HTML forms, webhooks
  and a SQLite database.

  \<^bold>\<open>How the program is modelled.\<close>
  A Go function with effects is a value of the state monad over \<open>world\<close> (theory \<open>Worker\<close>): the
  database, the trace of everything done outside, the clock, the goroutines started and the locks
  held. What the outside answers is the record \<open>env\<close> of functions of the trace, so that the same
  command may be answered differently each time. Nothing is assumed of \<open>env\<close>: the properties hold
  for workers that fail, lie or disappear at any command. An error is \<open>Inl\<close> of its message or
  \<open>Some\<close> message; every early return of the code is a branch of the model. A string is a list of
  bytes. Identifiers and times are \<open>int\<close>; measured percentages are rationals.

  \<^bold>\<open>The theories.\<close>
  \<^item> \<open>Prelude\<close>: the monad, weakest preconditions \<open>wp\<close>, the frame predicate \<open>keeps\<close> with the collection
    \<open>frame\<close>, and facts on lists.
  \<^item> \<open>GoStrings\<close>, \<open>Regex\<close>, \<open>Base64\<close>: the parts of Go's standard library the sources use, each with the laws
    the components need (a matcher by derivatives against the language of the expression, decoding
    after encoding).
  \<^item> \<open>AppModel\<close>, \<open>Store\<close>: the records of \<open>internal/app/model.go\<close> and \<open>internal/server/model.go\<close>; the schema
    and every statement of the two repositories (\<open>internal/app/repository.go\<close>,
    \<open>internal/server/repository.go\<close>) with its foreign keys, cascades and unique keys. The locale
    \<open>keyed_store\<close> is the contract of a table with a unique key, interpreted for secrets, files and
    routes. The invariant \<open>db_ok\<close> holds in every reachable database.
  \<^item> \<open>Validate\<close>, \<open>Shell\<close>: the checks on user input (\<open>internal/app/validate.go\<close>) against a specification of
    host names and paths, and the quoting of text for the shell of a worker against the quoting
    rules of POSIX.
  \<^item> \<open>Compose\<close>: \<open>internal/app/compose.go\<close>, on YAML trees.
  \<^item> \<open>Worker\<close>: the outside world and \<open>internal/ssh/client.go\<close>: trust on first use of host keys (locale
    \<open>host_key_store\<close>), commands with their time limits, writing files.
  \<^item> \<open>CaddyClient\<close>, \<open>Cloudflare\<close>: \<open>internal/caddy/client.go\<close> and \<open>internal/cloudflare/client.go\<close>.
  \<^item> \<open>Deploy\<close>, \<open>Lifecycle\<close>, \<open>Move\<close>: \<open>internal/app/service.go\<close>: deploying, rollback, undeploy, stop and start,
    moving an app to another server.
  \<^item> \<open>AppLocks\<close>: the locks that serialise those operations, as a step relation of goroutines.
  \<^item> \<open>Scheduler\<close>: \<open>internal/scheduler/scheduler.go\<close>.
  \<^item> \<open>Handlers\<close>, \<open>Forms\<close>: the JSON interface and the web forms for apps (\<open>internal/app/handler.go\<close>).
  \<^item> \<open>ServerSvc\<close>, \<open>ServerHandlers\<close>: \<open>internal/server/service.go\<close> and \<open>internal/server/handler.go\<close>: setting
    up a worker, its resources, registering and editing servers with their keys and credentials.
  \<^item> \<open>Auth\<close>: \<open>internal/http/auth.go\<close>, as a step relation of requests in flight.
  \<^item> \<open>Webhook\<close>: \<open>internal/webhook/handler.go\<close> and \<open>internal/settings/settings.go\<close>.
  \<^item> \<open>Backup\<close>, \<open>BackupExport\<close>, \<open>BackupRoundtrip\<close>: export and import of the configuration
    (\<open>internal/backup\<close>) and the passage of every row through both.
  \<^item> \<open>Migrations\<close>, \<open>MigrationLaws\<close>: opening and upgrading the database file (\<open>internal/db/db.go\<close> with its
    \<open>schema.sql\<close>), where every statement may fail.
  \<^item> \<open>Stats\<close>, \<open>StatsLaws\<close>, \<open>Charts\<close>: the collector of measurements (\<open>internal/app/stats.go\<close>), the cache in
    \<open>internal/app/service.go\<close>, and the queries of the charts.
  \<^item> \<open>Terminals\<close>: \<open>internal/http/console.go\<close> with the interactive sessions of \<open>internal/ssh/client.go\<close>, as a
    step relation of seven goroutines and their channels.
  \<^item> \<open>LiveStats\<close>: \<open>internal/http/app_stats_ws.go\<close> and \<open>internal/http/stats_ws.go\<close>, as functions of the events
    their loops receive.
  \<^item> \<open>Responses\<close>: \<open>internal/http/compress.go\<close>.
  \<^item> \<open>Pages\<close>: what the pages show, and the functions of \<open>internal/http/templates.go\<close> that templates call.
  \<^item> \<open>Router\<close>: \<open>internal/http/router.go\<close>, \<open>internal/web/web.go\<close>, \<open>internal/settings/handler.go\<close>,
    \<open>internal/config/config.go\<close> and \<open>cmd/dockify/main.go\<close>: which handler answers behind which checks.

  \<^bold>\<open>How the parts interact.\<close>
  \<open>Router\<close> puts the checks of \<open>Auth\<close> before the handlers. A handler reads and writes rows through
  \<open>Store\<close> and calls \<open>Deploy\<close>, \<open>Lifecycle\<close> or \<open>Move\<close> under a lock of \<open>AppLocks\<close>; these reach a worker
  through \<open>Worker\<close> and \<open>CaddyClient\<close>, and the DNS through \<open>Cloudflare\<close>. \<open>Webhook\<close> and \<open>Backup\<close> call
  the same services. \<open>Stats\<close> runs beside them; \<open>LiveStats\<close> and \<open>Pages\<close> read its rows and its cache.

  \<^bold>\<open>What is shown.\<close>
  Deploying, moving, rolling back and undeploying end in a definite state of the database whatever
  the outside does, destroy nothing that was not asked for, and report success only after the
  worker confirmed it. The handlers change exactly the rows of their app. Input that reaches a
  worker is quoted or of a checked form. The database keeps its keys and references; an upgrade
  is all or nothing, can be interrupted after any statement and keeps the rows. Locks
  exclude each other and are always released. Sessions, the login throttle, webhooks and the
  self-update admit exactly what they should, and every route but the few public ones stands behind the
  session check. An import restores what was exported. A terminal never sends on a closed channel.
  A round of measurements stores what the worker reported, and the cache and the
  database show the same. Compression changes no byte, status or order of a response.

  \<^bold>\<open>Loops and bounds.\<close>
  Loops over lists are structural. The certificate wait is a \<open>function\<close> with a measure on the clock;
  \<open>path.Clean\<close>, \<open>ReplaceAll\<close>, \<open>ToLower\<close> and \<open>stripANSI\<close> have measures on the length, and the loops that choose a
  unit or the step of an axis have measures on the number. The loops of the WebSocket handlers recurse on
  the events they receive. No fuel is used. An \<open>int64\<close> is an \<open>int\<close>, and
  \<open>formatBytes\<close> is shown to stay inside its letters for every 64-bit word; a float is the rational it
  stands for.

  \<^bold>\<open>Not modelled.\<close>
  The SSH, HTTP and SQLite libraries, the YAML and JSON parsers, cryptography, the matching and the
  compressor of chi and the WebSocket library are parameters. Left out: the markup of the HTML templates; the mock
  SSH client of the development mode; the goroutines inside \<open>ExecStream\<close>; the timers of the live
  figures and the keep-alive of a WebSocket beyond its read deadline; logging; the background
  loops of \<open>main\<close> and its shutdown. A query that only reads is taken to succeed where the handler
  would only report its failure.
\<close>

end
